(* ===== verification/Prelude.thy ===== *)
theory Prelude
  imports Main "HOL-Library.AList" "HOL-Library.List_Lexorder" "HOL-Library.Char_ord"
begin

text \<open>
  Shared vocabulary of the development: results that carry the state they were raised in,
  database tables as finite maps from row ids, the queries the services run on them, and
  dictionaries as association lists. Nothing here models a line of the program; every other
  theory builds on it.

  Python keeps the mutations made before an exception: an \<open>except\<close> clause sees them, and
  some callers commit them. So a failing operation returns the state it failed in.
\<close>

section \<open>Results that carry their state\<close>

named_theorems res_simps "unfolding of results and their sequencing"
named_theorems row_simps "reading a table after it was written"

datatype ('e, 'a, 'w) res =
    Ret (res_value: 'a) (res_state: 'w)
  | Raise (res_exn: 'e) (res_state: 'w)

fun bind_res :: "('e, 'a, 'w) res \<Rightarrow> ('a \<Rightarrow> 'w \<Rightarrow> ('e, 'b, 'w) res) \<Rightarrow> ('e, 'b, 'w) res" where
  "bind_res (Ret a w) k = k a w"
| "bind_res (Raise e w) k = Raise e w"

definition guard_res :: "bool \<Rightarrow> 'e \<Rightarrow> 'w \<Rightarrow> ('e, unit, 'w) res" where
  "guard_res b e w = (if b then Ret () w else Raise e w)"

lemma bind_res_ret_iff [res_simps]:
  "bind_res m k = Ret b w' \<longleftrightarrow> (\<exists>a w. m = Ret a w \<and> k a w = Ret b w')"
  by (cases m) auto

lemma bind_res_raise_iff:
  "bind_res m k = Raise e w' \<longleftrightarrow> m = Raise e w' \<or> (\<exists>a w. m = Ret a w \<and> k a w = Raise e w')"
  by (cases m) auto

lemma bind_res_assoc: "bind_res (bind_res m f) g = bind_res m (\<lambda>a w. bind_res (f a w) g)"
  by (cases m) auto

lemma bind_res_unit [simp]: "bind_res m Ret = m"
  by (cases m) auto

text \<open>A relation between the states before and after, whatever the outcome.\<close>

lemma res_state_bind:
  assumes "R w (res_state m)" and "\<And>a u. m = Ret a u \<Longrightarrow> R u (res_state (k a u))"
    and "\<And>x y z. R x y \<Longrightarrow> R y z \<Longrightarrow> R x z"
  shows "R w (res_state (bind_res m k))"
  using assms by (cases m) auto

section \<open>Errors as sums\<close>

fun bind_sum :: "'e + 'a \<Rightarrow> ('a \<Rightarrow> 'e + 'b) \<Rightarrow> 'e + 'b" where
  "bind_sum (Inl e) k = Inl e"
| "bind_sum (Inr a) k = k a"

definition some_or :: "'e \<Rightarrow> 'a option \<Rightarrow> 'e + 'a" where
  "some_or e x = (case x of Some a \<Rightarrow> Inr a | None \<Rightarrow> Inl e)"

named_theorems sum_returns

lemma bind_sum_Inr [sum_returns]: "bind_sum m k = Inr b \<longleftrightarrow> (\<exists>a. m = Inr a \<and> k a = Inr b)"
  by (cases m) auto

lemma some_or_Inr [sum_returns]: "some_or e x = Inr a \<longleftrightarrow> x = Some a"
  by (simp add: some_or_def split: option.split)

lemma some_or_simps [simp]: "some_or e (Some a) = Inr a" "some_or e None = Inl e"
  by (simp_all add: some_or_def)

section \<open>Tables\<close>

text \<open>
  A table maps row ids to rows. Ids are handed out in increasing order by the world's counter, so
  the ids below it enumerate every table in creation order.
\<close>

type_synonym 'r table = "nat \<Rightarrow> 'r option"

definition modify :: "nat \<Rightarrow> ('r \<Rightarrow> 'r) \<Rightarrow> 'r table \<Rightarrow> 'r table" where
  "modify i f t = t(i := map_option f (t i))"

definition select :: "nat \<Rightarrow> 'r table \<Rightarrow> (nat \<Rightarrow> 'r \<Rightarrow> bool) \<Rightarrow> nat list" where
  "select n t p = filter (\<lambda>i. case t i of None \<Rightarrow> False | Some r \<Rightarrow> p i r) [0..<n]"

lemma modify_apply [row_simps]: "modify i f t j = (if j = i then map_option f (t i) else t j)"
  by (simp add: modify_def)

lemma modify_same [simp]: "modify i f t i = map_option f (t i)"
  by (simp add: modify_def)

lemma modify_other [simp]: "j \<noteq> i \<Longrightarrow> modify i f t j = t j"
  by (simp add: modify_def)

lemma modify_modify: "modify i f (modify i g t) = modify i (f \<circ> g) t"
  by (rule ext) (simp add: modify_def option.map_comp)

lemma dom_modify [simp]: "dom (modify i f t) = dom t"
  by (auto simp: modify_def split: if_splits)

lemma modify_missing: "t i = None \<Longrightarrow> modify i f t = t"
  by (rule ext) (simp add: modify_def)

lemma select_iff [simp]: "i \<in> set (select n t p) \<longleftrightarrow> i < n \<and> (\<exists>r. t i = Some r \<and> p i r)"
  by (auto simp: select_def split: option.splits)

lemma distinct_select [simp]: "distinct (select n t p)"
  by (simp add: select_def)

lemma sorted_select [simp]: "sorted (select n t p)"
  by (simp add: select_def sorted_wrt_filter)

lemma select_empty_iff:
  "dom t \<subseteq> {..<n} \<Longrightarrow> select n t p = [] \<longleftrightarrow> (\<forall>i r. t i = Some r \<longrightarrow> \<not> p i r)"
  by (force simp: select_def filter_empty_conv split: option.splits)

lemma select_nonempty_iff: "select n t p \<noteq> [] \<longleftrightarrow> (\<exists>i r. i < n \<and> t i = Some r \<and> p i r)"
proof -
  have "select n t p \<noteq> [] \<longleftrightarrow> (\<exists>i. i \<in> set (select n t p))" by (cases "select n t p") auto
  then show ?thesis by auto
qed

definition first_of :: "'a list \<Rightarrow> 'a option" where
  "first_of xs = (case xs of [] \<Rightarrow> None | x # _ \<Rightarrow> Some x)"

lemma first_of_simps [simp]: "first_of [] = None" "first_of (x # xs) = Some x"
  by (simp_all add: first_of_def)

lemma first_of_None [simp]: "first_of xs = None \<longleftrightarrow> xs = []"
  by (cases xs) auto

lemma first_of_SomeD: "first_of xs = Some x \<Longrightarrow> x \<in> set xs"
  by (cases xs) auto

text \<open>
  \<open>ORDER BY key LIMIT 1\<close>: the first row with the least key. Rows that tie come in table order.
\<close>

fun least_by :: "('a \<Rightarrow> int) \<Rightarrow> 'a list \<Rightarrow> 'a option" where
  "least_by k [] = None"
| "least_by k (x # xs) =
     (case least_by k xs of None \<Rightarrow> Some x | Some y \<Rightarrow> if k x \<le> k y then Some x else Some y)"

lemma least_by_None [simp]: "least_by k xs = None \<longleftrightarrow> xs = []"
  by (cases xs) (auto split: option.splits)

lemma least_by_in: "least_by k xs = Some x \<Longrightarrow> x \<in> set xs"
  by (induction xs arbitrary: x) (auto split: option.splits if_splits)

lemma least_by_le: "least_by k xs = Some x \<Longrightarrow> y \<in> set xs \<Longrightarrow> k x \<le> k y"
proof (induction xs arbitrary: x)
  case (Cons a xs)
  show ?case
  proof (cases "least_by k xs")
    case None
    with Cons.prems show ?thesis by auto
  next
    case (Some z)
    with Cons.prems Cons.IH [OF Some] show ?thesis by (auto split: if_splits)
  qed
qed simp

text \<open>The greatest value of a column, \<open>None\<close> when no row qualifies (SQL \<open>MAX\<close>).\<close>

fun max_of :: "int list \<Rightarrow> int option" where
  "max_of [] = None"
| "max_of (x # xs) = (case max_of xs of None \<Rightarrow> Some x | Some y \<Rightarrow> Some (max x y))"

lemma max_of_None [simp]: "max_of xs = None \<longleftrightarrow> xs = []"
  by (cases xs) (auto split: option.splits)

lemma max_of_ge: "max_of xs = Some m \<Longrightarrow> x \<in> set xs \<Longrightarrow> x \<le> m"
  by (induction xs arbitrary: m) (fastforce split: option.splits)+

lemma max_of_in: "max_of xs = Some m \<Longrightarrow> m \<in> set xs"
proof (induction xs arbitrary: m)
  case (Cons a xs)
  then show ?case by (cases "max_of xs") (auto simp: max_def split: if_splits)
qed simp

section \<open>Row stores\<close>

text \<open>
  What the services rely on when they read and write one table of the database: a write to a row
  shows in that row and in no other, and creates no row. The tables of the database are its
  instances.
\<close>

locale row_store =
  fixes fetch :: "'w \<Rightarrow> nat \<Rightarrow> 'r option"
    and put :: "nat \<Rightarrow> ('r \<Rightarrow> 'r) \<Rightarrow> 'w \<Rightarrow> 'w"
  assumes fetch_put: "fetch (put i f w) j = (if j = i then map_option f (fetch w i) else fetch w j)"
begin

lemma fetch_put_same [simp]: "fetch (put i f w) i = map_option f (fetch w i)"
  by (simp add: fetch_put)

lemma fetch_put_other [simp]: "j \<noteq> i \<Longrightarrow> fetch (put i f w) j = fetch w j"
  by (simp add: fetch_put)

lemma fetch_put_None: "fetch (put i f w) j = None \<longleftrightarrow> fetch w j = None"
  by (simp add: fetch_put)

text \<open>A column no write touches keeps its value.\<close>

lemma column_kept:
  assumes "\<And>r. c (f r) = c r"
  shows "map_option c (fetch (put i f w) j) = map_option c (fetch w j)"
  using assms by (auto simp: fetch_put option.map_comp comp_def)

lemma fetch_put_cases:
  assumes "fetch (put i f w) j = Some r'"
  obtains (same) r where "j = i" "fetch w i = Some r" "r' = f r"
    | (other) "j \<noteq> i" "fetch w j = Some r'"
  using assms by (auto simp: fetch_put split: if_splits)

end

section \<open>Dictionaries as association lists\<close>

lemma alist_update_lookup [simp]:
  "map_of (AList.update k v xs) j = (if j = k then Some v else map_of xs j)"
  by (simp add: update_conv')

lemma alist_update_keys: "fst ` set (AList.update k v xs) = insert k (fst ` set xs)"
  by (induction xs) auto

lemma alist_entry_iff:
  "distinct (map fst xs) \<Longrightarrow> (k, v) \<in> set xs \<longleftrightarrow> map_of xs k = Some v"
  by simp

end
