(* ===== verification/PyText.thy ===== *)
theory PyText
  imports Prelude
begin

text \<open>
  Python's text: \<open>strip\<close>, \<open>str\<close> and \<open>int\<close> of numbers, and \<open>split\<close> on a character, as the roles, tokens
  and envelopes of the services use them.
\<close>

section \<open>Numbers as text\<close>

definition py_space :: "char \<Rightarrow> bool" where
  "py_space c = (let n = of_char c :: nat in
     9 \<le> n \<and> n \<le> 13 \<or> 28 \<le> n \<and> n \<le> 32 \<or> n = 133 \<or> n = 160)"

definition py_strip :: "string \<Rightarrow> string" where
  "py_strip s = rev (dropWhile py_space (rev (dropWhile py_space s)))"

definition digit_char :: "nat \<Rightarrow> char" where
  "digit_char d = ''0123456789'' ! d"

fun show_nat :: "nat \<Rightarrow> string" where
  "show_nat n = (if n < 10 then [digit_char n] else show_nat (n div 10) @ [digit_char (n mod 10)])"

declare show_nat.simps [simp del]

definition show_int :: "int \<Rightarrow> string" where
  "show_int i = (if i < 0 then CHR ''-'' # show_nat (nat (- i)) else show_nat (nat i))"

definition digit_value :: "char \<Rightarrow> nat option" where
  "digit_value c = (let n = of_char c :: nat in if 48 \<le> n \<and> n \<le> 57 then Some (n - 48) else None)"

text \<open>Python's \<open>int(s)\<close>: blanks around, an optional sign, digits with single underscores between.\<close>

fun read_digits :: "bool \<Rightarrow> nat \<Rightarrow> string \<Rightarrow> nat option" where
  "read_digits prev acc [] = (if prev then Some acc else None)"
| "read_digits prev acc (c # cs) =
     (case digit_value c of
        Some d \<Rightarrow> read_digits True (acc * 10 + d) cs
      | None \<Rightarrow> if c = CHR ''_'' \<and> prev then read_digits False acc cs else None)"

definition py_int :: "string \<Rightarrow> int option" where
  "py_int s =
     (case py_strip s of
        [] \<Rightarrow> None
      | c # cs \<Rightarrow>
          if c = CHR ''-'' then map_option (\<lambda>n. - int n) (read_digits False 0 cs)
          else if c = CHR ''+'' then map_option int (read_digits False 0 cs)
          else map_option int (read_digits False 0 (c # cs)))"

fun split_on :: "'a \<Rightarrow> 'a list \<Rightarrow> 'a list list" where
  "split_on d [] = [[]]"
| "split_on d (c # cs) =
     (case split_on d cs of
        [] \<Rightarrow> [[c]]
      | p # ps \<Rightarrow> if c = d then [] # p # ps else (c # p) # ps)"

text \<open>\<open>split\<close> with a limit on the number of cuts.\<close>

fun split_max :: "nat \<Rightarrow> 'a \<Rightarrow> 'a list \<Rightarrow> 'a list list" where
  "split_max 0 d xs = [xs]"
| "split_max (Suc n) d xs =
     (case dropWhile (\<lambda>x. x \<noteq> d) xs of
        [] \<Rightarrow> [xs]
      | _ # rest \<Rightarrow> takeWhile (\<lambda>x. x \<noteq> d) xs # split_max n d rest)"

section \<open>Numbers read back\<close>

lemma while_sep:
  "d \<notin> set a \<Longrightarrow> dropWhile (\<lambda>x. x \<noteq> d) (a @ d # b) = d # b"
  "d \<notin> set a \<Longrightarrow> takeWhile (\<lambda>x. x \<noteq> d) (a @ d # b) = a"
  "d \<notin> set a \<Longrightarrow> dropWhile (\<lambda>x. x \<noteq> d) a = []"
  by (induction a) auto

lemma split_max_sep:
  "d \<notin> set a \<Longrightarrow> 0 < n \<Longrightarrow> split_max n d (a @ d # b) = a # split_max (n - 1) d b"
  by (cases n) (simp_all add: while_sep)

lemma split_max_plain: "d \<notin> set a \<Longrightarrow> split_max n d a = [a]"
  by (cases n) (simp_all add: while_sep)

lemma split_on_plain: "d \<notin> set xs \<Longrightarrow> split_on d xs = [xs]"
  by (induction xs) auto

lemma split_on_sep: "d \<notin> set xs \<Longrightarrow> split_on d (xs @ d # ys) = xs # split_on d ys"
proof (induction xs)
  case Nil
  show ?case by (cases "split_on d ys") (auto elim: split_on.elims split: list.splits if_splits)
qed auto

lemma digit_char_cases:
  assumes "d < 10"
  shows "digit_value (digit_char d) = Some d" and "\<not> py_space (digit_char d)"
    and "digit_char d \<noteq> CHR '':''" and "digit_char d \<noteq> CHR ''-''" and "digit_char d \<noteq> CHR ''+''"
proof -
  from assms have "d \<in> {0, 1, 2, 3, 4, 5, 6, 7, 8, 9}" by auto
  then show "digit_value (digit_char d) = Some d" and "\<not> py_space (digit_char d)"
    and "digit_char d \<noteq> CHR '':''" and "digit_char d \<noteq> CHR ''-''" and "digit_char d \<noteq> CHR ''+''"
    by (auto simp: digit_char_def digit_value_def py_space_def)
qed

lemma show_nat_chars: "c \<in> set (show_nat n) \<Longrightarrow> \<exists>d<10. c = digit_char d"
proof (induction n rule: show_nat.induct)
  case (1 n)
  show ?case
  proof (cases "n < 10")
    case True
    with "1.prems" show ?thesis by (auto simp: show_nat.simps [of n])
  next
    case False
    have "\<exists>d<10. digit_char (n mod 10) = digit_char d" by (rule exI [of _ "n mod 10"]) simp
    with False 1 show ?thesis by (auto simp: show_nat.simps [of n])
  qed
qed

lemma show_nat_not_Nil [simp]: "show_nat n \<noteq> []"
  by (subst show_nat.simps) simp

lemma read_digits_show:
  "read_digits p acc (show_nat n @ cs) = read_digits True (acc * 10 ^ length (show_nat n) + n) cs"
proof (induction n arbitrary: p acc cs rule: show_nat.induct)
  case (1 n)
  show ?case
  proof (cases "n < 10")
    case True
    then show ?thesis by (simp add: show_nat.simps [of n] digit_char_cases)
  next
    case False
    have "n div 10 * 10 + n mod 10 = n" by simp
    then show ?thesis
      using False "1.IH" [OF False, of p acc "digit_char (n mod 10) # cs"]
      by (simp add: show_nat.simps [of n] digit_char_cases algebra_simps)
  qed
qed

lemma dropWhile_none: "xs \<noteq> [] \<Longrightarrow> \<not> P (hd xs) \<Longrightarrow> dropWhile P xs = xs"
  by (cases xs) auto

lemma py_int_show_int: "0 \<le> i \<Longrightarrow> py_int (show_int i) = Some i"
proof -
  assume "0 \<le> i"
  let ?s = "show_nat (nat i)"
  obtain c cs where c: "?s = c # cs" by (cases ?s) auto
  have chars: "\<not> py_space x \<and> x \<noteq> CHR ''-'' \<and> x \<noteq> CHR ''+''" if "x \<in> set ?s" for x
  proof -
    obtain d where "d < 10" and "x = digit_char d" using show_nat_chars [OF \<open>x \<in> set ?s\<close>] by auto
    then show ?thesis using digit_char_cases [of d] by simp
  qed
  have "dropWhile py_space ?s = ?s"
    using chars [of "hd ?s"] by (intro dropWhile_none) (simp_all add: hd_in_set)
  moreover have "dropWhile py_space (rev ?s) = rev ?s"
    using chars [of "last ?s"] by (intro dropWhile_none) (simp_all add: hd_rev last_in_set)
  ultimately have "py_strip ?s = ?s" by (simp add: py_strip_def)
  moreover have "read_digits False 0 ?s = Some (nat i)"
    using read_digits_show [of False 0 "nat i" "[]"] by simp
  ultimately show ?thesis
    using chars [of c] c \<open>0 \<le> i\<close> by (simp add: py_int_def show_int_def del: read_digits.simps)
qed

lemma show_int_no_colon: "0 \<le> i \<Longrightarrow> CHR '':'' \<notin> set (show_int i)"
  by (auto simp: show_int_def dest!: show_nat_chars) (metis digit_char_cases(3))

end
