(* ===== verification/Capabilities.thy ===== *)
theory Capabilities
  imports PyText
begin

text \<open>
  The capability catalogue (\<open>services/terrapod/auth/capabilities.py\<close>): the capability tokens, the
  legacy permission levels as cumulative sets of tokens on four axes, the expansion of levels into
  a capability set (\<open>expand_preset\<close>), and the inverse summary shown by the API
  (\<open>summarize_capabilities\<close>). The lemmas show that levels are cumulative, that the axes do not
  overlap, and that expansion and summary are inverse to each other where a summary exists.

  Tokens are Python strings, since stored roles may carry tokens that are not in the catalogue.
  A \<open>frozenset\<close> literal is a list here and \<open>sorted\<close> of a set is \<open>sorted_tokens\<close>.
\<close>

section \<open>Strings\<close>

definition sorted_tokens :: "string list \<Rightarrow> string list" where
  "sorted_tokens xs = sort (remdups xs)"

lemma set_sorted_tokens [simp]: "set (sorted_tokens xs) = set xs"
  by (simp add: sorted_tokens_def)

lemma sorted_sorted_tokens [simp]: "sorted (sorted_tokens xs)"
  by (simp add: sorted_tokens_def)

lemma distinct_sorted_tokens [simp]: "distinct (sorted_tokens xs)"
  by (simp add: sorted_tokens_def)

section \<open>The catalogue\<close>

abbreviation WORKSPACE_READ :: string where "WORKSPACE_READ \<equiv> ''workspace:read''"
abbreviation RUN_READ :: string where "RUN_READ \<equiv> ''run:read''"
abbreviation STATE_READ_METADATA :: string where "STATE_READ_METADATA \<equiv> ''state:read-metadata''"
abbreviation VAR_READ :: string where "VAR_READ \<equiv> ''var:read''"
abbreviation CONFIG_READ :: string where "CONFIG_READ \<equiv> ''config:read''"
abbreviation RUN_TASK_READ :: string where "RUN_TASK_READ \<equiv> ''run-task:read''"
abbreviation NOTIFICATION_READ :: string where "NOTIFICATION_READ \<equiv> ''notification:read''"
abbreviation RUN_TRIGGER_READ :: string where "RUN_TRIGGER_READ \<equiv> ''run-trigger:read''"
abbreviation RUN_PLAN :: string where "RUN_PLAN \<equiv> ''run:plan''"
abbreviation RUN_CANCEL :: string where "RUN_CANCEL \<equiv> ''run:cancel''"
abbreviation WORKSPACE_LOCK :: string where "WORKSPACE_LOCK \<equiv> ''workspace:lock''"
abbreviation STATE_READ :: string where "STATE_READ \<equiv> ''state:read''"
abbreviation DRIFT_DISMISS :: string where "DRIFT_DISMISS \<equiv> ''drift:dismiss''"
abbreviation RUN_APPLY :: string where "RUN_APPLY \<equiv> ''run:apply''"
abbreviation RUN_APPLY_DESTROY :: string where "RUN_APPLY_DESTROY \<equiv> ''run:apply-destroy''"
abbreviation VAR_WRITE :: string where "VAR_WRITE \<equiv> ''var:write''"
abbreviation STATE_WRITE :: string where "STATE_WRITE \<equiv> ''state:write''"
abbreviation CONFIG_UPLOAD :: string where "CONFIG_UPLOAD \<equiv> ''config:upload''"
abbreviation WORKSPACE_SETTINGS :: string where "WORKSPACE_SETTINGS \<equiv> ''workspace:settings''"
abbreviation WORKSPACE_FORCE_UNLOCK :: string
  where "WORKSPACE_FORCE_UNLOCK \<equiv> ''workspace:force-unlock''"
abbreviation WORKSPACE_DELETE :: string where "WORKSPACE_DELETE \<equiv> ''workspace:delete''"
abbreviation STATE_DELETE :: string where "STATE_DELETE \<equiv> ''state:delete''"
abbreviation NOTIFICATION_MANAGE :: string where "NOTIFICATION_MANAGE \<equiv> ''notification:manage''"
abbreviation RUN_TASK_MANAGE :: string where "RUN_TASK_MANAGE \<equiv> ''run-task:manage''"
abbreviation RUN_TRIGGER_MANAGE :: string where "RUN_TRIGGER_MANAGE \<equiv> ''run-trigger:manage''"
abbreviation POOL_READ :: string where "POOL_READ \<equiv> ''pool:read''"
abbreviation POOL_ASSIGN :: string where "POOL_ASSIGN \<equiv> ''pool:assign''"
abbreviation POOL_MANAGE :: string where "POOL_MANAGE \<equiv> ''pool:manage''"
abbreviation REGISTRY_READ :: string where "REGISTRY_READ \<equiv> ''registry:read''"
abbreviation REGISTRY_WRITE :: string where "REGISTRY_WRITE \<equiv> ''registry:write''"
abbreviation REGISTRY_ADMIN :: string where "REGISTRY_ADMIN \<equiv> ''registry:admin''"
abbreviation CATALOG_READ :: string where "CATALOG_READ \<equiv> ''catalog:read''"
abbreviation CATALOG_USE :: string where "CATALOG_USE \<equiv> ''catalog:use''"
abbreviation CATALOG_ADMIN :: string where "CATALOG_ADMIN \<equiv> ''catalog:admin''"
abbreviation PLATFORM_AUDIT_ADMIN :: string where "PLATFORM_AUDIT_ADMIN \<equiv> ''platform:audit-admin''"

definition platform_capabilities :: "string list" where
  "platform_capabilities =
    [''platform:role-admin'', ''platform:vcs-admin'', ''platform:pool-admin'',
     ''platform:registry-admin'', ''platform:varset-admin'', ''platform:user-admin'',
     PLATFORM_AUDIT_ADMIN, ''platform:policy-admin'', ''platform:autodiscovery-admin'',
     ''platform:catalog-admin'', ''platform:bulk-admin'', ''platform:settings-admin'',
     ''platform:hook-admin'']"

section \<open>Levels\<close>

type_synonym levels = "(string \<times> string list) list"

definition workspace_read_level :: "string list" where
  "workspace_read_level =
    [WORKSPACE_READ, RUN_READ, STATE_READ_METADATA, VAR_READ, CONFIG_READ, RUN_TASK_READ,
     NOTIFICATION_READ, RUN_TRIGGER_READ]"

definition workspace_plan_level :: "string list" where
  "workspace_plan_level =
     workspace_read_level @ [RUN_PLAN, RUN_CANCEL, WORKSPACE_LOCK, STATE_READ, DRIFT_DISMISS]"

definition workspace_write_level :: "string list" where
  "workspace_write_level =
     workspace_plan_level @ [RUN_APPLY, RUN_APPLY_DESTROY, VAR_WRITE, STATE_WRITE, CONFIG_UPLOAD]"

definition workspace_admin_level :: "string list" where
  "workspace_admin_level =
     workspace_write_level @
       [WORKSPACE_SETTINGS, WORKSPACE_FORCE_UNLOCK, WORKSPACE_DELETE, STATE_DELETE,
        NOTIFICATION_MANAGE, RUN_TASK_MANAGE, RUN_TRIGGER_MANAGE]"

definition workspace_levels :: levels where
  "workspace_levels =
    [(''read'', workspace_read_level), (''plan'', workspace_plan_level),
     (''write'', workspace_write_level), (''admin'', workspace_admin_level)]"

definition pool_levels :: levels where
  "pool_levels =
    [(''read'', [POOL_READ]), (''write'', [POOL_READ, POOL_ASSIGN]),
     (''admin'', [POOL_READ, POOL_ASSIGN, POOL_MANAGE])]"

definition registry_levels :: levels where
  "registry_levels =
    [(''read'', [REGISTRY_READ]), (''write'', [REGISTRY_READ, REGISTRY_WRITE]),
     (''admin'', [REGISTRY_READ, REGISTRY_WRITE, REGISTRY_ADMIN])]"

definition catalog_levels :: levels where
  "catalog_levels =
    [(''none'', []), (''read'', [CATALOG_READ]), (''use'', [CATALOG_READ, CATALOG_USE]),
     (''admin'', [CATALOG_READ, CATALOG_USE, CATALOG_ADMIN])]"

lemmas level_defs = workspace_levels_def pool_levels_def registry_levels_def catalog_levels_def
  workspace_admin_level_def workspace_write_level_def workspace_plan_level_def
  workspace_read_level_def

definition level_caps :: "levels \<Rightarrow> string \<Rightarrow> string list" where
  "level_caps ls name = (case map_of ls name of None \<Rightarrow> [] | Some cs \<Rightarrow> cs)"

definition grantable_capabilities :: "string list" where
  "grantable_capabilities =
     level_caps workspace_levels ''admin'' @ level_caps pool_levels ''admin'' @
     level_caps registry_levels ''admin'' @ level_caps catalog_levels ''admin''"

section \<open>Aliases and membership\<close>

definition capability_aliases :: "(string \<times> string list) list" where
  "capability_aliases = []"

definition normalize_capabilities :: "string list \<Rightarrow> string list" where
  "normalize_capabilities caps =
     sorted_tokens (concat (map (\<lambda>c.
       case map_of capability_aliases c of Some new \<Rightarrow> new | None \<Rightarrow> [c]) caps))"

definition has_capability :: "string set \<Rightarrow> string \<Rightarrow> bool" where
  "has_capability caps required = (required \<in> caps)"

section \<open>Axes\<close>

datatype axis = Workspace_Axis | Pool_Axis | Registry_Axis | Catalog_Axis

fun axis_level_map :: "axis \<Rightarrow> levels" where
  "axis_level_map Workspace_Axis = workspace_levels"
| "axis_level_map Pool_Axis = pool_levels"
| "axis_level_map Registry_Axis = registry_levels"
| "axis_level_map Catalog_Axis = catalog_levels"

definition axis_read_caps :: "axis \<Rightarrow> string set" where
  "axis_read_caps a = set (level_caps (axis_level_map a) ''read'')"

definition axis_all_caps :: "axis \<Rightarrow> string set" where
  "axis_all_caps a = set (concat (map snd (axis_level_map a)))"

section \<open>Levels to capabilities\<close>

definition preset_caps :: "levels \<Rightarrow> string option \<Rightarrow> string list" where
  "preset_caps ls p = level_caps ls (py_strip (case p of None \<Rightarrow> [] | Some s \<Rightarrow> s))"

definition expand_preset ::
    "string option \<Rightarrow> string option \<Rightarrow> string option \<Rightarrow> string option \<Rightarrow> string list" where
  "expand_preset workspace_permission pool_permission registry_permission catalog_permission =
     sorted_tokens
       (preset_caps workspace_levels workspace_permission @
        preset_caps pool_levels pool_permission @
        preset_caps registry_levels registry_permission @
        preset_caps catalog_levels catalog_permission)"

definition level_to_axes :: "(string \<times> (string \<times> string) list) list" where
  "level_to_axes =
    [(''read'', [(''w'', ''read''), (''p'', ''read''), (''r'', ''read''), (''c'', ''read'')]),
     (''plan'', [(''w'', ''plan''), (''p'', ''read''), (''r'', ''read''), (''c'', ''read'')]),
     (''write'', [(''w'', ''write''), (''p'', ''write''), (''r'', ''write''), (''c'', ''use'')]),
     (''admin'', [(''w'', ''admin''), (''p'', ''admin''), (''r'', ''admin''), (''c'', ''admin'')]),
     (''use'', [(''c'', ''use'')]),
     (''none'', [])]"

definition caps_for_level :: "string option \<Rightarrow> string set" where
  "caps_for_level level =
     (case level of None \<Rightarrow> {}
      | Some l \<Rightarrow> if l = [] then {}
         else let m = map_of (case map_of level_to_axes l of None \<Rightarrow> [] | Some axes \<Rightarrow> axes)
              in set (expand_preset (m ''w'') (m ''p'') (m ''r'') (m ''c'')))"

section \<open>Capabilities back to levels\<close>

definition axis_level_summary :: "levels \<Rightarrow> string set \<Rightarrow> string" where
  "axis_level_summary ls caps =
     (let slice = caps \<inter> set (concat (map snd ls)) in
      case find (\<lambda>(name, lvl). set lvl = slice) ls of
        Some (name, _) \<Rightarrow> name
      | None \<Rightarrow>
          if slice = {} then (if ''none'' \<in> fst ` set ls then ''none'' else ''custom'')
          else ''custom'')"

definition summarize_capabilities :: "string list \<Rightarrow> (string \<times> string) list" where
  "summarize_capabilities caps =
    [(''workspace_permission'', axis_level_summary workspace_levels (set caps)),
     (''pool_permission'', axis_level_summary pool_levels (set caps)),
     (''registry_permission'', axis_level_summary registry_levels (set caps)),
     (''catalog_permission'', axis_level_summary catalog_levels (set caps))]"

section \<open>Built-in roles\<close>

definition audit_caps :: "string list" where
  "audit_caps =
    [WORKSPACE_READ, RUN_READ, STATE_READ_METADATA, VAR_READ, CONFIG_READ, RUN_TASK_READ,
     NOTIFICATION_READ, RUN_TRIGGER_READ, POOL_READ, REGISTRY_READ, CATALOG_READ,
     PLATFORM_AUDIT_ADMIN]"

definition builtin_caps :: "(string \<times> string list) list" where
  "builtin_caps =
    [(''admin'', sorted_tokens (grantable_capabilities @ platform_capabilities)),
     (''audit'', sorted_tokens audit_caps),
     (''everyone'', sorted_tokens workspace_read_level)]"

definition capabilities_for_builtin :: "string \<Rightarrow> string list" where
  "capabilities_for_builtin name = level_caps builtin_caps name"

definition builtin_role_names :: "string list" where
  "builtin_role_names = [''admin'', ''audit'', ''everyone'']"

definition platform_role_names :: "string list" where
  "platform_role_names = [''admin'', ''audit'']"

definition is_builtin_role :: "string \<Rightarrow> bool" where
  "is_builtin_role name = (name \<in> set builtin_role_names)"

definition is_platform_role :: "string \<Rightarrow> bool" where
  "is_platform_role name = (name \<in> set platform_role_names)"

section \<open>Levels are cumulative and axes are disjoint\<close>

definition level_names :: "levels \<Rightarrow> string set" where
  "level_names ls = fst ` set ls"

lemma axis_levels_distinct [simp]: "distinct (map fst (axis_level_map a))"
  by (cases a) (simp_all add: level_defs)

lemma axis_levels_stripped: "n \<in> level_names (axis_level_map a) \<Longrightarrow> py_strip n = n"
  by (cases a) (auto simp: level_names_def level_defs py_strip_def py_space_def)

lemma level_caps_subset: "set (level_caps (axis_level_map a) n) \<subseteq> axis_all_caps a"
  by (force simp: level_caps_def axis_all_caps_def dest: map_of_SomeD split: option.splits)

lemma preset_caps_subset: "set (preset_caps (axis_level_map a) p) \<subseteq> axis_all_caps a"
  unfolding preset_caps_def by (rule level_caps_subset)

lemma preset_caps_level:
  "n \<in> level_names (axis_level_map a) \<Longrightarrow>
   preset_caps (axis_level_map a) (Some n) = level_caps (axis_level_map a) n"
  by (simp add: preset_caps_def axis_levels_stripped)

lemma axis_read_subset: "axis_read_caps a \<subseteq> axis_all_caps a"
  unfolding axis_read_caps_def by (rule level_caps_subset)

lemma axes_disjoint: "a \<noteq> b \<Longrightarrow> axis_all_caps a \<inter> axis_all_caps b = {}"
  by (cases a; cases b) (simp_all add: axis_all_caps_def level_defs)

lemma axes_partition_grantable: "set grantable_capabilities = (\<Union>a. axis_all_caps a)"
proof -
  have axes: "(UNIV :: axis set) = {Workspace_Axis, Pool_Axis, Registry_Axis, Catalog_Axis}"
    using axis.exhaust by auto
  show ?thesis
    unfolding axes by (simp add: grantable_capabilities_def axis_all_caps_def level_caps_def level_defs)
      (simp add: insert_commute Un_ac)
qed

lemma expand_preset_set:
  "set (expand_preset w p r c) =
     set (preset_caps (axis_level_map Workspace_Axis) w) \<union>
     set (preset_caps (axis_level_map Pool_Axis) p) \<union>
     set (preset_caps (axis_level_map Registry_Axis) r) \<union>
     set (preset_caps (axis_level_map Catalog_Axis) c)"
  by (simp add: expand_preset_def Un_assoc)

text \<open>Slicing an expansion to one axis gives that axis' level, whatever the other axes hold.\<close>

lemma expand_preset_slice:
  "set (expand_preset w p r c) \<inter> axis_all_caps a =
     (case a of
        Workspace_Axis \<Rightarrow> set (preset_caps (axis_level_map Workspace_Axis) w)
      | Pool_Axis \<Rightarrow> set (preset_caps (axis_level_map Pool_Axis) p)
      | Registry_Axis \<Rightarrow> set (preset_caps (axis_level_map Registry_Axis) r)
      | Catalog_Axis \<Rightarrow> set (preset_caps (axis_level_map Catalog_Axis) c))"
proof -
  have slice: "set (preset_caps (axis_level_map b) q) \<inter> axis_all_caps d
      = (if b = d then set (preset_caps (axis_level_map b) q) else {})" for b d q
    using preset_caps_subset [of b q] axes_disjoint [of b d] by auto
  show ?thesis
    unfolding expand_preset_set Int_Un_distrib2 slice by (cases a) simp_all
qed

section \<open>Summaries\<close>

lemma level_summary_slice:
  "axis_level_summary (axis_level_map a) caps
     = axis_level_summary (axis_level_map a) (caps \<inter> axis_all_caps a)"
  by (simp add: axis_level_summary_def axis_all_caps_def Int_assoc)

text \<open>One capability per step of a scale tells its levels apart.\<close>

fun axis_markers :: "axis \<Rightarrow> string list" where
  "axis_markers Workspace_Axis = [RUN_PLAN, RUN_APPLY, STATE_DELETE]"
| "axis_markers Pool_Axis = [POOL_ASSIGN, POOL_MANAGE]"
| "axis_markers Registry_Axis = [REGISTRY_WRITE, REGISTRY_ADMIN]"
| "axis_markers Catalog_Axis = [CATALOG_READ, CATALOG_USE, CATALOG_ADMIN]"

lemma axis_markers_distinct:
  "distinct (map (\<lambda>x. map (\<lambda>m. m \<in> set (snd x)) (axis_markers a)) (axis_level_map a))"
  by (cases a) (simp_all add: level_defs)

lemma axis_level_sets_inj: "inj_on (\<lambda>x. set (snd x)) (set (axis_level_map a))"
proof (rule inj_onI)
  fix x y assume "x \<in> set (axis_level_map a)" and "y \<in> set (axis_level_map a)"
    and "set (snd x) = set (snd y)"
  moreover have "inj_on (\<lambda>x. map (\<lambda>m. m \<in> set (snd x)) (axis_markers a)) (set (axis_level_map a))"
    using axis_markers_distinct by (simp add: distinct_map)
  ultimately show "x = y" by (simp add: inj_on_def)
qed

lemma level_summary_of_level:
  assumes "n \<in> level_names (axis_level_map a)"
  shows "axis_level_summary (axis_level_map a) (set (level_caps (axis_level_map a) n)) = n"
proof -
  from assms obtain lvl where entry: "(n, lvl) \<in> set (axis_level_map a)"
    by (auto simp: level_names_def)
  then have "map_of (axis_level_map a) n = Some lvl" by simp
  then have caps: "level_caps (axis_level_map a) n = lvl" by (simp add: level_caps_def)
  have slice: "set lvl \<inter> set (concat (map snd (axis_level_map a))) = set lvl"
    using level_caps_subset [of a n] by (auto simp: caps axis_all_caps_def)
  have "find (\<lambda>(name, l). set l = set lvl) (axis_level_map a) = Some (n, lvl)"
  proof (cases "find (\<lambda>(name, l). set l = set lvl) (axis_level_map a)")
    case None
    with entry show ?thesis by (auto simp: find_None_iff)
  next
    case (Some x)
    then have "x \<in> set (axis_level_map a)" and "set (snd x) = set lvl"
      by (auto simp: find_Some_iff) (metis nth_mem)
    with entry have "x = (n, lvl)" using inj_onD [OF axis_level_sets_inj, of x "(n, lvl)" a] by simp
    with Some show ?thesis by simp
  qed
  then show ?thesis unfolding caps axis_level_summary_def slice Let_def by simp
qed

lemma custom_no_level: "''custom'' \<notin> level_names (axis_level_map a)"
  by (cases a) (simp_all add: level_names_def level_defs)

text \<open>A summary other than \<open>custom\<close> is exact: it names a level that expands to the slice.\<close>

lemma level_summary_exact:
  assumes "axis_level_summary (axis_level_map a) caps \<noteq> ''custom''"
  shows "axis_level_summary (axis_level_map a) caps \<in> level_names (axis_level_map a) \<and>
     set (level_caps (axis_level_map a) (axis_level_summary (axis_level_map a) caps))
       = caps \<inter> axis_all_caps a"
proof (cases "find (\<lambda>(name, lvl). set lvl = caps \<inter> axis_all_caps a) (axis_level_map a)")
  case None
  then have "\<forall>x\<in>set (axis_level_map a). set (snd x) \<noteq> caps \<inter> axis_all_caps a"
    by (auto simp: find_None_iff)
  moreover from None assms have "caps \<inter> axis_all_caps a = {}"
    and "''none'' \<in> fst ` set (axis_level_map a)"
    by (auto simp: axis_level_summary_def axis_all_caps_def split: if_splits)
  ultimately have False by (cases a) (auto simp: level_defs)
  then show ?thesis ..
next
  case (Some x)
  obtain name lvl where x: "x = (name, lvl)" by (cases x)
  from Some x have entry: "(name, lvl) \<in> set (axis_level_map a)"
    and eq: "set lvl = caps \<inter> axis_all_caps a"
    by (auto simp: find_Some_iff) (metis nth_mem)
  from Some x have "axis_level_summary (axis_level_map a) caps = name"
    by (simp add: axis_level_summary_def axis_all_caps_def)
  moreover from entry have "map_of (axis_level_map a) name = Some lvl" by simp
  ultimately show ?thesis
    using entry eq by (force simp: level_names_def level_caps_def)
qed

section \<open>Properties\<close>

text \<open>
  On every axis the legacy levels are cumulative (each later level grants at least what an
  earlier one grants), distinct axes share no capability, and the grantable catalogue is the union
  of the axes and holds no platform power.
\<close>

theorem levels_cumulative_and_disjoint:
  "sorted_wrt (\<lambda>lo hi. set (snd lo) \<subseteq> set (snd hi)) (axis_level_map a)
   \<and> (a = b \<or> axis_all_caps a \<inter> axis_all_caps b = {})
   \<and> set grantable_capabilities = (\<Union>x. axis_all_caps x)
   \<and> set grantable_capabilities \<inter> set platform_capabilities = {}"
proof (intro conjI)
  show "sorted_wrt (\<lambda>lo hi. set (snd lo) \<subseteq> set (snd hi)) (axis_level_map a)"
    by (cases a) (auto simp: level_defs)
  show "a = b \<or> axis_all_caps a \<inter> axis_all_caps b = {}" using axes_disjoint by blast
  show "set grantable_capabilities = (\<Union>x. axis_all_caps x)" by (rule axes_partition_grantable)
  show "set grantable_capabilities \<inter> set platform_capabilities = {}"
    by (simp add: grantable_capabilities_def platform_capabilities_def level_caps_def level_defs)
qed

text \<open>
  Expanding one level per axis and summarising the result gives the levels back, whatever
  combination of levels was chosen.
\<close>

theorem summarize_expand_roundtrip:
  assumes "w \<in> level_names workspace_levels" and "p \<in> level_names pool_levels"
    and "r \<in> level_names registry_levels" and "c \<in> level_names catalog_levels"
  shows "summarize_capabilities (expand_preset (Some w) (Some p) (Some r) (Some c)) =
    [(''workspace_permission'', w), (''pool_permission'', p),
     (''registry_permission'', r), (''catalog_permission'', c)]"
proof -
  let ?caps = "set (expand_preset (Some w) (Some p) (Some r) (Some c))"
  have "axis_level_summary workspace_levels ?caps = w"
    using assms(1) level_summary_slice [of Workspace_Axis ?caps]
      preset_caps_level [of w Workspace_Axis] level_summary_of_level [of w Workspace_Axis]
    by (simp add: expand_preset_slice)
  moreover have "axis_level_summary pool_levels ?caps = p"
    using assms(2) level_summary_slice [of Pool_Axis ?caps]
      preset_caps_level [of p Pool_Axis] level_summary_of_level [of p Pool_Axis]
    by (simp add: expand_preset_slice)
  moreover have "axis_level_summary registry_levels ?caps = r"
    using assms(3) level_summary_slice [of Registry_Axis ?caps]
      preset_caps_level [of r Registry_Axis] level_summary_of_level [of r Registry_Axis]
    by (simp add: expand_preset_slice)
  moreover have "axis_level_summary catalog_levels ?caps = c"
    using assms(4) level_summary_slice [of Catalog_Axis ?caps]
      preset_caps_level [of c Catalog_Axis] level_summary_of_level [of c Catalog_Axis]
    by (simp add: expand_preset_slice)
  ultimately show ?thesis by (simp add: summarize_capabilities_def)
qed

theorem summarize_expand_roundtrip_witness:
  "summarize_capabilities
     (expand_preset (Some ''plan'') (Some ''read'') (Some ''write'') (Some ''none'')) =
    [(''workspace_permission'', ''plan''), (''pool_permission'', ''read''),
     (''registry_permission'', ''write''), (''catalog_permission'', ''none'')]"
  by (rule summarize_expand_roundtrip) (simp_all add: level_names_def level_defs)

text \<open>
  A summary without a \<open>custom\<close> axis is faithful: expanding it gives back exactly the role's
  grantable capabilities, so showing levels instead of capabilities loses nothing.
\<close>

theorem expand_summary_faithful:
  assumes "''custom'' \<notin> snd ` set (summarize_capabilities caps)"
  shows "set (expand_preset
      (map_of (summarize_capabilities caps) ''workspace_permission'')
      (map_of (summarize_capabilities caps) ''pool_permission'')
      (map_of (summarize_capabilities caps) ''registry_permission'')
      (map_of (summarize_capabilities caps) ''catalog_permission''))
    = set caps \<inter> set grantable_capabilities"
proof -
  have axis: "set (preset_caps (axis_level_map a)
      (Some (axis_level_summary (axis_level_map a) (set caps)))) = set caps \<inter> axis_all_caps a"
    if "axis_level_summary (axis_level_map a) (set caps) \<noteq> ''custom''" for a
    using level_summary_exact [OF that] by (simp add: preset_caps_level)
  have all: "axis_level_summary (axis_level_map a) (set caps) \<noteq> ''custom''" for a
    using assms by (cases a) (auto simp: summarize_capabilities_def)
  have axes: "(UNIV :: axis set) = {Workspace_Axis, Pool_Axis, Registry_Axis, Catalog_Axis}"
    using axis.exhaust by auto
  show ?thesis
    using axis [OF all [of Workspace_Axis]] axis [OF all [of Pool_Axis]]
      axis [OF all [of Registry_Axis]] axis [OF all [of Catalog_Axis]]
    by (simp add: summarize_capabilities_def expand_preset_set axes_partition_grantable axes
        Int_Un_distrib Un_assoc)
qed

theorem expand_summary_faithful_witness:
  "set (expand_preset (Some ''plan'') (Some ''read'') (Some ''read'') (Some ''none''))
     = set (workspace_plan_level @ [POOL_READ, REGISTRY_READ, ''platform:vcs-admin''])
       \<inter> set grantable_capabilities"
proof -
  let ?caps = "workspace_plan_level @ [POOL_READ, REGISTRY_READ, ''platform:vcs-admin'']"
  have summary: "summarize_capabilities ?caps =
      [(''workspace_permission'', ''plan''), (''pool_permission'', ''read''),
       (''registry_permission'', ''read''), (''catalog_permission'', ''none'')]"
    by code_simp
  show ?thesis using expand_summary_faithful [of ?caps] unfolding summary by simp
qed

end
