(* ===== verification/Rbac.thy ===== *)
theory Rbac
  imports Capabilities
begin

text \<open>
  Label-based access control: \<open>services/rbac_service.py\<close> (\<open>merge_labels\<close>, \<open>matches_labels\<close>,
  \<open>check_access\<close>), the capability resolver with its per-axis wrappers
  (\<open>services/capability_resolver.py\<close>, \<open>services/*_rbac_service.py\<close>) and the platform-role gates of
  \<open>api/dependencies.py\<close>.

  A role's label rules are an association list from a label key to one value or a list of values,
  as in the JSON column. The abstract reading of a rule set is \<open>label_hit\<close>; the locale
  \<open>label_gate\<close> states the deny-then-allow contract that roles and policy sets share. The database
  table of roles is the argument \<open>db\<close>, a list of rows.
\<close>

section \<open>Labels\<close>

type_synonym resource_labels = "(string \<times> string) list"

datatype label_val = Many "string list" | One string

type_synonym label_rules = "(string \<times> label_val) list"
type_synonym merged_labels = "(string \<times> string set) list"

fun accepted_values :: "label_val \<Rightarrow> string set" where
  "accepted_values (Many vs) = set vs"
| "accepted_values (One v) = {v}"

fun merge_labels :: "merged_labels \<Rightarrow> label_rules \<Rightarrow> merged_labels" where
  "merge_labels target [] = target"
| "merge_labels target ((key, v) # source) =
     merge_labels
       (AList.update key
         ((case map_of target key of None \<Rightarrow> {} | Some s \<Rightarrow> s) \<union> accepted_values v) target)
       source"

fun matches_labels :: "resource_labels \<Rightarrow> merged_labels \<Rightarrow> bool" where
  "matches_labels resource_labels [] = False"
| "matches_labels resource_labels ((perm_key, perm_values) # rest) =
     (case map_of resource_labels perm_key of
        Some v \<Rightarrow> if v \<in> perm_values then True else matches_labels resource_labels rest
      | None \<Rightarrow> matches_labels resource_labels rest)"

section \<open>Roles\<close>

record role =
  role_name :: string
  allow_labels :: label_rules
  allow_names :: "string list"
  deny_labels :: label_rules
  deny_names :: "string list"
  role_capabilities :: "string list"

definition fetch_custom_roles :: "role list \<Rightarrow> string list \<Rightarrow> role list" where
  "fetch_custom_roles db user_roles =
     (let custom_names = set user_roles - set builtin_role_names in
      if custom_names = {} then [] else filter (\<lambda>r. role_name r \<in> custom_names) db)"

definition check_access :: "role list \<Rightarrow> string \<Rightarrow> resource_labels \<Rightarrow> string list \<Rightarrow> bool" where
  "check_access db resource_name resource_labels role_names =
     (if ''admin'' \<in> set role_names then True
      else
        let custom_role_names = set role_names - set builtin_role_names;
            roles = (if custom_role_names = {} then []
                     else filter (\<lambda>r. role_name r \<in> custom_role_names) db);
            allow_l = foldl (\<lambda>t r. merge_labels t (allow_labels r))
                        (merge_labels [] [(''access'', Many [''everyone''])]) roles;
            allow_n = foldl (\<lambda>s r. s \<union> set (allow_names r)) {} roles;
            deny_l = foldl (\<lambda>t r. merge_labels t (deny_labels r)) [] roles;
            deny_n = foldl (\<lambda>s r. s \<union> set (deny_names r)) {} roles
        in if resource_name \<in> deny_n then False
           else if matches_labels resource_labels deny_l then False
           else if resource_name \<in> allow_n then True
           else matches_labels resource_labels allow_l)"

definition role_effective_capabilities :: "role \<Rightarrow> string set" where
  "role_effective_capabilities r = set (normalize_capabilities (role_capabilities r))"

definition role_matches :: "role \<Rightarrow> string \<Rightarrow> resource_labels \<Rightarrow> bool" where
  "role_matches r resource_name resource_labels =
     (if resource_name \<in> set (deny_names r) then False
      else if matches_labels resource_labels (merge_labels [] (deny_labels r)) then False
      else if resource_name \<in> set (allow_names r) then True
      else matches_labels resource_labels (merge_labels [] (allow_labels r)))"

section \<open>The capability resolver\<close>

definition resolve_capabilities ::
    "role list \<Rightarrow> string \<Rightarrow> string list \<Rightarrow> string \<Rightarrow> resource_labels \<Rightarrow> string option \<Rightarrow> axis
      \<Rightarrow> role list option \<Rightarrow> bool \<Rightarrow> string \<Rightarrow> bool \<Rightarrow> string set" where
  "resolve_capabilities db user_email user_roles resource_name resource_labels owner_email
       axis preloaded_roles apply_everyone_floor auth_method is_catalog_managed =
     (let all_caps = axis_all_caps axis; read_caps = axis_read_caps axis in
      if ''admin'' \<in> set user_roles then all_caps
      else
        let caps2 = (if ''audit'' \<in> set user_roles then read_caps else {});
            caps3 = (if axis = Registry_Axis \<and> auth_method = ''runner_token''
                     then caps2 \<union> read_caps else caps2);
            caps4 = (case owner_email of
                       Some e \<Rightarrow> if e \<noteq> [] \<and> e = user_email then caps3 \<union> all_caps else caps3
                     | None \<Rightarrow> caps3);
            custom_role_names = set user_roles - set builtin_role_names;
            roles = (if custom_role_names = {} then []
                     else case preloaded_roles of
                       Some rs \<Rightarrow> filter (\<lambda>r. role_name r \<in> custom_role_names) rs
                     | None \<Rightarrow> filter (\<lambda>r. role_name r \<in> custom_role_names) db);
            caps5 = foldl (\<lambda>caps r. if role_matches r resource_name resource_labels
                                    then caps \<union> (role_effective_capabilities r \<inter> all_caps)
                                    else caps) caps4 roles;
            caps6 = (if axis \<noteq> Catalog_Axis \<and> apply_everyone_floor
                        \<and> map_of resource_labels ''access'' = Some ''everyone''
                     then caps5 \<union> read_caps else caps5)
        in if axis = Workspace_Axis \<and> is_catalog_managed then caps6 \<inter> read_caps else caps6)"

record auth_user =
  au_email :: string
  au_roles :: "string list"
  au_auth_method :: string
  au_run_id :: "string option"
  au_kind :: string
  au_pinned_roles :: "string list option"

definition pinned :: "auth_user \<Rightarrow> string list" where
  "pinned u = (case au_pinned_roles u of Some rs \<Rightarrow> rs | None \<Rightarrow> [])"

definition resolve_capabilities_for ::
    "role list \<Rightarrow> auth_user \<Rightarrow> string \<Rightarrow> resource_labels \<Rightarrow> string option \<Rightarrow> axis
      \<Rightarrow> role list option \<Rightarrow> role list option \<Rightarrow> bool \<Rightarrow> string set" where
  "resolve_capabilities_for db user resource_name resource_labels owner_email axis
       preloaded_roles token_preloaded_roles is_catalog_managed =
     (if au_kind user = ''service_detached'' then
        resolve_capabilities db [] (pinned user) resource_name resource_labels owner_email axis
          token_preloaded_roles False [] is_catalog_managed
      else
        let user_caps = resolve_capabilities db (au_email user) (au_roles user) resource_name
              resource_labels owner_email axis preloaded_roles True (au_auth_method user)
              is_catalog_managed
        in if au_kind user = ''service_bound'' then
             user_caps \<inter> resolve_capabilities db [] (pinned user) resource_name resource_labels
               owner_email axis token_preloaded_roles False [] is_catalog_managed
           else user_caps)"

text \<open>The typed wrappers of the four axes.\<close>

definition resolve_workspace_capabilities_for ::
    "role list \<Rightarrow> auth_user \<Rightarrow> string \<Rightarrow> resource_labels option \<Rightarrow> string option \<Rightarrow> nat option
      \<Rightarrow> role list option \<Rightarrow> role list option \<Rightarrow> string set" where
  "resolve_workspace_capabilities_for db user name labels owner catalog_item_id pre token_pre =
     resolve_capabilities_for db user name (case labels of Some l \<Rightarrow> l | None \<Rightarrow> []) owner
       Workspace_Axis pre token_pre (catalog_item_id \<noteq> None)"

definition resolve_pool_capabilities_for ::
    "role list \<Rightarrow> auth_user \<Rightarrow> string \<Rightarrow> resource_labels option \<Rightarrow> string option
      \<Rightarrow> role list option \<Rightarrow> role list option \<Rightarrow> string set" where
  "resolve_pool_capabilities_for db user name labels owner pre token_pre =
     resolve_capabilities_for db user name (case labels of Some l \<Rightarrow> l | None \<Rightarrow> []) owner
       Pool_Axis pre token_pre False"

definition resolve_catalog_capabilities_for ::
    "role list \<Rightarrow> auth_user \<Rightarrow> string \<Rightarrow> resource_labels option \<Rightarrow> string option
      \<Rightarrow> role list option \<Rightarrow> role list option \<Rightarrow> string set" where
  "resolve_catalog_capabilities_for db user name labels owner pre token_pre =
     resolve_capabilities_for db user name (case labels of Some l \<Rightarrow> l | None \<Rightarrow> []) owner
       Catalog_Axis pre token_pre False"

definition resolve_registry_capabilities_for ::
    "role list \<Rightarrow> auth_user \<Rightarrow> string \<Rightarrow> resource_labels option \<Rightarrow> string option
      \<Rightarrow> role list option \<Rightarrow> role list option \<Rightarrow> string set" where
  "resolve_registry_capabilities_for db user name labels owner pre token_pre =
     resolve_capabilities_for db user name (case labels of Some l \<Rightarrow> l | None \<Rightarrow> []) owner
       Registry_Axis pre token_pre False"

section \<open>Platform gates\<close>

text \<open>A gate returns the caller or the HTTP status it is rejected with.\<close>

type_synonym 'a http = "nat + 'a"

definition effective_platform_roles :: "auth_user \<Rightarrow> string set" where
  "effective_platform_roles user =
     (let roles = set (au_roles user) in
      if au_kind user = ''service_detached'' then set (pinned user)
      else if au_kind user = ''service_bound'' then roles \<inter> set (pinned user)
      else roles)"

definition require_non_runner :: "auth_user \<Rightarrow> auth_user http" where
  "require_non_runner user =
     (if au_auth_method user = ''runner_token'' then Inl 403 else Inr user)"

definition require_admin :: "auth_user \<Rightarrow> auth_user http" where
  "require_admin user =
     (if ''admin'' \<notin> effective_platform_roles user then Inl 403 else Inr user)"

definition require_admin_or_audit :: "auth_user \<Rightarrow> auth_user http" where
  "require_admin_or_audit user =
     (if {''admin'', ''audit''} \<inter> effective_platform_roles user = {} then Inl 403 else Inr user)"

definition require_runner_for_run :: "auth_user \<Rightarrow> string \<Rightarrow> unit http" where
  "require_runner_for_run user run_id =
     (if au_auth_method user \<noteq> ''runner_token'' then Inl 403
      else if au_run_id user \<noteq> Some run_id then Inl 403
      else Inr ())"

section \<open>What label matching decides\<close>

text \<open>
  The specification of a match: some rule names a key the resource carries, with a value the rule
  accepts.
\<close>

definition label_hit :: "resource_labels \<Rightarrow> label_rules \<Rightarrow> bool" where
  "label_hit rl rules =
     (\<exists>(k, v) \<in> set rules. \<exists>x. map_of rl k = Some x \<and> x \<in> accepted_values v)"

lemma label_hit_Nil [simp]: "\<not> label_hit rl []"
  by (simp add: label_hit_def)

lemma label_hit_Cons [simp]:
  "label_hit rl ((k, v) # rules) \<longleftrightarrow>
     (\<exists>x. map_of rl k = Some x \<and> x \<in> accepted_values v) \<or> label_hit rl rules"
  by (auto simp: label_hit_def)

lemma label_hit_append [simp]: "label_hit rl (xs @ ys) \<longleftrightarrow> label_hit rl xs \<or> label_hit rl ys"
  by (auto simp: label_hit_def)

lemma matches_labels_iff:
  "matches_labels rl m \<longleftrightarrow> (\<exists>(k, vs) \<in> set m. \<exists>x. map_of rl k = Some x \<and> x \<in> vs)"
  by (induction m) (auto split: option.splits)

definition merged_values :: "merged_labels \<Rightarrow> string \<Rightarrow> string set" where
  "merged_values m k = (case map_of m k of None \<Rightarrow> {} | Some vs \<Rightarrow> vs)"

lemma matches_labels_values:
  assumes "distinct (map fst m)"
  shows "matches_labels rl m \<longleftrightarrow> (\<exists>k x. map_of rl k = Some x \<and> x \<in> merged_values m k)"
proof -
  have "x \<in> merged_values m k \<longleftrightarrow> (\<exists>vs. (k, vs) \<in> set m \<and> x \<in> vs)" for k x
    using assms by (simp add: merged_values_def split: option.splits) (metis map_of_is_SomeI option.distinct(1) option.inject map_of_SomeD)
  then show ?thesis unfolding matches_labels_iff by auto
qed

lemma merge_labels_distinct:
  "distinct (map fst t) \<Longrightarrow> distinct (map fst (merge_labels t src))"
  by (induction t src rule: merge_labels.induct) (simp_all add: distinct_update)

lemma merge_labels_matches:
  "distinct (map fst t) \<Longrightarrow>
   matches_labels rl (merge_labels t src) \<longleftrightarrow> matches_labels rl t \<or> label_hit rl src"
proof (induction t src rule: merge_labels.induct)
  case (2 target key v source)
  let ?old = "case map_of target key of None \<Rightarrow> {} | Some s \<Rightarrow> s"
  let ?t = "AList.update key (?old \<union> accepted_values v) target"
  have d: "distinct (map fst ?t)" using "2.prems" by (rule distinct_update)
  have "x \<in> merged_values ?t k \<longleftrightarrow> x \<in> merged_values target k \<or> k = key \<and> x \<in> accepted_values v" for k x
    by (auto simp: merged_values_def split: option.splits)
  then have "matches_labels rl ?t \<longleftrightarrow>
      matches_labels rl target \<or> (\<exists>x. map_of rl key = Some x \<and> x \<in> accepted_values v)"
    unfolding matches_labels_values [OF d] matches_labels_values [OF "2.prems"] by blast
  with "2.IH" [OF d] show ?case by auto
qed simp

lemma merge_labels_Nil_matches [simp]:
  "matches_labels rl (merge_labels [] src) \<longleftrightarrow> label_hit rl src"
  by (simp add: merge_labels_matches)

lemma foldl_merge_labels:
  "distinct (map fst t) \<Longrightarrow>
   matches_labels rl (foldl (\<lambda>t r. merge_labels t (f r)) t rs) \<longleftrightarrow>
     matches_labels rl t \<or> (\<exists>r\<in>set rs. label_hit rl (f r))"
  by (induction rs arbitrary: t) (auto simp: merge_labels_matches merge_labels_distinct)

lemma foldl_union: "foldl (\<lambda>s r. s \<union> g r) s rs = s \<union> (\<Union>r\<in>set rs. g r)"
  by (induction rs arbitrary: s) auto

lemma foldl_union_if:
  "foldl (\<lambda>s r. if p r then s \<union> g r else s) s rs = s \<union> (\<Union>r\<in>{r \<in> set rs. p r}. g r)"
  by (induction rs arbitrary: s) auto

section \<open>The deny-then-allow contract\<close>

text \<open>
  What every label-scoped rule set of the program promises: an explicit or label deny wins over
  every allow, and without an allow nothing is granted. Roles provide it here, policy sets in
  \<open>Policies\<close>.
\<close>

locale label_gate =
  fixes decide :: "'p \<Rightarrow> string \<Rightarrow> resource_labels \<Rightarrow> bool"
    and active :: "'p \<Rightarrow> bool"
    and dnames :: "'p \<Rightarrow> string list" and dlabels :: "'p \<Rightarrow> label_rules"
    and anames :: "'p \<Rightarrow> string list" and alabels :: "'p \<Rightarrow> label_rules"
  assumes decide_iff: "active p \<Longrightarrow> decide p n l \<longleftrightarrow>
      n \<notin> set (dnames p) \<and> \<not> label_hit l (dlabels p) \<and>
      (n \<in> set (anames p) \<or> label_hit l (alabels p))"
begin

lemma deny_name_wins: "active p \<Longrightarrow> n \<in> set (dnames p) \<Longrightarrow> \<not> decide p n l"
  by (simp add: decide_iff)

lemma deny_label_wins: "active p \<Longrightarrow> label_hit l (dlabels p) \<Longrightarrow> \<not> decide p n l"
  by (simp add: decide_iff)

lemma default_deny: "active p \<Longrightarrow> anames p = [] \<Longrightarrow> alabels p = [] \<Longrightarrow> \<not> decide p n l"
  by (simp add: decide_iff)

lemma unlabelled_by_name:
  "active p \<Longrightarrow> decide p n [] \<longleftrightarrow> n \<in> set (anames p) \<and> n \<notin> set (dnames p)"
  by (auto simp: decide_iff label_hit_def)

text \<open>Dropping deny rules or adding allow rules never takes a grant away.\<close>

lemma wider_rules:
  assumes "active p" "active q" "decide p n l"
    and "set (dnames q) \<subseteq> set (dnames p)" "set (dlabels q) \<subseteq> set (dlabels p)"
    and "set (anames p) \<subseteq> set (anames q)" "set (alabels p) \<subseteq> set (alabels q)"
  shows "decide q n l"
  using assms unfolding decide_iff [OF assms(1)] decide_iff [OF assms(2)] label_hit_def by blast

end

interpretation role_gate: label_gate role_matches "\<lambda>_. True" deny_names deny_labels allow_names
    allow_labels
  by unfold_locales (auto simp: role_matches_def)

lemma role_matches_iff:
  "role_matches r n l \<longleftrightarrow>
     n \<notin> set (deny_names r) \<and> \<not> label_hit l (deny_labels r) \<and>
     (n \<in> set (allow_names r) \<or> label_hit l (allow_labels r))"
  by (rule role_gate.decide_iff) simp

section \<open>What the resolver decides\<close>

definition custom_roles :: "role list \<Rightarrow> role list option \<Rightarrow> string list \<Rightarrow> role set" where
  "custom_roles db pre roles =
     {r \<in> set (case pre of Some rs \<Rightarrow> rs | None \<Rightarrow> db).
        role_name r \<in> set roles \<and> \<not> is_builtin_role (role_name r)}"

lemma custom_roles_filter:
  "set (if set roles - set builtin_role_names = {} then []
        else case pre of
          Some rs \<Rightarrow> filter (\<lambda>r. role_name r \<in> set roles - set builtin_role_names) rs
        | None \<Rightarrow> filter (\<lambda>r. role_name r \<in> set roles - set builtin_role_names) db)
   = custom_roles db pre roles"
  by (auto simp: custom_roles_def is_builtin_role_def split: option.splits)

lemma fetch_custom_roles_set: "set (fetch_custom_roles db roles) = custom_roles db None roles"
  by (auto simp: fetch_custom_roles_def Let_def custom_roles_def is_builtin_role_def)

lemma custom_roles_preloaded:
  "custom_roles db (Some (fetch_custom_roles db roles)) roles = custom_roles db None roles"
  unfolding custom_roles_def by (auto simp: fetch_custom_roles_set custom_roles_def)

definition role_grants :: "role set \<Rightarrow> string \<Rightarrow> resource_labels \<Rightarrow> string set" where
  "role_grants rs n l = (\<Union>r\<in>{r \<in> rs. role_matches r n l}. set (role_capabilities r))"

lemma normalize_capabilities_set [simp]: "set (normalize_capabilities caps) = set caps"
  by (auto simp: normalize_capabilities_def capability_aliases_def)

lemma role_effective_capabilities_eq [simp]:
  "role_effective_capabilities r = set (role_capabilities r)"
  by (simp add: role_effective_capabilities_def)

text \<open>The specification of the resolver: one set expression for a caller who is not admin.\<close>

definition granted ::
    "role set \<Rightarrow> string \<Rightarrow> string list \<Rightarrow> string \<Rightarrow> resource_labels \<Rightarrow> string option \<Rightarrow> axis
      \<Rightarrow> bool \<Rightarrow> string \<Rightarrow> string set" where
  "granted rs email roles n l owner a floor auth =
     {c \<in> axis_read_caps a. ''audit'' \<in> set roles
        \<or> (a = Registry_Axis \<and> auth = ''runner_token'')
        \<or> (a \<noteq> Catalog_Axis \<and> floor \<and> map_of l ''access'' = Some ''everyone'')}
     \<union> {c \<in> axis_all_caps a. owner = Some email \<and> email \<noteq> []}
     \<union> (role_grants rs n l \<inter> axis_all_caps a)"

lemma resolve_capabilities_eq:
  "resolve_capabilities db email roles n l owner a pre floor auth managed =
     (if ''admin'' \<in> set roles then axis_all_caps a
      else granted (custom_roles db pre roles) email roles n l owner a floor auth
        \<inter> (if a = Workspace_Axis \<and> managed then axis_read_caps a else UNIV))"
  unfolding resolve_capabilities_def Let_def foldl_union_if custom_roles_filter
  by (auto simp: granted_def role_grants_def split: option.splits if_splits)

lemma granted_subset: "granted rs email roles n l owner a floor auth \<subseteq> axis_all_caps a"
  using axis_read_subset [of a] by (auto simp: granted_def)

lemma granted_mono:
  "rs \<subseteq> rs' \<Longrightarrow> set roles \<subseteq> set roles' \<Longrightarrow>
   granted rs email roles n l owner a floor auth \<subseteq> granted rs' email roles' n l owner a floor auth"
  by (auto simp: granted_def role_grants_def)

lemma custom_roles_mono: "set roles \<subseteq> set roles' \<Longrightarrow> custom_roles db pre roles \<subseteq> custom_roles db pre roles'"
  by (auto simp: custom_roles_def)

section \<open>Properties\<close>

text \<open>
  C13: the resolver's contract in one formula. A platform admin holds the whole axis. Everyone else
  holds the read floor (audit, the registry floor of runner tokens, the \<open>access=everyone\<close> label
  outside the catalogue axis), the whole axis as owner, and what each role that matches the
  resource and does not deny it lists; and a catalogue-managed workspace cuts all of it down to
  the read floor.
\<close>

theorem resolve_capabilities_char:
  "c \<in> resolve_capabilities db email roles n l owner a pre floor auth managed \<longleftrightarrow>
     c \<in> axis_all_caps a \<and>
     (''admin'' \<in> set roles \<or>
      \<not> (a = Workspace_Axis \<and> managed \<and> c \<notin> axis_read_caps a) \<and>
      (c \<in> axis_read_caps a \<and>
         (''audit'' \<in> set roles \<or> a = Registry_Axis \<and> auth = ''runner_token''
          \<or> a \<noteq> Catalog_Axis \<and> floor \<and> map_of l ''access'' = Some ''everyone'')
       \<or> owner = Some email \<and> email \<noteq> []
       \<or> (\<exists>r \<in> set (case pre of Some rs \<Rightarrow> rs | None \<Rightarrow> db).
            role_name r \<in> set roles \<and> \<not> is_builtin_role (role_name r)
            \<and> n \<notin> set (deny_names r) \<and> \<not> label_hit l (deny_labels r)
            \<and> (n \<in> set (allow_names r) \<or> label_hit l (allow_labels r))
            \<and> c \<in> set (role_capabilities r))))"
  using axis_read_subset [of a]
  by (auto simp: resolve_capabilities_eq granted_def role_grants_def custom_roles_def
      role_matches_iff)

text \<open>
  C14: a token never widens its owner's access. A bound service token holds at most what both its
  owner and its pinned roles hold; a detached one holds what its pinned roles hold, whoever owns
  it, and never gets owner rights.
\<close>

theorem token_attenuation:
  "(au_kind u = ''service_bound'' \<longrightarrow>
      resolve_capabilities_for db u n l owner a pre tpre managed \<subseteq>
        resolve_capabilities_for db (u\<lparr>au_kind := ''interactive''\<rparr>) n l owner a pre tpre managed
      \<inter> resolve_capabilities_for db (u\<lparr>au_kind := ''service_detached''\<rparr>) n l owner a pre tpre managed
      \<and> effective_platform_roles u \<subseteq> set (au_roles u) \<inter> set (pinned u))
   \<and> (au_kind u = ''service_detached'' \<longrightarrow>
      resolve_capabilities_for db u n l owner a pre tpre managed
        = resolve_capabilities_for db (u\<lparr>au_email := e, au_roles := rs, au_auth_method := m\<rparr>)
            n l None a pre tpre managed
      \<and> effective_platform_roles u = set (pinned u))"
  by (auto simp: resolve_capabilities_for_def effective_platform_roles_def pinned_def Let_def
      resolve_capabilities_eq granted_def)

theorem token_attenuation_witness:
  "resolve_capabilities_for []
     \<lparr>au_email = ''a'', au_roles = [''admin''], au_auth_method = ''api_token'', au_run_id = None,
      au_kind = ''service_bound'', au_pinned_roles = Some [''audit'']\<rparr>
     ''ws'' [] None Workspace_Axis None None False
   \<subseteq> resolve_capabilities [] [] [''audit''] ''ws'' [] None Workspace_Axis None False [] False"
  using token_attenuation [of "\<lparr>au_email = ''a'', au_roles = [''admin''],
      au_auth_method = ''api_token'', au_run_id = None, au_kind = ''service_bound'',
      au_pinned_roles = Some [''audit'']\<rparr>" "[]" "''ws''" "[]" None Workspace_Axis None None False]
  by (simp add: resolve_capabilities_for_def pinned_def)

text \<open>
  Giving a principal more roles never takes a capability away, on any axis and any resource,
  and preloading the roles for a listing decides exactly what the per-resource query decides.
\<close>

theorem resolver_monotone_and_preloadable:
  "(set roles \<subseteq> set roles' \<longrightarrow>
      resolve_capabilities db email roles n l owner a None floor auth managed
        \<subseteq> resolve_capabilities db email roles' n l owner a None floor auth managed)
   \<and> resolve_capabilities db email roles n l owner a (Some (fetch_custom_roles db roles)) floor
        auth managed
      = resolve_capabilities db email roles n l owner a None floor auth managed"
proof (intro conjI impI)
  assume sub: "set roles \<subseteq> set roles'"
  have "granted (custom_roles db None roles) email roles n l owner a floor auth
      \<subseteq> granted (custom_roles db None roles') email roles' n l owner a floor auth"
    using custom_roles_mono [OF sub] sub by (rule granted_mono)
  then show "resolve_capabilities db email roles n l owner a None floor auth managed
      \<subseteq> resolve_capabilities db email roles' n l owner a None floor auth managed"
    using sub granted_subset [of "custom_roles db None roles" email roles n l owner a floor auth]
    by (auto simp: resolve_capabilities_eq split: if_splits)
qed (simp add: resolve_capabilities_eq custom_roles_preloaded)

theorem resolver_monotone_and_preloadable_witness:
  "resolve_capabilities [] ''u'' [''audit''] ''ws'' [] None Pool_Axis None True [] False
     \<subseteq> resolve_capabilities [] ''u'' [''audit'', ''admin''] ''ws'' [] None Pool_Axis None True [] False"
  using resolver_monotone_and_preloadable
    [where roles = "[''audit'']" and roles' = "[''audit'', ''admin'']"] by simp

text \<open>
  The coarse check agrees with the per-role gate: a caller who is not admin is let in iff no
  custom role they hold denies the resource and either the resource is labelled
  \<open>access=everyone\<close> or one of those roles matches it on its own. A deny in one role thus
  overrides the allows of every other role here.
\<close>

theorem check_access_char:
  "check_access db n l roles \<longleftrightarrow>
     ''admin'' \<in> set roles \<or>
     \<not> (\<exists>r \<in> custom_roles db None roles. n \<in> set (deny_names r) \<or> label_hit l (deny_labels r)) \<and>
     (map_of l ''access'' = Some ''everyone'' \<or>
      (\<exists>r \<in> custom_roles db None roles. role_matches r n l))"
proof -
  define rs where "rs = (if set roles - set builtin_role_names = {} then []
    else filter (\<lambda>r. role_name r \<in> set roles - set builtin_role_names) db)"
  have rs: "set rs = custom_roles db None roles"
    by (auto simp: rs_def custom_roles_def is_builtin_role_def)
  have "check_access db n l roles =
      (if ''admin'' \<in> set roles then True
       else if n \<in> foldl (\<lambda>s r. s \<union> set (deny_names r)) {} rs then False
       else if matches_labels l (foldl (\<lambda>t r. merge_labels t (deny_labels r)) [] rs) then False
       else if n \<in> foldl (\<lambda>s r. s \<union> set (allow_names r)) {} rs then True
       else matches_labels l (foldl (\<lambda>t r. merge_labels t (allow_labels r))
              (merge_labels [] [(''access'', Many [''everyone''])]) rs))"
    unfolding check_access_def Let_def rs_def by (rule refl)
  then show ?thesis
    by (simp add: foldl_union foldl_merge_labels merge_labels_distinct rs role_matches_iff
        del: merge_labels.simps) blast
qed

end
