(* ===== verification/Domain.thy ===== *)
theory Domain
  imports Prelude
begin

text \<open>
  The vocabulary of the run service: run statuses with the transition table of
  \<open>services/run_service.py\<close>, the texts and keys the code builds with f-strings, and its exceptions.

  A text that embeds a row id (\<open>f"Superseded by run {id}"\<close>, \<open>f"notif:{run.id}:{trigger}"\<close>) is a
  constructor that carries the same parts, so that two texts are equal iff the strings are. Row ids
  are natural numbers, times are seconds, as integers.
\<close>

section \<open>Run statuses\<close>

datatype run_status =
    Pending | Queued | Planning | Planned | Confirmed | Applying | Canceling
  | Applied | Errored | Discarded | Canceled

definition all_statuses :: "run_status list" where
  "all_statuses = [Pending, Queued, Planning, Planned, Confirmed, Applying, Canceling,
     Applied, Errored, Discarded, Canceled]"

fun status_name :: "run_status \<Rightarrow> string" where
  "status_name Pending = ''pending''"
| "status_name Queued = ''queued''"
| "status_name Planning = ''planning''"
| "status_name Planned = ''planned''"
| "status_name Confirmed = ''confirmed''"
| "status_name Applying = ''applying''"
| "status_name Canceling = ''canceling''"
| "status_name Applied = ''applied''"
| "status_name Errored = ''errored''"
| "status_name Discarded = ''discarded''"
| "status_name Canceled = ''canceled''"

text \<open>A status string sent by a client; \<open>None\<close> is a string that is no status of the machine.\<close>

definition parse_status :: "string \<Rightarrow> run_status option" where
  "parse_status s = find (\<lambda>st. status_name st = s) all_statuses"

fun valid_transitions :: "run_status \<Rightarrow> run_status list" where
  "valid_transitions Pending = [Queued, Canceled, Errored]"
| "valid_transitions Queued = [Planning, Canceled, Errored]"
| "valid_transitions Planning = [Planned, Errored, Canceled]"
| "valid_transitions Planned = [Confirmed, Applied, Discarded, Errored, Canceled]"
| "valid_transitions Confirmed = [Applying, Canceling, Canceled, Errored]"
| "valid_transitions Applying = [Applied, Canceling, Errored]"
| "valid_transitions Canceling = [Canceled, Applied, Errored]"
| "valid_transitions _ = []"

definition terminal_states :: "run_status list" where
  "terminal_states = [Applied, Errored, Discarded, Canceled]"

definition can_transition :: "run_status \<Rightarrow> run_status \<Rightarrow> bool" where
  "can_transition current target =
     (if current \<in> set terminal_states then False else target \<in> set (valid_transitions current))"

definition supersedeable_states :: "run_status list" where
  "supersedeable_states = [Pending, Queued, Planned]"

definition cancelable_states :: "run_status list" where
  "cancelable_states = [Pending, Queued, Planning, Confirmed, Applying]"

definition pre_execution_states :: "run_status list" where
  "pre_execution_states = [Pending, Queued, Planning, Planned, Confirmed]"

text \<open>The statuses the claim query counts as in flight.\<close>

definition in_flight_states :: "run_status list" where
  "in_flight_states = [Planning, Planned, Confirmed, Applying, Canceling]"

lemmas status_sets = terminal_states_def supersedeable_states_def cancelable_states_def
  pre_execution_states_def in_flight_states_def

text \<open>The order of the constructors ranks the statuses along a run's life.\<close>

fun status_rank :: "run_status \<Rightarrow> nat" where
  "status_rank Pending = 0" | "status_rank Queued = 1" | "status_rank Planning = 2"
| "status_rank Planned = 3" | "status_rank Confirmed = 4" | "status_rank Applying = 5"
| "status_rank Canceling = 6" | "status_rank Applied = 7" | "status_rank Errored = 8"
| "status_rank Discarded = 9" | "status_rank Canceled = 10"

instantiation run_status :: linorder
begin

definition less_eq_run_status :: "run_status \<Rightarrow> run_status \<Rightarrow> bool" where
  "less_eq_run_status s t = (status_rank s \<le> status_rank t)"

definition less_run_status :: "run_status \<Rightarrow> run_status \<Rightarrow> bool" where
  "less_run_status s t = (status_rank s < status_rank t)"

instance
proof
  fix s t u :: run_status
  show "s < t \<longleftrightarrow> s \<le> t \<and> \<not> t \<le> s" by (auto simp: less_eq_run_status_def less_run_status_def)
  show "s \<le> s" by (simp add: less_eq_run_status_def)
  show "s \<le> t \<Longrightarrow> t \<le> u \<Longrightarrow> s \<le> u" by (simp add: less_eq_run_status_def)
  show "s \<le> t \<Longrightarrow> t \<le> s \<Longrightarrow> s = t"
    by (cases s; cases t) (simp_all add: less_eq_run_status_def)
  show "s \<le> t \<or> t \<le> s" by (auto simp: less_eq_run_status_def)
qed

end

lemmas status_order = less_eq_run_status_def less_run_status_def

lemma terminal_iff: "s \<in> set terminal_states \<longleftrightarrow> Applied \<le> s"
  by (cases s) (simp_all add: terminal_states_def status_order)

lemma terminal_no_transition: "s \<in> set terminal_states \<Longrightarrow> \<not> can_transition s t"
  by (simp add: can_transition_def)

lemma can_transition_iff: "can_transition s t \<longleftrightarrow> t \<in> set (valid_transitions s)"
  by (cases s) (simp_all add: can_transition_def terminal_states_def)

lemma can_transition_less: "can_transition s t \<Longrightarrow> s < t"
  by (cases s) (auto simp: can_transition_iff status_order)

lemma no_transition_to_Pending [simp]: "\<not> can_transition s Pending"
  by (cases s) (simp_all add: can_transition_iff)

lemma to_Queued [simp]: "can_transition s Queued \<longleftrightarrow> s = Pending"
  by (cases s) (simp_all add: can_transition_iff)

lemma to_Planning [simp]: "can_transition s Planning \<longleftrightarrow> s = Queued"
  by (cases s) (simp_all add: can_transition_iff)

lemma to_Planned [simp]: "can_transition s Planned \<longleftrightarrow> s = Planning"
  by (cases s) (simp_all add: can_transition_iff)

lemma to_Confirmed [simp]: "can_transition s Confirmed \<longleftrightarrow> s = Planned"
  by (cases s) (simp_all add: can_transition_iff)

lemma to_Applying [simp]: "can_transition s Applying \<longleftrightarrow> s = Confirmed"
  by (cases s) (simp_all add: can_transition_iff)

lemma to_Discarded [simp]: "can_transition s Discarded \<longleftrightarrow> s = Planned"
  by (cases s) (simp_all add: can_transition_iff)

lemma to_Errored [simp]: "can_transition s Errored \<longleftrightarrow> s < Applied"
  by (cases s) (simp_all add: can_transition_iff status_order)

lemma to_Canceled [simp]: "can_transition s Canceled \<longleftrightarrow> s < Applied \<and> s \<noteq> Applying"
  by (cases s) (simp_all add: can_transition_iff status_order)

lemma to_Applied [simp]: "can_transition s Applied \<longleftrightarrow> s \<in> {Planned, Applying, Canceling}"
  by (cases s) (simp_all add: can_transition_iff)

lemma to_Canceling [simp]: "can_transition s Canceling \<longleftrightarrow> s \<in> {Confirmed, Applying}"
  by (cases s) (simp_all add: can_transition_iff)

text \<open>A transition into the in-flight window starts at \<open>Queued\<close> or within it.\<close>

lemma enter_flight:
  "can_transition s t \<Longrightarrow> t \<in> set in_flight_states \<Longrightarrow>
   s \<in> set in_flight_states \<or> s = Queued \<and> t = Planning"
  by (cases s) (auto simp: can_transition_iff in_flight_states_def)

lemma parse_status_iff: "parse_status s = Some st \<longleftrightarrow> s = status_name st"
proof
  assume "parse_status s = Some st"
  then show "s = status_name st" by (auto simp: parse_status_def find_Some_iff)
next
  assume "s = status_name st"
  then show "parse_status s = Some st" by (cases st) (simp_all add: parse_status_def all_statuses_def)
qed

section \<open>Formatted texts\<close>

text \<open>
  The human-readable columns of a run and a workspace (\<open>message\<close>, \<open>discard_reason\<close>,
  \<open>vcs_apply_blocked_reason\<close>, \<open>lifecycle_reason\<close>): a literal or the f-string it was built by.
\<close>

datatype remark =
    Text string
  | Superseded_By nat
  | State_Changed int int
  | Plan_Expired int
  | Pr_Superseded int
  | Triggered_By "nat + string"
  | Retry_Of nat
  | Webhook_Http nat string
  | Webhook_Failed string

text \<open>Python truth of a text: a formatted text is never empty.\<close>

fun remark_truthy :: "remark \<Rightarrow> bool" where
  "remark_truthy (Text s) = (s \<noteq> [])"
| "remark_truthy _ = True"

text \<open>The reasons the reconciler formats for a failed run.\<close>

datatype failure =
    Message string
  | Post_Plan_Stage_Failed
  | Canceled_Mid_Apply string
  | Oom_With_Peak int string
  | Oom_No_Peak string
  | Runner_Killed
  | Runner_Exit_Code int
  | Job_Ended string
  | Unschedulable int string string
  | Drift_Cap_Exceeded int
  | Stuck_Pre_Launch int
  | Stale_Run int

fun failure_truthy :: "failure \<Rightarrow> bool" where
  "failure_truthy (Message s) = (s \<noteq> [])"
| "failure_truthy _ = True"

section \<open>Exceptions\<close>

datatype exn =
    Invalid_Transition run_status "run_status option"
  | Not_Confirmable run_status
  | Workspace_Locked "string option"
  | Stale_Plan remark
  | Not_Discardable run_status
  | Not_Cancelable run_status
  | Invalid_Stage string
  | Not_Overridable
  | Apply_Blocked string
  | Redis_Error
  | Storage_Error
  | Integrity_Error
  | Data_Error
  | Crypto_Failed
  | Http nat
  | Missing_Row nat
  | Multiple_Rows
  | Regex_Error
  | Format_Error
  | Name_Collision string

text \<open>The exceptions that are Python \<open>ValueError\<close>s.\<close>

fun value_error :: "exn \<Rightarrow> bool" where
  "value_error (Invalid_Transition _ _) = True"
| "value_error (Not_Confirmable _) = True"
| "value_error (Workspace_Locked _) = True"
| "value_error (Stale_Plan _) = True"
| "value_error (Not_Discardable _) = True"
| "value_error (Not_Cancelable _) = True"
| "value_error (Invalid_Stage _) = True"
| "value_error Not_Overridable = True"
| "value_error _ = False"

end
