(* ===== verification/Scheduler.thy ===== *)
theory Scheduler
  imports Domain
begin

text \<open>
  Redis as the services use it (\<open>services/terrapod/redis/client.py\<close>) and the distributed scheduler
  on top of it (\<open>services/scheduler.py\<close>): periodic claims, the de-duplicated trigger queue and its
  consumer.

  Every command may fail: \<open>faults r n\<close> says that the \<open>n\<close>-th command of the history raises, for any
  pattern of failures. A value carries its expiry in microseconds, which is also the unit of the
  clock passed as \<open>now\<close>. Keys are the constructors of \<open>rkey\<close>, one per key format of the code.
\<close>

section \<open>The store\<close>

datatype dedup_key =
    D_Notif nat string | D_Vcs_Status nat run_status | D_Modtest nat run_status
  | D_Aisum nat string | D_Drift nat | D_Slack nat string | D_Vcs_Apply nat | D_Run_Task nat
  | D_Named string

datatype rkey =
    Job_Status nat string | Claim_Key string | Running_Key string | Last_Key string
  | Trigger_Key dedup_key | Log_Stream nat string

datatype payload =
    Trigger_Payload nat nat string
  | Vcs_Status_Payload nat nat run_status "bool option"
  | Module_Test_Payload nat run_status
  | Summary_Payload nat string
  | Run_Payload nat nat
  | Vcs_Apply_Payload nat nat int
  | Task_Payload nat
  | Other_Payload string

record trigger_item =
  ti_type :: string
  ti_payload :: payload
  ti_dedup :: "dedup_key option"
  ti_at :: int

datatype channel = Run_Events nat | Admin_Events | Workspace_List_Events | Listener_Events nat

datatype event =
    Run_Status_Change nat nat "run_status option" run_status
  | Run_Available nat
  | Cancel_Job nat string
  | Check_Job_Status nat string string string
  | Stream_Logs nat string string string
  | Workspace_Event nat string
  | Drift_Status_Change nat string

datatype rvalue = Str string | Stamp int

record redis =
  faults :: "nat \<Rightarrow> bool"
  calls :: nat
  kv :: "rkey \<Rightarrow> (rvalue \<times> int option) option"
  rqueue :: "trigger_item list"
  published :: "(channel \<times> event) list"

definition seconds :: "int \<Rightarrow> int" where
  "seconds n = n * 1000000"

definition redis_command :: "(redis \<Rightarrow> 'a \<times> redis) \<Rightarrow> redis \<Rightarrow> (exn, 'a, redis) res" where
  "redis_command f r =
     (let r' = r\<lparr>calls := Suc (calls r)\<rparr> in
      if faults r (calls r) then Raise Redis_Error r' else (case f r' of (a, r'') \<Rightarrow> Ret a r''))"

definition lookup_key :: "rkey \<Rightarrow> int \<Rightarrow> redis \<Rightarrow> rvalue option" where
  "lookup_key k now r =
     (case kv r k of None \<Rightarrow> None
      | Some (v, None) \<Rightarrow> Some v
      | Some (v, Some e) \<Rightarrow> if now < e then Some v else None)"

definition redis_get :: "rkey \<Rightarrow> int \<Rightarrow> redis \<Rightarrow> (exn, rvalue option, redis) res" where
  "redis_get k now = redis_command (\<lambda>r. (lookup_key k now r, r))"

definition redis_exists :: "rkey \<Rightarrow> int \<Rightarrow> redis \<Rightarrow> (exn, bool, redis) res" where
  "redis_exists k now = redis_command (\<lambda>r. (lookup_key k now r \<noteq> None, r))"

definition redis_set :: "rkey \<Rightarrow> rvalue \<Rightarrow> int option \<Rightarrow> redis \<Rightarrow> (exn, unit, redis) res" where
  "redis_set k v e = redis_command (\<lambda>r. ((), r\<lparr>kv := (kv r)(k \<mapsto> (v, e))\<rparr>))"

definition redis_set_nx ::
    "rkey \<Rightarrow> rvalue \<Rightarrow> int \<Rightarrow> int \<Rightarrow> redis \<Rightarrow> (exn, bool, redis) res" where
  "redis_set_nx k v ttl now = redis_command (\<lambda>r.
     if lookup_key k now r \<noteq> None then (False, r)
     else (True, r\<lparr>kv := (kv r)(k \<mapsto> (v, Some (now + seconds ttl)))\<rparr>))"

definition redis_delete :: "rkey \<Rightarrow> redis \<Rightarrow> (exn, unit, redis) res" where
  "redis_delete k = redis_command (\<lambda>r. ((), r\<lparr>kv := (kv r)(k := None)\<rparr>))"

definition redis_lpush :: "trigger_item \<Rightarrow> redis \<Rightarrow> (exn, unit, redis) res" where
  "redis_lpush it = redis_command (\<lambda>r. ((), r\<lparr>rqueue := it # rqueue r\<rparr>))"

definition redis_brpop :: "redis \<Rightarrow> (exn, trigger_item option, redis) res" where
  "redis_brpop = redis_command (\<lambda>r.
     if rqueue r = [] then (None, r)
     else (Some (last (rqueue r)), r\<lparr>rqueue := butlast (rqueue r)\<rparr>))"

section \<open>Client helpers\<close>

definition publish_event :: "channel \<Rightarrow> event \<Rightarrow> redis \<Rightarrow> (exn, unit, redis) res" where
  "publish_event ch ev = redis_command (\<lambda>r. ((), r\<lparr>published := published r @ [(ch, ev)]\<rparr>))"

definition publish_listener_event :: "nat \<Rightarrow> event \<Rightarrow> redis \<Rightarrow> (exn, unit, redis) res" where
  "publish_listener_event pool_id ev = publish_event (Listener_Events pool_id) ev"

definition set_job_status ::
    "nat \<Rightarrow> string \<Rightarrow> string \<Rightarrow> int \<Rightarrow> redis \<Rightarrow> (exn, unit, redis) res" where
  "set_job_status run_id phase status now =
     redis_set (Job_Status run_id phase) (Str status) (Some (now + seconds 120))"

definition get_job_status ::
    "nat \<Rightarrow> string \<Rightarrow> int \<Rightarrow> redis \<Rightarrow> (exn, string option, redis) res" where
  "get_job_status run_id phase now r =
     bind_res (redis_get (Job_Status run_id phase) now r) (\<lambda>data r1.
       Ret (case data of Some (Str status) \<Rightarrow> Some status | _ \<Rightarrow> None) r1)"

definition delete_job_status :: "nat \<Rightarrow> string \<Rightarrow> redis \<Rightarrow> (exn, unit, redis) res" where
  "delete_job_status run_id phase = redis_delete (Job_Status run_id phase)"

section \<open>Periodic tasks\<close>

definition try_claim_periodic ::
    "string \<Rightarrow> int \<Rightarrow> int \<Rightarrow> redis \<Rightarrow> (exn, bool, redis) res" where
  "try_claim_periodic name interval now r =
     bind_res (redis_exists (Running_Key name) now r) (\<lambda>running r1.
       if running then Ret False r1
       else bind_res (redis_set_nx (Claim_Key name) (Stamp now) interval now r1) (\<lambda>claimed r2.
         if \<not> claimed then Ret False r2
         else bind_res (redis_set (Running_Key name) (Stamp now) (Some (now + seconds (interval * 3))) r2)
           (\<lambda>_ r3. Ret True r3)))"

definition mark_completed :: "string \<Rightarrow> int \<Rightarrow> redis \<Rightarrow> (exn, unit, redis) res" where
  "mark_completed name now r =
     bind_res (redis_delete (Running_Key name) r)
       (\<lambda>_ r1. redis_set (Last_Key name) (Stamp now) None r1)"

definition get_last_run :: "string \<Rightarrow> int \<Rightarrow> redis \<Rightarrow> (exn, int option, redis) res" where
  "get_last_run name now r =
     bind_res (redis_get (Last_Key name) now r) (\<lambda>v r1.
       Ret (case v of Some (Stamp t) \<Rightarrow> Some t | _ \<Rightarrow> None) r1)"

section \<open>Triggered tasks\<close>

definition enqueue_trigger ::
    "string \<Rightarrow> payload \<Rightarrow> dedup_key option \<Rightarrow> int \<Rightarrow> int \<Rightarrow> redis \<Rightarrow> (exn, bool, redis) res" where
  "enqueue_trigger trigger_type payload dedup dedup_ttl now r =
     (let item = \<lparr>ti_type = trigger_type, ti_payload = payload, ti_dedup = dedup, ti_at = now\<rparr>;
          push = (\<lambda>r. bind_res (redis_lpush item r) (\<lambda>_ r1. Ret True r1))
      in case dedup of
           None \<Rightarrow> push r
         | Some k \<Rightarrow>
             bind_res (redis_set_nx (Trigger_Key k) (Str ''1'') dedup_ttl now r) (\<lambda>added r1.
               if \<not> added then Ret False r1 else push r1))"

definition clear_dedup :: "dedup_key option \<Rightarrow> redis \<Rightarrow> (exn, unit, redis) res" where
  "clear_dedup dedup r =
     (case dedup of None \<Rightarrow> Ret () r | Some k \<Rightarrow> redis_delete (Trigger_Key k) r)"

text \<open>
  One turn of the trigger consumer. A handler is a function on the store; its exception is caught
  and logged, and the de-duplication key is cleared in either case. The exceptions of the turn
  itself (the pop, the clearing) are caught by the loop.
\<close>

definition consume_trigger ::
    "(string \<Rightarrow> (payload \<Rightarrow> redis \<Rightarrow> (exn, unit, redis) res) option) \<Rightarrow> redis \<Rightarrow> redis" where
  "consume_trigger handlers r =
     res_state
       (bind_res (redis_brpop r) (\<lambda>popped r1.
          case popped of
            None \<Rightarrow> Ret () r1
          | Some item \<Rightarrow>
              let r2 = (case handlers (ti_type item) of
                          Some h \<Rightarrow> res_state (h (ti_payload item) r1)
                        | None \<Rightarrow> r1)
              in clear_dedup (ti_dedup item) r2))"

text \<open>Best effort: the exception is swallowed, what the command did before it stays.\<close>

definition attempt :: "(redis \<Rightarrow> (exn, 'a, redis) res) \<Rightarrow> redis \<Rightarrow> redis" where
  "attempt f r = res_state (f r)"

section \<open>Single commands\<close>

lemma redis_command_Ret [res_simps]:
  "redis_command f r = Ret a r' \<longleftrightarrow>
     \<not> faults r (calls r) \<and> f (r\<lparr>calls := Suc (calls r)\<rparr>) = (a, r')"
  by (auto simp: redis_command_def Let_def split: prod.splits)

lemma redis_command_Raise [res_simps]:
  "redis_command f r = Raise e r' \<longleftrightarrow>
     faults r (calls r) \<and> e = Redis_Error \<and> r' = r\<lparr>calls := Suc (calls r)\<rparr>"
  by (auto simp: redis_command_def Let_def split: prod.splits)

lemmas redis_ops = redis_get_def redis_exists_def redis_set_def redis_set_nx_def redis_delete_def
  redis_lpush_def redis_brpop_def

text \<open>A key holds until it expires, and what a write leaves in a key is its own value or the old one.\<close>

definition held_until :: "rkey \<Rightarrow> int \<Rightarrow> redis \<Rightarrow> bool" where
  "held_until k e r = (case kv r k of Some (v, None) \<Rightarrow> True | Some (v, Some e') \<Rightarrow> e \<le> e' | None \<Rightarrow> False)"

lemma held_live: "held_until k e r \<Longrightarrow> now < e \<Longrightarrow> lookup_key k now r \<noteq> None"
  by (auto simp: held_until_def lookup_key_def split: option.splits prod.splits)

lemma lookup_calls [simp]: "lookup_key k now (r\<lparr>calls := c\<rparr>) = lookup_key k now r"
  by (simp add: lookup_key_def)

lemma held_calls [simp]: "held_until k e (r\<lparr>calls := c\<rparr>) = held_until k e r"
  by (simp add: held_until_def)

section \<open>Claims are an interval apart\<close>

text \<open>
  A history of one periodic task: attempts to claim it and completions, by any replica. Its
  successful claims are the executions of the task.
\<close>

datatype task_op = Try_Claim int | Complete int

fun op_time :: "task_op \<Rightarrow> int" where
  "op_time (Try_Claim t) = t" | "op_time (Complete t) = t"

fun claim_times :: "string \<Rightarrow> int \<Rightarrow> task_op list \<Rightarrow> redis \<Rightarrow> int list" where
  "claim_times name interval [] r = []"
| "claim_times name interval (Try_Claim t # ops) r =
     (case try_claim_periodic name interval t r of
        Ret True r' \<Rightarrow> t # claim_times name interval ops r'
      | Ret False r' \<Rightarrow> claim_times name interval ops r'
      | Raise _ r' \<Rightarrow> claim_times name interval ops r')"
| "claim_times name interval (Complete t # ops) r =
     claim_times name interval ops (res_state (mark_completed name t r))"

lemma mark_completed_claim [simp]:
  "held_until (Claim_Key name) e (res_state (mark_completed name t r)) = held_until (Claim_Key name) e r"
  by (auto simp: mark_completed_def redis_ops redis_command_def held_until_def Let_def)

lemma try_claim_success:
  "try_claim_periodic name interval t r = Ret True r' \<Longrightarrow>
   lookup_key (Claim_Key name) t r = None \<and> lookup_key (Running_Key name) t r = None \<and>
   held_until (Claim_Key name) (t + seconds interval) r' \<and>
   held_until (Running_Key name) (t + seconds (interval * 3)) r'"
  by (auto simp: try_claim_periodic_def redis_ops res_simps held_until_def lookup_key_def
      split: if_splits)

lemma try_claim_keeps:
  "0 \<le> interval \<Longrightarrow> held_until (Claim_Key name) e r \<Longrightarrow>
   held_until (Claim_Key name) e (res_state (try_claim_periodic name interval t r))"
  using held_live [of "Claim_Key name" e r t]
  by (force simp: try_claim_periodic_def redis_ops redis_command_def held_until_def Let_def seconds_def
      lookup_key_def split: option.splits prod.splits)

lemma claims_after_expiry:
  assumes "0 \<le> interval" and "sorted (map op_time ops)" and "held_until (Claim_Key name) e r"
    and "t \<in> set (claim_times name interval ops r)"
  shows "e \<le> t"
  using assms
proof (induction name interval ops r rule: claim_times.induct)
  case (2 name interval now ops r)
  let ?m = "try_claim_periodic name interval now r"
  from 2 have held: "held_until (Claim_Key name) e (res_state ?m)"
    by (simp add: try_claim_keeps)
  show ?case
  proof (cases ?m)
    case (Ret b r')
    with 2 held show ?thesis
      using try_claim_success [of name interval now r r'] held_live [of "Claim_Key name" e r now]
      by (cases b) (auto, force)
  next
    case (Raise x r')
    with 2 held show ?thesis by simp
  qed
qed auto

section \<open>Triggers\<close>

lemma enqueue_success:
  "enqueue_trigger ty pl (Some k) ttl now r = Ret True r' \<Longrightarrow>
   rqueue r' = \<lparr>ti_type = ty, ti_payload = pl, ti_dedup = Some k, ti_at = now\<rparr> # rqueue r
   \<and> kv r' = (kv r)(Trigger_Key k \<mapsto> (Str ''1'', Some (now + seconds ttl)))
   \<and> lookup_key (Trigger_Key k) now r = None"
  by (auto simp: enqueue_trigger_def redis_ops res_simps split: if_splits)

lemma enqueue_suppressed:
  "enqueue_trigger ty pl (Some k) ttl now r = Ret False r' \<Longrightarrow>
   rqueue r' = rqueue r \<and> kv r' = kv r \<and> lookup_key (Trigger_Key k) now r \<noteq> None"
  by (auto simp: enqueue_trigger_def redis_ops res_simps split: if_splits)

lemma enqueue_live_suppressed:
  "lookup_key (Trigger_Key k) now r \<noteq> None \<Longrightarrow>
   rqueue (res_state (enqueue_trigger ty pl (Some k) ttl now r)) = rqueue r"
  by (auto simp: enqueue_trigger_def redis_ops redis_command_def Let_def)

lemma enqueue_kv_other:
  "dedup \<noteq> Some k \<Longrightarrow>
   kv (res_state (enqueue_trigger ty pl dedup ttl now r)) (Trigger_Key k) = kv r (Trigger_Key k)"
  by (auto simp: enqueue_trigger_def redis_ops redis_command_def Let_def split: option.splits)

section \<open>Properties\<close>

text \<open>
  C21: whatever the replicas do and whichever Redis commands fail, two executions of one periodic
  task start at least one interval apart.
\<close>

theorem claims_an_interval_apart:
  assumes "0 \<le> interval" and "sorted (map op_time ops)"
  shows "sorted_wrt (\<lambda>s t. s + seconds interval \<le> t) (claim_times name interval ops r)"
  using assms
proof (induction name interval ops r rule: claim_times.induct)
  case (2 name interval now ops r)
  show ?case
  proof (cases "try_claim_periodic name interval now r")
    case (Ret b r')
    with 2 show ?thesis
      using try_claim_success [of name interval now r r']
        claims_after_expiry [of interval ops name "now + seconds interval" r']
      by (cases b) auto
  next
    case (Raise x r')
    with 2 show ?thesis by simp
  qed
qed auto

definition empty_redis :: redis where
  "empty_redis = \<lparr>faults = (\<lambda>_. False), calls = 0, kv = (\<lambda>_. None), rqueue = [], published = []\<rparr>"

theorem claims_an_interval_apart_witness:
  "sorted_wrt (\<lambda>s t. s + seconds 2 \<le> t)
     (claim_times ''reconcile'' 2
       [Try_Claim 0, Try_Claim 1, Complete 5, Try_Claim 2000000] empty_redis)"
  by (rule claims_an_interval_apart) simp_all

text \<open>
  A trigger is queued at most once while it is pending. After an enqueue with a de-duplication
  key, a second one with the same key adds nothing until the key expires or the consumer clears it,
  whatever the first returned, unless Redis failed on the first command.
\<close>

theorem enqueue_deduplicates:
  assumes "r1 = res_state (enqueue_trigger ty pl (Some k) ttl now r)"
    and "\<not> faults r (calls r)" and "0 < ttl" and "now \<le> now'"
    and "now' < now + seconds ttl" and "lookup_key (Trigger_Key k) now r = None"
  shows "rqueue (res_state (enqueue_trigger ty' pl' (Some k) ttl' now' r1)) = rqueue r1
    \<and> length (rqueue r1) \<le> Suc (length (rqueue r))"
proof
  from assms have "lookup_key (Trigger_Key k) now' r1 \<noteq> None"
    by (auto simp: enqueue_trigger_def redis_ops redis_command_def Let_def lookup_key_def)
  then show "rqueue (res_state (enqueue_trigger ty' pl' (Some k) ttl' now' r1)) = rqueue r1"
    by (rule enqueue_live_suppressed)
  show "length (rqueue r1) \<le> Suc (length (rqueue r))"
    by (auto simp: assms(1) enqueue_trigger_def redis_ops redis_command_def Let_def)
qed

theorem enqueue_deduplicates_witness:
  "length (rqueue (res_state (enqueue_trigger ''t'' (Task_Payload 1) (Some (D_Run_Task 1)) 300 5
     (res_state (enqueue_trigger ''t'' (Task_Payload 1) (Some (D_Run_Task 1)) 300 0 empty_redis))))) = 1"
proof -
  have "rqueue (res_state (enqueue_trigger ''t'' (Task_Payload 1) (Some (D_Run_Task 1)) 300 5
     (res_state (enqueue_trigger ''t'' (Task_Payload 1) (Some (D_Run_Task 1)) 300 0 empty_redis))))
     = rqueue (res_state (enqueue_trigger ''t'' (Task_Payload 1) (Some (D_Run_Task 1)) 300 0 empty_redis))"
    by (rule enqueue_deduplicates [where now = 0 and r = empty_redis and ttl = 300 and k = "D_Run_Task 1",
        THEN conjunct1])
      (simp_all add: empty_redis_def seconds_def lookup_key_def)
  then show ?thesis
    by (simp add: enqueue_trigger_def redis_ops redis_command_def empty_redis_def lookup_key_def Let_def)
qed

text \<open>
  The gap in that contract. When the push fails after the key was set, the key stays although
  nothing is queued, so every retry within the key's life reports a duplicate and queues nothing.
\<close>

theorem failed_push_blocks_retries:
  assumes "\<not> faults r (calls r)" and "faults r (Suc (calls r))"
    and "lookup_key (Trigger_Key k) now r = None"
    and "enqueue_trigger ty pl (Some k) ttl now r = x" and "now' < now + seconds ttl"
  shows "\<exists>r1. x = Raise Redis_Error r1 \<and> rqueue r1 = rqueue r \<and>
    (\<forall>r2. enqueue_trigger ty pl (Some k) ttl now' r1 \<noteq> Ret True r2) \<and>
    rqueue (res_state (enqueue_trigger ty pl (Some k) ttl now' r1)) = rqueue r"
  using assms
  by (auto simp: enqueue_trigger_def redis_ops redis_command_def Let_def lookup_key_def)

theorem failed_push_blocks_retries_witness:
  "\<exists>r1. enqueue_trigger ''t'' (Task_Payload 1) (Some (D_Run_Task 1)) 300 0
        (empty_redis\<lparr>faults := (\<lambda>n. n = 1)\<rparr>) = Raise Redis_Error r1
     \<and> rqueue (res_state (enqueue_trigger ''t'' (Task_Payload 1) (Some (D_Run_Task 1)) 300 60000000 r1)) = []"
  using failed_push_blocks_retries [of "empty_redis\<lparr>faults := (\<lambda>n. n = 1)\<rparr>" "D_Run_Task 1" 0 "''t''"
      "Task_Payload 1" 300 _ 60000000, OF _ _ _ refl]
  by (auto simp: empty_redis_def seconds_def lookup_key_def)

text \<open>Handling a trigger clears its key even when the handler raises.\<close>

lemma consumed_key_cleared:
  assumes "rqueue r \<noteq> []" and "last (rqueue r) = item" and "ti_dedup item = Some k"
    and "\<And>n. \<not> faults r n"
    and "\<And>h r1. handlers (ti_type item) = Some h \<Longrightarrow>
           faults (res_state (h (ti_payload item) r1)) = faults r1"
  shows "kv (consume_trigger handlers r) (Trigger_Key k) = None"
  using assms
  by (auto simp: consume_trigger_def redis_ops redis_command_def clear_dedup_def Let_def
      split: option.splits)

end
