(* ===== verification/Database.thy ===== *)
theory Database
  imports Rbac Scheduler
begin

text \<open>
  The rows the services read and write (\<open>services/terrapod/db/models.py\<close>), the \<open>world\<close> that holds
  the tables with the clock and the Redis store, and what one handler may touch of it.

  A run's columns that are set when it is created and never written afterwards are grouped in
  \<open>run_config\<close>; a workspace's settings are grouped in \<open>ws_config\<close>. A handler is one transaction: it
  reads and writes the tables of the world it is given. Rows are numbered in creation order by
  \<open>next_id\<close>; a query without \<open>ORDER BY\<close> returns rows in that order. The clock stands still during a
  handler and is in microseconds.
\<close>

section \<open>Rows\<close>

record run_config =
  rc_workspace :: nat
  rc_cv :: "nat option"
  rc_is_destroy :: bool
  rc_auto_apply :: bool
  rc_plan_only :: bool
  rc_source :: string
  rc_backend :: string
  rc_version :: string
  rc_tg_enabled :: bool
  rc_tg_version :: string
  rc_cpu :: string
  rc_memory :: string
  rc_pool :: "nat option"
  rc_created_by :: string
  rc_is_drift :: bool
  rc_targets :: "string list option"
  rc_replaces :: "string list option"
  rc_refresh_only :: bool
  rc_refresh :: bool
  rc_allow_empty :: bool
  rc_created_at :: int
  rc_vcs_sha :: string
  rc_vcs_branch :: string
  rc_pr :: "int option"
  rc_overrides :: "(string \<times> string) list option"

record run =
  config :: run_config
  status :: run_status
  message :: remark
  error_message :: failure
  discard_reason :: "remark option"
  listener_id :: "nat option"
  job_name :: "string option"
  job_namespace :: "string option"
  has_changes :: "bool option"
  plan_started_at :: "int option"
  plan_finished_at :: "int option"
  plan_state_serial :: "int option"
  apply_started_at :: "int option"
  apply_finished_at :: "int option"
  vcs_apply_blocked_reason :: "remark option"
  runner_exit_code :: "int option"
  runner_exit_reason :: string
  runner_exit_status :: string
  peak_memory_bytes :: "int option"

record ws_config =
  ws_name :: string
  ws_labels :: resource_labels
  ws_owner_email :: string
  ws_execution_mode :: string
  ws_auto_apply :: bool
  ws_backend :: string
  ws_version :: string
  ws_tg_enabled :: bool
  ws_tg_version :: string
  ws_cpu :: string
  ws_memory :: string
  ws_pool :: "nat option"
  ws_vcs_connection :: "nat option"
  ws_vcs_repo_url :: string
  ws_vcs_workflow :: string
  ws_plan_expiry :: "int option"
  ws_drift_enabled :: bool
  ws_drift_interval :: int
  ws_drift_rules :: "string list"
  ws_catalog_item :: "nat option"

record workspace =
  settings :: ws_config
  locked :: bool
  lock_id :: "string option"
  state_diverged :: bool
  drift_status :: string
  drift_last_checked_at :: "int option"
  drift_latest_run_id :: "nat option"
  lifecycle_state :: string
  lifecycle_reason :: remark

record state_version =
  sv_workspace :: nat
  sv_serial :: int
  sv_lineage :: string
  sv_md5 :: string
  sv_sha256 :: string
  sv_size :: int
  sv_run :: "nat option"
  sv_created_by :: "string option"
  sv_created_at :: int

record config_version =
  cv_workspace :: nat
  cv_source :: string
  cv_status :: string
  cv_auto_queue :: bool
  cv_speculative :: bool
  cv_created_at :: int

record trigger_row =
  tr_source :: nat
  tr_workspace :: nat

record run_task =
  task_workspace :: nat
  task_stage_name :: string
  task_enabled :: bool
  task_enforcement :: string

record task_stage =
  stage_run :: nat
  stage_name :: string
  stage_status :: string
  stage_created_at :: int

record task_result =
  res_stage :: nat
  res_task :: "nat option"
  res_status :: string
  res_message :: remark
  res_token :: string
  res_started_at :: "int option"
  res_finished_at :: "int option"

record policy_set =
  ps_name :: string
  ps_enforcement :: string
  ps_enabled :: bool
  ps_global :: bool
  ps_allow_labels :: label_rules
  ps_allow_names :: "string list"
  ps_deny_labels :: label_rules
  ps_deny_names :: "string list"

record policy_evaluation =
  pe_run :: nat
  pe_set :: "nat option"
  pe_set_name :: string
  pe_enforcement :: string
  pe_outcome :: string
  pe_overridden_by :: "string option"
  pe_overridden_at :: "int option"
  pe_created_at :: int

record vcs_connection =
  vc_provider :: string
  vc_status :: string

section \<open>The world\<close>

record world =
  runs :: "run table"
  workspaces :: "workspace table"
  state_versions :: "state_version table"
  config_versions :: "config_version table"
  run_triggers :: "trigger_row table"
  run_tasks :: "run_task table"
  task_stages :: "task_stage table"
  task_results :: "task_result table"
  policy_sets :: "policy_set table"
  policy_evaluations :: "policy_evaluation table"
  vcs_connections :: "vcs_connection table"
  next_id :: nat
  now :: int
  store :: redis

type_synonym 'a handler = "world \<Rightarrow> (exn, 'a, world) res"

definition put_run :: "nat \<Rightarrow> (run \<Rightarrow> run) \<Rightarrow> world \<Rightarrow> world" where
  "put_run i f w = w\<lparr>runs := modify i f (runs w)\<rparr>"

definition put_ws :: "nat \<Rightarrow> (workspace \<Rightarrow> workspace) \<Rightarrow> world \<Rightarrow> world" where
  "put_ws i f w = w\<lparr>workspaces := modify i f (workspaces w)\<rparr>"

definition put_stage :: "nat \<Rightarrow> (task_stage \<Rightarrow> task_stage) \<Rightarrow> world \<Rightarrow> world" where
  "put_stage i f w = w\<lparr>task_stages := modify i f (task_stages w)\<rparr>"

definition put_result :: "nat \<Rightarrow> (task_result \<Rightarrow> task_result) \<Rightarrow> world \<Rightarrow> world" where
  "put_result i f w = w\<lparr>task_results := modify i f (task_results w)\<rparr>"

definition put_evaluation ::
    "nat \<Rightarrow> (policy_evaluation \<Rightarrow> policy_evaluation) \<Rightarrow> world \<Rightarrow> world" where
  "put_evaluation i f w = w\<lparr>policy_evaluations := modify i f (policy_evaluations w)\<rparr>"

definition put_cv :: "nat \<Rightarrow> (config_version \<Rightarrow> config_version) \<Rightarrow> world \<Rightarrow> world" where
  "put_cv i f w = w\<lparr>config_versions := modify i f (config_versions w)\<rparr>"

definition add_run :: "run \<Rightarrow> world \<Rightarrow> world" where
  "add_run r w = w\<lparr>runs := (runs w)(next_id w \<mapsto> r), next_id := Suc (next_id w)\<rparr>"

definition add_stage :: "task_stage \<Rightarrow> world \<Rightarrow> world" where
  "add_stage s w = w\<lparr>task_stages := (task_stages w)(next_id w \<mapsto> s), next_id := Suc (next_id w)\<rparr>"

definition add_result :: "task_result \<Rightarrow> world \<Rightarrow> world" where
  "add_result r w = w\<lparr>task_results := (task_results w)(next_id w \<mapsto> r), next_id := Suc (next_id w)\<rparr>"

definition add_evaluation :: "policy_evaluation \<Rightarrow> world \<Rightarrow> world" where
  "add_evaluation e w =
     w\<lparr>policy_evaluations := (policy_evaluations w)(next_id w \<mapsto> e), next_id := Suc (next_id w)\<rparr>"

definition add_state_version :: "state_version \<Rightarrow> world \<Rightarrow> world" where
  "add_state_version s w =
     w\<lparr>state_versions := (state_versions w)(next_id w \<mapsto> s), next_id := Suc (next_id w)\<rparr>"

definition add_cv :: "config_version \<Rightarrow> world \<Rightarrow> world" where
  "add_cv c w = w\<lparr>config_versions := (config_versions w)(next_id w \<mapsto> c), next_id := Suc (next_id w)\<rparr>"

text \<open>Redis from within a handler: with its exception, or best effort.\<close>

definition redis_do :: "(redis \<Rightarrow> (exn, 'a, redis) res) \<Rightarrow> 'a handler" where
  "redis_do f w =
     (case f (store w) of Ret a s \<Rightarrow> Ret a (w\<lparr>store := s\<rparr>) | Raise e s \<Rightarrow> Raise e (w\<lparr>store := s\<rparr>))"

definition redis_try :: "(redis \<Rightarrow> (exn, 'a, redis) res) \<Rightarrow> world \<Rightarrow> world" where
  "redis_try f w = w\<lparr>store := attempt f (store w)\<rparr>"

definition select_runs :: "world \<Rightarrow> (nat \<Rightarrow> run \<Rightarrow> bool) \<Rightarrow> nat list" where
  "select_runs w p = select (next_id w) (runs w) p"

text \<open>Shorthand for the immutable columns.\<close>

abbreviation workspace_id :: "run \<Rightarrow> nat" where "workspace_id r \<equiv> rc_workspace (config r)"
abbreviation plan_only :: "run \<Rightarrow> bool" where "plan_only r \<equiv> rc_plan_only (config r)"
abbreviation is_drift :: "run \<Rightarrow> bool" where "is_drift r \<equiv> rc_is_drift (config r)"
abbreviation created_at :: "run \<Rightarrow> int" where "created_at r \<equiv> rc_created_at (config r)"
abbreviation pool_id :: "run \<Rightarrow> nat option" where "pool_id r \<equiv> rc_pool (config r)"
abbreviation pr_number :: "run \<Rightarrow> int option" where "pr_number r \<equiv> rc_pr (config r)"

section \<open>What runs outside the repository\<close>

datatype merge_status =
    Check_Failed string
  | Merge_Status bool bool "string option" string

text \<open>
  Settings, and the calls that leave the process: resolving a tool version (\<open>None\<close> when the call
  raises), the provider's mergeability check (whether the merge state is unknown, mergeable, its
  reason and its state), parsing a repository URL, printing and parsing UUIDs, the keyed digest, and
  a task's webhook call (the error text, or the HTTP status and body), and whether object storage
  holds a phase's log (\<open>None\<close> when it cannot be asked).
\<close>

record env =
  ai_summary_enabled :: bool
  slack_enabled :: bool
  resolve_version :: "string \<Rightarrow> string \<Rightarrow> string option"
  repo_parses :: "string \<Rightarrow> string \<Rightarrow> bool"
  mergeability :: "string \<Rightarrow> string \<Rightarrow> int \<Rightarrow> merge_status"
  uuid_str :: "nat \<Rightarrow> string"
  uuid_parse :: "string \<Rightarrow> nat option"
  hmac_sha256 :: "string \<Rightarrow> string"
  send_webhook :: "nat \<Rightarrow> nat \<Rightarrow> string + nat \<times> string"
  stored_log :: "nat \<Rightarrow> string \<Rightarrow> bool option"
  launch_timeout :: int
  stale_timeout :: int
  drift_max_duration :: int

text \<open>A concrete environment and an empty database, for examples.\<close>

definition example_env :: env where
  "example_env =
     \<lparr>ai_summary_enabled = False, slack_enabled = False, resolve_version = (\<lambda>_ v. Some v),
      repo_parses = (\<lambda>_ _. True), mergeability = (\<lambda>_ _ _. Merge_Status False True None []),
      uuid_str = (\<lambda>n. replicate n CHR ''a''), uuid_parse = (\<lambda>s. Some (length s)),
      hmac_sha256 = (\<lambda>s. replicate (length s) CHR ''f''), send_webhook = (\<lambda>_ _. Inr (200, [])),
      stored_log = (\<lambda>_ _. Some True), launch_timeout = 300, stale_timeout = 3600, drift_max_duration = 0\<rparr>"

definition empty_world :: world where
  "empty_world =
     \<lparr>runs = (\<lambda>_. None), workspaces = (\<lambda>_. None), state_versions = (\<lambda>_. None),
      config_versions = (\<lambda>_. None), run_triggers = (\<lambda>_. None), run_tasks = (\<lambda>_. None),
      task_stages = (\<lambda>_. None), task_results = (\<lambda>_. None), policy_sets = (\<lambda>_. None),
      policy_evaluations = (\<lambda>_. None), vcs_connections = (\<lambda>_. None), next_id = 0, now = 0,
      store = empty_redis\<rparr>"

section \<open>Tables are row stores\<close>

interpretation run_rows: row_store runs put_run
  by unfold_locales (simp add: put_run_def modify_apply)

interpretation ws_rows: row_store workspaces put_ws
  by unfold_locales (simp add: put_ws_def modify_apply)

interpretation stage_rows: row_store task_stages put_stage
  by unfold_locales (simp add: put_stage_def modify_apply)

interpretation result_rows: row_store task_results put_result
  by unfold_locales (simp add: put_result_def modify_apply)

interpretation evaluation_rows: row_store policy_evaluations put_evaluation
  by unfold_locales (simp add: put_evaluation_def modify_apply)

interpretation cv_rows: row_store config_versions put_cv
  by unfold_locales (simp add: put_cv_def modify_apply)

section \<open>What a write leaves alone\<close>

lemmas put_defs = put_run_def put_ws_def put_stage_def put_result_def put_evaluation_def put_cv_def
lemmas add_defs = add_run_def add_stage_def add_result_def add_evaluation_def add_state_version_def
  add_cv_def

lemma put_run_frame [simp]:
  "workspaces (put_run i f w) = workspaces w" "state_versions (put_run i f w) = state_versions w"
  "config_versions (put_run i f w) = config_versions w" "run_triggers (put_run i f w) = run_triggers w"
  "run_tasks (put_run i f w) = run_tasks w" "task_stages (put_run i f w) = task_stages w"
  "task_results (put_run i f w) = task_results w" "policy_sets (put_run i f w) = policy_sets w"
  "policy_evaluations (put_run i f w) = policy_evaluations w"
  "vcs_connections (put_run i f w) = vcs_connections w"
  "next_id (put_run i f w) = next_id w" "now (put_run i f w) = now w" "store (put_run i f w) = store w"
  by (simp_all add: put_run_def)

lemma put_ws_frame [simp]:
  "runs (put_ws i f w) = runs w" "state_versions (put_ws i f w) = state_versions w"
  "config_versions (put_ws i f w) = config_versions w" "run_triggers (put_ws i f w) = run_triggers w"
  "run_tasks (put_ws i f w) = run_tasks w" "task_stages (put_ws i f w) = task_stages w"
  "task_results (put_ws i f w) = task_results w" "policy_sets (put_ws i f w) = policy_sets w"
  "policy_evaluations (put_ws i f w) = policy_evaluations w"
  "vcs_connections (put_ws i f w) = vcs_connections w"
  "next_id (put_ws i f w) = next_id w" "now (put_ws i f w) = now w" "store (put_ws i f w) = store w"
  by (simp_all add: put_ws_def)

lemma redis_try_frame [simp]:
  "runs (redis_try f w) = runs w" "workspaces (redis_try f w) = workspaces w"
  "state_versions (redis_try f w) = state_versions w"
  "config_versions (redis_try f w) = config_versions w" "run_triggers (redis_try f w) = run_triggers w"
  "run_tasks (redis_try f w) = run_tasks w" "task_stages (redis_try f w) = task_stages w"
  "task_results (redis_try f w) = task_results w" "policy_sets (redis_try f w) = policy_sets w"
  "policy_evaluations (redis_try f w) = policy_evaluations w"
  "vcs_connections (redis_try f w) = vcs_connections w"
  "next_id (redis_try f w) = next_id w" "now (redis_try f w) = now w"
  by (simp_all add: redis_try_def)

text \<open>
  The database part of a world: the world with a fresh Redis. A handler whose outcome and database
  part are those it has on \<open>db w\<close> does not depend on Redis at all.
\<close>

definition db :: "world \<Rightarrow> world" where
  "db w = w\<lparr>store := empty_redis\<rparr>"

fun db_res :: "(exn, 'a, world) res \<Rightarrow> (exn, 'a, world) res" where
  "db_res (Ret a w) = Ret a (db w)"
| "db_res (Raise e w) = Raise e (db w)"

lemma db_frame [simp]:
  "runs (db w) = runs w" "workspaces (db w) = workspaces w" "state_versions (db w) = state_versions w"
  "config_versions (db w) = config_versions w" "run_triggers (db w) = run_triggers w"
  "run_tasks (db w) = run_tasks w" "task_stages (db w) = task_stages w"
  "task_results (db w) = task_results w" "policy_sets (db w) = policy_sets w"
  "policy_evaluations (db w) = policy_evaluations w" "vcs_connections (db w) = vcs_connections w"
  "next_id (db w) = next_id w" "now (db w) = now w"
  by (simp_all add: db_def)

lemma db_db [simp]: "db (db w) = db w"
  by (simp add: db_def)

lemma db_redis_try [simp]: "db (redis_try f w) = db w"
  by (simp add: redis_try_def db_def)

lemma db_store [simp]: "db (w\<lparr>store := s\<rparr>) = db w"
  by (simp add: db_def)

lemma db_put [simp]:
  "db (put_run i f w) = put_run i f (db w)" "db (put_ws i g w) = put_ws i g (db w)"
  "db (put_stage i h w) = put_stage i h (db w)" "db (put_result i k w) = put_result i k (db w)"
  "db (put_evaluation i l w) = put_evaluation i l (db w)" "db (put_cv i m w) = put_cv i m (db w)"
  by (simp_all add: put_defs db_def)

lemma db_add [simp]:
  "db (add_run r w) = add_run r (db w)" "db (add_stage s w) = add_stage s (db w)"
  "db (add_result t w) = add_result t (db w)" "db (add_evaluation v w) = add_evaluation v (db w)"
  "db (add_state_version sv w) = add_state_version sv (db w)" "db (add_cv c w) = add_cv c (db w)"
  by (simp_all add: add_defs db_def)

lemma db_eq_frame:
  assumes "db w = db v"
  shows "runs w = runs v" "workspaces w = workspaces v" "state_versions w = state_versions v"
    "config_versions w = config_versions v" "run_triggers w = run_triggers v"
    "run_tasks w = run_tasks v" "task_stages w = task_stages v" "task_results w = task_results v"
    "policy_sets w = policy_sets v" "policy_evaluations w = policy_evaluations v"
    "vcs_connections w = vcs_connections v" "next_id w = next_id v" "now w = now v"
proof -
  from assms have "F (db w) = F (db v)" for F :: "world \<Rightarrow> 'z" by simp
  note eq = this
  show "runs w = runs v" using eq [of runs] by simp
  show "workspaces w = workspaces v" using eq [of workspaces] by simp
  show "state_versions w = state_versions v" using eq [of state_versions] by simp
  show "config_versions w = config_versions v" using eq [of config_versions] by simp
  show "run_triggers w = run_triggers v" using eq [of run_triggers] by simp
  show "run_tasks w = run_tasks v" using eq [of run_tasks] by simp
  show "task_stages w = task_stages v" using eq [of task_stages] by simp
  show "task_results w = task_results v" using eq [of task_results] by simp
  show "policy_sets w = policy_sets v" using eq [of policy_sets] by simp
  show "policy_evaluations w = policy_evaluations v" using eq [of policy_evaluations] by simp
  show "vcs_connections w = vcs_connections v" using eq [of vcs_connections] by simp
  show "next_id w = next_id v" using eq [of next_id] by simp
  show "now w = now v" using eq [of now] by simp
qed

lemma db_res_bind:
  assumes "db_res (m w) = db_res (m' w')"
    and "\<And>a u u'. db u = db u' \<Longrightarrow> db_res (k a u) = db_res (k' a u')"
  shows "db_res (bind_res (m w) k) = db_res (bind_res (m' w') k')"
  using assms by (cases "m w"; cases "m' w'") auto

end
