(* ===== verification/RunEvents.thy ===== *)
theory RunEvents
  imports Database
begin

text \<open>
  The notifications of a run's status changes: the best-effort enqueues and SSE publications at the
  top of \<open>services/run_service.py\<close> and \<open>enqueue_slack_notify\<close> of
  \<open>services/slack_notify_service.py\<close>. Each swallows every exception of Redis, so it maps a world to
  a world; the lemmas show that the database part is untouched.
\<close>

section \<open>Notifications\<close>

definition status_to_trigger :: "run_status \<Rightarrow> string option" where
  "status_to_trigger st = map_of
    [(Pending, ''run:created''), (Planning, ''run:planning''), (Applying, ''run:applying''),
     (Applied, ''run:completed''), (Errored, ''run:errored'')] st"

definition slack_triggers :: "string list" where
  "slack_triggers = [''run:needs_attention'', ''run:completed'', ''run:errored'', ''run:drift_detected'']"

definition ai_deferrable :: "string list" where
  "ai_deferrable = [''run:needs_attention'', ''run:errored'']"

definition enqueue_slack_notify ::
    "env \<Rightarrow> nat \<Rightarrow> run \<Rightarrow> string \<Rightarrow> bool \<Rightarrow> world \<Rightarrow> world" where
  "enqueue_slack_notify e i r trigger from_summariser w =
     (if trigger \<notin> set slack_triggers then w
      else if \<not> slack_enabled e then w
      else if \<not> from_summariser \<and> ai_summary_enabled e \<and> trigger \<in> set ai_deferrable then w
      else redis_try (enqueue_trigger ''slack_run_notify'' (Trigger_Payload i (workspace_id r) trigger)
             (Some (D_Slack i trigger)) 60 (now w)) w)"

definition run_trigger_event :: "run \<Rightarrow> run_status \<Rightarrow> string option" where
  "run_trigger_event r target =
     (if target = Planned then
        (if \<not> rc_auto_apply (config r) \<and> \<not> plan_only r then Some ''run:needs_attention''
         else Some ''run:planned'')
      else status_to_trigger target)"

definition enqueue_notification :: "env \<Rightarrow> nat \<Rightarrow> run \<Rightarrow> run_status \<Rightarrow> world \<Rightarrow> world" where
  "enqueue_notification e i r target w =
     (case run_trigger_event r target of
        None \<Rightarrow> w
      | Some trigger \<Rightarrow>
          enqueue_slack_notify e i r trigger False
            (redis_try (enqueue_trigger ''notification_deliver''
               (Trigger_Payload i (workspace_id r) trigger) (Some (D_Notif i trigger)) 60 (now w)) w))"

definition enqueue_vcs_status :: "nat \<Rightarrow> run \<Rightarrow> run_status \<Rightarrow> world \<Rightarrow> world" where
  "enqueue_vcs_status i r target w =
     (if is_drift r then w
      else redis_try (enqueue_trigger ''vcs_commit_status''
             (Vcs_Status_Payload i (workspace_id r) target (has_changes r))
             (Some (D_Vcs_Status i target)) 60 (now w)) w)"

definition enqueue_module_test_status :: "nat \<Rightarrow> run \<Rightarrow> run_status \<Rightarrow> world \<Rightarrow> world" where
  "enqueue_module_test_status i r target w =
     redis_try (enqueue_trigger ''module_test_completed'' (Module_Test_Payload i target)
       (Some (D_Modtest i target)) 60 (now w)) w"

definition enqueue_ai_plan_summary :: "env \<Rightarrow> nat \<Rightarrow> run \<Rightarrow> string \<Rightarrow> world \<Rightarrow> world" where
  "enqueue_ai_plan_summary e i r kind w =
     (if \<not> ai_summary_enabled e then w
      else redis_try (enqueue_trigger ''ai_plan_summary'' (Summary_Payload i kind)
             (Some (D_Aisum i kind)) 300 (now w)) w)"

definition enqueue_drift_completed :: "nat \<Rightarrow> run \<Rightarrow> world \<Rightarrow> world" where
  "enqueue_drift_completed i r w =
     redis_try (enqueue_trigger ''drift_run_completed'' (Run_Payload i (workspace_id r))
       (Some (D_Drift i)) 60 (now w)) w"

section \<open>Server-sent events\<close>

definition publish_run_available :: "run \<Rightarrow> world \<Rightarrow> world" where
  "publish_run_available r w =
     (case pool_id r of None \<Rightarrow> w
      | Some p \<Rightarrow> redis_try (publish_listener_event p (Run_Available p)) w)"

definition publish_run_event :: "nat \<Rightarrow> run \<Rightarrow> run_status option \<Rightarrow> run_status \<Rightarrow> world \<Rightarrow> world" where
  "publish_run_event i r old_status new_status w =
     (let ev = Run_Status_Change i (workspace_id r) old_status new_status in
      redis_try (\<lambda>s. bind_res (publish_event (Run_Events (workspace_id r)) ev s) (\<lambda>_ s1.
        bind_res (publish_event Admin_Events ev s1) (\<lambda>_ s2.
          publish_event Workspace_List_Events ev s2))) w)"

text \<open>\<open>publish_workspace_event\<close> of \<open>redis/client.py\<close>, best effort too.\<close>

definition publish_workspace_event :: "nat \<Rightarrow> string \<Rightarrow> world \<Rightarrow> world" where
  "publish_workspace_event ws event_type w =
     redis_try (\<lambda>r. bind_res (publish_event (Run_Events ws) (Workspace_Event ws event_type) r)
       (\<lambda>_ r1. publish_event Workspace_List_Events (Workspace_Event ws event_type) r1)) w"

definition publish_cancel_job :: "nat \<Rightarrow> run \<Rightarrow> world \<Rightarrow> world" where
  "publish_cancel_job i r w =
     (case (pool_id r, job_name r) of
        (Some p, Some j) \<Rightarrow>
          if j = [] then w else redis_try (publish_event (Listener_Events p) (Cancel_Job i j)) w
      | _ \<Rightarrow> w)"

section \<open>The database is untouched\<close>

lemmas event_defs = enqueue_slack_notify_def enqueue_notification_def enqueue_vcs_status_def
  enqueue_module_test_status_def enqueue_ai_plan_summary_def enqueue_drift_completed_def
  publish_run_available_def publish_run_event_def publish_cancel_job_def

lemma events_db [simp]:
  "db (enqueue_slack_notify e i r trigger summ w) = db w"
  "db (enqueue_notification e i r target w) = db w"
  "db (enqueue_vcs_status i r target w) = db w"
  "db (enqueue_module_test_status i r target w) = db w"
  "db (enqueue_ai_plan_summary e i r kind w) = db w"
  "db (enqueue_drift_completed i r w) = db w"
  "db (publish_run_available r w) = db w"
  "db (publish_run_event i r old_status new_status w) = db w"
  "db (publish_cancel_job i r w) = db w"
  by (simp_all add: event_defs Let_def split: option.splits)

end
