(* ===== verification/RunService.thy ===== *)
theory RunService
  imports RunEvents
begin

text \<open>
  The run state machine of \<open>services/run_service.py\<close>: creating a run, \<open>transition_run\<close> with its
  field, event, supersede, trigger and workspace effects, discard, cancel, supersede and the firing
  of run triggers.

  In the code \<open>transition_run\<close> calls \<open>supersede_stale_runs\<close> (target \<open>queued\<close>) and
  \<open>fire_run_triggers\<close> (target \<open>applied\<close>), which call \<open>transition_run\<close> again with targets
  \<open>discarded\<close>, \<open>canceled\<close>, \<open>canceling\<close> and \<open>queued\<close>. The body is one definition, \<open>transition_body\<close>,
  with the two calls as arguments, tied level by level: \<open>transition_leaf\<close> (neither is reached),
  \<open>transition_queue\<close> and \<open>transition_run\<close>. The lemmas of the first sections show that the three
  agree on every target a level is used for, so each level is the code's own function.
\<close>

section \<open>Creating a run\<close>

record run_request =
  rq_message :: remark
  rq_is_destroy :: bool
  rq_auto_apply :: "bool option"
  rq_plan_only :: bool
  rq_source :: string
  rq_version :: string
  rq_cv :: "nat option"
  rq_created_by :: string
  rq_is_drift :: bool
  rq_targets :: "string list option"
  rq_replaces :: "string list option"
  rq_refresh_only :: bool
  rq_refresh :: bool
  rq_allow_empty :: bool

text \<open>The defaults of the keyword arguments.\<close>

definition default_request :: run_request where
  "default_request =
     \<lparr>rq_message = Text [], rq_is_destroy = False, rq_auto_apply = None, rq_plan_only = False,
      rq_source = ''tfe-api'', rq_version = [], rq_cv = None, rq_created_by = [],
      rq_is_drift = False, rq_targets = None, rq_replaces = None, rq_refresh_only = False,
      rq_refresh = True, rq_allow_empty = False\<rparr>"

definition none_if_empty :: "'a list option \<Rightarrow> 'a list option" where
  "none_if_empty xs = (case xs of Some (y # ys) \<Rightarrow> Some (y # ys) | _ \<Rightarrow> None)"

definition pinned_version :: "env \<Rightarrow> ws_config \<Rightarrow> string \<Rightarrow> string" where
  "pinned_version e ws requested =
     (let requested_version = (if requested \<noteq> [] then requested else ws_version ws) in
      case resolve_version e (ws_backend ws) requested_version of
        Some v \<Rightarrow> v | None \<Rightarrow> requested_version)"

definition new_run :: "env \<Rightarrow> nat \<Rightarrow> ws_config \<Rightarrow> run_request \<Rightarrow> int \<Rightarrow> run" where
  "new_run e ws_id ws rq t =
     \<lparr>config =
       \<lparr>rc_workspace = ws_id, rc_cv = rq_cv rq, rc_is_destroy = rq_is_destroy rq,
        rc_auto_apply = (case rq_auto_apply rq of Some b \<Rightarrow> b | None \<Rightarrow> ws_auto_apply ws),
        rc_plan_only = rq_plan_only rq, rc_source = rq_source rq, rc_backend = ws_backend ws,
        rc_version = pinned_version e ws (rq_version rq),
        rc_tg_enabled = ws_tg_enabled ws, rc_tg_version = ws_tg_version ws, rc_cpu = ws_cpu ws,
        rc_memory = ws_memory ws, rc_pool = ws_pool ws, rc_created_by = rq_created_by rq,
        rc_is_drift = rq_is_drift rq, rc_targets = none_if_empty (rq_targets rq),
        rc_replaces = none_if_empty (rq_replaces rq), rc_refresh_only = rq_refresh_only rq,
        rc_refresh = rq_refresh rq, rc_allow_empty = rq_allow_empty rq, rc_created_at = t,
        rc_vcs_sha = [], rc_vcs_branch = [], rc_pr = None, rc_overrides = None\<rparr>,
      status = Pending, message = rq_message rq, error_message = Message [], discard_reason = None,
      listener_id = None, job_name = None, job_namespace = None, has_changes = None,
      plan_started_at = None, plan_finished_at = None, plan_state_serial = None,
      apply_started_at = None, apply_finished_at = None, vcs_apply_blocked_reason = None,
      runner_exit_code = None, runner_exit_reason = [], runner_exit_status = [],
      peak_memory_bytes = None\<rparr>"

definition create_run :: "env \<Rightarrow> nat \<Rightarrow> workspace \<Rightarrow> run_request \<Rightarrow> world \<Rightarrow> nat \<times> world" where
  "create_run e ws_id ws rq w =
     (let i = next_id w; r = new_run e ws_id (settings ws) rq (now w);
          w1 = add_run r w;
          w2 = enqueue_notification e i r Pending w1
      in (i, publish_run_event i r None Pending w2))"

section \<open>Serials and staleness\<close>

definition state_serials :: "world \<Rightarrow> nat \<Rightarrow> int list" where
  "state_serials w ws = map (\<lambda>i. sv_serial (the (state_versions w i)))
     (select (next_id w) (state_versions w) (\<lambda>_ sv. sv_workspace sv = ws))"

definition current_state_serial :: "world \<Rightarrow> nat \<Rightarrow> int option" where
  "current_state_serial w ws = max_of (state_serials w ws)"

definition state_moved_since_plan :: "world \<Rightarrow> run \<Rightarrow> int option" where
  "state_moved_since_plan w r =
     (case plan_state_serial r of None \<Rightarrow> None
      | Some planned \<Rightarrow>
         (case current_state_serial w (workspace_id r) of
            Some current \<Rightarrow> if planned < current then Some current else None
          | None \<Rightarrow> None))"

definition plan_expired :: "int \<Rightarrow> run \<Rightarrow> workspace option \<Rightarrow> bool" where
  "plan_expired t r ws =
     (case ws of None \<Rightarrow> False
      | Some ws' \<Rightarrow>
         if plan_only r then False
         else (case (ws_plan_expiry (settings ws'), plan_finished_at r) of
                 (Some ttl, Some finished) \<Rightarrow> 0 < ttl \<and> seconds ttl < t - finished
               | _ \<Rightarrow> False))"

definition is_supersedeable_kind :: "run \<Rightarrow> bool" where
  "is_supersedeable_kind r = (\<not> plan_only r \<and> \<not> is_drift r \<and> pr_number r = None)"

definition staleness_reason :: "world \<Rightarrow> run \<Rightarrow> workspace option \<Rightarrow> remark option" where
  "staleness_reason w r ws =
     (if \<not> is_supersedeable_kind r then None
      else case state_moved_since_plan w r of
             Some moved_to \<Rightarrow> Some (State_Changed (the (plan_state_serial r)) moved_to)
           | None \<Rightarrow>
               if plan_expired (now w) r ws
               then Some (Plan_Expired (the (ws_plan_expiry (settings (the ws)))))
               else None)"

definition has_newer_live_run :: "world \<Rightarrow> nat \<Rightarrow> run \<Rightarrow> bool" where
  "has_newer_live_run w i r =
     (select_runs w (\<lambda>j r'. workspace_id r' = workspace_id r \<and> j \<noteq> i \<and> \<not> plan_only r' \<and> \<not> is_drift r'
        \<and> pr_number r' = None \<and> created_at r < created_at r'
        \<and> status r' \<notin> set terminal_states) \<noteq> [])"

section \<open>The transition\<close>

definition transition_fields ::
    "int \<Rightarrow> int option \<Rightarrow> run_status \<Rightarrow> failure \<Rightarrow> run \<Rightarrow> run" where
  "transition_fields t serial target err r =
     (let r1 = r\<lparr>status := target\<rparr>;
          r2 = (if failure_truthy err then r1\<lparr>error_message := err\<rparr> else r1);
          r3 = (if target = Applying then r2\<lparr>job_name := None, job_namespace := None\<rparr> else r2)
      in if target = Planning then r3\<lparr>plan_started_at := Some t, plan_state_serial := serial\<rparr>
         else if (target = Planned \<or> target = Errored)
                 \<and> plan_started_at r3 \<noteq> None \<and> plan_finished_at r3 = None
         then r3\<lparr>plan_finished_at := Some t\<rparr>
         else if target = Applying then r3\<lparr>apply_started_at := Some t\<rparr>
         else if (target = Applied \<or> target = Errored)
                 \<and> apply_started_at r3 \<noteq> None \<and> apply_finished_at r3 = None
         then r3\<lparr>apply_finished_at := Some t\<rparr>
         else r3)"

definition applied_effects :: "int \<Rightarrow> run_status \<Rightarrow> run \<Rightarrow> workspace \<Rightarrow> workspace" where
  "applied_effects t target r ws =
     (let ws1 = (if target = Applied \<and> \<not> plan_only r \<and> state_diverged ws
                 then ws\<lparr>state_diverged := False\<rparr> else ws);
          ws2 = (if target = Applied \<and> \<not> plan_only r \<and> rc_source (config r) \<noteq> ''drift-detection''
                    \<and> ws_drift_enabled (settings ws1)
                 then ws1\<lparr>drift_status := ''no_drift'', drift_last_checked_at := Some t,
                          drift_latest_run_id := None\<rparr>
                 else ws1)
      in if target = Applied \<and> rc_is_destroy (config r) \<and> \<not> plan_only r
            \<and> rc_source (config r) \<in> {''autodiscovery-lifecycle'', ''catalog-lifecycle''}
            \<and> lifecycle_state ws2 \<noteq> ''archived''
         then ws2\<lparr>lifecycle_state := ''archived'',
                  lifecycle_reason := Text
                    ((if rc_source (config r) = ''autodiscovery-lifecycle''
                      then ''autodiscovery'' else ''catalog'') @ '' destroy completed - archived'')\<rparr>
         else ws2)"

definition notify_transition ::
    "env \<Rightarrow> nat \<Rightarrow> run \<Rightarrow> run_status \<Rightarrow> world \<Rightarrow> world" where
  "notify_transition e i r target w =
     (let w1 = enqueue_notification e i r target w;
          w2 = (if rc_vcs_sha (config r) \<noteq> [] then enqueue_vcs_status i r target w1 else w1);
          w3 = (if rc_source (config r) = ''module-test'' \<and> none_if_empty (rc_overrides (config r)) \<noteq> None
                then enqueue_module_test_status i r target w2 else w2);
          w4 = (if is_drift r \<and> (target \<in> set terminal_states \<or> target = Planned)
                then enqueue_drift_completed i r w3 else w3)
      in if target = Errored then enqueue_ai_plan_summary e i r ''failure_analysis'' w4 else w4)"

definition transition_body ::
    "(nat \<Rightarrow> unit handler) \<Rightarrow> (nat \<Rightarrow> unit handler)
      \<Rightarrow> env \<Rightarrow> nat \<Rightarrow> run_status \<Rightarrow> failure \<Rightarrow> unit handler" where
  "transition_body supersede fire e i target err w =
     (case runs w i of
        None \<Rightarrow> Raise (Missing_Row i) w
      | Some r0 \<Rightarrow>
          if \<not> can_transition (status r0) target
          then Raise (Invalid_Transition (status r0) (Some target)) w
          else
            let r = transition_fields (now w) (current_state_serial w (workspace_id r0)) target err r0;
                w1 = put_run i (\<lambda>_. r) w;
                w2 = (if target = Applying then redis_try (delete_job_status i ''plan'') w1 else w1);
                w3 = publish_run_event i r (Some (status r0)) target w2;
                w4 = (if target \<in> {Queued, Confirmed} \<and> pool_id r \<noteq> None then publish_run_available r w3
                      else if target \<in> set terminal_states \<and> pool_id r \<noteq> None
                      then publish_run_available r w3
                      else w3)
            in bind_res (if target = Queued then supersede i w4 else Ret () w4) (\<lambda>_ w5.
               bind_res (if target = Applied \<and> \<not> plan_only r then fire (workspace_id r) w5
                         else Ret () w5) (\<lambda>_ w6.
               Ret () (notify_transition e i r target
                 (put_ws (workspace_id r) (applied_effects (now w6) target r) w6)))))"

definition transition_leaf :: "env \<Rightarrow> nat \<Rightarrow> run_status \<Rightarrow> failure \<Rightarrow> unit handler" where
  "transition_leaf = transition_body (\<lambda>_. Ret ()) (\<lambda>_. Ret ())"

section \<open>Discard and cancel\<close>

text \<open>The idiom \<open>if ws and ws.locked: ws.locked = False; ws.lock_id = None\<close>.\<close>

definition unlock :: "workspace \<Rightarrow> workspace" where
  "unlock x = (if locked x then x\<lparr>locked := False, lock_id := None\<rparr> else x)"

definition release_lock :: "nat \<Rightarrow> world \<Rightarrow> world" where
  "release_lock ws w = put_ws ws unlock w"

definition record_reason :: "remark option \<Rightarrow> run \<Rightarrow> run" where
  "record_reason reason r =
     (case reason of Some n \<Rightarrow> if remark_truthy n then r\<lparr>discard_reason := Some n\<rparr> else r
      | None \<Rightarrow> r)"

definition discard_run :: "env \<Rightarrow> nat \<Rightarrow> remark option \<Rightarrow> unit handler" where
  "discard_run e i reason w =
     (case runs w i of
        None \<Rightarrow> Raise (Missing_Row i) w
      | Some r \<Rightarrow>
          if status r \<noteq> Planned then Raise (Not_Discardable (status r)) w
          else transition_leaf e i Discarded (Message [])
                 (release_lock (workspace_id r) (put_run i (record_reason reason) w)))"

definition cancel_run :: "env \<Rightarrow> nat \<Rightarrow> bool \<Rightarrow> remark option \<Rightarrow> unit handler" where
  "cancel_run e i force reason w =
     (case runs w i of
        None \<Rightarrow> Raise (Missing_Row i) w
      | Some r \<Rightarrow>
          if status r \<in> set terminal_states then Raise (Not_Cancelable (status r)) w
          else if \<not> force \<and> status r \<notin> set cancelable_states
          then Raise (Not_Cancelable (status r)) w
          else
            let w1 = put_run i (record_reason reason) w;
                target = (if status r = Applying then Canceling else Canceled);
                w2 = (if target = Canceled then release_lock (workspace_id r) w1 else w1);
                w3 = publish_cancel_job i r w2
            in transition_leaf e i target (Message []) w3)"

section \<open>Superseding older runs\<close>

definition superseded_by :: "nat \<Rightarrow> run \<Rightarrow> nat \<Rightarrow> run \<Rightarrow> bool" where
  "superseded_by i newer j r =
     (workspace_id r = workspace_id newer \<and> j \<noteq> i \<and> status r \<in> set supersedeable_states
      \<and> \<not> plan_only r \<and> \<not> is_drift r \<and> pr_number r = None \<and> created_at r < created_at newer)"

fun supersede_loop :: "env \<Rightarrow> nat \<Rightarrow> nat list \<Rightarrow> nat \<Rightarrow> nat handler" where
  "supersede_loop e i [] count w = Ret count w"
| "supersede_loop e i (old # rest) count w =
     (let reason = Superseded_By i; w1 = put_run old (\<lambda>r. r\<lparr>message := reason\<rparr>) w;
          m = (if map_option status (runs w1 old) = Some Planned
               then discard_run e old (Some reason) w1
               else cancel_run e old True (Some reason) w1)
      in case m of
           Ret _ w2 \<Rightarrow> supersede_loop e i rest (Suc count) w2
         | Raise x w2 \<Rightarrow> if value_error x then supersede_loop e i rest count w2 else Raise x w2)"

definition supersede_stale_runs :: "env \<Rightarrow> nat \<Rightarrow> nat handler" where
  "supersede_stale_runs e i w =
     (case runs w i of
        None \<Rightarrow> Raise (Missing_Row i) w
      | Some newer \<Rightarrow>
          if \<not> is_supersedeable_kind newer then Ret 0 w
          else supersede_loop e i (select_runs w (superseded_by i newer)) 0 w)"

definition supersede_call :: "env \<Rightarrow> nat \<Rightarrow> unit handler" where
  "supersede_call e i w = bind_res (supersede_stale_runs e i w) (\<lambda>_ w1. Ret () w1)"

definition transition_queue :: "env \<Rightarrow> nat \<Rightarrow> run_status \<Rightarrow> failure \<Rightarrow> unit handler" where
  "transition_queue e = transition_body (supersede_call e) (\<lambda>_. Ret ()) e"

definition queue_run :: "env \<Rightarrow> nat \<Rightarrow> unit handler" where
  "queue_run e i = transition_queue e i Queued (Message [])"

section \<open>Run triggers\<close>

definition latest_cv :: "world \<Rightarrow> (config_version \<Rightarrow> bool) \<Rightarrow> nat option" where
  "latest_cv w p =
     least_by (\<lambda>i. - cv_created_at (the (config_versions w i)))
       (select (next_id w) (config_versions w) (\<lambda>_. p))"

fun fire_loop :: "env \<Rightarrow> nat + string \<Rightarrow> nat list \<Rightarrow> unit handler" where
  "fire_loop e source_name [] w = Ret () w"
| "fire_loop e source_name (dest # rest) w =
     (case workspaces w dest of
        None \<Rightarrow> fire_loop e source_name rest w
      | Some dest_ws \<Rightarrow>
          (case latest_cv w (\<lambda>cv. cv_workspace cv = dest \<and> cv_status cv = ''uploaded'') of
             None \<Rightarrow> fire_loop e source_name rest w
           | Some cv \<Rightarrow>
               (case create_run e dest dest_ws
                       (default_request\<lparr>rq_message := Triggered_By source_name,
                          rq_auto_apply := Some (ws_auto_apply (settings dest_ws)),
                          rq_cv := Some cv\<rparr>) w of
                  (i, w1) \<Rightarrow>
                    bind_res (queue_run e i w1) (\<lambda>_ w2. fire_loop e source_name rest w2))))"

definition fire_run_triggers :: "env \<Rightarrow> nat \<Rightarrow> unit handler" where
  "fire_run_triggers e ws w =
     (let rows = select (next_id w) (run_triggers w) (\<lambda>_ t. tr_source t = ws);
          source_name = (case workspaces w ws of Some x \<Rightarrow> Inr (ws_name (settings x)) | None \<Rightarrow> Inl ws)
      in fire_loop e source_name (map (\<lambda>t. tr_workspace (the (run_triggers w t))) rows) w)"

definition transition_run :: "env \<Rightarrow> nat \<Rightarrow> run_status \<Rightarrow> failure \<Rightarrow> unit handler" where
  "transition_run e = transition_body (supersede_call e) (fire_run_triggers e) e"

section \<open>The levels agree\<close>

lemma transition_body_hooks:
  assumes "target = Queued \<Longrightarrow> s = s'" and "target = Applied \<Longrightarrow> f = f'"
  shows "transition_body s f e i target err = transition_body s' f' e i target err"
  using assms by (intro ext) (auto simp: transition_body_def Let_def split: option.splits)

lemma transition_leaf_eq:
  "target \<notin> {Queued, Applied} \<Longrightarrow> transition_leaf e i target err = transition_run e i target err"
  unfolding transition_leaf_def transition_run_def by (rule transition_body_hooks) auto

lemma queue_run_eq: "queue_run e i = transition_run e i Queued (Message [])"
  unfolding queue_run_def transition_queue_def transition_run_def
  by (rule transition_body_hooks) auto

lemma discard_run_eq:
  "discard_run e i reason w =
     (case runs w i of
        None \<Rightarrow> Raise (Missing_Row i) w
      | Some r \<Rightarrow>
          if status r \<noteq> Planned then Raise (Not_Discardable (status r)) w
          else transition_run e i Discarded (Message [])
                 (release_lock (workspace_id r) (put_run i (record_reason reason) w)))"
  by (simp add: discard_run_def transition_leaf_eq split: option.splits)

lemma cancel_run_eq:
  "cancel_run e i force reason w =
     (case runs w i of
        None \<Rightarrow> Raise (Missing_Row i) w
      | Some r \<Rightarrow>
          if status r \<in> set terminal_states \<or> \<not> force \<and> status r \<notin> set cancelable_states
          then Raise (Not_Cancelable (status r)) w
          else
            let w1 = put_run i (record_reason reason) w;
                target = (if status r = Applying then Canceling else Canceled);
                w2 = (if target = Canceled then release_lock (workspace_id r) w1 else w1)
            in transition_run e i target (Message []) (publish_cancel_job i r w2))"
  by (auto simp: cancel_run_def transition_leaf_eq Let_def split: option.splits)

section \<open>What a transition does to the database\<close>

lemma put_ws_id [simp]: "put_ws i (\<lambda>x. x) w = w"
  by (auto simp: put_ws_def modify_def option.map_ident intro!: world.equality ext)

lemma applied_effects_other [simp]: "target \<noteq> Applied \<Longrightarrow> applied_effects t target r = (\<lambda>x. x)"
  by (rule ext) (simp add: applied_effects_def)

lemma notify_transition_db [simp]: "db (notify_transition e i r target w) = db w"
  by (simp add: notify_transition_def Let_def)

lemma db_release_lock [simp]: "db (release_lock ws w) = release_lock ws (db w)"
  by (simp add: release_lock_def)

lemma current_state_serial_db [simp]: "current_state_serial (db w) ws = current_state_serial w ws"
  by (simp add: current_state_serial_def state_serials_def)

lemma status_transition_fields [simp]: "status (transition_fields t sn target err r) = target"
  by (simp add: transition_fields_def Let_def)

lemma config_transition_fields [simp]: "config (transition_fields t sn target err r) = config r"
  by (simp add: transition_fields_def Let_def)

text \<open>The stages of the body, with the notifications folded away.\<close>

definition enter_status :: "nat \<Rightarrow> run_status \<Rightarrow> failure \<Rightarrow> world \<Rightarrow> world" where
  "enter_status i target err w =
     put_run i (\<lambda>r. transition_fields (now w) (current_state_serial w (workspace_id r)) target err r) w"

lemma put_run_Some:
  "runs w i = Some r \<Longrightarrow> put_run i (\<lambda>_. f r) w = put_run i f w"
  by (auto simp: put_run_def modify_def)

lemma db_if [simp]: "db (if b then u else v) = (if b then db u else db v)"
  by simp

lemma transition_body_refused:
  "runs w i = Some r \<Longrightarrow> \<not> can_transition (status r) target \<Longrightarrow>
   transition_body s f e i target err w = Raise (Invalid_Transition (status r) (Some target)) w"
  by (simp add: transition_body_def)

lemma transition_body_missing:
  "runs w i = None \<Longrightarrow> transition_body s f e i target err w = Raise (Missing_Row i) w"
  by (simp add: transition_body_def)

text \<open>
  A transition that runs: the world the hooks see has the database of \<open>enter_status\<close>, and after them
  only the workspace of the run is written.
\<close>

lemma transition_body_runs:
  assumes "runs w i = Some r" and "can_transition (status r) target"
  obtains w4 where "db w4 = enter_status i target err (db w)"
    and "transition_body s f e i target err w =
      bind_res (if target = Queued then s i w4 else Ret () w4) (\<lambda>_ w5.
      bind_res (if target = Applied \<and> \<not> plan_only r then f (workspace_id r) w5 else Ret () w5) (\<lambda>_ w6.
      Ret () (notify_transition e i
        (transition_fields (now w) (current_state_serial w (workspace_id r)) target err r) target
        (put_ws (workspace_id r)
          (applied_effects (now w6) target
            (transition_fields (now w) (current_state_serial w (workspace_id r)) target err r)) w6))))"
proof -
  let ?r = "transition_fields (now w) (current_state_serial w (workspace_id r)) target err r"
  let ?w1 = "put_run i (\<lambda>_. ?r) w"
  let ?w2 = "if target = Applying then redis_try (delete_job_status i ''plan'') ?w1 else ?w1"
  let ?w3 = "publish_run_event i ?r (Some (status r)) target ?w2"
  let ?w4 = "if target \<in> {Queued, Confirmed} \<and> pool_id ?r \<noteq> None then publish_run_available ?r ?w3
             else if target \<in> set terminal_states \<and> pool_id ?r \<noteq> None
             then publish_run_available ?r ?w3 else ?w3"
  have "db ?w4 = put_run i (\<lambda>_. ?r) (db w)" by simp
  also have "\<dots> = enter_status i target err (db w)"
    using assms(1) by (simp add: enter_status_def put_run_def modify_def)
  finally have "db ?w4 = enter_status i target err (db w)" .
  then show ?thesis
    using that [of ?w4] assms by (simp add: transition_body_def Let_def)
qed

lemma transition_leaf_db:
  assumes "runs w i = Some r" and "can_transition (status r) target" and "target \<noteq> Applied"
  shows "db_res (transition_leaf e i target err w) = Ret () (enter_status i target err (db w))"
proof -
  obtain w4 where w4: "db w4 = enter_status i target err (db w)"
    and eq: "transition_leaf e i target err w =
      Ret () (notify_transition e i
        (transition_fields (now w) (current_state_serial w (workspace_id r)) target err r) target w4)"
    using transition_body_runs [OF assms(1,2), of err "\<lambda>_. Ret ()" "\<lambda>_. Ret ()" e] assms(3)
    unfolding transition_leaf_def by (auto split: if_splits)
  show ?thesis by (simp add: eq w4)
qed

lemma db_res_eq_RetD: "db_res m = Ret a u \<Longrightarrow> \<exists>w'. m = Ret a w' \<and> db w' = u"
  by (cases m) auto

lemma db_res_eq_RaiseD: "db_res m = Raise x u \<Longrightarrow> \<exists>w'. m = Raise x w' \<and> db w' = u"
  by (cases m) auto

lemma transition_leaf_cases:
  assumes "runs w i = Some r" and "can_transition (status r) target" and "target \<noteq> Applied"
  obtains w' where "transition_leaf e i target err w = Ret () w'"
    and "db w' = enter_status i target err (db w)"
  using db_res_eq_RetD [OF transition_leaf_db [OF assms]] that by blast

lemma put_run_put_run: "put_run i f (put_run i g w) = put_run i (\<lambda>r. f (g r)) w"
  by (simp add: put_run_def modify_modify comp_def)

lemma release_lock_put_run: "put_run i f (release_lock ws w) = release_lock ws (put_run i f w)"
  by (simp add: release_lock_def put_defs)

lemma unlock_simps [simp]:
  "unlock (unlock x) = unlock x" "locked (unlock x) = False" "settings (unlock x) = settings x"
  "state_diverged (unlock x) = state_diverged x"
  by (simp_all add: unlock_def)

lemma release_lock_idem [simp]: "release_lock ws (release_lock ws w) = release_lock ws w"
  by (simp add: release_lock_def put_ws_def modify_modify comp_def)

lemma runs_release_lock [simp]: "runs (release_lock ws w) = runs w"
  by (simp add: release_lock_def)

lemma release_lock_frame [simp]:
  "state_versions (release_lock ws w) = state_versions w" "next_id (release_lock ws w) = next_id w"
  "now (release_lock ws w) = now w" "config_versions (release_lock ws w) = config_versions w"
  "run_triggers (release_lock ws w) = run_triggers w"
  by (simp_all add: release_lock_def)

definition set_status :: "run_status \<Rightarrow> run \<Rightarrow> run" where
  "set_status st r = r\<lparr>status := st\<rparr>"

lemma set_status_simps [simp]:
  "status (set_status st r) = st" "config (set_status st r) = config r"
  "plan_state_serial (set_status st r) = plan_state_serial r"
  "plan_finished_at (set_status st r) = plan_finished_at r" "has_changes (set_status st r) = has_changes r"
  "job_name (set_status st r) = job_name r"  "listener_id (set_status st r) = listener_id r"
  by (simp_all add: set_status_def)

lemma record_reason_simps [simp]:
  "status (record_reason n r) = status r" "config (record_reason n r) = config r"
  "plan_state_serial (record_reason n r) = plan_state_serial r"
  "plan_finished_at (record_reason n r) = plan_finished_at r" "has_changes (record_reason n r) = has_changes r"
  "job_name (record_reason n r) = job_name r"  "listener_id (record_reason n r) = listener_id r"
  by (simp_all add: record_reason_def split: option.splits)

lemma transition_fields_plain:
  "target \<in> {Queued, Confirmed, Discarded, Canceled, Canceling} \<Longrightarrow>
   transition_fields t sn target (Message []) r = set_status target r"
  by (cases target) (simp_all add: transition_fields_def set_status_def)

lemma enter_status_plain:
  "target \<in> {Queued, Confirmed, Discarded, Canceled, Canceling} \<Longrightarrow>
   enter_status i target (Message []) w = put_run i (set_status target) w"
  unfolding enter_status_def by (simp add: transition_fields_plain)

lemma discard_run_db:
  assumes "runs w i = Some r" and "status r = Planned"
  shows "db_res (discard_run e i reason w) =
    Ret () (put_run i (\<lambda>r. set_status Discarded (record_reason reason r))
      (release_lock (workspace_id r) (db w)))"
proof -
  let ?w = "release_lock (workspace_id r) (put_run i (record_reason reason) w)"
  have "runs ?w i = Some (record_reason reason r)" using assms by simp
  then have "db_res (transition_leaf e i Discarded (Message []) ?w)
      = Ret () (enter_status i Discarded (Message []) (db ?w))"
    by (rule transition_leaf_db) (use assms in simp_all)
  with assms show ?thesis
    by (simp add: discard_run_def enter_status_plain release_lock_put_run put_run_put_run)
qed

lemma cancel_run_db:
  assumes "runs w i = Some r" and "status r \<notin> set terminal_states"
    and "force \<or> status r \<in> set cancelable_states"
  shows "db_res (cancel_run e i force reason w) =
    Ret () (if status r = Applying
      then put_run i (\<lambda>r. set_status Canceling (record_reason reason r)) (db w)
      else put_run i (\<lambda>r. set_status Canceled (record_reason reason r))
             (release_lock (workspace_id r) (db w)))"
proof -
  let ?t = "if status r = Applying then Canceling else Canceled"
  let ?w1 = "put_run i (record_reason reason) w"
  let ?w2 = "if ?t = Canceled then release_lock (workspace_id r) ?w1 else ?w1"
  let ?w3 = "publish_cancel_job i r ?w2"
  have eq: "cancel_run e i force reason w = transition_leaf e i ?t (Message []) ?w3"
    using assms by (auto simp: cancel_run_def Let_def)
  have "runs ?w3 = runs ?w1"
    using events_db(9) [of i r ?w2, THEN db_eq_frame(1)] by simp
  then have "runs ?w3 i = Some (record_reason reason r)" using assms by simp
  moreover have "can_transition (status (record_reason reason r)) ?t"
    using assms(2) by (simp add: terminal_iff not_le)
  ultimately have "db_res (transition_leaf e i ?t (Message []) ?w3)
      = Ret () (enter_status i ?t (Message []) (db ?w3))"
    by (rule transition_leaf_db) simp
  then show ?thesis
    by (simp add: eq enter_status_plain release_lock_put_run put_run_put_run)
qed

section \<open>What superseding does to the database\<close>

definition retired :: "nat \<Rightarrow> run \<Rightarrow> run" where
  "retired i r = r\<lparr>message := Superseded_By i, discard_reason := Some (Superseded_By i),
     status := (if status r = Planned then Discarded else Canceled)\<rparr>"

definition retire_all :: "nat \<Rightarrow> nat \<Rightarrow> nat list \<Rightarrow> world \<Rightarrow> world" where
  "retire_all i ws olds w =
     (if olds = [] then w
      else release_lock ws
        (w\<lparr>runs := (\<lambda>j. if j \<in> set olds then map_option (retired i) (runs w j) else runs w j)\<rparr>))"

lemma supersede_one:
  assumes "runs w old = Some r" and "status r \<in> set supersedeable_states"
  shows "db_res (let w1 = put_run old (\<lambda>r. r\<lparr>message := Superseded_By i\<rparr>) w in
      if map_option status (runs w1 old) = Some Planned
      then discard_run e old (Some (Superseded_By i)) w1
      else cancel_run e old True (Some (Superseded_By i)) w1)
    = Ret () (put_run old (retired i) (release_lock (workspace_id r) (db w)))"
proof -
  let ?w1 = "put_run old (\<lambda>r. r\<lparr>message := Superseded_By i\<rparr>) w"
  have row: "runs ?w1 old = Some (r\<lparr>message := Superseded_By i\<rparr>)" using assms by simp
  have retired: "put_run old (\<lambda>x. set_status st (record_reason (Some (Superseded_By i)) x))
        (release_lock ws (db ?w1)) = put_run old (retired i) (release_lock ws (db w))"
    if "st = (if status r = Planned then Discarded else Canceled)" for st ws
    using that assms(1)
    by (simp add: release_lock_put_run put_run_put_run)
      (simp add: put_run_def modify_def retired_def set_status_def record_reason_def)
  show ?thesis
    using assms(2) row discard_run_db [OF row, of e "Some (Superseded_By i)"]
      cancel_run_db [OF row, of True e "Some (Superseded_By i)"]
      retired [of Discarded "workspace_id r"] retired [of Canceled "workspace_id r"]
    by (auto simp: Let_def supersedeable_states_def terminal_states_def split: if_splits)
qed

lemma put_run_release_runs:
  "put_run old f (release_lock ws w) = release_lock ws (w\<lparr>runs := modify old f (runs w)\<rparr>)"
  by (simp add: put_run_def release_lock_def put_ws_def)

lemma retire_all_Nil [simp]: "retire_all i ws [] w = w"
  by (simp add: retire_all_def)

lemma retire_all_Cons:
  "old \<notin> set olds \<Longrightarrow>
   retire_all i ws olds (put_run old (retired i) (release_lock ws w)) = retire_all i ws (old # olds) w"
  by (auto simp: retire_all_def put_run_release_runs release_lock_def put_defs modify_def modify_modify
      comp_def option.map_comp intro!: world.equality ext)

lemma supersede_loop_db:
  assumes "distinct olds"
    and "\<And>j. j \<in> set olds \<Longrightarrow>
      \<exists>r. runs w j = Some r \<and> status r \<in> set supersedeable_states \<and> workspace_id r = ws"
  shows "db_res (supersede_loop e i olds n w) = Ret (n + length olds) (retire_all i ws olds (db w))"
  using assms
proof (induction olds arbitrary: n w)
  case (Cons old olds)
  let ?w1 = "put_run old (\<lambda>r. r\<lparr>message := Superseded_By i\<rparr>) w"
  let ?m = "if map_option status (runs ?w1 old) = Some Planned
      then discard_run e old (Some (Superseded_By i)) ?w1
      else cancel_run e old True (Some (Superseded_By i)) ?w1"
  obtain r where r: "runs w old = Some r" "status r \<in> set supersedeable_states" "workspace_id r = ws"
    using Cons.prems(2) [of old] by auto
  then obtain w2 where w2: "?m = Ret () w2"
    and db2: "db w2 = put_run old (retired i) (release_lock ws (db w))"
    using supersede_one [of w old r i e] by (auto simp: Let_def dest!: db_res_eq_RetD)
  have other: "runs w2 j = runs w j" if "j \<noteq> old" for j
    using db2 [THEN arg_cong, of runs] that by simp
  have "db_res (supersede_loop e i olds (Suc n) w2)
      = Ret (Suc n + length olds) (retire_all i ws olds (db w2))"
  proof (rule Cons.IH)
    fix j assume "j \<in> set olds"
    moreover from this have "j \<noteq> old" using Cons.prems(1) by auto
    ultimately show "\<exists>r. runs w2 j = Some r \<and> status r \<in> set supersedeable_states \<and> workspace_id r = ws"
      using Cons.prems(2) [of j] other by simp
  qed (use Cons.prems in simp)
  then show ?case
    using Cons.prems(1) w2 by (simp add: Let_def db2 retire_all_Cons)
qed simp

definition stale_list :: "nat \<Rightarrow> run \<Rightarrow> world \<Rightarrow> nat list" where
  "stale_list i newer w =
     (if is_supersedeable_kind newer then select_runs w (superseded_by i newer) else [])"

lemma stale_list_iff:
  "j \<in> set (stale_list i newer w) \<longleftrightarrow>
     is_supersedeable_kind newer \<and> j < next_id w \<and> (\<exists>r. runs w j = Some r \<and> superseded_by i newer j r)"
  by (simp add: stale_list_def select_runs_def)

lemma stale_list_db [simp]: "stale_list i newer (db w) = stale_list i newer w"
  by (simp add: stale_list_def select_runs_def)

lemma supersede_stale_runs_db:
  assumes "runs w i = Some newer"
  shows "db_res (supersede_stale_runs e i w) =
    Ret (length (stale_list i newer w))
      (retire_all i (workspace_id newer) (stale_list i newer w) (db w))"
proof (cases "is_supersedeable_kind newer")
  case True
  then have "db_res (supersede_loop e i (stale_list i newer w) 0 w) =
      Ret (0 + length (stale_list i newer w))
        (retire_all i (workspace_id newer) (stale_list i newer w) (db w))"
    by (intro supersede_loop_db) (auto simp: stale_list_iff superseded_by_def stale_list_def select_runs_def)
  with assms True show ?thesis by (simp add: supersede_stale_runs_def stale_list_def)
next
  case False
  with assms show ?thesis by (simp add: supersede_stale_runs_def stale_list_def)
qed

lemma supersede_call_db:
  assumes "runs w i = Some newer"
  shows "db_res (supersede_call e i w) =
    Ret () (retire_all i (workspace_id newer) (stale_list i newer w) (db w))"
  using supersede_stale_runs_db [OF assms, of e]
  by (auto simp: supersede_call_def dest!: db_res_eq_RetD)

text \<open>Queueing a run: it becomes \<open>Queued\<close>, and the runs it makes stale are retired.\<close>

lemma queue_run_db:
  assumes "runs w i = Some r" and "status r = Pending"
  shows "db_res (queue_run e i w) =
    Ret () (retire_all i (workspace_id r)
      (stale_list i r (put_run i (set_status Queued) w)) (put_run i (set_status Queued) (db w)))"
proof -
  have can: "can_transition (status r) Queued" using assms by simp
  obtain w4 where w4: "db w4 = put_run i (set_status Queued) (db w)"
    and eq: "queue_run e i w = bind_res (supersede_call e i w4)
      (\<lambda>_ w5. Ret () (notify_transition e i
        (transition_fields (now w) (current_state_serial w (workspace_id r)) Queued (Message []) r)
        Queued w5))"
    using transition_body_runs [OF assms(1) can, of "Message []" "supersede_call e" "\<lambda>_. Ret ()" e]
    unfolding queue_run_def transition_queue_def by (auto simp: enter_status_plain)
  have runs4: "runs w4 = runs (put_run i (set_status Queued) w)"
    using w4 [THEN arg_cong, of runs] by (simp add: put_run_def)
  have id4: "next_id w4 = next_id w" using w4 [THEN arg_cong, of next_id] by simp
  have row: "runs w4 i = Some (set_status Queued r)" using runs4 assms by simp
  have stale: "stale_list i (set_status Queued r) w4 = stale_list i r (put_run i (set_status Queued) w)"
    by (simp add: stale_list_def select_runs_def runs4 id4 is_supersedeable_kind_def superseded_by_def
        cong: conj_cong) (simp add: superseded_by_def [abs_def])
  obtain w5 where "supersede_call e i w4 = Ret () w5"
    and "db w5 = retire_all i (workspace_id r) (stale_list i r (put_run i (set_status Queued) w)) (db w4)"
    using supersede_call_db [OF row, of e] stale by (auto dest!: db_res_eq_RetD)
  then show ?thesis by (simp add: eq w4)
qed

lemma create_run_db:
  "fst (create_run e ws_id ws rq w) = next_id w"
  "db (snd (create_run e ws_id ws rq w)) = add_run (new_run e ws_id (settings ws) rq (now w)) (db w)"
  by (simp_all add: create_run_def Let_def)

end
