(* ===== verification/RunTasks.thy ===== *)
theory RunTasks
  imports RunEvents PyText
begin

text \<open>
  Run tasks, the webhook gate at a run's stage boundaries: callback tokens, task stages and their
  resolution (\<open>services/run_task_service.py\<close>), the webhook delivery
  (\<open>services/run_task_dispatcher.py\<close>) and the callback and override endpoints
  (\<open>api/routers/run_tasks.py\<close>).

  A token is a Python string; UUID printing and parsing and the keyed digest are the fields
  \<open>uuid_str\<close>, \<open>uuid_parse\<close> and \<open>hmac_sha256\<close> of \<open>env\<close>. The read-then-insert of
  \<open>create_task_stage\<close> is one transaction here, so its \<open>IntegrityError\<close> branch, which reloads the
  stage a concurrent transaction inserted, returns the same stage as the check before it.
\<close>

section \<open>Callback tokens\<close>

definition token_ttl :: int where
  "token_ttl = 3600"

definition generate_callback_token :: "env \<Rightarrow> int \<Rightarrow> nat \<Rightarrow> string" where
  "generate_callback_token e t result_id =
     (let ts = show_int (t div seconds 1);
          msg = uuid_str e result_id @ '':'' @ ts
      in msg @ '':'' @ hmac_sha256 e msg)"

definition verify_callback_token :: "env \<Rightarrow> int \<Rightarrow> string \<Rightarrow> nat option" where
  "verify_callback_token e t token =
     (case split_on (CHR '':'') token of
        [result_id_str, ts_str, sig] \<Rightarrow>
          (case (uuid_parse e result_id_str, py_int ts_str) of
             (Some result_id, Some ts) \<Rightarrow>
               if seconds token_ttl < t - seconds ts then None
               else if sig \<noteq> hmac_sha256 e (uuid_str e result_id @ '':'' @ ts_str) then None
               else Some result_id
           | _ \<Rightarrow> None)
      | _ \<Rightarrow> None)"

section \<open>Stages\<close>

definition valid_stages :: "string list" where
  "valid_stages = [''pre_plan'', ''post_plan'', ''pre_apply'']"

definition existing_stage :: "world \<Rightarrow> nat \<Rightarrow> string \<Rightarrow> nat option" where
  "existing_stage w run_id name =
     least_by (\<lambda>i. stage_created_at (the (task_stages w i)))
       (select (next_id w) (task_stages w) (\<lambda>_ s. stage_run s = run_id \<and> stage_name s = name))"

definition applicable_tasks :: "world \<Rightarrow> nat \<Rightarrow> string \<Rightarrow> nat list" where
  "applicable_tasks w ws name =
     select (next_id w) (run_tasks w)
       (\<lambda>_ t. task_workspace t = ws \<and> task_stage_name t = name \<and> task_enabled t)"

fun add_task_results :: "env \<Rightarrow> nat \<Rightarrow> nat list \<Rightarrow> world \<Rightarrow> nat list \<times> world" where
  "add_task_results e stage [] w = ([], w)"
| "add_task_results e stage (task # tasks) w =
     (let i = next_id w;
          w1 = add_result
            \<lparr>res_stage = stage, res_task = Some task, res_status = ''pending'',
             res_message = Text [], res_token = generate_callback_token e (now w) i,
             res_started_at = None, res_finished_at = None\<rparr> w
      in case add_task_results e stage tasks w1 of (ids, w2) \<Rightarrow> (i # ids, w2))"

definition enqueue_task_calls :: "nat list \<Rightarrow> world \<Rightarrow> world" where
  "enqueue_task_calls ids w =
     foldl (\<lambda>w i. redis_try (enqueue_trigger ''run_task_call'' (Task_Payload i)
       (Some (D_Run_Task i)) 300 (now w)) w) w ids"

definition create_task_stage :: "env \<Rightarrow> nat \<Rightarrow> nat \<Rightarrow> string \<Rightarrow> nat option handler" where
  "create_task_stage e run_id ws name w =
     (if name \<notin> set valid_stages then Raise (Invalid_Stage name) w
      else case existing_stage w run_id name of
        Some prior \<Rightarrow> Ret (Some prior) w
      | None \<Rightarrow>
          (let tasks = applicable_tasks w ws name in
           if tasks = [] then Ret None w
           else
             let ts_id = next_id w;
                 w1 = add_stage \<lparr>stage_run = run_id, stage_name = name,
                        stage_status = ''running'', stage_created_at = now w\<rparr> w
             in case add_task_results e ts_id tasks w1 of
                  (ids, w2) \<Rightarrow> Ret (Some ts_id) (enqueue_task_calls ids w2)))"

definition stage_results :: "world \<Rightarrow> nat \<Rightarrow> task_result list" where
  "stage_results w ts_id =
     map (\<lambda>i. the (task_results w i))
       (select (next_id w) (task_results w) (\<lambda>_ r. res_stage r = ts_id))"

definition mandatory_task :: "world \<Rightarrow> task_result \<Rightarrow> bool" where
  "mandatory_task w r =
     (case res_task r of None \<Rightarrow> False
      | Some t \<Rightarrow> (case run_tasks w t of None \<Rightarrow> False
                  | Some rt \<Rightarrow> task_enforcement rt = ''mandatory''))"

fun scan_results :: "world \<Rightarrow> task_result list \<Rightarrow> bool \<times> bool \<Rightarrow> bool \<times> bool" where
  "scan_results w [] acc = acc"
| "scan_results w (r # rs) (has_pending, has_mandatory_failure) =
     scan_results w rs
       (if res_status r = ''pending'' \<or> res_status r = ''running'' then (True, has_mandatory_failure)
        else if res_status r = ''failed'' then
          (has_pending, has_mandatory_failure \<or> mandatory_task w r)
        else if res_status r = ''errored'' \<or> res_status r = ''unreachable'' then
          (has_pending, has_mandatory_failure \<or> mandatory_task w r)
        else (has_pending, has_mandatory_failure))"

definition set_stage_status :: "string \<Rightarrow> task_stage \<Rightarrow> task_stage" where
  "set_stage_status st s = s\<lparr>stage_status := st\<rparr>"

definition settled_stage :: "string list" where
  "settled_stage = [''passed'', ''failed'', ''errored'', ''canceled'', ''overridden'']"

definition resolve_stage :: "nat \<Rightarrow> world \<Rightarrow> string \<times> world" where
  "resolve_stage ts_id w =
     (case task_stages w ts_id of
        None \<Rightarrow> (''errored'', w)
      | Some ts \<Rightarrow>
          if stage_status ts \<in> set settled_stage then (stage_status ts, w)
          else case scan_results w (stage_results w ts_id) (False, False) of
            (has_pending, has_mandatory_failure) \<Rightarrow>
              if has_pending then (stage_status ts, w)
              else
                let st = (if has_mandatory_failure then ''failed'' else ''passed'')
                in (st, put_stage ts_id (set_stage_status st) w))"

definition override_stage :: "nat \<Rightarrow> nat option handler" where
  "override_stage ts_id w =
     (case task_stages w ts_id of
        None \<Rightarrow> Ret None w
      | Some ts \<Rightarrow>
          if stage_status ts \<noteq> ''failed'' then Raise Not_Overridable w
          else Ret (Some ts_id) (put_stage ts_id (set_stage_status ''overridden'') w))"

section \<open>Webhook delivery and callbacks\<close>

definition finish_result :: "string \<Rightarrow> remark \<Rightarrow> int \<Rightarrow> task_result \<Rightarrow> task_result" where
  "finish_result st msg t r = r\<lparr>res_status := st, res_message := msg, res_finished_at := Some t\<rparr>"

definition handle_run_task_call :: "env \<Rightarrow> nat \<Rightarrow> world \<Rightarrow> world" where
  "handle_run_task_call e i w =
     (case task_results w i of None \<Rightarrow> w
      | Some tsr \<Rightarrow>
     (case task_stages w (res_stage tsr) of None \<Rightarrow> w
      | Some ts \<Rightarrow>
     (case runs w (stage_run ts) of None \<Rightarrow> w
      | Some r \<Rightarrow>
     (case workspaces w (workspace_id r) of None \<Rightarrow> w
      | Some ws \<Rightarrow>
          (let task = (case res_task tsr of None \<Rightarrow> None | Some t \<Rightarrow> if run_tasks w t = None then None else Some t)
           in case task of
             None \<Rightarrow>
               snd (resolve_stage (res_stage tsr)
                 (put_result i (finish_result ''errored'' (Text ''Run task definition not found'') (now w)) w))
           | Some t \<Rightarrow>
               let w1 = put_result i (\<lambda>r. r\<lparr>res_status := ''running'', res_started_at := Some (now w)\<rparr>) w
               in case send_webhook e t i of
                    Inl err \<Rightarrow>
                      snd (resolve_stage (res_stage tsr)
                        (put_result i (finish_result ''unreachable'' (Webhook_Failed (take 200 err)) (now w)) w1))
                  | Inr (code, body) \<Rightarrow>
                      if 200 \<le> code \<and> code < 300 then w1
                      else snd (resolve_stage (res_stage tsr)
                        (put_result i
                          (finish_result ''errored'' (Webhook_Http code (take 200 body)) (now w)) w1)))))))"

definition task_result_callback ::
    "env \<Rightarrow> nat \<Rightarrow> string \<Rightarrow> string \<Rightarrow> string \<Rightarrow> (string \<times> string) handler" where
  "task_result_callback e i access_token result_status msg w =
     (if access_token = [] then Raise (Http 401) w
      else case verify_callback_token e (now w) access_token of
        None \<Rightarrow> Raise (Http 401) w
      | Some verified_id \<Rightarrow>
          if verified_id \<noteq> i then Raise (Http 401) w
          else case task_results w i of
            None \<Rightarrow> Raise (Http 404) w
          | Some tsr \<Rightarrow>
              if res_status tsr \<notin> {''pending'', ''running''} then Raise (Http 409) w
              else if result_status \<notin> {''passed'', ''failed''} then Raise (Http 422) w
              else case resolve_stage (res_stage tsr)
                     (put_result i (finish_result result_status (Text msg) (now w)) w) of
                (st, w1) \<Rightarrow> Ret (result_status, st) w1)"

section \<open>How a stage resolves\<close>

definition result_open :: "task_result \<Rightarrow> bool" where
  "result_open r = (res_status r \<in> {''pending'', ''running''})"

definition result_failed :: "task_result \<Rightarrow> bool" where
  "result_failed r = (res_status r \<in> {''failed'', ''errored'', ''unreachable''})"

lemma scan_results_eq:
  "scan_results w rs (p, f) =
     (p \<or> (\<exists>r\<in>set rs. result_open r),
      f \<or> (\<exists>r\<in>set rs. result_failed r \<and> mandatory_task w r))"
  by (induction rs arbitrary: p f) (auto simp: result_open_def result_failed_def)

text \<open>The status a stage has after resolution, as one expression.\<close>

definition stage_verdict :: "world \<Rightarrow> nat \<Rightarrow> task_stage \<Rightarrow> string" where
  "stage_verdict w ts_id ts =
     (if stage_status ts \<in> set settled_stage then stage_status ts
      else if \<exists>r\<in>set (stage_results w ts_id). result_open r then stage_status ts
      else if \<exists>r\<in>set (stage_results w ts_id). result_failed r \<and> mandatory_task w r then ''failed''
      else ''passed'')"

lemma put_stage_same: "task_stages w i = Some s \<Longrightarrow> f s = s \<Longrightarrow> put_stage i f w = w"
  by (simp add: put_stage_def modify_def fun_upd_idem)

lemma set_stage_status_same [simp]: "set_stage_status (stage_status s) s = s"
  by (simp add: set_stage_status_def)

lemma resolve_stage_eq:
  "task_stages w ts_id = Some ts \<Longrightarrow>
   resolve_stage ts_id w =
     (stage_verdict w ts_id ts, put_stage ts_id (set_stage_status (stage_verdict w ts_id ts)) w)"
  by (auto simp: resolve_stage_def stage_verdict_def scan_results_eq put_stage_same Let_def)

lemma resolve_stage_frame [simp]:
  "runs (snd (resolve_stage i w)) = runs w" "workspaces (snd (resolve_stage i w)) = workspaces w"
  "next_id (snd (resolve_stage i w)) = next_id w" "now (snd (resolve_stage i w)) = now w"
  "task_results (snd (resolve_stage i w)) = task_results w" "run_tasks (snd (resolve_stage i w)) = run_tasks w"
  "state_versions (snd (resolve_stage i w)) = state_versions w" "store (snd (resolve_stage i w)) = store w"
  by (cases "task_stages w i"; auto simp: resolve_stage_def put_stage_def Let_def split: prod.splits)+

lemma stage_results_put_stage [simp]: "stage_results (put_stage i f w) = stage_results w"
  by (rule ext) (simp add: stage_results_def put_stage_def)

lemma mandatory_task_put_stage [simp]: "mandatory_task (put_stage i f w) = mandatory_task w"
  by (rule ext) (simp add: mandatory_task_def put_stage_def split: option.split)

lemma mandatory_task_db [simp]: "mandatory_task (db w) = mandatory_task w"
  by (rule ext) (simp add: mandatory_task_def split: option.split)

lemma stage_results_db [simp]: "stage_results (db w) = stage_results w"
  by (rule ext) (simp add: stage_results_def)

lemma set_stage_status_simps [simp]:
  "stage_status (set_stage_status st s) = st" "stage_run (set_stage_status st s) = stage_run s"
  "stage_name (set_stage_status st s) = stage_name s"
  "set_stage_status st (set_stage_status st' s) = set_stage_status st s"
  by (simp_all add: set_stage_status_def)

lemma stage_verdict_settled:
  "stage_status ts \<in> set settled_stage \<Longrightarrow> stage_verdict w ts_id ts = stage_status ts"
  by (simp add: stage_verdict_def)

lemma stage_verdict_settles:
  "stage_verdict w i ts = stage_status ts \<or> stage_verdict w i ts \<in> {''failed'', ''passed''}"
  by (simp add: stage_verdict_def)

lemma db_put_stage_resolve [simp]: "db (snd (resolve_stage i w)) = snd (resolve_stage i (db w))"
  "fst (resolve_stage i (db w)) = fst (resolve_stage i w)"
proof -
  have sv: "stage_verdict (db w) i ts = stage_verdict w i ts" for ts
    by (simp add: stage_verdict_def)
  show "db (snd (resolve_stage i w)) = snd (resolve_stage i (db w))"
    by (cases "task_stages w i") (simp_all add: resolve_stage_eq sv, simp add: resolve_stage_def)
  show "fst (resolve_stage i (db w)) = fst (resolve_stage i w)"
    by (cases "task_stages w i") (simp_all add: resolve_stage_eq sv, simp add: resolve_stage_def)
qed

section \<open>Creating a stage\<close>

lemma enqueue_task_calls_db [simp]: "db (enqueue_task_calls ids w) = db w"
  unfolding enqueue_task_calls_def by (induction ids arbitrary: w) auto

lemma add_task_results_frame [simp]:
  "runs (snd (add_task_results e s ts w)) = runs w"
  "workspaces (snd (add_task_results e s ts w)) = workspaces w"
  "task_stages (snd (add_task_results e s ts w)) = task_stages w"
  "state_versions (snd (add_task_results e s ts w)) = state_versions w"
  "now (snd (add_task_results e s ts w)) = now w"
  "next_id (snd (add_task_results e s ts w)) = next_id w + length ts"
  by (induction ts arbitrary: w) (simp_all add: Let_def add_result_def case_prod_beta)

lemma enqueue_task_calls_frame [simp]:
  "runs (enqueue_task_calls ids w) = runs w" "workspaces (enqueue_task_calls ids w) = workspaces w"
  "task_stages (enqueue_task_calls ids w) = task_stages w" "now (enqueue_task_calls ids w) = now w"
  "state_versions (enqueue_task_calls ids w) = state_versions w"
  "task_results (enqueue_task_calls ids w) = task_results w"
  "next_id (enqueue_task_calls ids w) = next_id w"
  by (rule db_eq_frame [OF enqueue_task_calls_db])+

text \<open>A fresh stage is the one the next call finds.\<close>

lemma existing_stage_fresh:
  assumes "dom (task_stages w) \<subseteq> {..<next_id w}" and "existing_stage w run_id name = None"
    and "task_stages w' = (task_stages w)(next_id w \<mapsto> ts)" and "next_id w < next_id w'"
    and "stage_run ts = run_id" and "stage_name ts = name"
  shows "existing_stage w' run_id name = Some (next_id w)"
proof -
  have none: "\<not> (stage_run s = run_id \<and> stage_name s = name)" if "task_stages w i = Some s" for i s
    using assms(1,2) that by (auto simp: existing_stage_def select_empty_iff)
  let ?sel = "select (next_id w') (task_stages w') (\<lambda>_ s. stage_run s = run_id \<and> stage_name s = name)"
  have mem: "i \<in> set ?sel \<longleftrightarrow> i = next_id w" for i
    using assms none by (auto split: if_splits)
  then have "?sel \<noteq> []" using mem [of "next_id w"] by (metis empty_iff list.set(1))
  then obtain y where y: "existing_stage w' run_id name = Some y"
    by (cases "existing_stage w' run_id name") (simp_all add: existing_stage_def)
  then have "y \<in> set ?sel" unfolding existing_stage_def by (rule least_by_in)
  with mem y show ?thesis by simp
qed

section \<open>Properties\<close>

text \<open>
  A stage resolves by the documented rule. A settled stage keeps its status; while a result is
  pending or running so does an unsettled one; after that it fails iff a result failed, errored or
  was unreachable whose task still exists and is mandatory, and passes otherwise. Resolving again
  gives the same verdict and changes nothing, and no other stage, result or run is touched.
\<close>

theorem stage_resolution:
  assumes "task_stages w i = Some ts"
  shows "fst (resolve_stage i w) =
      (if stage_status ts \<in> set settled_stage \<or> (\<exists>r\<in>set (stage_results w i). result_open r)
       then stage_status ts
       else if \<exists>r\<in>set (stage_results w i). result_failed r \<and>
            (\<exists>t rt. res_task r = Some t \<and> run_tasks w t = Some rt \<and> task_enforcement rt = ''mandatory'')
       then ''failed'' else ''passed'')
    \<and> resolve_stage i (snd (resolve_stage i w)) = resolve_stage i w
    \<and> task_stages (snd (resolve_stage i w)) =
        (task_stages w)(i \<mapsto> set_stage_status (fst (resolve_stage i w)) ts)
    \<and> runs (snd (resolve_stage i w)) = runs w"
proof -
  have mand: "mandatory_task w r \<longleftrightarrow>
      (\<exists>t rt. res_task r = Some t \<and> run_tasks w t = Some rt \<and> task_enforcement rt = ''mandatory'')" for r
    by (auto simp: mandatory_task_def split: option.splits)
  let ?v = "stage_verdict w i ts"
  have again: "stage_verdict w i (set_stage_status ?v ts) = ?v"
  proof (cases "stage_status ts \<in> set settled_stage \<or> (\<exists>r\<in>set (stage_results w i). result_open r)")
    case True
    then have "?v = stage_status ts" by (auto simp: stage_verdict_def)
    then show ?thesis by simp
  next
    case False
    then have "?v \<in> set settled_stage" by (auto simp: stage_verdict_def settled_stage_def)
    then show ?thesis by (simp add: stage_verdict_settled)
  qed
  have "stage_verdict (put_stage i f w) j x = stage_verdict w j x" for f j x
    by (simp add: stage_verdict_def)
  with again have "stage_verdict (put_stage i (set_stage_status ?v) w) i (set_stage_status ?v ts) = ?v"
    by simp
  then have stable: "resolve_stage i (snd (resolve_stage i w)) = resolve_stage i w"
    using assms by (simp add: resolve_stage_eq put_stage_def modify_modify comp_def)
  have verdict: "?v =
      (if stage_status ts \<in> set settled_stage \<or> (\<exists>r\<in>set (stage_results w i). result_open r)
       then stage_status ts
       else if \<exists>r\<in>set (stage_results w i). result_failed r \<and> mandatory_task w r
       then ''failed'' else ''passed'')"
    unfolding stage_verdict_def by (simp only: if_if_eq_conj split: if_split) blast
  have fst_v: "fst (resolve_stage i w) = ?v"
    and snd_v: "snd (resolve_stage i w) = put_stage i (set_stage_status ?v) w"
    using assms by (simp_all add: resolve_stage_eq)
  have stages: "task_stages (put_stage i (set_stage_status ?v) w)
      = (task_stages w)(i \<mapsto> set_stage_status ?v ts)"
    using assms by (simp add: put_stage_def modify_def)
  show ?thesis
    unfolding fst_v snd_v stages mand [symmetric]
    by (intro conjI verdict refl stable [unfolded snd_v]) (simp add: put_stage_def)
qed

definition stage_example :: world where
  "stage_example = empty_world
     \<lparr>task_stages := [2 \<mapsto> \<lparr>stage_run = 0, stage_name = ''post_plan'', stage_status = ''running'',
                           stage_created_at = 0\<rparr>],
      run_tasks := [1 \<mapsto> \<lparr>task_workspace = 0, task_stage_name = ''post_plan'', task_enabled = True,
                         task_enforcement = ''mandatory''\<rparr>],
      task_results := [3 \<mapsto> \<lparr>res_stage = 2, res_task = Some 1, res_status = ''unreachable'',
                            res_message = Text [], res_token = [], res_started_at = None,
                            res_finished_at = None\<rparr>],
      next_id := 4\<rparr>"

lemma stage_example_results:
  "stage_results stage_example 2 =
     [\<lparr>res_stage = 2, res_task = Some 1, res_status = ''unreachable'', res_message = Text [],
       res_token = [], res_started_at = None, res_finished_at = None\<rparr>]"
  by (simp add: stage_results_def stage_example_def select_def upt_rec empty_world_def)

theorem stage_resolution_witness: "fst (resolve_stage 2 stage_example) = ''failed''"
proof -
  have "task_stages stage_example 2 = Some \<lparr>stage_run = 0, stage_name = ''post_plan'',
      stage_status = ''running'', stage_created_at = 0\<rparr>"
    by (simp add: stage_example_def)
  from stage_resolution [OF this, THEN conjunct1] show ?thesis
    by (simp add: stage_example_results result_open_def result_failed_def settled_stage_def)
      (simp add: stage_example_def)
qed

text \<open>
  A run has one stage per boundary. Creating it again, as every reconciler tick does while the
  run waits, returns the stage created first and adds nothing, so its results keep their status.
\<close>

theorem create_task_stage_idempotent:
  assumes "dom (task_stages w) \<subseteq> {..<next_id w}"
    and "create_task_stage e run_id ws name w = Ret (Some s) w1"
  shows "create_task_stage e run_id ws name w1 = Ret (Some s) w1
    \<and> create_task_stage e run_id ws' name w1 = Ret (Some s) w1
    \<and> (\<exists>ts. task_stages w1 s = Some ts \<and> stage_run ts = run_id \<and> stage_name ts = name)"
proof (cases "existing_stage w run_id name")
  case (Some prior)
  then have "prior \<in> set (select (next_id w) (task_stages w)
      (\<lambda>_ s. stage_run s = run_id \<and> stage_name s = name))"
    unfolding existing_stage_def by (rule least_by_in)
  with Some assms(2) show ?thesis by (auto simp: create_task_stage_def split: if_splits)
next
  case None
  let ?ts = "\<lparr>stage_run = run_id, stage_name = name, stage_status = ''running'', stage_created_at = now w\<rparr>"
  from None assms(2) have name: "name \<in> set valid_stages" and s: "s = next_id w"
    and stages: "task_stages w1 = (task_stages w)(next_id w \<mapsto> ?ts)"
    and less: "next_id w < next_id w1"
    by (auto simp: create_task_stage_def Let_def case_prod_beta add_stage_def split: if_splits)
  have "existing_stage w1 run_id name = Some s"
    using existing_stage_fresh [OF assms(1) None stages less] s by simp
  with name stages s show ?thesis by (simp add: create_task_stage_def)
qed

theorem create_task_stage_idempotent_witness:
  "create_task_stage example_env 0 0 ''post_plan'' stage_example = Ret (Some 2) stage_example"
  using create_task_stage_idempotent
    [of stage_example example_env 0 0 "''post_plan''" 2 stage_example 0]
  by (simp add: create_task_stage_def valid_stages_def existing_stage_def stage_example_def
      empty_world_def select_def upt_rec)

text \<open>
  A callback token reads back as its result id for an hour (counted from the full second it
  was issued in) and is rejected afterwards, for UUIDs and digests printed without a colon.
\<close>

theorem callback_token_roundtrip:
  assumes "0 \<le> t" and "uuid_parse e (uuid_str e i) = Some i"
    and "CHR '':'' \<notin> set (uuid_str e i)" and "\<And>m. CHR '':'' \<notin> set (hmac_sha256 e m)"
  shows "verify_callback_token e t' (generate_callback_token e t i) =
    (if seconds 3600 < t' - seconds (t div seconds 1) then None else Some i)"
proof -
  have "0 \<le> t div seconds 1" using assms(1) by (simp add: seconds_def pos_imp_zdiv_nonneg_iff)
  moreover note show_int_no_colon [OF this] py_int_show_int [OF this]
  ultimately show ?thesis
    using assms(2,3,4)
    by (simp add: verify_callback_token_def generate_callback_token_def Let_def split_on_sep
        split_on_plain token_ttl_def)
qed

theorem callback_token_roundtrip_witness:
  "verify_callback_token example_env 3600000000 (generate_callback_token example_env 0 7) = Some 7
   \<and> verify_callback_token example_env 3600000001 (generate_callback_token example_env 0 7) = None"
  by (subst callback_token_roundtrip; (subst callback_token_roundtrip)?)
    (simp_all add: example_env_def seconds_def)

text \<open>
  A result is settled once, by the holder of its token. A callback that succeeds carried a
  valid token for this very result, found it open, sets it to \<open>passed\<close> or \<open>failed\<close> and touches no
  other result and no run; every later callback for it is rejected.
\<close>

theorem callback_settles_once:
  assumes "task_result_callback e i token st msg w = Ret x w'"
  shows "verify_callback_token e (now w) token = Some i \<and> st \<in> {''passed'', ''failed''}
    \<and> (\<exists>r. task_results w i = Some r \<and> result_open r
        \<and> task_results w' = (task_results w)(i \<mapsto> finish_result st (Text msg) (now w) r))
    \<and> runs w' = runs w
    \<and> (\<forall>token' st' msg'. \<exists>n. task_result_callback e i token' st' msg' w' = Raise (Http n) w')"
proof -
  from assms obtain r where v: "verify_callback_token e (now w) token = Some i"
    and st: "st \<in> {''passed'', ''failed''}" and r: "task_results w i = Some r" "result_open r"
    and w': "w' = snd (resolve_stage (res_stage r) (put_result i (finish_result st (Text msg) (now w)) w))"
    by (auto simp: task_result_callback_def result_open_def split: if_splits option.splits prod.splits)
  from r w' have res: "task_results w' = (task_results w)(i \<mapsto> finish_result st (Text msg) (now w) r)"
    by (simp add: put_result_def modify_def)
  have "res_status (finish_result st (Text msg) (now w) r) \<notin> {''pending'', ''running''}"
    using st by (auto simp: finish_result_def)
  then have "\<exists>n. task_result_callback e i token' st' msg' w' = Raise (Http n) w'" for token' st' msg'
    by (auto simp: task_result_callback_def res split: option.splits)
  moreover have "runs w' = runs w" by (simp add: w' put_result_def)
  ultimately show ?thesis using v st r res by blast
qed

definition callback_example :: world where
  "callback_example = put_result 3 (\<lambda>r. r\<lparr>res_status := ''running''\<rparr>) stage_example"

theorem callback_settles_once_witness:
  "\<exists>w'. task_result_callback example_env 3 (generate_callback_token example_env 0 3) ''passed'' [] callback_example
      = Ret (''passed'', ''passed'') w'
    \<and> (\<exists>n. task_result_callback example_env 3 (generate_callback_token example_env 0 3) ''failed'' [] w'
      = Raise (Http n) w')"
proof -
  let ?m = "task_result_callback example_env 3 (generate_callback_token example_env 0 3) ''passed'' []
    callback_example"
  have "(case ?m of Ret x _ \<Rightarrow> x | Raise _ _ \<Rightarrow> ([], [])) = (''passed'', ''passed'')" by code_simp
  then obtain w' where m: "?m = Ret (''passed'', ''passed'') w'" by (cases ?m) auto
  show ?thesis using m callback_settles_once [OF m] by blast
qed

end
