(* ===== verification/Policies.thy ===== *)
theory Policies
  imports RunEvents
begin

text \<open>
  Policy sets (\<open>services/policy_set_service.py\<close>): which sets apply to a workspace, the post-plan gate
  over the recorded evaluations, the status summary and the override.

  A gate result is \<open>''passed''\<close> or \<open>''blocked''\<close>, as in the code. The evaluations themselves are
  written by the runner; the gate only adds the synthetic \<open>errored\<close> rows of mandatory sets the
  runner did not report.
\<close>

section \<open>Scope\<close>

fun labels_match :: "resource_labels \<Rightarrow> label_rules \<Rightarrow> bool" where
  "labels_match labels [] = False"
| "labels_match labels ((key, accepted) # rest) =
     (case map_of labels key of
        None \<Rightarrow> labels_match labels rest
      | Some v \<Rightarrow>
          if v \<in> set (case accepted of Many vs \<Rightarrow> vs | One x \<Rightarrow> [x]) then True
          else labels_match labels rest)"

definition policy_set_applies :: "policy_set \<Rightarrow> string \<Rightarrow> resource_labels \<Rightarrow> bool" where
  "policy_set_applies ps name labels =
     (if \<not> ps_enabled ps then False
      else if ps_global ps then True
      else if name \<in> set (ps_deny_names ps) then False
      else if labels_match labels (ps_deny_labels ps) then False
      else if name \<in> set (ps_allow_names ps) then True
      else labels_match labels (ps_allow_labels ps))"

definition applicable_policy_sets :: "world \<Rightarrow> workspace \<Rightarrow> nat list" where
  "applicable_policy_sets w ws =
     filter (\<lambda>p. policy_set_applies (the (policy_sets w p)) (ws_name (settings ws)) (ws_labels (settings ws)))
       (select (next_id w) (policy_sets w) (\<lambda>_ ps. ps_enabled ps))"

section \<open>The gate\<close>

fun insert_evaluations :: "policy_evaluation list \<Rightarrow> world \<Rightarrow> world" where
  "insert_evaluations [] w = w"
| "insert_evaluations (row # rows) w =
     insert_evaluations rows
       (if pe_set row \<noteq> None
           \<and> select (next_id w) (policy_evaluations w)
               (\<lambda>_ ev. pe_run ev = pe_run row \<and> pe_set ev = pe_set row) \<noteq> []
        then w else add_evaluation row w)"

definition run_evaluations :: "world \<Rightarrow> nat \<Rightarrow> nat list" where
  "run_evaluations w run_id =
     select (next_id w) (policy_evaluations w) (\<lambda>_ ev. pe_run ev = run_id)"

definition run_is_policy_blocked :: "world \<Rightarrow> nat \<Rightarrow> bool" where
  "run_is_policy_blocked w run_id =
     (select (next_id w) (policy_evaluations w)
        (\<lambda>_ ev. pe_run ev = run_id \<and> pe_enforcement ev = ''mandatory''
              \<and> pe_outcome ev \<in> {''failed'', ''errored''} \<and> pe_overridden_by ev = None) \<noteq> [])"

definition recorded_sets :: "world \<Rightarrow> nat \<Rightarrow> nat set" where
  "recorded_sets w run_id =
     set (List.map_filter (\<lambda>i. pe_set (the (policy_evaluations w i))) (run_evaluations w run_id))"

definition synthetic_evaluation :: "world \<Rightarrow> nat \<Rightarrow> nat \<Rightarrow> policy_evaluation" where
  "synthetic_evaluation w run_id p =
     (let ps = the (policy_sets w p) in
      \<lparr>pe_run = run_id, pe_set = Some p, pe_set_name = ps_name ps, pe_enforcement = ps_enforcement ps,
       pe_outcome = ''errored'', pe_overridden_by = None, pe_overridden_at = None,
       pe_created_at = now w\<rparr>)"

definition evaluate_post_plan :: "nat \<Rightarrow> run \<Rightarrow> world \<Rightarrow> string \<times> world" where
  "evaluate_post_plan run_id r w =
     (if plan_only r then (''passed'', w)
      else case workspaces w (workspace_id r) of
        None \<Rightarrow> (''passed'', w)
      | Some ws \<Rightarrow>
          (let sets = applicable_policy_sets w ws in
           if sets = [] then (''passed'', w)
           else
             let missing_mandatory = filter (\<lambda>p. p \<notin> recorded_sets w run_id
                   \<and> ps_enforcement (the (policy_sets w p)) = ''mandatory'') sets;
                 w1 = insert_evaluations (map (synthetic_evaluation w run_id) missing_mandatory) w
             in (if run_is_policy_blocked w1 run_id then ''blocked'' else ''passed'', w1)))"

section \<open>Summary and override\<close>

definition evaluation_failed :: "policy_evaluation \<Rightarrow> bool" where
  "evaluation_failed ev = (pe_outcome ev \<in> {''failed'', ''errored''})"

definition run_policy_summary :: "world \<Rightarrow> nat \<Rightarrow> (string \<times> nat \<times> nat \<times> nat) option" where
  "run_policy_summary w run_id =
     (let evals = map (\<lambda>i. the (policy_evaluations w i)) (run_evaluations w run_id) in
      if evals = [] then None
      else
        let passed = length (filter (\<lambda>ev. pe_outcome ev = ''passed'') evals);
            failed = length (filter evaluation_failed evals);
            st = (if run_is_policy_blocked w run_id then ''blocked''
                  else if 0 < failed then ''advisory-failed'' else ''passed'')
        in Some (st, length evals, passed, failed))"

definition override_evaluation :: "string \<Rightarrow> int \<Rightarrow> policy_evaluation \<Rightarrow> policy_evaluation" where
  "override_evaluation email t ev = ev\<lparr>pe_overridden_by := Some email, pe_overridden_at := Some t\<rparr>"

fun override_loop :: "string \<Rightarrow> nat list \<Rightarrow> nat \<Rightarrow> world \<Rightarrow> nat \<times> world" where
  "override_loop email [] count w = (count, w)"
| "override_loop email (i # rest) count w =
     (case policy_evaluations w i of
        Some ev \<Rightarrow>
          if evaluation_failed ev \<and> pe_overridden_by ev = None
          then override_loop email rest (Suc count) (put_evaluation i (override_evaluation email (now w)) w)
          else override_loop email rest count w
      | None \<Rightarrow> override_loop email rest count w)"

definition override_run_policies :: "nat \<Rightarrow> string \<Rightarrow> world \<Rightarrow> nat \<times> world" where
  "override_run_policies run_id email w = override_loop email (run_evaluations w run_id) 0 w"

section \<open>Scope is the roles' label gate\<close>

lemma labels_match_iff: "labels_match rl rules \<longleftrightarrow> label_hit rl rules"
proof (induction rules)
  case (Cons rule rules)
  obtain k v where "rule = (k, v)" by (cases rule)
  with Cons show ?case by (cases v) (auto split: option.splits)
qed simp

interpretation policy_gate: label_gate policy_set_applies "\<lambda>ps. ps_enabled ps \<and> \<not> ps_global ps"
    ps_deny_names ps_deny_labels ps_allow_names ps_allow_labels
  by unfold_locales (auto simp: policy_set_applies_def labels_match_iff)

section \<open>What the gate records\<close>

lemma insert_evaluations_frame [simp]:
  "runs (insert_evaluations rows w) = runs w" "workspaces (insert_evaluations rows w) = workspaces w"
  "policy_sets (insert_evaluations rows w) = policy_sets w" "now (insert_evaluations rows w) = now w"
  "state_versions (insert_evaluations rows w) = state_versions w"
  by (induction rows arbitrary: w) (simp_all add: add_evaluation_def)

lemma insert_evaluations_db [simp]: "db (insert_evaluations rows w) = insert_evaluations rows (db w)"
  by (induction rows arbitrary: w) simp_all

lemma insert_evaluations_next: "next_id w \<le> next_id (insert_evaluations rows w)"
proof (induction rows arbitrary: w)
  case (Cons row rows)
  have "next_id w \<le> next_id (add_evaluation row w)" by (simp add: add_evaluation_def)
  with Cons.IH [of w] Cons.IH [of "add_evaluation row w"] show ?case by (auto intro: order_trans)
qed simp

text \<open>Rows below \<open>next_id\<close> never change; every missing set gets a row.\<close>

lemma insert_evaluations_keeps:
  "j < next_id w \<Longrightarrow> policy_evaluations (insert_evaluations rows w) j = policy_evaluations w j"
proof (induction rows arbitrary: w)
  case (Cons row rows)
  have "policy_evaluations (add_evaluation row w) j = policy_evaluations w j"
    and "j < next_id (add_evaluation row w)"
    using Cons.prems by (simp_all add: add_evaluation_def)
  then show ?case using Cons.IH [of w] Cons.IH [of "add_evaluation row w"] Cons.prems by simp
qed simp

definition has_evaluation :: "world \<Rightarrow> nat \<Rightarrow> nat \<Rightarrow> bool" where
  "has_evaluation w run_id p =
     (\<exists>j ev. j < next_id w \<and> policy_evaluations w j = Some ev \<and> pe_run ev = run_id \<and> pe_set ev = Some p)"

lemma has_evaluation_keeps:
  "has_evaluation w run_id p \<Longrightarrow> has_evaluation (insert_evaluations rows w) run_id p"
  unfolding has_evaluation_def
  using insert_evaluations_keeps insert_evaluations_next by (metis order_less_le_trans)

lemma recorded_sets_iff: "p \<in> recorded_sets w run_id \<longleftrightarrow> has_evaluation w run_id p"
  by (force simp: recorded_sets_def run_evaluations_def has_evaluation_def List.map_filter_def)

lemma insert_evaluations_has:
  "row \<in> set rows \<Longrightarrow> pe_run row = run_id \<Longrightarrow> pe_set row = Some p \<Longrightarrow>
   has_evaluation (insert_evaluations rows w) run_id p"
proof (induction rows arbitrary: w)
  case (Cons r rows)
  let ?dup = "pe_set r \<noteq> None \<and> select (next_id w) (policy_evaluations w)
      (\<lambda>_ ev. pe_run ev = pe_run r \<and> pe_set ev = pe_set r) \<noteq> []"
  let ?w = "if ?dup then w else add_evaluation r w"
  show ?case
  proof (cases "row = r")
    case True
    have "has_evaluation ?w run_id p"
    proof (cases ?dup)
      case True
      then obtain j where "j \<in> set (select (next_id w) (policy_evaluations w)
          (\<lambda>_ ev. pe_run ev = pe_run r \<and> pe_set ev = pe_set r))"
        by (meson list.set_sel(1))
      with True \<open>row = r\<close> Cons.prems show ?thesis by (auto simp: has_evaluation_def)
    next
      case False
      then show ?thesis using \<open>row = r\<close> Cons.prems
        by (auto simp: has_evaluation_def add_evaluation_def intro!: exI [of _ "next_id w"])
    qed
    then show ?thesis using has_evaluation_keeps by (simp only: insert_evaluations.simps)
  next
    case False
    with Cons show ?thesis by simp
  qed
qed simp

lemma insert_evaluations_from:
  "policy_evaluations (insert_evaluations rows w) j = Some ev \<Longrightarrow>
   policy_evaluations w j = Some ev \<or> ev \<in> set rows"
proof (induction rows arbitrary: w)
  case (Cons row rows)
  show ?case
  proof (cases "pe_set row \<noteq> None \<and> select (next_id w) (policy_evaluations w)
      (\<lambda>_ ev. pe_run ev = pe_run row \<and> pe_set ev = pe_set row) \<noteq> []")
    case True
    with Cons show ?thesis by auto
  next
    case False
    then have "insert_evaluations (row # rows) w = insert_evaluations rows (add_evaluation row w)"
      by (simp only: insert_evaluations.simps if_False)
    with Cons.prems Cons.IH [of "add_evaluation row w"] show ?thesis
      by (auto simp: add_evaluation_def split: if_splits)
  qed
qed simp

lemma policy_blocked_iff:
  "run_is_policy_blocked w i \<longleftrightarrow>
     (\<exists>j ev. j < next_id w \<and> policy_evaluations w j = Some ev \<and> pe_run ev = i
        \<and> pe_enforcement ev = ''mandatory'' \<and> evaluation_failed ev \<and> pe_overridden_by ev = None)"
  by (auto simp: run_is_policy_blocked_def select_nonempty_iff evaluation_failed_def)

definition missing_sets :: "nat \<Rightarrow> workspace \<Rightarrow> world \<Rightarrow> nat set" where
  "missing_sets i ws w =
     {p \<in> set (applicable_policy_sets w ws).
        ps_enforcement (the (policy_sets w p)) = ''mandatory'' \<and> \<not> has_evaluation w i p}"

lemma missing_set_blocks:
  assumes "dom (policy_evaluations w) \<subseteq> {..<next_id w}"
    and "row \<in> set rows" and "pe_run row = i" and "pe_set row = Some p" and "\<not> has_evaluation w i p"
    and "\<And>ev. ev \<in> set rows \<Longrightarrow> pe_enforcement ev = ''mandatory'' \<and> evaluation_failed ev
           \<and> pe_overridden_by ev = None"
  shows "run_is_policy_blocked (insert_evaluations rows w) i"
proof -
  obtain j ev where j: "j < next_id (insert_evaluations rows w)"
    and ev: "policy_evaluations (insert_evaluations rows w) j = Some ev" "pe_run ev = i" "pe_set ev = Some p"
    using insert_evaluations_has [OF assms(2-4), of w] by (auto simp: has_evaluation_def)
  have "policy_evaluations w j \<noteq> Some ev"
    using assms(1,5) ev by (auto simp: has_evaluation_def)
  then have "ev \<in> set rows" using insert_evaluations_from [OF ev(1)] by simp
  with assms(6) j ev show ?thesis by (auto simp: policy_blocked_iff)
qed

lemma insert_evaluations_blocked:
  "run_is_policy_blocked w i \<Longrightarrow> run_is_policy_blocked (insert_evaluations rows w) i"
  unfolding policy_blocked_iff
  using insert_evaluations_keeps insert_evaluations_next by (metis order_less_le_trans)

text \<open>The verdict of the gate for a run that can apply.\<close>

lemma evaluate_post_plan_verdict:
  assumes dom: "dom (policy_evaluations w) \<subseteq> {..<next_id w}"
    and ws: "workspaces w (workspace_id r) = Some ws" and mutates: "\<not> plan_only r"
  shows "fst (evaluate_post_plan i r w) = ''passed'' \<longleftrightarrow>
    applicable_policy_sets w ws = [] \<or> missing_sets i ws w = {} \<and> \<not> run_is_policy_blocked w i"
proof -
  let ?missing = "filter (\<lambda>p. p \<notin> recorded_sets w i
      \<and> ps_enforcement (the (policy_sets w p)) = ''mandatory'') (applicable_policy_sets w ws)"
  let ?rows = "map (synthetic_evaluation w i) ?missing"
  have missing: "set ?missing = missing_sets i ws w"
    by (auto simp: missing_sets_def recorded_sets_iff)
  have blocks: "run_is_policy_blocked (insert_evaluations ?rows w) i" if "p \<in> missing_sets i ws w" for p
  proof (rule missing_set_blocks [OF dom, of "synthetic_evaluation w i p"])
    show "synthetic_evaluation w i p \<in> set ?rows" using that missing by simp
    show "\<not> has_evaluation w i p" using that by (simp add: missing_sets_def)
  qed (auto simp: synthetic_evaluation_def Let_def evaluation_failed_def)
  have gate: "fst (evaluate_post_plan i r w) = ''passed'' \<longleftrightarrow>
      applicable_policy_sets w ws = [] \<or> \<not> run_is_policy_blocked (insert_evaluations ?rows w) i"
    using ws mutates by (simp add: evaluate_post_plan_def Let_def)
  show ?thesis
  proof (cases "missing_sets i ws w = {}")
    case True
    then have "?rows = []" using missing by (simp only: set_empty list.map(1))
    with gate True show ?thesis by simp
  next
    case False
    with gate blocks show ?thesis by auto
  qed
qed

lemma put_evaluation_frame [simp]:
  "now (put_evaluation i f w) = now w" "next_id (put_evaluation i f w) = next_id w"
  "runs (put_evaluation i f w) = runs w" "workspaces (put_evaluation i f w) = workspaces w"
  "policy_sets (put_evaluation i f w) = policy_sets w"
  by (simp_all add: put_evaluation_def)

lemma override_loop_eq:
  "policy_evaluations (snd (override_loop email ids n w)) =
     (\<lambda>j. map_option (\<lambda>ev. if j \<in> set ids \<and> evaluation_failed ev \<and> pe_overridden_by ev = None
        then override_evaluation email (now w) ev else ev) (policy_evaluations w j))"
  "next_id (snd (override_loop email ids n w)) = next_id w"
  "runs (snd (override_loop email ids n w)) = runs w"
  "workspaces (snd (override_loop email ids n w)) = workspaces w"
  "policy_sets (snd (override_loop email ids n w)) = policy_sets w"
proof (induction ids arbitrary: n w)
  case (Cons i ids)
  {
    case 1
    show ?case
    proof (rule ext)
      fix j
      show "policy_evaluations (snd (override_loop email (i # ids) n w)) j =
          map_option (\<lambda>ev. if j \<in> set (i # ids) \<and> evaluation_failed ev \<and> pe_overridden_by ev = None
            then override_evaluation email (now w) ev else ev) (policy_evaluations w j)"
        by (cases "j = i"; cases "policy_evaluations w j"; cases "policy_evaluations w i")
          (auto simp: Cons.IH evaluation_rows.fetch_put override_evaluation_def)
    qed
  next
    case 2 show ?case by (simp add: Cons.IH split: option.split)
  next
    case 3 show ?case by (simp add: Cons.IH split: option.split)
  next
    case 4 show ?case by (simp add: Cons.IH split: option.split)
  next
    case 5 show ?case by (simp add: Cons.IH split: option.split)
  }
qed (auto simp: option.map_ident)

lemma evaluate_post_plan_frame [simp]:
  "runs (snd (evaluate_post_plan i r w)) = runs w"
  "workspaces (snd (evaluate_post_plan i r w)) = workspaces w"
  "state_versions (snd (evaluate_post_plan i r w)) = state_versions w"
  "now (snd (evaluate_post_plan i r w)) = now w"
  by (auto simp: evaluate_post_plan_def Let_def split: option.splits)

lemma evaluate_post_plan_next: "next_id w \<le> next_id (snd (evaluate_post_plan i r w))"
  by (auto simp: evaluate_post_plan_def Let_def insert_evaluations_next split: option.splits)

lemma applicable_policy_sets_db [simp]: "applicable_policy_sets (db w) = applicable_policy_sets w"
  by (rule ext) (simp add: applicable_policy_sets_def)

lemma recorded_sets_db [simp]: "recorded_sets (db w) = recorded_sets w"
  by (rule ext) (simp add: recorded_sets_def run_evaluations_def)

lemma synthetic_evaluation_db [simp]: "synthetic_evaluation (db w) = synthetic_evaluation w"
  by (intro ext) (simp add: synthetic_evaluation_def)

lemma policy_blocked_db [simp]: "run_is_policy_blocked (db w) = run_is_policy_blocked w"
  by (rule ext) (simp add: run_is_policy_blocked_def)

lemma evaluate_post_plan_db [simp]:
  "db (snd (evaluate_post_plan i r w)) = snd (evaluate_post_plan i r (db w))"
  "fst (evaluate_post_plan i r (db w)) = fst (evaluate_post_plan i r w)"
  by (auto simp: evaluate_post_plan_def Let_def insert_evaluations_db [symmetric]
      simp del: insert_evaluations_db split: option.split)

section \<open>Properties\<close>

text \<open>
  C20: the policy gate fails closed. A run that can apply passes iff no enabled policy set is in
  scope, or every mandatory set in scope has an evaluation for this run and no mandatory evaluation
  of it is failed or errored without an override. Plan-only runs always pass.
\<close>

theorem policy_gate_fails_closed:
  assumes "dom (policy_evaluations w) \<subseteq> {..<next_id w}" and "workspaces w (workspace_id r) = Some ws"
  shows "fst (evaluate_post_plan i r w) = ''passed'' \<longleftrightarrow>
    plan_only r \<or> applicable_policy_sets w ws = [] \<or>
    (\<forall>p\<in>set (applicable_policy_sets w ws).
       ps_enforcement (the (policy_sets w p)) = ''mandatory'' \<longrightarrow> has_evaluation w i p) \<and>
    (\<forall>j<next_id w. \<forall>ev. policy_evaluations w j = Some ev \<and> pe_run ev = i
       \<and> pe_enforcement ev = ''mandatory'' \<and> evaluation_failed ev \<longrightarrow> pe_overridden_by ev \<noteq> None)"
proof (cases "plan_only r")
  case True
  then show ?thesis by (simp add: evaluate_post_plan_def)
next
  case False
  show ?thesis
    unfolding evaluate_post_plan_verdict [OF assms False] missing_sets_def policy_blocked_iff
    using False by auto
qed

definition policy_example :: world where
  "policy_example = empty_world
     \<lparr>workspaces := [0 \<mapsto>
        \<lparr>settings = \<lparr>ws_name = ''prod'', ws_labels = [], ws_owner_email = [], ws_execution_mode = ''agent'',
           ws_auto_apply = False, ws_backend = ''tofu'', ws_version = ''1.12'', ws_tg_enabled = False,
           ws_tg_version = [], ws_cpu = [], ws_memory = [], ws_pool = None, ws_vcs_connection = None,
           ws_vcs_repo_url = [], ws_vcs_workflow = [], ws_plan_expiry = None, ws_drift_enabled = False,
           ws_drift_interval = 0, ws_drift_rules = [], ws_catalog_item = None\<rparr>,
         locked = False, lock_id = None, state_diverged = False, drift_status = [],
         drift_last_checked_at = None, drift_latest_run_id = None, lifecycle_state = ''active'',
         lifecycle_reason = Text []\<rparr>],
      policy_sets := [1 \<mapsto> \<lparr>ps_name = ''base'', ps_enforcement = ''mandatory'', ps_enabled = True,
         ps_global = True, ps_allow_labels = [], ps_allow_names = [], ps_deny_labels = [],
         ps_deny_names = []\<rparr>],
      next_id := 2\<rparr>"

definition plain_run :: "nat \<Rightarrow> run" where
  "plain_run ws =
     \<lparr>config = \<lparr>rc_workspace = ws, rc_cv = None, rc_is_destroy = False, rc_auto_apply = False,
        rc_plan_only = False, rc_source = ''tfe-api'', rc_backend = ''tofu'', rc_version = [],
        rc_tg_enabled = False, rc_tg_version = [], rc_cpu = [], rc_memory = [], rc_pool = None,
        rc_created_by = [], rc_is_drift = False, rc_targets = None, rc_replaces = None,
        rc_refresh_only = False, rc_refresh = True, rc_allow_empty = False, rc_created_at = 0,
        rc_vcs_sha = [], rc_vcs_branch = [], rc_pr = None, rc_overrides = None\<rparr>,
      status = Pending, message = Text [], error_message = Message [], discard_reason = None,
      listener_id = None, job_name = None, job_namespace = None, has_changes = None,
      plan_started_at = None, plan_finished_at = None, plan_state_serial = None,
      apply_started_at = None, apply_finished_at = None, vcs_apply_blocked_reason = None,
      runner_exit_code = None, runner_exit_reason = [], runner_exit_status = [],
      peak_memory_bytes = None\<rparr>"

theorem policy_gate_fails_closed_witness:
  "fst (evaluate_post_plan 5 (plain_run 0) policy_example) \<noteq> ''passed''"
proof -
  obtain ws where ws: "workspaces policy_example (workspace_id (plain_run 0)) = Some ws"
    by (simp add: policy_example_def plain_run_def)
  have "applicable_policy_sets policy_example ws = [1]"
    by (simp add: applicable_policy_sets_def policy_example_def select_def upt_rec policy_set_applies_def
        empty_world_def)
  moreover have "\<not> has_evaluation policy_example 5 1"
    by (simp add: has_evaluation_def policy_example_def empty_world_def)
  moreover have "ps_enforcement (the (policy_sets policy_example 1)) = ''mandatory''"
    by (simp add: policy_example_def)
  ultimately show ?thesis
    using policy_gate_fails_closed [OF _ ws, of 5]
    by (simp add: plain_run_def policy_example_def empty_world_def)
qed

text \<open>
  An override releases a blocked run. It marks exactly the failed and errored evaluations of
  this run that had no override, leaves every other evaluation alone, and the gate then passes
  unless a mandatory set in scope has no evaluation at all.
\<close>

theorem override_releases_gate:
  assumes "dom (policy_evaluations w) \<subseteq> {..<next_id w}" and "workspaces w (workspace_id r) = Some ws"
    and "missing_sets i ws w = {}" and "w' = snd (override_run_policies i email w)"
  shows "fst (evaluate_post_plan i r w') = ''passed''
    \<and> policy_evaluations w' = (\<lambda>j. map_option (\<lambda>ev.
        if pe_run ev = i \<and> evaluation_failed ev \<and> pe_overridden_by ev = None
        then override_evaluation email (now w) ev else ev) (policy_evaluations w j))"
proof -
  have evals: "policy_evaluations w' = (\<lambda>j. map_option (\<lambda>ev.
        if pe_run ev = i \<and> evaluation_failed ev \<and> pe_overridden_by ev = None
        then override_evaluation email (now w) ev else ev) (policy_evaluations w j))"
  proof (rule ext)
    fix j
    show "policy_evaluations w' j = map_option (\<lambda>ev.
        if pe_run ev = i \<and> evaluation_failed ev \<and> pe_overridden_by ev = None
        then override_evaluation email (now w) ev else ev) (policy_evaluations w j)"
      using assms(1)
      by (cases "policy_evaluations w j")
        (auto simp: assms(4) override_run_policies_def override_loop_eq run_evaluations_def)
  qed
  have frame: "next_id w' = next_id w" "workspaces w' = workspaces w" "policy_sets w' = policy_sets w"
    by (simp_all add: assms(4) override_run_policies_def override_loop_eq)
  have ids: "pe_run (override_evaluation email t ev) = pe_run ev"
    "pe_set (override_evaluation email t ev) = pe_set ev"
    "pe_overridden_by (override_evaluation email t ev) = Some email" for t ev
    by (simp_all add: override_evaluation_def)
  have "dom (policy_evaluations w') \<subseteq> {..<next_id w'}" using assms(1) by (auto simp: evals frame)
  moreover have "missing_sets i ws w' = {}"
  proof -
    have keep: "has_evaluation w' i p" if h: "has_evaluation w i p" for p
    proof -
      obtain j ev where "j < next_id w" "policy_evaluations w j = Some ev" "pe_run ev = i"
        "pe_set ev = Some p"
        using h by (auto simp: has_evaluation_def)
      then show ?thesis
        unfolding has_evaluation_def
        by (intro exI [of _ j] exI [of _ "if evaluation_failed ev \<and> pe_overridden_by ev = None
            then override_evaluation email (now w) ev else ev"]) (simp add: evals frame ids)
    qed
    have sets: "applicable_policy_sets w' ws = applicable_policy_sets w ws"
      by (simp add: applicable_policy_sets_def frame)
    have "missing_sets i ws w' \<subseteq> missing_sets i ws w"
      unfolding missing_sets_def frame sets by (rule Collect_mono) (use keep in blast)
    with assms(3) show ?thesis by simp
  qed
  moreover have "\<not> run_is_policy_blocked w' i"
  proof
    assume "run_is_policy_blocked w' i"
    then obtain j ev' where j: "policy_evaluations w' j = Some ev'" "pe_run ev' = i"
      "evaluation_failed ev'" "pe_overridden_by ev' = None"
      by (auto simp: policy_blocked_iff)
    then obtain ev where "(if pe_run ev = i \<and> evaluation_failed ev \<and> pe_overridden_by ev = None
        then override_evaluation email (now w) ev else ev) = ev'"
      unfolding evals map_option_eq_Some by blast
    with j ids(3) [of "now w" ev] show False
      by (cases "pe_run ev = i \<and> evaluation_failed ev \<and> pe_overridden_by ev = None") simp_all
  qed
  ultimately have "fst (evaluate_post_plan i r w') = ''passed''"
    using evaluate_post_plan_verdict [of w' r ws i] assms(2) frame
    by (cases "plan_only r") (simp_all add: evaluate_post_plan_def)
  with evals show ?thesis by blast
qed

theorem override_releases_gate_witness:
  "fst (evaluate_post_plan 5 (plain_run 0)
     (snd (override_run_policies 5 ''ops'' (snd (evaluate_post_plan 5 (plain_run 0) policy_example)))))
   = ''passed''"
proof -
  let ?w = "snd (evaluate_post_plan 5 (plain_run 0) policy_example)"
  obtain ws where ws: "workspaces policy_example (workspace_id (plain_run 0)) = Some ws"
    by (simp add: policy_example_def plain_run_def)
  have sets: "applicable_policy_sets policy_example ws = [1]"
    by (simp add: applicable_policy_sets_def policy_example_def select_def upt_rec policy_set_applies_def
        empty_world_def)
  have w: "?w = add_evaluation (synthetic_evaluation policy_example 5 1) policy_example"
    using ws sets
    by (simp add: evaluate_post_plan_def Let_def plain_run_def recorded_sets_def run_evaluations_def
        List.map_filter_def)
      (simp add: policy_example_def empty_world_def select_def upt_rec)
  have "dom (policy_evaluations ?w) \<subseteq> {..<next_id ?w}"
    unfolding w by (simp add: add_evaluation_def policy_example_def empty_world_def)
  moreover have "missing_sets 5 ws ?w = {}"
    unfolding w missing_sets_def has_evaluation_def applicable_policy_sets_def
    by (auto simp: add_evaluation_def synthetic_evaluation_def Let_def policy_example_def empty_world_def
        select_def upt_rec)
  moreover have "workspaces ?w (workspace_id (plain_run 0)) = Some ws" using ws by simp
  ultimately show ?thesis using override_releases_gate by blast
qed

text \<open>
  A policy set is in scope exactly when it is enabled and global, or enabled and its rules,
  read as the rules of a role, match the workspace: the two independent label matchers agree.
\<close>

theorem policy_scope_is_role_match:
  "policy_set_applies ps name labels \<longleftrightarrow> ps_enabled ps \<and>
     (ps_global ps \<or>
      role_matches \<lparr>role_name = n, allow_labels = ps_allow_labels ps, allow_names = ps_allow_names ps,
        deny_labels = ps_deny_labels ps, deny_names = ps_deny_names ps, role_capabilities = cs\<rparr>
        name labels)"
  by (auto simp: policy_set_applies_def labels_match_iff role_matches_iff)

end
