(* ===== verification/RunGates.thy ===== *)
theory RunGates
  imports RunService RunTasks Policies
begin

text \<open>
  The operations of \<open>services/run_service.py\<close> built on the transition: completing a plan behind the
  run-task and policy gates, completing an apply, confirming behind the lock, staleness and
  mergeability guards, resolving a canceled apply, claiming the next run for a listener, the
  clean-up of stale plans, and configuration versions.
\<close>

section \<open>Completing a plan\<close>

definition complete_planned_as_noop :: "env \<Rightarrow> nat \<Rightarrow> unit handler" where
  "complete_planned_as_noop e i w =
     (case runs w i of
        None \<Rightarrow> Raise (Missing_Row i) w
      | Some r \<Rightarrow>
          bind_res (transition_run e i Applied (Message [])
                     (put_run i (\<lambda>r. r\<lparr>apply_started_at := Some (now w)\<rparr>) w)) (\<lambda>_ w1.
          Ret () (release_lock (workspace_id r) w1)))"

definition plan_outcome :: "int \<Rightarrow> bool option \<Rightarrow> run \<Rightarrow> run" where
  "plan_outcome t changes r =
     (let r1 = (if plan_finished_at r = None \<and> plan_started_at r \<noteq> None
                then r\<lparr>plan_finished_at := Some t\<rparr> else r)
      in if changes \<noteq> None then r1\<lparr>has_changes := changes\<rparr> else r1)"

definition discard_if_superseded :: "env \<Rightarrow> nat \<Rightarrow> unit handler" where
  "discard_if_superseded e i w =
     (case runs w i of
        None \<Rightarrow> Raise (Missing_Row i) w
      | Some r \<Rightarrow>
          if status r = Planned \<and> is_supersedeable_kind r \<and> has_newer_live_run w i r
          then discard_run e i None w
          else Ret () w)"

definition auto_apply_plan :: "env \<Rightarrow> nat \<Rightarrow> unit handler" where
  "auto_apply_plan e i w =
     (case runs w i of
        None \<Rightarrow> Raise (Missing_Row i) w
      | Some r \<Rightarrow>
          if rc_auto_apply (config r) \<and> \<not> plan_only r then
            (let ws = workspaces w (workspace_id r) in
             case staleness_reason w r ws of
               Some reason \<Rightarrow> discard_run e i (Some reason) w
             | None \<Rightarrow>
                 if ws = None \<or> \<not> locked (the ws)
                 then bind_res (transition_run e i Confirmed (Message []) w)
                        (\<lambda>_ w1. discard_if_superseded e i w1)
                 else discard_if_superseded e i w)
          else discard_if_superseded e i w)"

definition settle_plan :: "env \<Rightarrow> nat \<Rightarrow> unit handler" where
  "settle_plan e i w =
     bind_res (transition_run e i Planned (Message []) w) (\<lambda>_ w1.
       case runs w1 i of
         None \<Rightarrow> Raise (Missing_Row i) w1
       | Some r \<Rightarrow>
           let w2 = (if plan_only r then release_lock (workspace_id r) w1 else w1)
           in if \<not> plan_only r \<and> has_changes r = Some False
              then complete_planned_as_noop e i w2
              else auto_apply_plan e i w2)"

definition policy_gate :: "env \<Rightarrow> nat \<Rightarrow> run \<Rightarrow> unit handler" where
  "policy_gate e i r w =
     (case evaluate_post_plan i r w of
        (gate, w1) \<Rightarrow> if gate \<noteq> ''passed'' then Ret () w1 else settle_plan e i w1)"

definition complete_plan :: "env \<Rightarrow> nat \<Rightarrow> bool option \<Rightarrow> unit handler" where
  "complete_plan e i changes w =
     (case runs w i of
        None \<Rightarrow> Raise (Missing_Row i) w
      | Some r \<Rightarrow>
          if status r \<noteq> Planning then Ret () w
          else
            bind_res (create_task_stage e i (workspace_id r) ''post_plan''
                       (put_run i (plan_outcome (now w) changes) w)) (\<lambda>ts w2.
              case ts of
                None \<Rightarrow> policy_gate e i r w2
              | Some s \<Rightarrow>
                  (case resolve_stage s w2 of
                     (stage_st, w3) \<Rightarrow>
                       if stage_st \<notin> {''passed'', ''overridden''} then
                         (if stage_st = ''failed''
                          then transition_run e i Errored Post_Plan_Stage_Failed w3
                          else Ret () w3)
                       else policy_gate e i r w3)))"

section \<open>Completing an apply\<close>

fun cancel_siblings :: "env \<Rightarrow> int \<Rightarrow> nat list \<Rightarrow> world \<Rightarrow> world" where
  "cancel_siblings e pr [] w = w"
| "cancel_siblings e pr (j # rest) w =
     cancel_siblings e pr rest
       (res_state (cancel_run e j True None
         (put_run j (\<lambda>r. r\<lparr>vcs_apply_blocked_reason := Some (Pr_Superseded pr)\<rparr>) w)))"

definition invalidate_sibling_pr_plans :: "env \<Rightarrow> nat \<Rightarrow> nat \<Rightarrow> int \<Rightarrow> world \<Rightarrow> world" where
  "invalidate_sibling_pr_plans e ws i pr w =
     cancel_siblings e pr
       (select_runs w (\<lambda>j r. workspace_id r = ws \<and> status r = Planned \<and> pr_number r \<noteq> None
          \<and> pr_number r \<noteq> Some pr \<and> j \<noteq> i)) w"

definition complete_apply :: "env \<Rightarrow> nat \<Rightarrow> unit handler" where
  "complete_apply e i w =
     (case runs w i of
        None \<Rightarrow> Raise (Missing_Row i) w
      | Some r \<Rightarrow>
          if status r \<noteq> Applying then Ret () w
          else
            bind_res (transition_run e i Applied (Message []) w) (\<lambda>_ w1.
              let w2 = release_lock (workspace_id r) w1 in
              case pr_number r of
                None \<Rightarrow> Ret () w2
              | Some pr \<Rightarrow>
                  if workspaces w2 (workspace_id r) = None then Ret () w2
                  else
                    bind_res (redis_do (enqueue_trigger ''vcs_apply_completed''
                        (Vcs_Apply_Payload i (workspace_id r) pr) (Some (D_Vcs_Apply i)) 300 (now w2))
                        (invalidate_sibling_pr_plans e (workspace_id r) i pr w2))
                      (\<lambda>_ w3. Ret () w3)))"

section \<open>Stale plans\<close>

fun discard_loop :: "env \<Rightarrow> (run \<Rightarrow> remark) \<Rightarrow> nat list \<Rightarrow> nat \<Rightarrow> world \<Rightarrow> nat \<times> world" where
  "discard_loop e reason [] count w = (count, w)"
| "discard_loop e reason (j # rest) count w =
     (case discard_run e j (map_option reason (runs w j)) w of
        Ret _ w1 \<Rightarrow> discard_loop e reason rest (Suc count) w1
      | Raise _ w1 \<Rightarrow> discard_loop e reason rest count w1)"

definition discard_stale_plans_for_state_change ::
    "env \<Rightarrow> nat \<Rightarrow> int \<Rightarrow> nat option \<Rightarrow> world \<Rightarrow> nat \<times> world" where
  "discard_stale_plans_for_state_change e ws new_serial exclude w =
     discard_loop e (\<lambda>r. State_Changed (the (plan_state_serial r)) new_serial)
       (select_runs w (\<lambda>j r. workspace_id r = ws \<and> status r = Planned \<and> \<not> plan_only r \<and> \<not> is_drift r
          \<and> pr_number r = None \<and> plan_state_serial r \<noteq> None
          \<and> the (plan_state_serial r) < new_serial \<and> exclude \<noteq> Some j)) 0 w"

fun expire_loop :: "env \<Rightarrow> nat list \<Rightarrow> unit handler" where
  "expire_loop e [] w = Ret () w"
| "expire_loop e (j # rest) w =
     (case runs w j of
        None \<Rightarrow> expire_loop e rest w
      | Some r \<Rightarrow>
          (let ws = workspaces w (workspace_id r) in
           if plan_expired (now w) r ws then
             (case discard_run e j
                     (Some (Plan_Expired (the (ws_plan_expiry (settings (the ws)))))) w of
                Ret _ w1 \<Rightarrow> expire_loop e rest w1
              | Raise x w1 \<Rightarrow> if value_error x then expire_loop e rest w1 else Raise x w1)
           else expire_loop e rest w))"

definition expire_stale_plans_cycle :: "env \<Rightarrow> unit handler" where
  "expire_stale_plans_cycle e w =
     expire_loop e
       (select_runs w (\<lambda>j r. status r = Planned \<and> \<not> plan_only r \<and> \<not> is_drift r \<and> pr_number r = None
          \<and> plan_finished_at r \<noteq> None
          \<and> (\<exists>ws. workspaces w (workspace_id r) = Some ws
               \<and> (\<exists>ttl. ws_plan_expiry (settings ws) = Some ttl \<and> 0 < ttl)))) w"

section \<open>Confirming\<close>

definition block_apply :: "nat \<Rightarrow> string \<Rightarrow> unit handler" where
  "block_apply i reason w =
     Raise (Apply_Blocked reason)
       (put_run i (\<lambda>r. r\<lparr>vcs_apply_blocked_reason := Some (Text reason)\<rparr>) w)"

definition text_or :: "string option \<Rightarrow> string \<Rightarrow> string" where
  "text_or s d = (case s of Some (c # cs) \<Rightarrow> c # cs | _ \<Rightarrow> d)"

definition check_mergeability_or_block :: "env \<Rightarrow> nat \<Rightarrow> run \<Rightarrow> unit handler" where
  "check_mergeability_or_block e i r w =
     (case pr_number r of
        None \<Rightarrow> Ret () w
      | Some pr \<Rightarrow>
     (case workspaces w (workspace_id r) of
        None \<Rightarrow> Ret () w
      | Some ws \<Rightarrow>
          if ws_vcs_workflow (settings ws) \<noteq> ''apply_then_merge'' then Ret () w
          else if ws_vcs_connection (settings ws) = None \<or> ws_vcs_repo_url (settings ws) = []
          then Ret () w
          else
     (case vcs_connections w (the (ws_vcs_connection (settings ws))) of
        None \<Rightarrow> Ret () w
      | Some conn \<Rightarrow>
          let provider = vc_provider conn in
          if provider \<notin> {''github'', ''gitlab''} then Ret () w
          else if \<not> repo_parses e provider (ws_vcs_repo_url (settings ws)) then Ret () w
          else
     (case mergeability e provider (ws_vcs_repo_url (settings ws)) pr of
        Check_Failed err \<Rightarrow>
          block_apply i (''Could not verify mergeability ('' @ err @ ''); retry shortly.'') w
      | Merge_Status unknown mergeable reason state \<Rightarrow>
          if unknown then
            block_apply i (text_or reason ''Mergeability is still being computed; retry shortly.'') w
          else if \<not> mergeable then
            block_apply i (text_or reason (''PR is not mergeable ('' @ state @ '').'')) w
          else Ret () (put_run i (\<lambda>r. r\<lparr>vcs_apply_blocked_reason := None\<rparr>) w)))))"

definition confirm_run :: "env \<Rightarrow> nat \<Rightarrow> unit handler" where
  "confirm_run e i w =
     (case runs w i of
        None \<Rightarrow> Raise (Missing_Row i) w
      | Some r \<Rightarrow>
          if status r \<noteq> Planned then Raise (Not_Confirmable (status r)) w
          else
            let ws = workspaces w (workspace_id r) in
            if ws \<noteq> None \<and> locked (the ws) then Raise (Workspace_Locked (lock_id (the ws))) w
            else
              (case staleness_reason w r ws of
                 Some reason \<Rightarrow>
                   bind_res (discard_run e i (Some reason) w) (\<lambda>_ w1. Raise (Stale_Plan reason) w1)
               | None \<Rightarrow>
                   bind_res (check_mergeability_or_block e i r w) (\<lambda>_ w1.
                     transition_run e i Confirmed (Message []) w1)))"

section \<open>Resolving a canceled apply\<close>

definition state_uploaded :: "world \<Rightarrow> nat \<Rightarrow> bool" where
  "state_uploaded w i = (select (next_id w) (state_versions w) (\<lambda>_ sv. sv_run sv = Some i) \<noteq> [])"

definition resolve_canceling_run :: "env \<Rightarrow> nat \<Rightarrow> string \<Rightarrow> unit handler" where
  "resolve_canceling_run e i job_status w =
     (case runs w i of
        None \<Rightarrow> Raise (Missing_Row i) w
      | Some r \<Rightarrow>
          if status r \<noteq> Canceling then Ret () w
          else
            let target = (if state_uploaded w i then Applied
                          else if job_status = ''deleted'' then Canceled else Errored);
                err = (if target = Errored then Canceled_Mid_Apply job_status else Message [])
            in bind_res (transition_run e i target err w) (\<lambda>_ w1.
                 Ret () (put_ws (workspace_id r)
                   (\<lambda>ws. if target \<noteq> Applied then (unlock ws)\<lparr>state_diverged := True\<rparr> else unlock ws)
                   w1)))"

section \<open>Claiming\<close>

definition in_flight_on :: "world \<Rightarrow> nat \<Rightarrow> nat \<Rightarrow> bool" where
  "in_flight_on w ws i =
     (select_runs w (\<lambda>j r. workspace_id r = ws \<and> j \<noteq> i \<and> \<not> plan_only r \<and> \<not> is_drift r
        \<and> status r \<in> set in_flight_states) \<noteq> [])"

definition ws_is_locked :: "world \<Rightarrow> nat \<Rightarrow> bool" where
  "ws_is_locked w ws = (case workspaces w ws of Some x \<Rightarrow> locked x | None \<Rightarrow> False)"

text \<open>
  \<open>held\<close> are the rows other transactions hold, which \<open>FOR UPDATE SKIP LOCKED\<close> passes over.
\<close>

definition claimable :: "world \<Rightarrow> nat set \<Rightarrow> nat \<Rightarrow> run_status \<Rightarrow> nat list" where
  "claimable w held pool target =
     select_runs w (\<lambda>i r. i \<notin> held \<and> status r = target \<and> pool_id r = Some pool \<and>
       (target = Queued \<longrightarrow>
          plan_only r \<or> \<not> ws_is_locked w (workspace_id r) \<and> \<not> in_flight_on w (workspace_id r) i))"

definition next_claim :: "world \<Rightarrow> nat set \<Rightarrow> nat \<Rightarrow> run_status \<Rightarrow> nat option" where
  "next_claim w held pool target =
     least_by (\<lambda>i. created_at (the (runs w i))) (claimable w held pool target)"

definition claim_next_run :: "env \<Rightarrow> nat set \<Rightarrow> nat \<Rightarrow> nat \<Rightarrow> (nat \<times> string) option handler" where
  "claim_next_run e held listener pool w =
     (case next_claim w held pool Queued of
        Some i \<Rightarrow>
          bind_res (transition_run e i Planning (Message [])
                     (put_run i (\<lambda>r. r\<lparr>listener_id := Some listener\<rparr>) w))
            (\<lambda>_ w1. Ret (Some (i, ''plan'')) w1)
      | None \<Rightarrow>
     (case next_claim w held pool Confirmed of
        Some i \<Rightarrow>
          bind_res (transition_run e i Applying (Message [])
                     (put_run i (\<lambda>r. r\<lparr>listener_id := Some listener\<rparr>) w))
            (\<lambda>_ w1. Ret (Some (i, ''apply'')) w1)
      | None \<Rightarrow> Ret None w))"

definition find_orphaned_runs :: "world \<Rightarrow> nat set \<Rightarrow> nat list" where
  "find_orphaned_runs w listeners =
     select_runs w (\<lambda>_ r. status r \<in> {Planning, Applying}
       \<and> (case listener_id r of Some l \<Rightarrow> l \<in> listeners | None \<Rightarrow> False))"

section \<open>Configuration versions\<close>

definition create_configuration_version ::
    "nat \<Rightarrow> string \<Rightarrow> bool \<Rightarrow> bool \<Rightarrow> world \<Rightarrow> nat \<times> world" where
  "create_configuration_version ws source auto_queue speculative w =
     (next_id w,
      add_cv \<lparr>cv_workspace = ws, cv_source = source, cv_status = ''pending'',
              cv_auto_queue = auto_queue, cv_speculative = speculative, cv_created_at = now w\<rparr> w)"

definition mark_configuration_uploaded :: "nat \<Rightarrow> world \<Rightarrow> world" where
  "mark_configuration_uploaded cv w = put_cv cv (\<lambda>c. c\<lparr>cv_status := ''uploaded''\<rparr>) w"

definition get_latest_uploaded_cv :: "world \<Rightarrow> nat \<Rightarrow> nat option" where
  "get_latest_uploaded_cv w ws =
     latest_cv w (\<lambda>cv. cv_workspace cv = ws \<and> cv_status cv = ''uploaded'' \<and> \<not> cv_speculative cv)"

end
