(* ===== verification/Reconciler.thy ===== *)
theory Reconciler
  imports RunGates
begin

text \<open>
  The run reconciler (\<open>services/run_reconciler.py\<close>), called every two seconds: it drives runs in
  \<open>planning\<close>, \<open>applying\<close> and \<open>canceling\<close> from the job statuses in Redis and the timeouts. An
  exception of one run is caught; what that run wrote before it stays and is committed with the rest.

  Failure texts are the constructors of \<open>failure\<close> with the values they format (\<open>_human_bytes\<close> rounds
  a float for display and is not modelled); the log's text is not modelled, only the storage calls
  around it.
\<close>

definition persist_live_log_if_missing :: "env \<Rightarrow> nat \<Rightarrow> string \<Rightarrow> unit handler" where
  "persist_live_log_if_missing e i phase w =
     (case stored_log e i phase of
        None \<Rightarrow> Raise Storage_Error w
      | Some True \<Rightarrow> Ret () w
      | Some False \<Rightarrow> Ret () (redis_try (redis_get (Log_Stream i phase) (now w)) w))"

definition phase_of :: "run \<Rightarrow> string" where
  "phase_of r = (if status r = Planning then ''plan'' else ''apply'')"

definition phase_start :: "run \<Rightarrow> int option" where
  "phase_start r = (if status r = Planning then plan_started_at r else apply_started_at r)"

definition build_failure_message :: "run \<Rightarrow> string \<Rightarrow> failure" where
  "build_failure_message r job_status =
     (if runner_exit_status r = ''oom'' then
        (case peak_memory_bytes r of
           Some n \<Rightarrow> if n \<noteq> 0 then Oom_With_Peak n (rc_memory (config r))
                     else Oom_No_Peak (rc_memory (config r))
         | None \<Rightarrow> Oom_No_Peak (rc_memory (config r)))
      else if runner_exit_status r = ''killed'' then Runner_Killed
      else case runner_exit_code r of
        Some c \<Rightarrow> if runner_exit_status r = ''error'' then Runner_Exit_Code c else Job_Ended job_status
      | None \<Rightarrow> Job_Ended job_status)"

definition handle_succeeded :: "env \<Rightarrow> nat \<Rightarrow> run \<Rightarrow> unit handler" where
  "handle_succeeded e i r w =
     bind_res (persist_live_log_if_missing e i (phase_of r) w) (\<lambda>_ w1.
       if status r = Planning then complete_plan e i None w1
       else if status r = Applying then complete_apply e i w1
       else Ret () w1)"

definition handle_failed :: "env \<Rightarrow> nat \<Rightarrow> run \<Rightarrow> failure \<Rightarrow> unit handler" where
  "handle_failed e i r msg w =
     bind_res (persist_live_log_if_missing e i (phase_of r) w) (\<lambda>_ w1.
     bind_res (transition_run e i Errored msg w1) (\<lambda>_ w2.
     Ret () (release_lock (workspace_id r) w2)))"

definition check_unschedulable :: "env \<Rightarrow> nat \<Rightarrow> run \<Rightarrow> unit handler" where
  "check_unschedulable e i r w =
     (case phase_start r of
        None \<Rightarrow> Ret () w
      | Some start \<Rightarrow>
          if now w - start \<le> seconds (launch_timeout e) then Ret () w
          else handle_failed e i r
                 (Unschedulable (launch_timeout e) (rc_cpu (config r)) (rc_memory (config r))) w)"

definition check_stale :: "env \<Rightarrow> nat \<Rightarrow> run \<Rightarrow> unit handler" where
  "check_stale e i r w =
     (case phase_start r of
        None \<Rightarrow> Ret () w
      | Some start \<Rightarrow>
          if is_drift r \<and> status r = Planning \<and> 0 < drift_max_duration e
             \<and> seconds (drift_max_duration e) < now w - start
          then handle_failed e i r (Drift_Cap_Exceeded (drift_max_duration e)) w
          else
            (case job_name r of
               None \<Rightarrow>
                 if seconds (launch_timeout e) < now w - start
                 then handle_failed e i r (Stuck_Pre_Launch (launch_timeout e)) w
                 else Ret () w
             | Some _ \<Rightarrow>
                 if seconds (stale_timeout e) < now w - start
                 then handle_failed e i r (Stale_Run (stale_timeout e)) w
                 else Ret () w))"

definition announce_job :: "nat \<Rightarrow> run \<Rightarrow> string \<Rightarrow> unit handler" where
  "announce_job i r job w =
     (case pool_id r of
        None \<Rightarrow> Ret () w
      | Some p \<Rightarrow>
          (let ns = (case job_namespace r of Some n \<Rightarrow> n | None \<Rightarrow> []) in
           bind_res (redis_do (publish_listener_event p (Check_Job_Status i job ns (phase_of r))) w)
             (\<lambda>_ w1. redis_do (publish_listener_event p (Stream_Logs i job ns (phase_of r))) w1)))"

definition reconcile_one :: "env \<Rightarrow> nat \<Rightarrow> unit handler" where
  "reconcile_one e i w =
     (case runs w i of
        None \<Rightarrow> Raise (Missing_Row i) w
      | Some r \<Rightarrow>
     (case job_name r of
        None \<Rightarrow> check_stale e i r w
      | Some job \<Rightarrow>
          bind_res (announce_job i r job w) (\<lambda>_ w1.
          bind_res (redis_do (get_job_status i (phase_of r) (now w1)) w1) (\<lambda>st w2.
            case st of
              None \<Rightarrow> check_stale e i r w2
            | Some job_status \<Rightarrow>
                if job_status = ''running'' then Ret () w2
                else if job_status = ''unschedulable'' then check_unschedulable e i r w2
                else if status r = Canceling then
                  bind_res (persist_live_log_if_missing e i (phase_of r) w2)
                    (\<lambda>_ w3. resolve_canceling_run e i job_status w3)
                else if job_status = ''succeeded'' then handle_succeeded e i r w2
                else if job_status = ''failed'' \<or> job_status = ''deleted'' then
                  handle_failed e i r (build_failure_message r job_status) w2
                else Ret () w2))))"

definition reconcile_runs :: "env \<Rightarrow> world \<Rightarrow> world" where
  "reconcile_runs e w =
     foldl (\<lambda>w i. res_state (reconcile_one e i w)) w
       (select_runs w (\<lambda>_ r. status r \<in> {Planning, Applying, Canceling}))"

end
