(* ===== verification/RunApi.thy ===== *)
theory RunApi
  imports Reconciler
begin

text \<open>
  The endpoints that drive runs (\<open>api/routers/runs.py\<close>): who may call them, what they
  commit and the HTTP status they answer. An endpoint that raises rolls the database back to the
  state it started from (or last committed); what reached Redis stays. \<open>roles\<close> is the table of
  custom roles and \<open>user\<close> the authenticated caller; the JSON body arrives parsed.
\<close>

section \<open>Transactions\<close>

definition rolled_back :: "world \<Rightarrow> world \<Rightarrow> world" where
  "rolled_back w w' = w\<lparr>store := store w'\<rparr>"

text \<open>\<open>except ValueError as e: raise HTTPException(409)\<close>, with the rollback of every exception.\<close>

fun commit_or_conflict :: "world \<Rightarrow> (exn, 'a, world) res \<Rightarrow> (exn, 'a, world) res" where
  "commit_or_conflict w (Ret a w') = Ret a w'"
| "commit_or_conflict w (Raise x w') = Raise (if value_error x then Http 409 else x) (rolled_back w w')"

text \<open>What the caller may do on a workspace.\<close>

definition caller_capabilities :: "role list \<Rightarrow> auth_user \<Rightarrow> workspace \<Rightarrow> string set" where
  "caller_capabilities roles user ws =
     resolve_workspace_capabilities_for roles user (ws_name (settings ws)) (Some (ws_labels (settings ws)))
       (Some (ws_owner_email (settings ws))) (ws_catalog_item (settings ws)) None None"

definition require_run_ws_capability ::
    "role list \<Rightarrow> auth_user \<Rightarrow> run \<Rightarrow> string \<Rightarrow> world \<Rightarrow> nat option" where
  "require_run_ws_capability roles user r required w =
     (case workspaces w (workspace_id r) of
        None \<Rightarrow> Some 404
      | Some ws \<Rightarrow>
          if has_capability
               (resolve_workspace_capabilities_for roles user (ws_name (settings ws))
                  (Some (ws_labels (settings ws))) (Some (ws_owner_email (settings ws)))
                  (ws_catalog_item (settings ws)) None None) required
          then None else Some 403)"

section \<open>User actions\<close>

text \<open>A blocked or stale plan is committed before the answer: the recorded reason and discard stay.\<close>

fun confirm_answer :: "world \<Rightarrow> (exn, 'a, world) res \<Rightarrow> (exn, 'a, world) res" where
  "confirm_answer w (Raise (Apply_Blocked reason) w') = Raise (Http 422) w'"
| "confirm_answer w (Raise (Stale_Plan reason) w') = Raise (Http 409) w'"
| "confirm_answer w m = commit_or_conflict w m"

definition confirm_endpoint :: "env \<Rightarrow> role list \<Rightarrow> auth_user \<Rightarrow> nat \<Rightarrow> unit handler" where
  "confirm_endpoint e roles user i w =
     (case runs w i of
        None \<Rightarrow> Raise (Http 404) w
      | Some r \<Rightarrow>
     (case require_run_ws_capability roles user r
             (if rc_is_destroy (config r) then RUN_APPLY_DESTROY else RUN_APPLY) w of
        Some code \<Rightarrow> Raise (Http code) w
      | None \<Rightarrow>
          if has_changes r = Some False then Raise (Http 422) w
          else if rc_source (config r) \<notin> {''vcs'', ''drift-detection''}
                  \<and> \<not> rc_is_destroy (config r) \<and> rc_vcs_sha (config r) = []
                  \<and> (case workspaces w (workspace_id r) of None \<Rightarrow> False
                     | Some ws \<Rightarrow> ws_execution_mode (settings ws) = ''agent''
                         \<and> ws_vcs_connection (settings ws) \<noteq> None)
          then Raise (Http 422) w
          else
            confirm_answer w (confirm_run e i w)))"

definition discard_endpoint :: "env \<Rightarrow> role list \<Rightarrow> auth_user \<Rightarrow> nat \<Rightarrow> unit handler" where
  "discard_endpoint e roles user i w =
     (case runs w i of
        None \<Rightarrow> Raise (Http 404) w
      | Some r \<Rightarrow>
     (case require_run_ws_capability roles user r RUN_CANCEL w of
        Some code \<Rightarrow> Raise (Http code) w
      | None \<Rightarrow> commit_or_conflict w (discard_run e i None w)))"

definition cancel_endpoint :: "env \<Rightarrow> role list \<Rightarrow> auth_user \<Rightarrow> nat \<Rightarrow> unit handler" where
  "cancel_endpoint e roles user i w =
     (case runs w i of
        None \<Rightarrow> Raise (Http 404) w
      | Some r \<Rightarrow>
     (case require_run_ws_capability roles user r RUN_CANCEL w of
        Some code \<Rightarrow> Raise (Http code) w
      | None \<Rightarrow> commit_or_conflict w (cancel_run e i False None w)))"

definition copy_vcs :: "run \<Rightarrow> run \<Rightarrow> run" where
  "copy_vcs old r = r\<lparr>config := (config r)\<lparr>rc_vcs_sha := rc_vcs_sha (config old),
     rc_vcs_branch := rc_vcs_branch (config old), rc_pr := rc_pr (config old),
     rc_overrides := rc_overrides (config old)\<rparr>\<rparr>"

definition retry_cv :: "world \<Rightarrow> run \<Rightarrow> nat option" where
  "retry_cv w r =
     (case rc_cv (config r) of
        Some cv \<Rightarrow> Some cv
      | None \<Rightarrow> latest_cv w (\<lambda>cv. cv_workspace cv = workspace_id r \<and> cv_status cv = ''uploaded''))"

definition retry_request :: "auth_user \<Rightarrow> nat \<Rightarrow> run \<Rightarrow> nat \<Rightarrow> run_request" where
  "retry_request user i r cv = default_request
     \<lparr>rq_message := Retry_Of i, rq_source := rc_source (config r), rq_plan_only := plan_only r,
      rq_cv := Some cv, rq_created_by := au_email user, rq_targets := rc_targets (config r),
      rq_replaces := rc_replaces (config r), rq_refresh_only := rc_refresh_only (config r),
      rq_refresh := rc_refresh (config r), rq_allow_empty := rc_allow_empty (config r)\<rparr>"

definition retry_endpoint :: "env \<Rightarrow> role list \<Rightarrow> auth_user \<Rightarrow> nat \<Rightarrow> nat handler" where
  "retry_endpoint e roles user i w =
     (case runs w i of
        None \<Rightarrow> Raise (Http 404) w
      | Some r \<Rightarrow>
     (case require_run_ws_capability roles user r RUN_CANCEL w of
        Some code \<Rightarrow> Raise (Http code) w
      | None \<Rightarrow>
          if \<not> (status r \<in> set terminal_states \<or> plan_only r \<and> status r = Planned)
          then Raise (Http 409) w
          else
     (case workspaces w (workspace_id r) of
        None \<Rightarrow> Raise (Http 404) w
      | Some ws \<Rightarrow>
     (case retry_cv w r of
        None \<Rightarrow> Raise (Http 422) w
      | Some cv \<Rightarrow>
     (case create_run e (workspace_id r) ws (retry_request user i r cv) w of
        (j, w1) \<Rightarrow>
          (case queue_run e j (put_run j (copy_vcs r) w1) of
             Ret _ w2 \<Rightarrow> Ret j w2
           | Raise x w2 \<Rightarrow> Raise x (rolled_back w w2)))))))"

section \<open>Creating a run\<close>

record run_attrs =
  at_message :: string
  at_is_destroy :: bool
  at_auto_apply :: "bool option"
  at_plan_only :: bool
  at_version :: string
  at_is_drift :: bool
  at_targets :: "string list option"
  at_replaces :: "string list option"
  at_refresh_only :: bool
  at_refresh :: bool
  at_allow_empty :: bool
  at_vcs_ref :: string

text \<open>
  The configuration version named by the request: none, a malformed id, or a row id. \<open>vcs_api\<close> is what
  the VCS provider answers about a workspace's repository: whether its URL parses, the workspace's
  branch, the head of a branch, the tags, and whether the archive of a commit can be fetched into the
  cache and stored as the version's archive.
\<close>

datatype cv_ref = No_Cv | Malformed_Cv | Cv nat

definition cv_given :: "cv_ref \<Rightarrow> nat option" where
  "cv_given ref = (case ref of Cv i \<Rightarrow> Some i | _ \<Rightarrow> None)"

definition attrs_request :: "auth_user \<Rightarrow> run_attrs \<Rightarrow> bool \<Rightarrow> nat option \<Rightarrow> run_request" where
  "attrs_request user a po cv =
     \<lparr>rq_message = Text (at_message a), rq_is_destroy = at_is_destroy a,
      rq_auto_apply = at_auto_apply a, rq_plan_only = po, rq_source = ''tfe-api'',
      rq_version = at_version a, rq_cv = cv, rq_created_by = au_email user,
      rq_is_drift = at_is_drift a, rq_targets = at_targets a, rq_replaces = at_replaces a,
      rq_refresh_only = at_refresh_only a, rq_refresh = at_refresh a,
      rq_allow_empty = at_allow_empty a\<rparr>"

record vcs_api =
  va_parses :: "string \<Rightarrow> bool"
  va_branch :: "nat \<Rightarrow> string option"
  va_branch_sha :: "string \<Rightarrow> string option"
  va_tags :: "(string \<times> string) list"
  va_archive :: "string \<Rightarrow> bool"

definition resolve_ref :: "vcs_api \<Rightarrow> string \<Rightarrow> string" where
  "resolve_ref api ref =
     (case va_branch_sha api ref of
        Some sha \<Rightarrow> sha
      | None \<Rightarrow> (case map_of (va_tags api) ref of Some sha \<Rightarrow> sha | None \<Rightarrow> ref))"

definition fetch_vcs_config ::
    "vcs_api \<Rightarrow> nat \<Rightarrow> ws_config \<Rightarrow> string \<Rightarrow> (nat \<times> string \<times> string) handler" where
  "fetch_vcs_config api ws_id ws ref_override w =
     (case ws_vcs_connection ws of None \<Rightarrow> Raise (Http 422) w
      | Some c \<Rightarrow>
     (case vcs_connections w c of None \<Rightarrow> Raise (Http 422) w
      | Some conn \<Rightarrow>
          if vc_status conn \<noteq> ''active'' then Raise (Http 422) w
          else if \<not> va_parses api (ws_vcs_repo_url ws) then Raise (Http 422) w
          else
     (case (if ref_override \<noteq> [] then Some (resolve_ref api ref_override, ref_override)
            else case va_branch api ws_id of
              None \<Rightarrow> None
            | Some branch \<Rightarrow> map_option (\<lambda>sha. (sha, branch)) (va_branch_sha api branch)) of
        None \<Rightarrow> Raise (Http 422) w
      | Some (sha, ref_name) \<Rightarrow>
          if \<not> va_archive api sha then Raise Storage_Error w
          else case create_configuration_version ws_id ''vcs'' False False w of
            (cv, w1) \<Rightarrow> Ret (cv, sha, ref_name) (mark_configuration_uploaded cv w1))))"

definition has_vcs :: "ws_config \<Rightarrow> bool" where
  "has_vcs ws = (ws_vcs_connection ws \<noteq> None \<and> ws_vcs_repo_url ws \<noteq> [])"

text \<open>A run row with an unknown configuration version violates the foreign key at the flush.\<close>

definition create_and_queue ::
    "env \<Rightarrow> auth_user \<Rightarrow> nat \<Rightarrow> workspace \<Rightarrow> run_attrs \<Rightarrow> bool \<Rightarrow> nat option \<Rightarrow> string \<Rightarrow> string
      \<Rightarrow> nat handler" where
  "create_and_queue e user ws_id ws a po cv sha branch w =
     (if cv \<noteq> None \<and> config_versions w (the cv) = None then Raise Integrity_Error w
      else case create_run e ws_id ws (attrs_request user a po cv) w of
        (i, w1) \<Rightarrow>
          let w2 = (if sha \<noteq> [] then
                put_run i (\<lambda>r. r\<lparr>config := (config r)\<lparr>rc_vcs_sha := sha, rc_vcs_branch := branch\<rparr>\<rparr>) w1
              else w1);
              queue_now = (case cv of None \<Rightarrow> True
                | Some c \<Rightarrow> (case config_versions w2 c of None \<Rightarrow> False
                             | Some x \<Rightarrow> cv_status x = ''uploaded''))
          in if queue_now then bind_res (queue_run e i w2) (\<lambda>_ w3. Ret i w3) else Ret i w2)"

definition create_endpoint ::
    "env \<Rightarrow> role list \<Rightarrow> auth_user \<Rightarrow> nat \<Rightarrow> run_attrs \<Rightarrow> cv_ref \<Rightarrow> vcs_api
      \<Rightarrow> nat handler" where
  "create_endpoint e roles user ws_id a cv_ref api w =
     (case workspaces w ws_id of
        None \<Rightarrow> Raise (Http 404) w
      | Some ws \<Rightarrow>
          if cv_ref = Malformed_Cv then Raise (Http 422) w
          else
            let cfg = settings ws; cv = cv_given cv_ref;
                speculative = (case cv of None \<Rightarrow> False
                  | Some c \<Rightarrow> (case config_versions w c of None \<Rightarrow> False | Some x \<Rightarrow> cv_speculative x));
                plan1 = at_plan_only a \<or> speculative
            in if ws_catalog_item cfg \<noteq> None \<and> cv \<noteq> None then Raise (Http 409) w
               else if ws_execution_mode cfg = ''agent'' \<and> ws_vcs_connection cfg \<noteq> None
                       \<and> cv \<noteq> None \<and> \<not> plan1
               then Raise (Http 422) w
               else
                 let required = (if plan1 then RUN_PLAN
                       else if at_is_destroy a then RUN_APPLY_DESTROY else RUN_APPLY);
                     caps = resolve_workspace_capabilities_for roles user (ws_name cfg)
                       (Some (ws_labels cfg)) (Some (ws_owner_email cfg)) (ws_catalog_item cfg) None None
                 in if \<not> has_capability caps required then Raise (Http 403) w
                    else if at_vcs_ref a \<noteq> [] \<and> \<not> has_vcs cfg then Raise (Http 422) w
                    else
                      let plan2 = plan1 \<or> at_vcs_ref a \<noteq> [];
                          m = (if cv = None \<and> has_vcs cfg then
                                 bind_res (fetch_vcs_config api ws_id cfg (at_vcs_ref a) w) (\<lambda>(c, sha, branch) w1.
                                   create_and_queue e user ws_id ws a plan2 (Some c) sha branch w1)
                               else if cv = None then
                                 (case get_latest_uploaded_cv w ws_id of
                                    None \<Rightarrow> Raise (Http 422) w
                                  | Some c \<Rightarrow> create_and_queue e user ws_id ws a plan2 (Some c) [] [] w)
                               else create_and_queue e user ws_id ws a plan2 cv [] [] w)
                      in (case m of Ret i w' \<Rightarrow> Ret i w' | Raise x w' \<Rightarrow> Raise x (rolled_back w w')))"

section \<open>Listener and runner callbacks\<close>

definition next_run_endpoint ::
    "env \<Rightarrow> nat set \<Rightarrow> nat \<Rightarrow> nat \<Rightarrow> (nat \<Rightarrow> nat option) \<Rightarrow> (nat \<times> string) option handler" where
  "next_run_endpoint e held identity listener pools w =
     (if identity \<noteq> listener then Raise (Http 403) w
      else case pools listener of
        None \<Rightarrow> Raise (Http 404) w
      | Some pool \<Rightarrow>
          (case claim_next_run e held listener pool w of
             Ret c w' \<Rightarrow> Ret c w' | Raise x w' \<Rightarrow> Raise x (rolled_back w w')))"

definition release_lock_if :: "bool \<Rightarrow> nat \<Rightarrow> world \<Rightarrow> world" where
  "release_lock_if b ws w = (if b then release_lock ws w else w)"

definition update_run_status ::
    "env \<Rightarrow> nat \<Rightarrow> nat \<Rightarrow> nat \<Rightarrow> string \<Rightarrow> string \<Rightarrow> bool option \<Rightarrow> unit handler" where
  "update_run_status e identity listener i target_name err changes w =
     (case runs w i of
        None \<Rightarrow> Raise (Http 404) w
      | Some r \<Rightarrow>
          if identity \<noteq> listener then Raise (Http 403) w
          else if listener_id r \<noteq> Some listener then Raise (Http 403) w
          else if target_name = [] then Raise (Http 422) w
          else
            let w1 = (if changes \<noteq> None then put_run i (\<lambda>r. r\<lparr>has_changes := changes\<rparr>) w else w);
                target = parse_status target_name;
                m = (if target = Some Planned \<and> \<not> plan_only r then complete_plan e i changes w1
                     else case target of
                       None \<Rightarrow> Raise (Invalid_Transition (status r) None) w1
                     | Some t \<Rightarrow> transition_run e i t (Message err) w1)
            in commit_or_conflict w (bind_res m (\<lambda>_ w2.
                 Ret () (release_lock_if (target \<in> Some ` set terminal_states) (workspace_id r)
                   (release_lock_if (target = Some Planned \<and> plan_only r) (workspace_id r) w2)))))"

definition report_job_launched ::
    "nat \<Rightarrow> nat \<Rightarrow> nat \<Rightarrow> string \<Rightarrow> string \<Rightarrow> unit handler" where
  "report_job_launched identity listener i job ns w =
     (case runs w i of
        None \<Rightarrow> Raise (Http 404) w
      | Some r \<Rightarrow>
          if identity \<noteq> listener then Raise (Http 403) w
          else if listener_id r \<noteq> Some listener then Raise (Http 403) w
          else if job = [] then Raise (Http 422) w
          else Ret () (put_run i (\<lambda>r. r\<lparr>job_name := Some job, job_namespace := Some ns\<rparr>) w))"

definition exit_report :: "int option \<Rightarrow> string \<Rightarrow> run \<Rightarrow> run" where
  "exit_report exit_code reason r =
     (let r1 = (case exit_code of Some c \<Rightarrow> r\<lparr>runner_exit_code := Some c\<rparr> | None \<Rightarrow> r);
          r2 = (if reason \<noteq> [] then r1\<lparr>runner_exit_reason := take 50 reason\<rparr> else r1)
      in if reason = ''OOMKilled'' then r2\<lparr>runner_exit_status := ''oom''\<rparr>
         else case exit_code of
           None \<Rightarrow> r2
         | Some c \<Rightarrow>
             r2\<lparr>runner_exit_status :=
               (if c = 137 then ''killed'' else if c \<noteq> 0 then ''error'' else ''clean'')\<rparr>)"

definition report_job_status ::
    "nat \<Rightarrow> nat \<Rightarrow> nat \<Rightarrow> string \<Rightarrow> string \<Rightarrow> int option \<Rightarrow> string \<Rightarrow> unit handler" where
  "report_job_status identity listener i job_status phase exit_code reason w =
     (if identity \<noteq> listener then Raise (Http 403) w
      else case runs w i of
        None \<Rightarrow> Raise (Http 404) w
      | Some r \<Rightarrow>
          if job_status = [] then Raise (Http 422) w
          else
            bind_res (redis_do (set_job_status i phase job_status (now w)) w) (\<lambda>_ w1.
              Ret () (put_run i (exit_report exit_code reason) w1)))"

definition report_plan_result :: "env \<Rightarrow> nat \<Rightarrow> bool option \<Rightarrow> unit handler" where
  "report_plan_result e i changes w =
     (case runs w i of
        None \<Rightarrow> Raise (Http 404) w
      | Some r \<Rightarrow>
          (case complete_plan e i changes w of
             Ret u w' \<Rightarrow> Ret u w' | Raise x w' \<Rightarrow> Raise x (rolled_back w w')))"

definition report_apply_result :: "env \<Rightarrow> nat \<Rightarrow> unit handler" where
  "report_apply_result e i w =
     (case runs w i of
        None \<Rightarrow> Raise (Http 404) w
      | Some r \<Rightarrow>
          (case complete_apply e i w of
             Ret u w' \<Rightarrow> Ret u w' | Raise x w' \<Rightarrow> Raise x (rolled_back w w')))"

end
