(* ===== verification/Lifecycle.thy ===== *)
theory Lifecycle
  imports RunApi
begin

text \<open>
  What any operation may do to the table of runs. \<open>quiet\<close> relates a database to one in which every
  run is still there with its frozen columns, has moved along the transition table only, and has
  neither entered the in-flight window nor changed its listener; new runs start outside the window.
  Every operation of the run service except the claim is quiet, whatever Redis does and whether it
  returns or raises; the proofs follow the code and compose by the rules of the first section.
\<close>

section \<open>Rows and tables\<close>

text \<open>The columns of a run that nothing writes after it was queued.\<close>

definition frozen :: "run \<Rightarrow> run_config" where
  "frozen r = (config r)\<lparr>rc_vcs_sha := [], rc_vcs_branch := [], rc_pr := None, rc_overrides := None\<rparr>"

definition in_flight :: "run \<Rightarrow> bool" where
  "in_flight r = (status r \<in> set in_flight_states)"

definition row_step :: "run \<Rightarrow> run \<Rightarrow> bool" where
  "row_step r r' \<longleftrightarrow> frozen r' = frozen r \<and> can_transition\<^sup>*\<^sup>* (status r) (status r')"

definition quiet_row :: "run \<Rightarrow> run \<Rightarrow> bool" where
  "quiet_row r r' \<longleftrightarrow>
     row_step r r' \<and> (in_flight r' \<longrightarrow> in_flight r) \<and> listener_id r' = listener_id r"

definition fresh_row :: "run \<Rightarrow> bool" where
  "fresh_row r \<longleftrightarrow> \<not> in_flight r \<and> listener_id r = None"

definition bounded :: "world \<Rightarrow> bool" where
  "bounded w \<longleftrightarrow> (\<forall>i. runs w i \<noteq> None \<longrightarrow> i < next_id w)"

definition evolves :: "(run \<Rightarrow> run \<Rightarrow> bool) \<Rightarrow> (run \<Rightarrow> bool) \<Rightarrow> world \<Rightarrow> world \<Rightarrow> bool" where
  "evolves R F w w' \<longleftrightarrow> (bounded w \<longrightarrow> bounded w' \<and>
     (\<forall>i. case runs w i of
        Some r \<Rightarrow> (\<exists>r'. runs w' i = Some r' \<and> R r r')
      | None \<Rightarrow> (\<forall>r'. runs w' i = Some r' \<longrightarrow> F r')))"

abbreviation quiet :: "world \<Rightarrow> world \<Rightarrow> bool" where
  "quiet \<equiv> evolves quiet_row fresh_row"

abbreviation lawful :: "world \<Rightarrow> world \<Rightarrow> bool" where
  "lawful \<equiv> evolves row_step (\<lambda>_. True)"

lemma row_step_refl [simp]: "row_step r r"
  by (simp add: row_step_def)

lemma row_step_trans: "row_step r s \<Longrightarrow> row_step s t \<Longrightarrow> row_step r t"
  by (auto simp: row_step_def)

lemma quiet_row_refl [simp]: "quiet_row r r"
  by (simp add: quiet_row_def)

lemma quiet_row_trans: "quiet_row r s \<Longrightarrow> quiet_row s t \<Longrightarrow> quiet_row r t"
  by (auto simp: quiet_row_def intro: row_step_trans)

lemma quiet_row_fresh: "quiet_row r s \<Longrightarrow> fresh_row r \<Longrightarrow> fresh_row s"
  by (auto simp: quiet_row_def fresh_row_def)

text \<open>
  The laws of a relation between the database before and after: the rows it allows compose, and the
  rows a caller may add stay allowed.
\<close>

locale row_evolution =
  fixes R :: "run \<Rightarrow> run \<Rightarrow> bool" and F :: "run \<Rightarrow> bool"
  assumes R_refl: "R r r" and R_trans: "R r s \<Longrightarrow> R s t \<Longrightarrow> R r t" and R_fresh: "R r s \<Longrightarrow> F r \<Longrightarrow> F s"
begin

lemma refl [simp]: "evolves R F w w"
  by (auto simp: evolves_def R_refl split: option.splits)

lemma frame: "runs w' = runs w \<Longrightarrow> next_id w \<le> next_id w' \<Longrightarrow> evolves R F w w'"
  by (auto simp: evolves_def bounded_def R_refl split: option.splits intro: less_le_trans)

lemma trans: "evolves R F w v \<Longrightarrow> evolves R F v u \<Longrightarrow> evolves R F w u"
proof (unfold evolves_def, intro impI conjI allI)
  assume wv: "bounded w \<longrightarrow> bounded v \<and> (\<forall>i. case runs w i of
      Some r \<Rightarrow> \<exists>r'. runs v i = Some r' \<and> R r r' | None \<Rightarrow> \<forall>r'. runs v i = Some r' \<longrightarrow> F r')"
    and vu: "bounded v \<longrightarrow> bounded u \<and> (\<forall>i. case runs v i of
      Some r \<Rightarrow> \<exists>r'. runs u i = Some r' \<and> R r r' | None \<Rightarrow> \<forall>r'. runs u i = Some r' \<longrightarrow> F r')"
    and w: "bounded w"
  then show "bounded u" by blast
  fix i
  from wv w have 1: "case runs w i of Some r \<Rightarrow> \<exists>r'. runs v i = Some r' \<and> R r r'
      | None \<Rightarrow> \<forall>r'. runs v i = Some r' \<longrightarrow> F r'" by blast
  from wv vu w have 2: "case runs v i of Some r \<Rightarrow> \<exists>r'. runs u i = Some r' \<and> R r r'
      | None \<Rightarrow> \<forall>r'. runs u i = Some r' \<longrightarrow> F r'" by blast
  show "case runs w i of Some r \<Rightarrow> \<exists>r'. runs u i = Some r' \<and> R r r'
      | None \<Rightarrow> \<forall>r'. runs u i = Some r' \<longrightarrow> F r'"
    using 1 2 by (cases "runs w i"; cases "runs v i") (auto intro: R_trans R_fresh)
qed

lemma row:
  assumes "evolves R F w w'" and "bounded w" and "runs w i = Some r"
  obtains r' where "runs w' i = Some r'" and "R r r'"
  using assms by (force simp: evolves_def split: option.splits)

lemma put: "(\<And>r. runs w i = Some r \<Longrightarrow> R r (f r)) \<Longrightarrow> evolves R F w (put_run i f w)"
  by (auto simp: evolves_def bounded_def run_rows.fetch_put R_refl split: option.splits)

lemma add: "F r \<Longrightarrow> evolves R F w (add_run r w)"
  by (force simp: evolves_def bounded_def add_run_def R_refl split: option.splits)

lemma bind:
  assumes "evolves R F w (res_state m)"
    and "\<And>a u. m = Ret a u \<Longrightarrow> evolves R F u (res_state (k a u))"
  shows "evolves R F w (res_state (bind_res m k))"
  using assms by (rule res_state_bind) (auto intro: trans)

end

interpretation quiet: row_evolution quiet_row fresh_row
  by unfold_locales (auto intro: quiet_row_trans quiet_row_fresh)

interpretation lawful: row_evolution row_step "\<lambda>_. True"
  by unfold_locales (auto intro: row_step_trans)

lemma quiet_lawful: "quiet w w' \<Longrightarrow> lawful w w'"
  by (force simp: evolves_def quiet_row_def split: option.splits)

lemma evolves_same:
  "runs w' = runs v' \<Longrightarrow> next_id w' = next_id v' \<Longrightarrow> evolves R F w w' \<longleftrightarrow> evolves R F w v'"
  by (simp add: evolves_def bounded_def cong: option.case_cong)

lemma quiet_db [simp]: "quiet w (db w') \<longleftrightarrow> quiet w w'" "quiet (db w) w' \<longleftrightarrow> quiet w w'"
  by (simp_all add: evolves_def bounded_def cong: option.case_cong)

lemma quiet_db_eq: "db v = db v' \<Longrightarrow> quiet w v = quiet w v'"
  by (metis quiet_db(1))

text \<open>One write, or one call, after the others.\<close>

lemma quiet_then: "quiet w v \<Longrightarrow> quiet v (F v) \<Longrightarrow> quiet w (F v)"
  by (rule quiet.trans)

lemma quiet_put_plain:
  assumes "\<And>r. frozen (f r) = frozen r" "\<And>r. status (f r) = status r"
    "\<And>r. listener_id (f r) = listener_id r"
  shows "quiet w (put_run i f w)"
  using assms by (intro quiet.put) (simp add: quiet_row_def row_step_def in_flight_def)

lemma quiet_redis_do: "quiet w (res_state (redis_do f w))"
  by (intro quiet.frame) (simp_all add: redis_do_def split: res.split)

lemma quiet_release_lock [simp]: "quiet w (release_lock ws v) \<longleftrightarrow> quiet w v"
  by (rule evolves_same) simp_all

lemma quiet_put_ws [simp]: "quiet w (put_ws ws f v) \<longleftrightarrow> quiet w v"
  by (rule evolves_same) simp_all

lemma quiet_if: "(b \<Longrightarrow> quiet w u) \<Longrightarrow> (\<not> b \<Longrightarrow> quiet w v) \<Longrightarrow> quiet w (if b then u else v)"
  by simp

section \<open>Transitions\<close>

lemma transition_fields_frame [simp]:
  "frozen (transition_fields t sn target err r) = frozen r"
  "listener_id (transition_fields t sn target err r) = listener_id r"
  by (simp_all add: frozen_def transition_fields_def Let_def)

lemma transition_row_step:
  "can_transition (status r) target \<Longrightarrow> row_step r (transition_fields t sn target err r)"
  by (auto simp: row_step_def)

lemma transition_quiet_row:
  assumes "can_transition (status r) target" and "target = Planning \<Longrightarrow> status r \<noteq> Queued"
  shows "quiet_row r (transition_fields t sn target err r)"
  using assms enter_flight [of "status r" target]
  by (auto simp: quiet_row_def transition_row_step in_flight_def)

lemma quiet_enter_status:
  assumes "runs w i = Some r" and "can_transition (status r) target"
    and "target = Planning \<Longrightarrow> status r \<noteq> Queued"
  shows "quiet w (enter_status i target err w)"
  unfolding enter_status_def using assms by (intro quiet.put) (auto intro: transition_quiet_row)

lemma db_enter_status [simp]: "db (enter_status i target err w) = enter_status i target err (db w)"
  by (simp add: enter_status_def)

text \<open>After the run entered its new status, a transition only does what its hooks do.\<close>

lemma quiet_after_enter:
  assumes hooks: "\<And>v. quiet v (res_state (s i v))" "\<And>ws v. quiet v (res_state (f ws v))"
    and row: "runs w i = Some r" and can: "can_transition (status r) target"
  shows "quiet (enter_status i target err w) (res_state (transition_body s f e i target err w))"
proof -
  let ?r = "transition_fields (now w) (current_state_serial w (workspace_id r)) target err r"
  from transition_body_runs [OF row can, of err s f e] obtain w4
    where w4: "db w4 = enter_status i target err (db w)"
    and eq: "transition_body s f e i target err w =
      bind_res (if target = Queued then s i w4 else Ret () w4) (\<lambda>_ w5.
      bind_res (if target = Applied \<and> \<not> plan_only r then f (workspace_id r) w5 else Ret () w5) (\<lambda>_ w6.
      Ret () (notify_transition e i ?r target
        (put_ws (workspace_id r) (applied_effects (now w6) target ?r) w6))))"
    by blast
  have events: "quiet v (notify_transition e i x target u) \<longleftrightarrow> quiet v u" for v x u
    by (rule quiet_db_eq) simp
  have "quiet w4 (res_state (transition_body s f e i target err w))"
    unfolding eq by (intro quiet.bind) (simp_all add: hooks events)
  then show ?thesis using w4 by (metis quiet_db(2) db_enter_status)
qed

lemma quiet_transition_body:
  assumes hooks: "\<And>v. quiet v (res_state (s i v))" "\<And>ws v. quiet v (res_state (f ws v))"
    and start: "\<And>r. runs w i = Some r \<Longrightarrow> target = Planning \<Longrightarrow> status r \<noteq> Queued"
  shows "quiet w (res_state (transition_body s f e i target err w))"
proof (cases "runs w i")
  case None
  then show ?thesis by (simp add: transition_body_missing)
next
  case (Some r)
  show ?thesis
  proof (cases "can_transition (status r) target")
    case False
    with Some show ?thesis by (simp add: transition_body_refused)
  next
    case True
    have "quiet w (enter_status i target err w)"
      by (rule quiet_enter_status [OF Some True]) (use Some start in auto)
    then show ?thesis using quiet_after_enter [of s i f w r target err e] hooks Some True
      by (blast intro: quiet.trans)
  qed
qed

lemma quiet_transition_leaf:
  "target \<noteq> Planning \<Longrightarrow> quiet w (res_state (transition_leaf e i target err w))"
  unfolding transition_leaf_def by (rule quiet_transition_body) simp_all

lemma record_reason_plain [simp]: "frozen (record_reason n r) = frozen r"
  by (simp add: frozen_def)

lemma quiet_discard_run: "quiet w (res_state (discard_run e i reason w))"
proof (cases "runs w i")
  case (Some r)
  have "quiet w (release_lock (workspace_id r) (put_run i (record_reason reason) w))"
    by (simp add: quiet_put_plain)
  from quiet.trans [OF this quiet_transition_leaf] Some show ?thesis
    by (simp add: discard_run_def)
qed (simp add: discard_run_def)

lemma quiet_publish_cancel_job [simp]: "quiet w (publish_cancel_job i r v) \<longleftrightarrow> quiet w v"
  by (rule quiet_db_eq) simp

lemma quiet_cancel_run: "quiet w (res_state (cancel_run e i force reason w))"
proof (cases "runs w i")
  case (Some r)
  have *: "quiet w (publish_cancel_job i r (if b then release_lock ws (put_run i (record_reason reason) w)
      else put_run i (record_reason reason) w))" for b ws
    by (simp add: quiet_put_plain)
  show ?thesis
    using Some * quiet.trans [OF * quiet_transition_leaf]
    by (simp add: cancel_run_def Let_def)
qed (simp add: cancel_run_def)

lemma quiet_supersede_loop: "quiet w (res_state (supersede_loop e i olds n w))"
proof (induction olds arbitrary: n w)
  case (Cons old olds)
  let ?w1 = "put_run old (\<lambda>r. r\<lparr>message := Superseded_By i\<rparr>) w"
  let ?m = "if map_option status (runs ?w1 old) = Some Planned
       then discard_run e old (Some (Superseded_By i)) ?w1
       else cancel_run e old True (Some (Superseded_By i)) ?w1"
  have "quiet w ?w1" by (rule quiet_put_plain) (simp_all add: frozen_def)
  moreover have "quiet ?w1 (res_state ?m)"
    by (simp only: if_distrib [of res_state] quiet_if quiet_discard_run quiet_cancel_run split: if_split)
  ultimately have "quiet w (res_state ?m)" by (rule quiet.trans)
  moreover have "quiet (res_state ?m) (res_state (supersede_loop e i (old # olds) n w))"
    by (cases ?m) (auto simp: Let_def Cons.IH)
  ultimately show ?case by (rule quiet.trans)
qed simp

lemma quiet_supersede_call: "quiet w (res_state (supersede_call e i w))"
proof -
  have "quiet w (res_state (supersede_stale_runs e i w))"
    by (simp add: supersede_stale_runs_def quiet_supersede_loop split: option.split)
  then show ?thesis unfolding supersede_call_def by (rule quiet.bind) simp
qed

lemma quiet_queue_run: "quiet w (res_state (queue_run e i w))"
  unfolding queue_run_def transition_queue_def
  by (rule quiet_transition_body) (simp_all add: quiet_supersede_call)

lemma fresh_new_run [simp]: "fresh_row (new_run e ws_id ws rq t)"
  by (simp add: fresh_row_def in_flight_def in_flight_states_def new_run_def)

lemma quiet_create_run: "quiet w (snd (create_run e ws_id ws rq w))"
proof -
  have "quiet w (add_run (new_run e ws_id (settings ws) rq (now w)) w)" by (simp add: quiet.add)
  then show ?thesis by (subst quiet_db_eq) (simp_all add: create_run_db)
qed

lemma quiet_fire_loop: "quiet w (res_state (fire_loop e nm dests w))"
proof (induction dests arbitrary: w)
  case (Cons d dests)
  have step: "quiet w (res_state (case create_run e d dw rq w of
        (i, w1) \<Rightarrow> bind_res (queue_run e i w1) (\<lambda>_ w2. fire_loop e nm dests w2)))" for dw rq
    using quiet_create_run [of w e d dw rq]
    by (auto split: prod.split intro!: quiet.bind Cons.IH
        elim!: quiet.trans intro: quiet_queue_run)
  show ?case by (simp add: Cons.IH step split: option.split)
qed simp

lemma quiet_transition_run:
  assumes "\<And>r. runs w i = Some r \<Longrightarrow> target = Planning \<Longrightarrow> status r \<noteq> Queued"
  shows "quiet w (res_state (transition_run e i target err w))"
  unfolding transition_run_def using assms
  by (intro quiet_transition_body)
    (simp_all add: quiet_supersede_call fire_run_triggers_def quiet_fire_loop)

lemma quiet_after_transition:
  assumes "runs w i = Some r" and "can_transition (status r) target"
  shows "quiet (enter_status i target err w) (res_state (transition_run e i target err w))"
  unfolding transition_run_def using assms
  by (intro quiet_after_enter) (simp_all add: quiet_supersede_call fire_run_triggers_def quiet_fire_loop)

lemmas quiet_transition_to = quiet_transition_run [of _ _ Errored] quiet_transition_run [of _ _ Applied]
  quiet_transition_run [of _ _ Planned] quiet_transition_run [of _ _ Confirmed]
  quiet_transition_run [of _ _ Canceled] quiet_transition_run [of _ _ Discarded]
  quiet_transition_run [of _ _ Applying]

section \<open>Plans and applies\<close>

lemma quiet_complete_planned_as_noop: "quiet w (res_state (complete_planned_as_noop e i w))"
proof (cases "runs w i")
  case (Some r)
  have "quiet w (put_run i (\<lambda>r. r\<lparr>apply_started_at := Some (now w)\<rparr>) w)"
    by (rule quiet_put_plain) (simp_all add: frozen_def)
  from quiet.trans [OF this quiet_transition_run] Some show ?thesis
    by (auto simp: complete_planned_as_noop_def intro!: quiet.bind)
qed (simp add: complete_planned_as_noop_def)

lemma quiet_discard_if_superseded: "quiet w (res_state (discard_if_superseded e i w))"
  by (simp add: discard_if_superseded_def quiet_discard_run split: option.split)

lemma quiet_auto_apply_plan: "quiet w (res_state (auto_apply_plan e i w))"
  by (auto simp: auto_apply_plan_def Let_def quiet_discard_if_superseded quiet_discard_run
      intro!: quiet.bind quiet_transition_run split: option.split)

lemma quiet_settle_plan: "quiet w (res_state (settle_plan e i w))"
  unfolding settle_plan_def
proof (rule quiet.bind)
  fix a :: unit and u
  have *: "quiet u (if b then release_lock ws u else u)" for b ws by simp
  show "quiet u (res_state (case runs u i of None \<Rightarrow> Raise (Missing_Row i) u
      | Some r \<Rightarrow> let w2 = if plan_only r then release_lock (workspace_id r) u else u
           in if \<not> plan_only r \<and> has_changes r = Some False
              then complete_planned_as_noop e i w2 else auto_apply_plan e i w2))"
    using quiet.trans [OF *, OF quiet_complete_planned_as_noop]
      quiet.trans [OF *, OF quiet_auto_apply_plan] quiet_complete_planned_as_noop
    by (simp add: Let_def split: option.split)
qed (rule quiet_transition_run, simp)

lemma quiet_policy_gate: "quiet w (res_state (policy_gate e i r w))"
proof -
  have "quiet w (snd (evaluate_post_plan i r w))"
    by (intro quiet.frame) (simp_all add: evaluate_post_plan_next)
  then show ?thesis
    by (auto simp: policy_gate_def case_prod_beta intro: quiet.trans quiet_settle_plan)
qed

lemma create_task_stage_frame:
  "runs (res_state (create_task_stage e i ws stage w)) = runs w"
  "next_id w \<le> next_id (res_state (create_task_stage e i ws stage w))"
  by (auto simp: create_task_stage_def Let_def add_stage_def case_prod_beta split: option.splits)

lemma quiet_complete_plan: "quiet w (res_state (complete_plan e i changes w))"
proof (cases "runs w i")
  case (Some r)
  have outcome: "quiet w (put_run i (plan_outcome t changes) w)" for t
    by (rule quiet_put_plain) (simp_all add: frozen_def plan_outcome_def Let_def)
  have stage: "quiet v (res_state (create_task_stage e i ws stg v))" for v ws stg
    by (intro quiet.frame) (simp_all add: create_task_stage_frame)
  have resolve: "quiet v (snd (resolve_stage s v))" for v s by (intro quiet.frame) simp_all
  show ?thesis
    using Some quiet.trans [OF outcome stage]
      quiet.trans [OF resolve quiet_policy_gate] resolve
      quiet.trans [OF resolve quiet_transition_run [of _ _ Errored]]
    by (auto simp: complete_plan_def case_prod_beta quiet_policy_gate split: option.split
        intro!: quiet.bind)
qed (simp add: complete_plan_def)

lemma quiet_cancel_siblings: "quiet w (cancel_siblings e pr js w)"
proof (induction js arbitrary: w)
  case (Cons j js)
  have "quiet w (put_run j (\<lambda>r. r\<lparr>vcs_apply_blocked_reason := Some (Pr_Superseded pr)\<rparr>) w)"
    by (rule quiet_put_plain) (simp_all add: frozen_def)
  from quiet.trans [OF quiet.trans [OF this quiet_cancel_run] Cons.IH] show ?case by simp
qed simp

lemma quiet_complete_apply: "quiet w (res_state (complete_apply e i w))"
proof (cases "runs w i")
  case (Some r)
  have tail: "quiet u (res_state (redis_do f (invalidate_sibling_pr_plans e ws i pr
      (release_lock ws u))))" for u f ws pr
    unfolding invalidate_sibling_pr_plans_def
    by (rule quiet.trans [OF quiet.trans [OF _ quiet_cancel_siblings] quiet_redis_do]) simp
  show ?thesis
    using Some tail
    by (auto simp: complete_apply_def Let_def intro!: quiet.bind quiet_transition_run split: option.split)
qed (simp add: complete_apply_def)

lemma quiet_discard_loop: "quiet w (snd (discard_loop e reason js n w))"
proof (induction js arbitrary: n w)
  case (Cons j js)
  let ?m = "discard_run e j (map_option reason (runs w j)) w"
  have "quiet w (res_state ?m)" by (rule quiet_discard_run)
  moreover have "quiet (res_state ?m) (snd (discard_loop e reason (j # js) n w))"
    by (cases ?m) (simp_all add: Cons.IH)
  ultimately show ?case by (rule quiet.trans)
qed simp

lemma quiet_expire_loop: "quiet w (res_state (expire_loop e js w))"
proof (induction js arbitrary: w)
  case (Cons j js)
  show ?case
  proof (cases "runs w j")
    case (Some r)
    let ?ws = "workspaces w (workspace_id r)"
    let ?m = "discard_run e j (Some (Plan_Expired (the (ws_plan_expiry (settings (the ?ws)))))) w"
    have "quiet w (res_state ?m)" by (rule quiet_discard_run)
    moreover have "plan_expired (now w) r ?ws \<Longrightarrow>
        quiet (res_state ?m) (res_state (expire_loop e (j # js) w))"
      using Some by (cases ?m) (simp_all add: Cons.IH Let_def)
    ultimately have "plan_expired (now w) r ?ws \<Longrightarrow> quiet w (res_state (expire_loop e (j # js) w))"
      by (blast intro: quiet.trans)
    with Some show ?thesis by (cases "plan_expired (now w) r ?ws") (simp_all add: Cons.IH)
  qed (simp add: Cons.IH)
qed simp

lemma quiet_block_apply: "quiet w (res_state (block_apply i reason w))"
  unfolding block_apply_def by (simp, rule quiet_put_plain) (simp_all add: frozen_def)

lemma quiet_check_mergeability: "quiet w (res_state (check_mergeability_or_block e i r w))"
proof -
  have "quiet w (put_run i (\<lambda>r. r\<lparr>vcs_apply_blocked_reason := None\<rparr>) w)"
    by (rule quiet_put_plain) (simp_all add: frozen_def)
  then show ?thesis
    by (simp add: check_mergeability_or_block_def quiet_block_apply Let_def
        split: option.split merge_status.split)
qed

lemma quiet_confirm_run: "quiet w (res_state (confirm_run e i w))"
  by (auto simp: confirm_run_def Let_def quiet_discard_run quiet_check_mergeability
      intro!: quiet.bind quiet_transition_run split: option.split)

lemma quiet_resolve_canceling: "quiet w (res_state (resolve_canceling_run e i st w))"
  by (auto simp: resolve_canceling_run_def Let_def intro!: quiet.bind quiet_transition_run
      split: option.split)

lemma quiet_create_cv: "quiet w (snd (create_configuration_version ws src q spec w))"
  by (intro quiet.frame) (simp_all add: create_configuration_version_def add_cv_def)

lemma quiet_upload_cv: "quiet w (mark_configuration_uploaded cv w)"
  by (intro quiet.frame) (simp_all add: mark_configuration_uploaded_def put_cv_def)

section \<open>The reconciler\<close>

lemma quiet_persist_log: "quiet w (res_state (persist_live_log_if_missing e i phase w))"
  by (auto simp: persist_live_log_if_missing_def intro!: quiet.frame split: option.split bool.split)

lemma quiet_handle_failed: "quiet w (res_state (handle_failed e i r msg w))"
  by (auto simp: handle_failed_def intro!: quiet.bind quiet_persist_log quiet_transition_run)

lemma quiet_handle_succeeded: "quiet w (res_state (handle_succeeded e i r w))"
  by (auto simp: handle_succeeded_def
      intro!: quiet.bind quiet_persist_log quiet_complete_plan quiet_complete_apply)

lemma quiet_timeouts:
  "quiet w (res_state (check_unschedulable e i r w))" "quiet w (res_state (check_stale e i r w))"
  by (simp_all add: check_unschedulable_def check_stale_def quiet_handle_failed split: option.split)

lemma quiet_announce_job: "quiet w (res_state (announce_job i r job w))"
  by (auto simp: announce_job_def Let_def intro!: quiet.bind quiet_redis_do split: option.split)

lemma quiet_reconcile_one: "quiet w (res_state (reconcile_one e i w))"
  by (auto simp: reconcile_one_def quiet_timeouts quiet_handle_failed quiet_handle_succeeded
      intro!: quiet.bind quiet_announce_job quiet_redis_do quiet_persist_log quiet_resolve_canceling
      split: option.split)

lemma quiet_reconcile_runs: "quiet w (reconcile_runs e w)"
proof -
  have "quiet v (foldl (\<lambda>w i. res_state (reconcile_one e i w)) v js)" for v js
  proof (induction js arbitrary: v)
    case (Cons j js)
    show ?case using quiet.trans [OF quiet_reconcile_one Cons.IH] by simp
  qed simp
  then show ?thesis by (simp add: reconcile_runs_def)
qed

end
