(* ===== verification/Safety.thy ===== *)
theory Safety
  imports Lifecycle
begin

text \<open>
  The system as a step relation: every endpoint and background task of the model is one step, with
  any caller, settings and Redis failures, and \<open>other\<close> stands for whatever the rest of the server does
  to the other tables, the clock and Redis. The invariant: run ids are allocated, a run that no
  listener claimed has no listener, and a workspace has at most one applying run in flight.

  A step is one committed transaction; two of them do not interleave inside. The claim of a listener
  is the only step that lets a run into the in-flight window.
\<close>

section \<open>Endpoints\<close>

lemma quiet_rolled_back [simp]: "quiet w (rolled_back w w')"
  by (intro quiet.frame) (simp_all add: rolled_back_def)

lemma quiet_commit_or_conflict:
  "quiet w (res_state m) \<Longrightarrow> quiet w (res_state (commit_or_conflict w m))"
  by (cases m) simp_all

lemma quiet_rollback:
  "quiet w (res_state m) \<Longrightarrow>
   quiet w (res_state (case m of Ret a w' \<Rightarrow> Ret (g a) w' | Raise x w' \<Rightarrow> Raise x (rolled_back w w')))"
  by (cases m) simp_all

lemma quiet_confirm_answer:
  "quiet w (res_state m) \<Longrightarrow> quiet w (res_state (confirm_answer w m))"
  by (cases "(w, m)" rule: confirm_answer.cases) simp_all

lemma quiet_confirm_endpoint: "quiet w (res_state (confirm_endpoint e roles user i w))"
  by (simp add: confirm_endpoint_def quiet_confirm_answer quiet_confirm_run split: option.split)

lemma quiet_discard_endpoint: "quiet w (res_state (discard_endpoint e roles user i w))"
  by (simp add: discard_endpoint_def quiet_commit_or_conflict quiet_discard_run split: option.split)

lemma quiet_cancel_endpoint: "quiet w (res_state (cancel_endpoint e roles user i w))"
  by (simp add: cancel_endpoint_def quiet_commit_or_conflict quiet_cancel_run split: option.split)

lemma quiet_create_run_then:
  assumes "\<And>r. frozen (f r) = frozen r" "\<And>r. status (f r) = status r"
    "\<And>r. listener_id (f r) = listener_id r"
    and "\<And>v. quiet v (res_state (k v))"
  shows "quiet w (res_state (k (put_run j f (snd (create_run e ws_id ws rq w)))))"
  using quiet.trans [OF quiet.trans [OF quiet_create_run quiet_put_plain [OF assms(1-3)]] assms(4)] .

lemma quiet_retry_endpoint: "quiet w (res_state (retry_endpoint e roles user i w))"
proof -
  have q: "quiet w (res_state (queue_run e j (put_run j (copy_vcs r)
      (snd (create_run e ws_id ws rq w)))))" for j r ws_id ws rq
    by (rule quiet_create_run_then) (simp_all add: copy_vcs_def frozen_def quiet_queue_run)
  show ?thesis
    using quiet_rollback [OF q, where g = "\<lambda>_. n" for n :: nat]
    by (simp add: retry_endpoint_def case_prod_beta split: option.split)
qed

lemma quiet_create_and_queue: "quiet w (res_state (create_and_queue e user ws_id ws a po cv sha branch w))"
proof -
  let ?f = "\<lambda>r. r\<lparr>config := (config r)\<lparr>rc_vcs_sha := sha, rc_vcs_branch := branch\<rparr>\<rparr>"
  have q: "quiet v (res_state (bind_res (queue_run e i v) (\<lambda>_ w3. Ret j w3)))" for i v and j :: nat
    by (rule quiet.bind) (simp_all add: quiet_queue_run)
  have c: "quiet w (snd (create_run e ws_id ws rq w))" for rq by (rule quiet_create_run)
  have p: "quiet w (put_run i ?f (snd (create_run e ws_id ws rq w)))" for i rq
    by (rule quiet.trans [OF c quiet_put_plain]) (simp_all add: frozen_def)
  show ?thesis
    unfolding create_and_queue_def case_prod_beta Let_def
    using p c quiet.trans [OF p q] quiet.trans [OF c q]
    by (simp only: if_split option.split res.sel quiet.refl split: if_split option.split) simp
qed

lemma quiet_create_endpoint:
  "quiet w (res_state (create_endpoint e roles user ws_id a ref api w))"
proof -
  have "quiet w (res_state (fetch_vcs_config api ws cfg ref w))" for ws cfg ref
    using quiet.trans [OF quiet_create_cv quiet_upload_cv]
    by (simp add: fetch_vcs_config_def case_prod_beta split: option.split)
  then have "quiet w (res_state (bind_res (fetch_vcs_config api ws_id cfg ref w) (\<lambda>(c, sha, branch) w1.
      create_and_queue e user ws_id ws a po (Some c) sha branch w1)))" for ws po cfg ref
    by (rule quiet.bind) (auto simp: quiet_create_and_queue)
  then show ?thesis
    by (simp add: create_endpoint_def Let_def quiet_create_and_queue quiet_rollback split: option.split)
qed

lemma quiet_report_job_launched: "quiet w (res_state (report_job_launched idn l i job ns w))"
  by (auto simp: report_job_launched_def frozen_def intro!: quiet_put_plain split: option.split)

lemma exit_report_plain [simp]:
  "frozen (exit_report c reason r) = frozen r" "status (exit_report c reason r) = status r"
  "listener_id (exit_report c reason r) = listener_id r"
  by (simp_all add: exit_report_def Let_def frozen_def split: option.split)

lemma quiet_report_job_status:
  "quiet w (res_state (report_job_status idn l i st phase c reason w))"
  by (auto simp: report_job_status_def intro!: quiet.bind quiet_redis_do quiet_put_plain split: option.split)

lemma quiet_report_results:
  "quiet w (res_state (report_plan_result e i changes w))" "quiet w (res_state (report_apply_result e i w))"
  by (simp_all add: report_plan_result_def report_apply_result_def quiet_rollback quiet_complete_plan
      quiet_complete_apply split: option.split)

lemma quiet_expire_cycle: "quiet w (res_state (expire_stale_plans_cycle e w))"
  unfolding expire_stale_plans_cycle_def by (rule quiet_expire_loop)

lemma quiet_state_change: "quiet w (snd (discard_stale_plans_for_state_change e ws serial excl w))"
  unfolding discard_stale_plans_for_state_change_def by (rule quiet_discard_loop)

section \<open>The invariant\<close>

definition mutating :: "run \<Rightarrow> bool" where
  "mutating r \<longleftrightarrow> \<not> plan_only r \<and> \<not> is_drift r \<and> in_flight r"

definition unclaimed_idle :: "world \<Rightarrow> bool" where
  "unclaimed_idle w \<longleftrightarrow>
     (\<forall>i r. runs w i = Some r \<longrightarrow> status r \<in> {Pending, Queued} \<longrightarrow> listener_id r = None)"

definition single_flight :: "world \<Rightarrow> bool" where
  "single_flight w \<longleftrightarrow>
     (\<forall>i j r s. runs w i = Some r \<longrightarrow> runs w j = Some s \<longrightarrow> workspace_id r = workspace_id s
        \<longrightarrow> mutating r \<longrightarrow> mutating s \<longrightarrow> i = j)"

definition run_invariant :: "world \<Rightarrow> bool" where
  "run_invariant w \<longleftrightarrow> bounded w \<and> unclaimed_idle w \<and> single_flight w"

lemma status_le: "can_transition\<^sup>*\<^sup>* s t \<Longrightarrow> s \<le> t"
  by (induction rule: rtranclp_induct) (auto dest: can_transition_less)

lemma terminal_stays: "can_transition\<^sup>*\<^sup>* s t \<Longrightarrow> s \<in> set terminal_states \<Longrightarrow> t = s"
  by (induction rule: converse_rtranclp_induct) (auto dest: terminal_no_transition)

lemma frozen_kind:
  "frozen r' = frozen r \<Longrightarrow> workspace_id r' = workspace_id r"
  "frozen r' = frozen r \<Longrightarrow> plan_only r' = plan_only r"
  "frozen r' = frozen r \<Longrightarrow> is_drift r' = is_drift r"
  by (auto simp: frozen_def dest: arg_cong [where f = rc_workspace] arg_cong [where f = rc_plan_only]
      arg_cong [where f = rc_is_drift])

lemma quiet_row_back:
  assumes "quiet w w'" and "bounded w" and "runs w' i = Some r'"
  obtains (old) r where "runs w i = Some r" "quiet_row r r'" | (new) "runs w i = None" "fresh_row r'"
  using assms by (cases "runs w i") (force simp: evolves_def split: option.splits)+

text \<open>Quiet steps keep the invariant.\<close>

lemma quiet_row_kind:
  assumes "quiet_row r r'"
  shows "workspace_id r' = workspace_id r" "plan_only r' = plan_only r" "is_drift r' = is_drift r"
    "mutating r' \<Longrightarrow> mutating r" "status r \<le> status r'" "listener_id r' = listener_id r"
proof -
  from assms have f: "frozen r' = frozen r" and st: "can_transition\<^sup>*\<^sup>* (status r) (status r')"
    and fl: "in_flight r' \<Longrightarrow> in_flight r" and l: "listener_id r' = listener_id r"
    by (simp_all add: quiet_row_def row_step_def)
  show "workspace_id r' = workspace_id r" "plan_only r' = plan_only r" "is_drift r' = is_drift r"
    using f by (rule frozen_kind)+
  then show "mutating r' \<Longrightarrow> mutating r" using fl by (simp add: mutating_def)
  show "status r \<le> status r'" using st by (rule status_le)
  show "listener_id r' = listener_id r" by (rule l)
qed

lemma fresh_not_mutating: "fresh_row r \<Longrightarrow> \<not> mutating r"
  by (simp add: fresh_row_def mutating_def)

lemma quiet_single_flight:
  assumes "quiet w w'" and "bounded w" and "single_flight w"
  shows "single_flight w'"
proof (unfold single_flight_def, intro allI impI)
  have past: "\<exists>r. runs w i = Some r \<and> quiet_row r r'" if "runs w' i = Some r'" "mutating r'" for i r'
    using quiet_row_back [OF assms(1,2) that(1)] fresh_not_mutating that(2) by metis
  fix i j r s
  assume rows: "runs w' i = Some r" "runs w' j = Some s" and ws: "workspace_id r = workspace_id s"
    and m: "mutating r" "mutating s"
  obtain r0 where r0: "runs w i = Some r0" "quiet_row r0 r" using past [OF rows(1) m(1)] by auto
  obtain s0 where s0: "runs w j = Some s0" "quiet_row s0 s" using past [OF rows(2) m(2)] by auto
  have "workspace_id r0 = workspace_id s0" "mutating r0" "mutating s0"
    using ws m quiet_row_kind(1,4) [OF r0(2)] quiet_row_kind(1,4) [OF s0(2)] by simp_all
  with r0(1) s0(1) assms(3) show "i = j" unfolding single_flight_def by blast
qed

lemma quiet_unclaimed_idle:
  assumes "quiet w w'" and "bounded w" and "unclaimed_idle w"
  shows "unclaimed_idle w'"
proof (unfold unclaimed_idle_def, intro allI impI)
  fix i r' assume row: "runs w' i = Some r'" and st: "status r' \<in> {Pending, Queued}"
  show "listener_id r' = None"
  proof (rule quiet_row_back [OF assms(1,2) row])
    fix r assume old: "runs w i = Some r" "quiet_row r r'"
    then have "status r \<in> {Pending, Queued}"
      using st quiet_row_kind(5) [of r r'] by (cases "status r") (auto simp: status_order)
    with old assms(3) show ?thesis by (metis quiet_row_kind(6) unclaimed_idle_def)
  qed (simp add: fresh_row_def)
qed

lemma quiet_invariant: "quiet w w' \<Longrightarrow> run_invariant w \<Longrightarrow> run_invariant w'"
  by (simp add: run_invariant_def quiet_single_flight quiet_unclaimed_idle) (simp add: evolves_def)

text \<open>A listener that reports a status for its run cannot put it into planning.\<close>

lemma quiet_update_run_status:
  assumes "unclaimed_idle w"
  shows "quiet w (res_state (update_run_status e idn l i target err changes w))"
proof (cases "runs w i")
  case (Some r)
  show ?thesis
  proof (cases "listener_id r = Some l")
    case True
    define w1 where "w1 = (if changes \<noteq> None then put_run i (\<lambda>r. r\<lparr>has_changes := changes\<rparr>) w else w)"
    have idle: "status r \<noteq> Queued" using assms Some True by (auto simp: unclaimed_idle_def)
    have w1: "quiet w w1" by (auto intro!: quiet_put_plain simp: frozen_def w1_def)
    have row: "runs w1 i = Some s \<Longrightarrow> status s \<noteq> Queued" for s
      using Some idle by (auto simp: w1_def split: if_splits)
    have move: "quiet w (res_state (transition_run e i t (Message err) w1))" for t
      by (rule quiet.trans [OF w1 quiet_transition_run]) (rule row)
    have lock: "quiet w (release_lock_if b ws u) \<longleftrightarrow> quiet w u" for w b ws u
      by (simp add: release_lock_if_def)
    have "quiet w (res_state (if parse_status target = Some Planned \<and> \<not> plan_only r
        then complete_plan e i changes w1
        else case parse_status target of None \<Rightarrow> Raise (Invalid_Transition (status r) None) w1
             | Some t \<Rightarrow> transition_run e i t (Message err) w1))"
      using w1 quiet.trans [OF w1 quiet_complete_plan] move by (simp split: option.split)
    then have "quiet w (res_state (bind_res (if parse_status target = Some Planned \<and> \<not> plan_only r
        then complete_plan e i changes w1
        else case parse_status target of None \<Rightarrow> Raise (Invalid_Transition (status r) None) w1
             | Some t \<Rightarrow> transition_run e i t (Message err) w1) (\<lambda>_ w2.
          Ret () (release_lock_if (parse_status target \<in> Some ` set terminal_states) (workspace_id r)
            (release_lock_if (parse_status target = Some Planned \<and> plan_only r) (workspace_id r) w2)))))"
      by (rule quiet.bind) (simp add: lock)
    from quiet_commit_or_conflict [OF this] show ?thesis
      unfolding update_run_status_def Let_def w1_def [symmetric] using Some True by simp
  qed (use Some in \<open>simp add: update_run_status_def\<close>)
qed (simp add: update_run_status_def)

section \<open>The claim\<close>

lemma next_claim_row:
  assumes "next_claim w held pool target = Some i"
  obtains r where "runs w i = Some r" "status r = target" "pool_id r = Some pool" "i \<notin> held"
    "target = Queued \<Longrightarrow> \<not> plan_only r \<Longrightarrow>
       \<not> ws_is_locked w (workspace_id r) \<and> \<not> in_flight_on w (workspace_id r) i"
    "i < next_id w"
  using least_by_in [OF assms [unfolded next_claim_def]] by (auto simp: claimable_def select_runs_def)

definition claimed :: "nat \<Rightarrow> nat \<Rightarrow> run_status \<Rightarrow> world \<Rightarrow> world" where
  "claimed l i target w = enter_status i target (Message []) (put_run i (\<lambda>r. r\<lparr>listener_id := Some l\<rparr>) w)"

lemma claim_transition:
  assumes "runs w i = Some r" and "can_transition (status r) target" and "target \<notin> {Queued, Applied}"
  obtains w' where "transition_run e i target (Message []) (put_run i (\<lambda>r. r\<lparr>listener_id := Some l\<rparr>) w)
      = Ret () w'" and "db w' = claimed l i target (db w)"
proof -
  have "runs (put_run i (\<lambda>r. r\<lparr>listener_id := Some l\<rparr>) w) i = Some (r\<lparr>listener_id := Some l\<rparr>)"
    using assms(1) by simp
  from transition_leaf_cases [OF this, of target e "Message []"] assms show ?thesis
    by (simp add: transition_leaf_eq) (metis claimed_def db_put(1) that)
qed

text \<open>The three outcomes of a poll.\<close>

lemma claim_cases:
  obtains (plan) i w' where "next_claim w held pool Queued = Some i"
      "claim_next_run e held l pool w = Ret (Some (i, ''plan'')) w'"
      "db w' = claimed l i Planning (db w)"
  | (apply_phase) i w' where "next_claim w held pool Queued = None"
      "next_claim w held pool Confirmed = Some i"
      "claim_next_run e held l pool w = Ret (Some (i, ''apply'')) w'"
      "db w' = claimed l i Applying (db w)"
  | (idle) "next_claim w held pool Queued = None" "next_claim w held pool Confirmed = None"
      "claim_next_run e held l pool w = Ret None w"
proof (cases "next_claim w held pool Queued")
  case (Some i)
  then obtain r where "runs w i = Some r" "status r = Queued" by (elim next_claim_row)
  then obtain w' where "transition_run e i Planning (Message []) (put_run i (\<lambda>r. r\<lparr>listener_id := Some l\<rparr>) w)
      = Ret () w'" "db w' = claimed l i Planning (db w)"
    using claim_transition [of w i r Planning e l] by auto
  with Some show ?thesis by (intro plan [of i w']) (simp_all add: claim_next_run_def)
next
  case None
  show ?thesis
  proof (cases "next_claim w held pool Confirmed")
    case (Some i)
    then obtain r where "runs w i = Some r" "status r = Confirmed" by (elim next_claim_row)
    then obtain w' where "transition_run e i Applying (Message []) (put_run i (\<lambda>r. r\<lparr>listener_id := Some l\<rparr>) w)
        = Ret () w'" "db w' = claimed l i Applying (db w)"
      using claim_transition [of w i r Applying e l] by auto
    with Some None show ?thesis by (intro apply_phase [of i w']) (simp_all add: claim_next_run_def)
  qed (use None in \<open>simp add: idle claim_next_run_def\<close>)
qed

lemma claimed_runs:
  assumes "runs w i = Some r"
  obtains r' where "runs (claimed l i target w) = (runs w)(i \<mapsto> r')" "status r' = target"
    "frozen r' = frozen r" "listener_id r' = Some l"
proof -
  have lf [simp]: "frozen (r\<lparr>listener_id := x\<rparr>) = frozen r" for r x by (simp add: frozen_def)
  from assms show ?thesis
    by (intro that [of "transition_fields (now w) (current_state_serial
          (put_run i (\<lambda>r. r\<lparr>listener_id := Some l\<rparr>) w) (workspace_id r)) target (Message [])
          (r\<lparr>listener_id := Some l\<rparr>)"])
      (auto simp: claimed_def enter_status_def put_run_def modify_def)
qed

lemma claimed_next_id [simp]: "next_id (claimed l i target w) = next_id w"
  by (simp add: claimed_def enter_status_def)

lemma claimed_bounded: "runs w i = Some r \<Longrightarrow> bounded w \<Longrightarrow> bounded (claimed l i target w)"
  by (rule claimed_runs [of w i r l target]) (auto simp: bounded_def)

lemma claimed_unclaimed_idle:
  "runs w i = Some r \<Longrightarrow> target \<notin> {Pending, Queued} \<Longrightarrow> unclaimed_idle w \<Longrightarrow>
   unclaimed_idle (claimed l i target w)"
  by (rule claimed_runs [of w i r l target]) (auto simp: unclaimed_idle_def)

text \<open>A claimed run is alone in flight on its workspace, or was in flight before.\<close>

lemma claimed_single_flight:
  assumes row: "runs w i = Some r" and flight: "single_flight w"
    and alone: "mutating r \<or> plan_only r
      \<or> (\<forall>j s. runs w j = Some s \<longrightarrow> workspace_id s = workspace_id r \<longrightarrow> j \<noteq> i \<longrightarrow> \<not> mutating s)"
  shows "single_flight (claimed l i target w)"
proof -
  obtain r' where rows: "runs (claimed l i target w) = (runs w)(i \<mapsto> r')" and fr: "frozen r' = frozen r"
    using row by (rule claimed_runs)
  have other: "\<not> mutating s" if "mutating r'" "runs w j = Some s" "j \<noteq> i"
      "workspace_id s = workspace_id r'" for j s
    using that alone row flight frozen_kind [OF fr] unfolding single_flight_def mutating_def by metis
  show ?thesis
    unfolding single_flight_def rows
    using other flight by (simp add: single_flight_def split: if_splits) metis
qed

lemma in_flight_on_iff:
  "bounded w \<Longrightarrow> in_flight_on w ws i \<longleftrightarrow>
     (\<exists>j s. runs w j = Some s \<and> workspace_id s = ws \<and> j \<noteq> i \<and> mutating s)"
  by (auto simp: in_flight_on_def select_runs_def select_nonempty_iff mutating_def in_flight_def bounded_def)

lemma db_invariant [simp]:
  "bounded (db w) = bounded w" "unclaimed_idle (db w) = unclaimed_idle w"
  "single_flight (db w) = single_flight w" "run_invariant (db w) = run_invariant w"
  by (simp_all add: run_invariant_def bounded_def unclaimed_idle_def single_flight_def)

lemma claim_invariant:
  assumes inv: "run_invariant w"
  shows "run_invariant (res_state (claim_next_run e held l pool w))"
proof -
  have *: "run_invariant (claimed l i next (db w))"
    if pick: "next_claim w held pool target = Some i"
      and target: "target = Queued \<and> next = Planning \<or> target = Confirmed \<and> next = Applying"
    for i target "next"
  proof -
    obtain r where r: "runs w i = Some r" "status r = target"
      and gate: "target = Queued \<Longrightarrow> \<not> plan_only r \<Longrightarrow> \<not> in_flight_on w (workspace_id r) i"
      using pick by (elim next_claim_row) auto
    have "mutating r \<or> plan_only r \<or> is_drift r \<or> target = Queued"
      using target r(2) by (auto simp: mutating_def in_flight_def in_flight_states_def)
    then have "mutating r \<or> plan_only r \<or> is_drift r
        \<or> (\<forall>j s. runs w j = Some s \<longrightarrow> workspace_id s = workspace_id r \<longrightarrow> j \<noteq> i \<longrightarrow> \<not> mutating s)"
      using gate inv by (auto simp: in_flight_on_iff run_invariant_def)
    moreover have "single_flight (claimed l i next (db w))" if "is_drift r"
    proof -
      obtain r' where rows: "runs (claimed l i next (db w)) = (runs w)(i \<mapsto> r')" "frozen r' = frozen r"
        using r(1) claimed_runs [of "db w" i r l "next"] by auto
      then have "\<not> mutating r'" using that frozen_kind(3) [of r' r] by (simp add: mutating_def)
      with rows inv show ?thesis by (auto simp: single_flight_def run_invariant_def)
    qed
    ultimately have "single_flight (claimed l i next (db w))"
      using claimed_single_flight [of "db w" i r l "next"] r(1) inv unfolding run_invariant_def by auto
    moreover have "bounded (claimed l i next (db w))"
      using r(1) inv by (intro claimed_bounded) (simp_all add: run_invariant_def)
    moreover have "unclaimed_idle (claimed l i next (db w))"
      using r(1) inv target by (intro claimed_unclaimed_idle) (auto simp: run_invariant_def)
    ultimately show ?thesis by (simp add: run_invariant_def)
  qed
  show ?thesis
    by (rule claim_cases [of w held pool e l]) (use * inv in \<open>metis db_invariant res.sel(2)\<close>)+
qed

lemma claim_lawful: "lawful w (res_state (claim_next_run e held l pool w))"
proof -
  have *: "lawful w (claimed l i next (db w))"
    if pick: "next_claim w held pool target = Some i" and can: "can_transition target next" for i target "next"
  proof -
    obtain r where r: "runs w i = Some r" "status r = target"
      using pick by (elim next_claim_row) auto
    obtain r' where "runs (claimed l i next (db w)) = (runs w)(i \<mapsto> r')" "status r' = next"
      "frozen r' = frozen r"
      using r(1) claimed_runs [of "db w" i r l "next"] by auto
    with r can show ?thesis
      by (auto simp: evolves_def bounded_def row_step_def split: option.splits)
  qed
  have same: "lawful w (db v) = lawful w v" for v by (rule evolves_same) simp_all
  show ?thesis
    by (rule claim_cases [of w held pool e l])
      (use * same in \<open>force simp: can_transition_iff\<close>)+
qed

section \<open>Steps\<close>

inductive run_step :: "world \<Rightarrow> world \<Rightarrow> bool" where
  create: "run_step w (res_state (create_endpoint e roles user ws a ref api w))"
| confirm: "run_step w (res_state (confirm_endpoint e roles user i w))"
| discard: "run_step w (res_state (discard_endpoint e roles user i w))"
| cancel: "run_step w (res_state (cancel_endpoint e roles user i w))"
| retry: "run_step w (res_state (retry_endpoint e roles user i w))"
| claim: "run_step w (res_state (next_run_endpoint e held idn l pools w))"
| report_status: "run_step w (res_state (update_run_status e idn l i target err changes w))"
| launched: "run_step w (res_state (report_job_launched idn l i job ns w))"
| job_report: "run_step w (res_state (report_job_status idn l i st phase c reason w))"
| planned: "run_step w (res_state (report_plan_result e i changes w))"
| applied: "run_step w (res_state (report_apply_result e i w))"
| reconcile: "run_step w (reconcile_runs e w)"
| expire: "run_step w (res_state (expire_stale_plans_cycle e w))"
| state_change: "run_step w (snd (discard_stale_plans_for_state_change e ws serial excl w))"
| other: "runs w' = runs w \<Longrightarrow> next_id w \<le> next_id w' \<Longrightarrow> run_step w w'"

text \<open>Every step but the claim is quiet.\<close>

lemma run_step_cases:
  assumes "run_step w w'" and "run_invariant w"
  obtains (quiet) "quiet w w'" | (claim) e held l pool where "w' = res_state (claim_next_run e held l pool w)"
  using assms(1)
proof cases
  case (claim e held idn l pools)
  show ?thesis
  proof (cases "\<exists>pool x v. claim_next_run e held l pool w = Raise x v")
    case True
    then show ?thesis using claim_cases by (metis res.distinct(1))
  next
    case False
    then have "w' = res_state (claim_next_run e held l (the (pools l)) w) \<or> w' = w"
      unfolding claim next_run_endpoint_def by (auto split: option.splits res.splits)
    then show ?thesis using that quiet.refl by metis
  qed
next
  case (report_status e idn l i target err changes)
  then show ?thesis using that(1) quiet_update_run_status assms(2) by (metis run_invariant_def)
next
  case (expire e)
  then show ?thesis using that(1) quiet_expire_cycle by blast
next
  case (state_change e ws serial excl)
  then show ?thesis using that(1) quiet_state_change by blast
qed (use that(1) in \<open>simp_all add: quiet_create_endpoint quiet_confirm_endpoint quiet_discard_endpoint
      quiet_cancel_endpoint quiet_retry_endpoint quiet_report_job_launched quiet_report_job_status
      quiet_report_results quiet_reconcile_runs quiet.frame\<close>)

lemma run_step_invariant: "run_step w w' \<Longrightarrow> run_invariant w \<Longrightarrow> run_invariant w'"
  by (erule run_step_cases, assumption) (auto intro: quiet_invariant claim_invariant)

lemma run_step_lawful: "run_step w w' \<Longrightarrow> run_invariant w \<Longrightarrow> lawful w w'"
  by (erule run_step_cases, assumption) (auto intro: quiet_lawful claim_lawful)

lemma reachable_invariant: "run_step\<^sup>*\<^sup>* w w' \<Longrightarrow> run_invariant w \<Longrightarrow> run_invariant w'"
  by (induction rule: rtranclp_induct) (auto intro: run_step_invariant)

lemma reachable_lawful: "run_step\<^sup>*\<^sup>* w w' \<Longrightarrow> run_invariant w \<Longrightarrow> lawful w w'"
proof (induction rule: rtranclp_induct)
  case (step v u)
  then show ?case
    using run_step_lawful [of v u] reachable_invariant [of w v] by (blast intro: lawful.trans)
qed simp

end
