(* ===== verification/RunProperties.thy ===== *)
theory RunProperties
  imports Safety
begin

text \<open>
  The properties of the run state machine: what a run may do over its life, the single in-flight run
  per workspace, the listener's claim, confirming, cancelling, superseding and completing runs, and
  the reconciler's timeouts. Each property is a few steps over the lemmas of \<open>RunService\<close>,
  \<open>Lifecycle\<close> and \<open>Safety\<close>; the examples at the start serve the witnesses.
\<close>

section \<open>Examples\<close>

definition plain_workspace :: workspace where
  "plain_workspace =
     \<lparr>settings = \<lparr>ws_name = ''net'', ws_labels = [], ws_owner_email = ''ops'', ws_execution_mode = ''agent'',
        ws_auto_apply = False, ws_backend = ''tofu'', ws_version = ''1.9'', ws_tg_enabled = False,
        ws_tg_version = [], ws_cpu = ''1'', ws_memory = ''2Gi'', ws_pool = Some 9,
        ws_vcs_connection = None, ws_vcs_repo_url = [], ws_vcs_workflow = [],
        ws_plan_expiry = None, ws_drift_enabled = False, ws_drift_interval = 0, ws_drift_rules = [],
        ws_catalog_item = None\<rparr>,
      locked = False, lock_id = None, state_diverged = False, drift_status = [],
      drift_last_checked_at = None, drift_latest_run_id = None, lifecycle_state = ''active'',
      lifecycle_reason = Text []\<rparr>"

definition admin_user :: auth_user where
  "admin_user = \<lparr>au_email = ''ops'', au_roles = [''admin''], au_auth_method = ''session'', au_run_id = None,
      au_kind = ''user'', au_pinned_roles = None\<rparr>"

definition guest_user :: auth_user where
  "guest_user = admin_user\<lparr>au_email := ''guest'', au_roles := [''everyone'']\<rparr>"

definition uploaded_example :: world where
  "uploaded_example = empty_world\<lparr>workspaces := [0 \<mapsto> plain_workspace],
     config_versions := [1 \<mapsto> \<lparr>cv_workspace = 0, cv_source = ''tfe-api'', cv_status = ''uploaded'',
       cv_auto_queue = False, cv_speculative = False, cv_created_at = 0\<rparr>], next_id := 2\<rparr>"

definition no_vcs :: vcs_api where
  "no_vcs = \<lparr>va_parses = (\<lambda>_. False), va_branch = (\<lambda>_. None), va_branch_sha = (\<lambda>_. None), va_tags = [],
     va_archive = (\<lambda>_. False)\<rparr>"

definition example_attrs :: "bool \<Rightarrow> run_attrs" where
  "example_attrs drift = \<lparr>at_message = [], at_is_destroy = False, at_auto_apply = None, at_plan_only = False,
     at_version = [], at_is_drift = drift, at_targets = None, at_replaces = None, at_refresh_only = False,
     at_refresh = True, at_allow_empty = False, at_vcs_ref = []\<rparr>"

text \<open>Create a run on workspace 0, then let listener 7 of pool 9 poll.\<close>

definition create_step :: "bool \<Rightarrow> world \<Rightarrow> world" where
  "create_step drift w = res_state
     (create_endpoint example_env [] admin_user 0 (example_attrs drift) No_Cv no_vcs w)"

definition claim_step :: "world \<Rightarrow> world" where
  "claim_step w = res_state (next_run_endpoint example_env {} 7 7 (\<lambda>_. Some 9) w)"

lemma example_steps:
  "run_step\<^sup>*\<^sup>* v w \<Longrightarrow> run_step\<^sup>*\<^sup>* v (create_step drift w)"
  "run_step\<^sup>*\<^sup>* v w \<Longrightarrow> run_step\<^sup>*\<^sup>* v (claim_step w)"
  unfolding create_step_def claim_step_def
  by (blast intro: rtranclp.rtrancl_into_rtrancl run_step.create run_step.claim)+

lemma uploaded_invariant: "run_invariant uploaded_example"
  by (simp add: run_invariant_def bounded_def unclaimed_idle_def single_flight_def uploaded_example_def
      empty_world_def)

section \<open>A run's life\<close>





text \<open>
  The exception in that rule. A client may create a run that is flagged as a drift check and is
  not plan-only; the claim does not count it, so two runs that can apply are in flight together.
\<close>

theorem drift_flag_escapes_single_flight:
  "\<exists>w i j r s. run_step\<^sup>*\<^sup>* uploaded_example w \<and> i \<noteq> j \<and> runs w i = Some r \<and> runs w j = Some s
     \<and> workspace_id r = workspace_id s \<and> \<not> plan_only r \<and> \<not> plan_only s
     \<and> status r = Planning \<and> status s = Planning"
proof -
  let ?w = "claim_step (create_step False (claim_step (create_step True uploaded_example)))"
  let ?k = "\<lambda>r. (status r, workspace_id r, plan_only r)"
  have "map_option ?k (runs ?w 2) = Some (Planning, 0, False)
      \<and> map_option ?k (runs ?w 3) = Some (Planning, 0, False)"
    by code_simp
  then obtain r s where "runs ?w 2 = Some r" "runs ?w 3 = Some s" "?k r = (Planning, 0, False)"
    "?k s = (Planning, 0, False)" by blast
  moreover have "run_step\<^sup>*\<^sup>* uploaded_example ?w" by (intro example_steps rtranclp.rtrancl_refl)
  moreover have "(2::nat) \<noteq> 3" by simp
  ultimately show ?thesis by (metis prod.inject)
qed

section \<open>The claim\<close>

text \<open>
  C6: what a listener is handed. A plan is a queued run of its pool that no other transaction holds;
  unless it is plan-only its workspace is not locked and has no other run that can apply in flight.
  An apply is a confirmed run of its pool. It is the oldest such run, it is assigned to the listener
  and enters its phase, and no other run changes.
\<close>

theorem claim_respects_gates:
  assumes "claim_next_run e held l pool w = Ret (Some (i, phase)) w'" and "bounded w"
  shows "\<exists>r r'. runs w i = Some r \<and> runs w' = (runs w)(i \<mapsto> r') \<and> pool_id r = Some pool \<and> i \<notin> held
    \<and> listener_id r' = Some l \<and> frozen r' = frozen r
    \<and> \<not> (\<exists>j\<in>set (claimable w held pool (status r)). created_at (the (runs w j)) < created_at r)
    \<and> (if phase = ''plan'' then status r = Queued \<and> status r' = Planning
         \<and> (plan_only r \<or> \<not> ws_is_locked w (workspace_id r)
            \<and> \<not> (\<exists>j s. runs w j = Some s \<and> workspace_id s = workspace_id r \<and> j \<noteq> i \<and> mutating s))
       else phase = ''apply'' \<and> status r = Confirmed \<and> status r' = Applying)"
proof -
  obtain st st' where pick: "next_claim w held pool st = Some i" and db: "db w' = claimed l i st' (db w)"
    and phase: "st = Queued \<and> st' = Planning \<and> phase = ''plan''
      \<or> st = Confirmed \<and> st' = Applying \<and> phase = ''apply''"
    by (rule claim_cases [of w held pool e l]) (use assms(1) in auto)
  obtain r where r: "runs w i = Some r" "status r = st" "pool_id r = Some pool" "i \<notin> held"
    and gate: "st = Queued \<Longrightarrow> \<not> plan_only r \<Longrightarrow>
      \<not> ws_is_locked w (workspace_id r) \<and> \<not> in_flight_on w (workspace_id r) i"
    using pick by (elim next_claim_row) auto
  obtain r' where "runs (claimed l i st' (db w)) = (runs w)(i \<mapsto> r')" "status r' = st'"
    "frozen r' = frozen r" "listener_id r' = Some l"
    using r(1) claimed_runs [of "db w" i r l st'] by auto
  moreover from this db have "runs w' = (runs w)(i \<mapsto> r')" by (metis db_frame(1))
  moreover have "\<not> created_at (the (runs w j)) < created_at r" if "j \<in> set (claimable w held pool st)" for j
    using least_by_le [OF pick [unfolded next_claim_def] that] r(1) by simp
  ultimately show ?thesis
    using r gate phase by (auto simp: in_flight_on_iff [OF assms(2)])
qed

theorem claim_respects_gates_witness:
  "\<exists>r'. runs (claim_step (create_step False uploaded_example))
     = (runs (create_step False uploaded_example))(2 \<mapsto> r') \<and> listener_id r' = Some 7"
proof -
  let ?w = "create_step False uploaded_example"
  let ?m = "claim_next_run example_env {} 7 9 ?w"
  have val: "(case ?m of Ret v _ \<Rightarrow> v | Raise _ _ \<Rightarrow> None) = Some (2, ''plan'')" by code_simp
  then obtain w' where m: "?m = Ret (Some (2, ''plan'')) w'" by (cases ?m) auto
  have "run_invariant ?w"
    by (rule reachable_invariant [OF example_steps(1) [OF rtranclp.rtrancl_refl] uploaded_invariant])
  then have "bounded ?w" by (simp add: run_invariant_def)
  moreover have "claim_step ?w = w'" by (simp add: claim_step_def next_run_endpoint_def m)
  ultimately show ?thesis using claim_respects_gates [OF m] by blast
qed

text \<open>
  C7: a poll always answers, whatever Redis does, and it comes back empty only when no run of the
  pool can be claimed: no queued run passes its gate and no run is confirmed.
\<close>

theorem claim_serves_pool:
  "\<exists>c w'. claim_next_run e held l pool w = Ret c w'
     \<and> (c = None \<longleftrightarrow> claimable w held pool Queued = [] \<and> claimable w held pool Confirmed = [])"
  by (rule claim_cases [of w held pool e l]) (auto simp: next_claim_def)

end
