(* ===== verification/Resilience.thy ===== *)
theory Resilience
  imports RunGates
begin

text \<open>
  The run state machine does not depend on Redis. \<open>db_only F\<close> says that the outcome of a handler and
  the database it leaves are those it has on the same database with a fresh Redis, so neither the
  contents of Redis nor any pattern of failing commands shows. The exception is completing an apply
  of a pull-request run, which lets a Redis error through.
\<close>

section \<open>Handlers that depend on the database only\<close>

definition db_only :: "'a handler \<Rightarrow> bool" where
  "db_only F \<longleftrightarrow> (\<forall>w. db_res (F w) = db_res (F (db w)))"

lemma db_onlyI: "(\<And>w. db_res (F w) = db_res (F (db w))) \<Longrightarrow> db_only F"
  by (simp add: db_only_def)

lemma db_onlyD: "db_only F \<Longrightarrow> db u = db v \<Longrightarrow> db_res (F u) = db_res (F v)"
  by (metis db_only_def)

lemma db_only_Ret [simp]: "db_only (Ret a)"
  by (simp add: db_only_def)

lemma db_only_bind:
  "db_res m = db_res m' \<Longrightarrow> (\<And>a. db_only (k a)) \<Longrightarrow> db_res (bind_res m k) = db_res (bind_res m' k)"
  by (cases m; cases m') (auto dest: db_onlyD)

lemma db_only_bindI:
  "db_only m \<Longrightarrow> (\<And>a. db_only (k a)) \<Longrightarrow> db_only (\<lambda>w. bind_res (m w) k)"
  by (intro db_onlyI db_only_bind) (auto simp: db_only_def)

section \<open>The operations\<close>

lemma db_only_transition_body:
  assumes "db_only (s i)" and "\<And>ws. db_only (f ws)"
  shows "db_only (transition_body s f e i target err)"
proof (rule db_onlyI)
  fix w
  show "db_res (transition_body s f e i target err w) = db_res (transition_body s f e i target err (db w))"
  proof (cases "runs w i")
    case None
    then show ?thesis by (simp add: transition_body_missing)
  next
    case (Some r)
    show ?thesis
    proof (cases "can_transition (status r) target")
      case False
      with Some show ?thesis by (simp add: transition_body_refused)
    next
      case True
      let ?r = "transition_fields (now w) (current_state_serial w (workspace_id r)) target err r"
      let ?tail = "\<lambda>w4. bind_res (if target = Queued then s i w4 else Ret () w4) (\<lambda>_ w5.
        bind_res (if target = Applied \<and> \<not> plan_only r then f (workspace_id r) w5 else Ret () w5) (\<lambda>_ w6.
        Ret () (notify_transition e i ?r target
          (put_ws (workspace_id r) (applied_effects (now w6) target ?r) w6))))"
      obtain u where u: "db u = enter_status i target err (db w)"
        and eq: "transition_body s f e i target err w = ?tail u"
        using transition_body_runs [OF Some True, of err s f e] by blast
      have Some': "runs (db w) i = Some r" using Some by simp
      obtain v where v: "db v = enter_status i target err (db (db w))"
        and eq': "transition_body s f e i target err (db w) = ?tail v"
        using transition_body_runs [OF Some' True, of err s f e] by auto
      have last: "db_only (\<lambda>w6. Ret () (notify_transition e i ?r target
          (put_ws (workspace_id r) (applied_effects (now w6) target ?r) w6)))"
        by (rule db_onlyI) simp
      have mid: "db_only (\<lambda>w5. bind_res (if target = Applied \<and> \<not> plan_only r then f (workspace_id r) w5
          else Ret () w5) (\<lambda>_ w6. Ret () (notify_transition e i ?r target
          (put_ws (workspace_id r) (applied_effects (now w6) target ?r) w6))))"
        by (rule db_only_bindI) (use assms(2) last in \<open>auto simp: db_only_def\<close>)
      have "db_res (if target = Queued then s i u else Ret () u)
          = db_res (if target = Queued then s i v else Ret () v)"
        using u v db_onlyD [OF assms(1), of u v] by simp
      then show ?thesis unfolding eq eq' by (rule db_only_bind) (rule mid)
    qed
  qed
qed

lemma db_only_transition_leaf: "db_only (transition_leaf e i target err)"
  unfolding transition_leaf_def by (rule db_only_transition_body) simp_all

lemma db_only_discard_run: "db_only (discard_run e i reason)"
  by (rule db_onlyI) (auto simp: discard_run_def split: option.split
      intro!: db_onlyD [OF db_only_transition_leaf])

lemma db_only_cancel_run: "db_only (cancel_run e i force reason)"
  by (rule db_onlyI) (auto simp: cancel_run_def Let_def split: option.split
      intro!: db_onlyD [OF db_only_transition_leaf])

lemma db_only_catch:
  assumes "db_res m = db_res m'" and "db_only F" and "db_only G"
  shows "db_res (case m of Ret _ u \<Rightarrow> F u | Raise x u \<Rightarrow> if P x then G u else Raise x u)
    = db_res (case m' of Ret _ u \<Rightarrow> F u | Raise x u \<Rightarrow> if P x then G u else Raise x u)"
  using assms(1) by (cases m; cases m') (auto intro: db_onlyD [OF assms(2)] db_onlyD [OF assms(3)])

lemma db_res_if:
  "b = b' \<Longrightarrow> db_res m = db_res m' \<Longrightarrow> db_res n = db_res n' \<Longrightarrow>
   db_res (if b then m else n) = db_res (if b' then m' else n')"
  by simp

lemma db_only_supersede_loop: "db_only (supersede_loop e i olds n)"
proof (induction olds arbitrary: n)
  case (Cons old olds)
  let ?w1 = "\<lambda>w. put_run old (\<lambda>r. r\<lparr>message := Superseded_By i\<rparr>) w"
  have same: "db_res (if map_option status (runs (?w1 w) old) = Some Planned
       then discard_run e old (Some (Superseded_By i)) (?w1 w)
       else cancel_run e old True (Some (Superseded_By i)) (?w1 w))
    = db_res (if map_option status (runs (?w1 (db w)) old) = Some Planned
       then discard_run e old (Some (Superseded_By i)) (?w1 (db w))
       else cancel_run e old True (Some (Superseded_By i)) (?w1 (db w)))" for w
    by (rule db_res_if [OF _ db_onlyD [OF db_only_discard_run] db_onlyD [OF db_only_cancel_run]])
      (simp_all add: put_run_def db_def)
  show ?case
    unfolding supersede_loop.simps Let_def
    by (rule db_onlyI, rule db_only_catch [OF same Cons.IH Cons.IH])
qed (simp add: db_only_def)

lemma select_runs_db [simp]: "select_runs (db w) p = select_runs w p"
  by (simp add: select_runs_def)

lemma db_only_supersede_call: "db_only (supersede_call e i)"
proof -
  have "db_only (supersede_stale_runs e i)"
    by (rule db_onlyI) (auto simp: supersede_stale_runs_def split: option.split
        intro!: db_onlyD [OF db_only_supersede_loop])
  then show ?thesis unfolding supersede_call_def by (rule db_only_bindI) simp
qed

lemma db_only_queue_run: "db_only (queue_run e i)"
  unfolding queue_run_def transition_queue_def
  by (rule db_only_transition_body) (simp_all add: db_only_supersede_call)

lemma latest_cv_db [simp]: "latest_cv (db w) p = latest_cv w p"
  by (simp add: latest_cv_def)

lemma db_only_create_queue:
  assumes "db_only k"
  shows "db_res (case create_run e ws_id ws rq w of (i, w1) \<Rightarrow> bind_res (queue_run e i w1) (\<lambda>_. k))
    = db_res (case create_run e ws_id ws rq (db w) of (i, w1) \<Rightarrow> bind_res (queue_run e i w1) (\<lambda>_. k))"
  unfolding case_prod_beta create_run_db(1) db_frame
  by (rule db_only_bind [OF db_onlyD [OF db_only_queue_run] assms]) (simp add: create_run_db)

lemma db_only_fire_loop: "db_only (fire_loop e nm dests)"
proof (induction dests)
  case (Cons d dests)
  show ?case
  proof (rule db_onlyI)
    fix w
    have skip: "db_res (fire_loop e nm dests w) = db_res (fire_loop e nm dests (db w))"
      by (rule db_onlyD [OF Cons.IH]) simp
    show "db_res (fire_loop e nm (d # dests) w) = db_res (fire_loop e nm (d # dests) (db w))"
      using skip db_only_create_queue [OF Cons.IH, of e d] by (simp split: option.split)
  qed
qed simp

lemma db_only_fire_run_triggers: "db_only (fire_run_triggers e ws)"
  by (rule db_onlyI)
    (auto simp: fire_run_triggers_def Let_def intro!: db_onlyD [OF db_only_fire_loop])

lemma db_only_transition_run: "db_only (transition_run e i target err)"
  unfolding transition_run_def
  by (rule db_only_transition_body) (simp_all add: db_only_supersede_call db_only_fire_run_triggers)

lemma staleness_reason_db [simp]: "staleness_reason (db w) r ws = staleness_reason w r ws"
proof -
  have "state_moved_since_plan (db w) r = state_moved_since_plan w r"
    by (simp add: state_moved_since_plan_def cong: option.case_cong)
  then show ?thesis by (simp add: staleness_reason_def)
qed

lemma has_newer_live_run_db [simp]: "has_newer_live_run (db w) i r = has_newer_live_run w i r"
  by (simp add: has_newer_live_run_def)

lemma db_only_complete_planned_as_noop: "db_only (complete_planned_as_noop e i)"
proof (rule db_onlyI)
  fix w
  have *: "db_res (transition_run e i Applied (Message []) (put_run i f w))
      = db_res (transition_run e i Applied (Message []) (put_run i f (db w)))" for f
    by (rule db_onlyD [OF db_only_transition_run]) simp
  have **: "db_only (\<lambda>w. Ret () (release_lock ws w))" for ws by (rule db_onlyI) simp
  show "db_res (complete_planned_as_noop e i w) = db_res (complete_planned_as_noop e i (db w))"
    by (auto simp: complete_planned_as_noop_def split: option.split intro!: db_only_bind * **)
qed

lemma db_only_discard_if_superseded: "db_only (discard_if_superseded e i)"
  by (rule db_onlyI) (auto simp: discard_if_superseded_def split: option.split
      intro!: db_onlyD [OF db_only_discard_run])

lemma db_only_auto_apply_plan: "db_only (auto_apply_plan e i)"
  by (rule db_onlyI) (auto simp: auto_apply_plan_def Let_def split: option.split
      intro!: db_only_bind db_onlyD [OF db_only_discard_run] db_onlyD [OF db_only_transition_run]
        db_onlyD [OF db_only_discard_if_superseded] db_only_discard_if_superseded)

lemma db_only_settle_plan: "db_only (settle_plan e i)"
  unfolding settle_plan_def
  by (intro db_only_bindI db_only_transition_run db_onlyI)
    (auto simp: Let_def split: option.split intro!: db_onlyD [OF db_only_complete_planned_as_noop]
      db_onlyD [OF db_only_auto_apply_plan])

lemma db_only_policy_gate: "db_only (policy_gate e i r)"
  by (rule db_onlyI) (auto simp: policy_gate_def case_prod_beta intro!: db_onlyD [OF db_only_settle_plan])

lemma existing_stage_db [simp]: "existing_stage (db w) i name = existing_stage w i name"
  by (simp add: existing_stage_def)

lemma applicable_tasks_db [simp]: "applicable_tasks (db w) ws name = applicable_tasks w ws name"
  by (simp add: applicable_tasks_def)

lemma add_task_results_db:
  "add_task_results e s ts (db w) = (fst (add_task_results e s ts w), db (snd (add_task_results e s ts w)))"
proof (induction ts arbitrary: w)
  case (Cons t ts)
  have next_row: "add_result r (db w) = db (add_result r w)" for r by simp
  show ?case by (simp add: Let_def case_prod_beta next_row Cons.IH del: db_add)
qed simp

lemma db_only_create_task_stage: "db_only (create_task_stage e i ws name)"
proof (rule db_onlyI)
  fix w
  have next_row: "add_stage s (db w) = db (add_stage s w)" for s by simp
  show "db_res (create_task_stage e i ws name w) = db_res (create_task_stage e i ws name (db w))"
    by (simp add: create_task_stage_def Let_def case_prod_beta next_row add_task_results_db
        del: db_add split: option.split)
qed

lemma db_only_complete_plan: "db_only (complete_plan e i changes)"
proof (rule db_onlyI)
  fix w
  have stage: "db_res (create_task_stage e i ws name (put_run i f w))
      = db_res (create_task_stage e i ws name (put_run i f (db w)))" for ws name f
    by (rule db_onlyD [OF db_only_create_task_stage]) simp
  have tail: "db_only (\<lambda>w2. case ts of None \<Rightarrow> policy_gate e i r w2
      | Some s \<Rightarrow> (case resolve_stage s w2 of
           (stage_st, w3) \<Rightarrow>
             if stage_st \<notin> {''passed'', ''overridden''} then
               (if stage_st = ''failed'' then transition_run e i Errored Post_Plan_Stage_Failed w3
                else Ret () w3)
             else policy_gate e i r w3))" for ts r
  proof (rule db_onlyI)
    fix w
    have g: "db_res (policy_gate e i r w) = db_res (policy_gate e i r (db w))"
      "db_res (policy_gate e i r (snd (resolve_stage s w)))
        = db_res (policy_gate e i r (snd (resolve_stage s (db w))))"
      "db_res (transition_run e i Errored Post_Plan_Stage_Failed (snd (resolve_stage s w)))
        = db_res (transition_run e i Errored Post_Plan_Stage_Failed (snd (resolve_stage s (db w))))" for s
      by (rule db_onlyD [OF db_only_policy_gate] db_onlyD [OF db_only_transition_run];
          simp flip: db_put_stage_resolve(1))+
    show "db_res (case ts of None \<Rightarrow> policy_gate e i r w
      | Some s \<Rightarrow> (case resolve_stage s w of
           (stage_st, w3) \<Rightarrow>
             if stage_st \<notin> {''passed'', ''overridden''} then
               (if stage_st = ''failed'' then transition_run e i Errored Post_Plan_Stage_Failed w3
                else Ret () w3)
             else policy_gate e i r w3)) = db_res (case ts of None \<Rightarrow> policy_gate e i r (db w)
      | Some s \<Rightarrow> (case resolve_stage s (db w) of
           (stage_st, w3) \<Rightarrow>
             if stage_st \<notin> {''passed'', ''overridden''} then
               (if stage_st = ''failed'' then transition_run e i Errored Post_Plan_Stage_Failed w3
                else Ret () w3)
             else policy_gate e i r w3))"
      using g by (simp add: case_prod_beta split: option.split)
  qed
  show "db_res (complete_plan e i changes w) = db_res (complete_plan e i changes (db w))"
    by (simp add: complete_plan_def split: option.split) (auto intro!: db_only_bind stage tail)
qed

lemma db_only_check_mergeability: "db_only (check_mergeability_or_block e i r)"
  by (rule db_onlyI) (simp add: check_mergeability_or_block_def block_apply_def Let_def
      split: option.split merge_status.split)

lemma db_only_confirm_run: "db_only (confirm_run e i)"
proof (rule db_onlyI)
  fix w
  have raise: "db_only (\<lambda>w1. Raise x w1)" for x :: exn by (rule db_onlyI) simp
  show "db_res (confirm_run e i w) = db_res (confirm_run e i (db w))"
    by (auto simp: confirm_run_def Let_def split: option.split
        intro!: db_only_bind raise db_only_transition_run
          db_onlyD [OF db_only_discard_run] db_onlyD [OF db_only_check_mergeability])
qed

lemma db_only_resolve_canceling: "db_only (resolve_canceling_run e i st)"
proof (rule db_onlyI)
  fix w
  have tail: "db_only (\<lambda>w1. Ret () (put_ws ws f w1))" for ws f by (rule db_onlyI) simp
  show "db_res (resolve_canceling_run e i st w) = db_res (resolve_canceling_run e i st (db w))"
    by (auto simp: resolve_canceling_run_def state_uploaded_def Let_def split: option.split
        intro!: db_only_bind tail db_onlyD [OF db_only_transition_run])
qed

section \<open>Lawful transitions succeed\<close>

lemma bind_total:
  "\<exists>u. m = Ret () u \<Longrightarrow> (\<And>u. \<exists>v. k () u = Ret () v) \<Longrightarrow> \<exists>v. bind_res m k = Ret () v"
  by (cases m) auto

lemma supersede_call_total: "runs w i = Some r \<Longrightarrow> \<exists>w'. supersede_call e i w = Ret () w'"
  using supersede_call_db [of w i r e] by (auto dest: db_res_eq_RetD)

lemma queue_run_total: "runs w i = Some r \<Longrightarrow> status r = Pending \<Longrightarrow> \<exists>w'. queue_run e i w = Ret () w'"
  using queue_run_db [of w i r e] by (auto dest: db_res_eq_RetD)

lemma create_run_row:
  "runs (snd (create_run e ws_id ws rq w)) = (runs w)(next_id w \<mapsto> new_run e ws_id (settings ws) rq (now w))"
  using create_run_db(2) [of e ws_id ws rq w, THEN arg_cong, of runs] by (simp add: add_run_def)

lemma fire_loop_total: "\<exists>w'. fire_loop e nm dests w = Ret () w'"
proof (induction dests arbitrary: w)
  case (Cons d dests)
  have "\<exists>w'. bind_res (queue_run e (next_id w) (snd (create_run e d x rq w)))
      (\<lambda>_ w2. fire_loop e nm dests w2) = Ret () w'" for x rq
  proof -
    obtain w' where "queue_run e (next_id w) (snd (create_run e d x rq w)) = Ret () w'"
      using queue_run_total [OF create_run_row [THEN fun_cong, of e d x rq w "next_id w", simplified]]
      by (auto simp: new_run_def)
    with Cons show ?thesis by simp
  qed
  with Cons show ?case by (simp add: case_prod_beta create_run_db(1) split: option.split)
qed simp

lemma transition_run_total:
  assumes "runs w i = Some r" and "can_transition (status r) target"
  shows "\<exists>w'. transition_run e i target err w = Ret () w'"
proof -
  obtain w4 where w4: "db w4 = enter_status i target err (db w)"
    and eq: "transition_run e i target err w =
      bind_res (if target = Queued then supersede_call e i w4 else Ret () w4) (\<lambda>_ w5.
      bind_res (if target = Applied \<and> \<not> plan_only r then fire_run_triggers e (workspace_id r) w5
        else Ret () w5) (\<lambda>_ w6.
      Ret () (notify_transition e i
        (transition_fields (now w) (current_state_serial w (workspace_id r)) target err r) target
        (put_ws (workspace_id r)
          (applied_effects (now w6) target
            (transition_fields (now w) (current_state_serial w (workspace_id r)) target err r)) w6))))"
    using transition_body_runs [OF assms, of err "supersede_call e" "fire_run_triggers e" e]
    unfolding transition_run_def by blast
  have "runs w4 i \<noteq> None"
    using w4 [THEN arg_cong, of runs] assms(1) by (simp add: enter_status_def)
  then have "\<exists>w5. (if target = Queued then supersede_call e i w4 else Ret () w4) = Ret () w5"
    using supersede_call_total [of w4 i _ e] by (cases "target = Queued") auto
  moreover have "\<exists>w6. (if b then fire_run_triggers e ws w5 else Ret () w5) = Ret () w6" for b ws w5
    using fire_loop_total [of e] by (cases b) (simp_all add: fire_run_triggers_def Let_def)
  ultimately show ?thesis unfolding eq by (intro bind_total) simp_all
qed

end
