(* ===== verification/PlanOutcome.thy ===== *)
theory PlanOutcome
  imports RunProperties Resilience
begin

text \<open>
  What happens to a run when its plan is complete, as an abstract verdict: apply without changes,
  apply automatically, drop, or wait for a confirmation. \<open>settle_plan\<close> (the part of
  \<open>complete_plan\<close> behind the gates) implements the verdict; \<open>complete_plan\<close> reaches it only when the
  post-plan stage and the policies let it.
\<close>

section \<open>The verdict\<close>

datatype plan_verdict = Await | Auto_Apply | Noop_Apply | Drop "remark option"

definition superseded_verdict :: "world \<Rightarrow> nat \<Rightarrow> run \<Rightarrow> plan_verdict" where
  "superseded_verdict w i r =
     (if is_supersedeable_kind r \<and> has_newer_live_run w i r then Drop None else Await)"

definition plan_verdict :: "world \<Rightarrow> nat \<Rightarrow> run \<Rightarrow> plan_verdict" where
  "plan_verdict w i r =
     (if plan_only r then Await
      else if has_changes r = Some False then Noop_Apply
      else if rc_auto_apply (config r) then
        (case staleness_reason w r (workspaces w (workspace_id r)) of
           Some reason \<Rightarrow> Drop (Some reason)
         | None \<Rightarrow> if ws_is_locked w (workspace_id r) then superseded_verdict w i r else Auto_Apply)
      else superseded_verdict w i r)"

text \<open>The run as it is planned, and what a verdict does to the database.\<close>

definition planned_run :: "world \<Rightarrow> run \<Rightarrow> run" where
  "planned_run w r =
     transition_fields (now w) (current_state_serial w (workspace_id r)) Planned (Message []) r"

definition carry_out :: "env \<Rightarrow> nat \<Rightarrow> run \<Rightarrow> plan_verdict \<Rightarrow> unit handler" where
  "carry_out e i r v w =
     (case v of
        Await \<Rightarrow> Ret () (if plan_only r then release_lock (workspace_id r) w else w)
      | Auto_Apply \<Rightarrow> Ret () (put_run i (set_status Confirmed) w)
      | Noop_Apply \<Rightarrow> complete_planned_as_noop e i w
      | Drop reason \<Rightarrow> Ret () (put_run i (\<lambda>r. set_status Discarded (record_reason reason r))
          (release_lock (workspace_id r) w)))"

lemma discard_if_superseded_db:
  assumes "runs w i = Some r" and "status r = Planned"
  shows "db_res (discard_if_superseded e i w) =
    (if is_supersedeable_kind r \<and> has_newer_live_run w i r
     then Ret () (put_run i (\<lambda>r. set_status Discarded (record_reason None r))
       (release_lock (workspace_id r) (db w)))
     else Ret () (db w))"
  using discard_run_db [OF assms, of e None] assms by (simp add: discard_if_superseded_def)

lemma auto_apply_plan_db:
  assumes "runs w i = Some r" and "status r = Planned" and "\<not> plan_only r" and "has_changes r \<noteq> Some False"
  shows "db_res (auto_apply_plan e i w) = carry_out e i r (plan_verdict w i r) (db w)"
proof -
  let ?ws = "workspaces w (workspace_id r)"
  have super: "db_res (discard_if_superseded e i w) = carry_out e i r (superseded_verdict w i r) (db w)"
    using discard_if_superseded_db [OF assms(1,2), of e] assms(3)
    by (simp add: carry_out_def superseded_verdict_def)
  have open_ws: "(?ws = None \<or> \<not> locked (the ?ws)) \<longleftrightarrow> \<not> ws_is_locked w (workspace_id r)"
    by (cases ?ws) (simp_all add: ws_is_locked_def)
  show ?thesis
  proof (cases "rc_auto_apply (config r)")
    case False
    with super assms show ?thesis by (simp add: auto_apply_plan_def plan_verdict_def)
  next
    case auto: True
    show ?thesis
    proof (cases "staleness_reason w r ?ws")
      case (Some reason)
      with auto assms discard_run_db [OF assms(1,2), of e "Some reason"] show ?thesis
        by (simp add: auto_apply_plan_def plan_verdict_def carry_out_def)
    next
      case fresh: None
      show ?thesis
      proof (cases "ws_is_locked w (workspace_id r)")
        case True
        then obtain x where "?ws = Some x" "locked x" by (auto simp: ws_is_locked_def split: option.splits)
        with True fresh auto super assms show ?thesis
          by (simp add: auto_apply_plan_def plan_verdict_def Let_def)
      next
        case False
        obtain w' where w': "transition_run e i Confirmed (Message []) w = Ret () w'"
          "db w' = put_run i (set_status Confirmed) (db w)"
          using transition_leaf_cases [OF assms(1), of Confirmed e "Message []"] assms(2)
          by (auto simp: transition_leaf_eq enter_status_plain)
        have "runs w' i = Some (set_status Confirmed r)"
          using w'(2) [THEN arg_cong, of runs] assms(1) by simp
        then have "discard_if_superseded e i w' = Ret () w'" by (simp add: discard_if_superseded_def)
        with False fresh auto assms w' open_ws show ?thesis
          by (simp add: auto_apply_plan_def plan_verdict_def carry_out_def Let_def)
      qed
    qed
  qed
qed

lemma planned_run_simps [simp]:
  "status (planned_run w r) = Planned" "config (planned_run w r) = config r"
  "has_changes (planned_run w r) = has_changes r" "listener_id (planned_run w r) = listener_id r"
  "plan_state_serial (planned_run w r) = plan_state_serial r"
  by (simp_all add: planned_run_def transition_fields_def Let_def)

lemma enter_planned:
  "runs w i = Some r \<Longrightarrow> enter_status i Planned (Message []) w = put_run i (\<lambda>_. planned_run w r) w"
  by (simp add: enter_status_def planned_run_def put_run_def modify_def)

lemma carry_out_db: "db_res (carry_out e i r v w) = db_res (carry_out e i r v (db w))"
proof (cases v)
  case Noop_Apply
  have "db_res (complete_planned_as_noop e i w) = db_res (complete_planned_as_noop e i (db w))"
    by (rule db_onlyD [OF db_only_complete_planned_as_noop]) simp
  with Noop_Apply show ?thesis by (simp add: carry_out_def)
qed (simp_all add: carry_out_def)

lemma plan_verdict_db [simp]: "plan_verdict (db w) i r = plan_verdict w i r"
  by (simp add: plan_verdict_def superseded_verdict_def ws_is_locked_def cong: option.case_cong)

lemma db_res_db_res [simp]: "db_res (db_res m) = db_res m"
  by (cases m) simp_all

text \<open>The part of completion behind the gates implements the verdict.\<close>

lemma settle_plan_db:
  assumes "runs w i = Some r" and "status r = Planning"
  defines "w1 \<equiv> put_run i (\<lambda>_. planned_run w r) (db w)"
  shows "db_res (settle_plan e i w)
    = db_res (carry_out e i (planned_run w r) (plan_verdict w1 i (planned_run w r)) w1)"
proof -
  let ?r = "planned_run w r"
  have can: "can_transition (status r) Planned" using assms(2) by simp
  obtain u where u: "transition_run e i Planned (Message []) w = Ret () u"
    and db_u: "db u = enter_status i Planned (Message []) (db w)"
    using transition_leaf_cases [OF assms(1) can, of e "Message []"] by (auto simp: transition_leaf_eq)
  have w1: "db u = w1"
    using enter_planned [of "db w" i r] assms(1) by (simp add: db_u w1_def planned_run_def)
  have row: "runs u i = Some ?r" using w1 [THEN arg_cong, of runs] assms(1) by (simp add: w1_def)
  have verdict: "plan_verdict w1 i ?r = plan_verdict u i ?r" using w1 plan_verdict_db [of u] by simp
  have carry: "db_res (carry_out e i ?r v w1) = db_res (carry_out e i ?r v u)" for v
    using carry_out_db [of e i ?r v u] w1 by simp
  show ?thesis
  proof (cases "plan_only r")
    case True
    have "runs (release_lock (workspace_id r) u) i = Some ?r" using row by simp
    then have "auto_apply_plan e i (release_lock (workspace_id r) u)
        = Ret () (release_lock (workspace_id r) u)"
      using True by (simp add: auto_apply_plan_def discard_if_superseded_def is_supersedeable_kind_def)
    with True row u show ?thesis
      unfolding verdict carry by (simp add: settle_plan_def plan_verdict_def carry_out_def Let_def)
  next
    case False
    show ?thesis
    proof (cases "has_changes r = Some False")
      case True
      with False row u show ?thesis
        unfolding verdict carry by (simp add: settle_plan_def plan_verdict_def carry_out_def Let_def)
    next
      case changes: False
      have "db_res (auto_apply_plan e i u) = carry_out e i ?r (plan_verdict u i ?r) (db u)"
        by (rule auto_apply_plan_db [OF row]) (use False changes in simp_all)
      then have "db_res (auto_apply_plan e i u) = db_res (carry_out e i ?r (plan_verdict u i ?r) u)"
        by (metis db_res_db_res carry_out_db)
      with False changes row u show ?thesis
        unfolding verdict carry by (simp add: settle_plan_def Let_def)
    qed
  qed
qed


section \<open>Completing a plan\<close>

text \<open>
  C8: the decision behind the gates, as one table. A plan-only run waits and its workspace is
  unlocked; a plan without changes is applied at once; an automatic apply is dropped when the state
  moved or the plan expired, waits while the workspace is locked and is confirmed otherwise; a run
  that waits is dropped when a newer live run replaced it. Redis has no part in it.
\<close>

theorem settle_plan_implements_verdict:
  assumes "runs w i = Some r" and "status r = Planning"
  shows "db_res (settle_plan e i w)
    = db_res (carry_out e i (planned_run w r)
        (plan_verdict (put_run i (\<lambda>_. planned_run w r) (db w)) i (planned_run w r))
        (put_run i (\<lambda>_. planned_run w r) (db w)))"
  by (rule settle_plan_db [OF assms])

lemma stage_frames:
  assumes "create_task_stage e i ws name v = Ret ts v2"
  shows "runs v2 = runs v" "workspaces v2 = workspaces v"
  using assms by (auto simp: create_task_stage_def Let_def add_stage_def case_prod_beta
      split: option.splits if_splits)

lemma reached_terminal:
  assumes "runs w i = Some r" and "can_transition (status r) target" and "target \<in> set terminal_states"
    and "bounded w" and "transition_run e i target err w = Ret () w'"
  shows "map_option status (runs w' i) = Some target"
proof -
  have "bounded (enter_status i target err w)"
    using assms(1,4) by (auto simp: bounded_def enter_status_def run_rows.fetch_put)
  moreover obtain r1 where r1: "runs (enter_status i target err w) i = Some r1" "status r1 = target"
    using assms(1) by (simp add: enter_status_def)
  moreover have "quiet (enter_status i target err w) w'"
    using quiet_after_transition [OF assms(1,2), of err e] assms(5) by simp
  ultimately obtain r' where "runs w' i = Some r'" "quiet_row r1 r'" using quiet.row by metis
  then show ?thesis
    using terminal_stays [of "status r1" "status r'"] assms(3) r1(2) by (simp add: quiet_row_def row_step_def)
qed

lemma noop_status:
  assumes "complete_planned_as_noop e i w = Ret () w'" and "runs w i = Some r" and "status r = Planned"
    and "bounded w"
  shows "map_option status (runs w' i) = Some Applied"
proof -
  let ?v = "put_run i (\<lambda>r. r\<lparr>apply_started_at := Some (now w)\<rparr>) w"
  from assms(1,2) obtain u where u: "transition_run e i Applied (Message []) ?v = Ret () u"
    and w': "runs w' = runs u"
    by (auto simp: complete_planned_as_noop_def res_simps)
  have "bounded ?v" using assms(4) by (simp add: bounded_def run_rows.fetch_put)
  moreover have "runs ?v i = Some (r\<lparr>apply_started_at := Some (now w)\<rparr>)" using assms(2) by simp
  ultimately show ?thesis using reached_terminal [OF _ _ _ _ u] assms(3) w' by (simp add: terminal_states_def)
qed

text \<open>Settling confirms a run only by the automatic apply.\<close>

lemma settle_plan_confirmed:
  assumes "settle_plan e i w = Ret () w'" and "runs w i = Some r" and "status r = Planning"
    and "bounded w" and "map_option status (runs w' i) = Some Confirmed"
  defines "p \<equiv> planned_run w r"
  shows "plan_verdict (put_run i (\<lambda>_. p) w) i p = Auto_Apply"
    and "db w' = put_run i (\<lambda>_. set_status Confirmed p) (db w)"
proof -
  let ?w1 = "put_run i (\<lambda>_. p) (db w)"
  have row: "runs ?w1 i = Some p" using assms(2) by simp
  have eq: "Ret () (db w') = db_res (carry_out e i p (plan_verdict ?w1 i p) ?w1)"
    using settle_plan_db [OF assms(2,3), of e] assms(1) by (simp add: p_def)
  have st: "status p = Planned" by (simp add: p_def)
  have auto: "plan_verdict ?w1 i p = Auto_Apply"
  proof (cases "plan_verdict ?w1 i p")
    case Await
    then have "db w' = db (if plan_only p then release_lock (workspace_id p) ?w1 else ?w1)"
      using eq by (simp add: carry_out_def)
    from db_eq_frame(1) [OF this] have "runs w' = runs ?w1" by (simp split: if_splits)
    with row st assms(5) show ?thesis by simp
  next
    case Noop_Apply
    then obtain u where u: "complete_planned_as_noop e i ?w1 = Ret () u" "db u = db w'"
      using eq by (cases "complete_planned_as_noop e i ?w1") (auto simp: carry_out_def)
    have "bounded ?w1" using assms(4) by (simp add: bounded_def run_rows.fetch_put)
    then have "map_option status (runs u i) = Some Applied" using noop_status [OF u(1) row st] by simp
    with assms(5) show ?thesis using db_eq_frame(1) [OF u(2)] by auto
  next
    case (Drop reason)
    then have "db w' = db (put_run i (\<lambda>r. set_status Discarded (record_reason reason r))
        (release_lock (workspace_id p) ?w1))"
      using eq by (simp add: carry_out_def)
    from db_eq_frame(1) [OF this] row have "runs w' i = Some (set_status Discarded (record_reason reason p))"
      by simp
    with assms(5) show ?thesis by simp
  qed
  have "put_run i (\<lambda>_. p) (db w) = db (put_run i (\<lambda>_. p) w)" by simp
  with auto show "plan_verdict (put_run i (\<lambda>_. p) w) i p = Auto_Apply"
    by (metis plan_verdict_db)
  show "db w' = put_run i (\<lambda>_. set_status Confirmed p) (db w)"
    using eq auto by (simp add: carry_out_def put_run_put_run)
qed


lemma staleness_reason_cong:
  assumes "state_versions w = state_versions v" "next_id w = next_id v" "now w = now v"
    and "config r = config s" "plan_state_serial r = plan_state_serial s" "plan_finished_at r = plan_finished_at s"
  shows "staleness_reason w r ws = staleness_reason v s ws"
proof -
  have "state_moved_since_plan w r = state_moved_since_plan v s"
    using assms by (simp add: state_moved_since_plan_def current_state_serial_def state_serials_def
        cong: option.case_cong)
  then show ?thesis
    using assms by (simp add: staleness_reason_def plan_expired_def is_supersedeable_kind_def
        cong: option.case_cong)
qed

text \<open>What completing a plan went through when the run ends up confirmed.\<close>

lemma policy_gate_confirmed:
  assumes "policy_gate e i r w = Ret () w'" and "runs w i = Some x" and "status x = Planning"
    and "map_option status (runs w' i) = Some Confirmed"
  obtains v where "evaluate_post_plan i r w = (''passed'', v)" and "settle_plan e i v = Ret () w'"
proof (cases "evaluate_post_plan i r w")
  case (Pair gate v)
  then have "runs v = runs w" using evaluate_post_plan_frame(1) [of i r w] by simp
  with Pair assms show ?thesis
    by (cases "gate = ''passed''") (auto simp: policy_gate_def intro: that)
qed

lemma stage_gate_confirmed:
  assumes gate: "(case ts of None \<Rightarrow> policy_gate e i r v
      | Some s \<Rightarrow> (case resolve_stage s v of (stage_st, w3) \<Rightarrow>
          if stage_st \<notin> {''passed'', ''overridden''} then
            (if stage_st = ''failed'' then transition_run e i Errored Post_Plan_Stage_Failed w3 else Ret () w3)
          else policy_gate e i r w3)) = Ret () w'"
    and row: "runs v i = Some x" "status x = Planning" and "bounded v"
    and conf: "map_option status (runs w' i) = Some Confirmed"
  obtains u where "policy_gate e i r u = Ret () w'" and "runs u = runs v" and "workspaces u = workspaces v"
    and "next_id u = next_id v"
    and "case ts of None \<Rightarrow> True | Some s \<Rightarrow> fst (resolve_stage s v) \<in> {''passed'', ''overridden''}"
proof (cases ts)
  case None
  with gate that show ?thesis by simp
next
  case (Some s)
  obtain st u where res: "resolve_stage s v = (st, u)" by (cases "resolve_stage s v")
  then have u: "runs u = runs v" "workspaces u = workspaces v" "next_id u = next_id v"
    using resolve_stage_frame [of s v] by simp_all
  consider "st \<in> {''passed'', ''overridden''}" | "st = ''failed''"
    | "st \<notin> {''passed'', ''overridden'', ''failed''}" by blast
  then show ?thesis
  proof cases
    case 1
    with gate Some res u that show ?thesis by auto
  next
    case 2
    then have tr: "transition_run e i Errored Post_Plan_Stage_Failed u = Ret () w'"
      using gate Some res by simp
    have "map_option status (runs w' i) = Some Errored"
      using reached_terminal [OF _ _ _ _ tr] row u assms(4)
      by (simp add: terminal_states_def bounded_def status_order)
    with conf show ?thesis by simp
  next
    case 3
    with gate Some res u row conf show ?thesis by auto
  qed
qed

text \<open>
  C9: no plan is applied without a person unless every guard let it. When completing a plan
  confirms the run, it was set to apply automatically, it can apply and has changes, its workspace
  is not locked, neither did the state move nor the plan expire, the post-plan stage passed or was
  overridden, and no mandatory policy in scope is failing.
\<close>

theorem auto_apply_guarded:
  assumes "complete_plan e i changes w = Ret () w'" and "runs w i = Some r" and "status r = Planning"
    and "runs w' i = Some r'" and "status r' = Confirmed"
    and "bounded w" and "workspaces w (workspace_id r) = Some ws"
  shows "rc_auto_apply (config r) \<and> \<not> plan_only r \<and> has_changes r' \<noteq> Some False
    \<and> \<not> ws_is_locked w' (workspace_id r)
    \<and> staleness_reason w' r' (workspaces w' (workspace_id r)) = None
    \<and> (\<exists>ts v. create_task_stage e i (workspace_id r) ''post_plan''
          (put_run i (plan_outcome (now w) changes) w) = Ret ts v
        \<and> (case ts of None \<Rightarrow> True | Some s \<Rightarrow> fst (resolve_stage s v) \<in> {''passed'', ''overridden''}))
    \<and> \<not> (run_is_policy_blocked w' i \<and> applicable_policy_sets w' ws \<noteq> [])"
proof -
  let ?r1 = "plan_outcome (now w) changes r"
  let ?w1 = "put_run i (plan_outcome (now w) changes) w"
  obtain ts v where stage: "create_task_stage e i (workspace_id r) ''post_plan'' ?w1 = Ret ts v"
    and gate: "(case ts of None \<Rightarrow> policy_gate e i r v
      | Some s \<Rightarrow> (case resolve_stage s v of (stage_st, w3) \<Rightarrow>
          if stage_st \<notin> {''passed'', ''overridden''} then
            (if stage_st = ''failed'' then transition_run e i Errored Post_Plan_Stage_Failed w3 else Ret () w3)
          else policy_gate e i r w3)) = Ret () w'"
    using assms(1,2,3) by (auto simp: complete_plan_def res_simps)
  have st1: "status ?r1 = Planning" "config ?r1 = config r"
    using assms(3) by (simp_all add: plan_outcome_def Let_def)
  have v: "runs v i = Some ?r1" "workspaces v = workspaces w" and bv: "bounded v"
    using stage_frames [OF stage] create_task_stage_frame [where e = e and i = i and ws = "workspace_id r" and stage = "''post_plan''" and w = ?w1]
      stage assms(2,6) by (auto simp: bounded_def run_rows.fetch_put intro: less_le_trans)
  have conf: "map_option status (runs w' i) = Some Confirmed" using assms(4,5) by simp
  obtain u where pol: "policy_gate e i r u = Ret () w'" and u: "runs u = runs v"
    "workspaces u = workspaces v" "next_id u = next_id v"
    and stage_ok: "case ts of None \<Rightarrow> True | Some s \<Rightarrow> fst (resolve_stage s v) \<in> {''passed'', ''overridden''}"
    using stage_gate_confirmed [OF gate v(1) st1(1) bv conf] .
  have row_u: "runs u i = Some ?r1" using u v by simp
  obtain x where eval: "evaluate_post_plan i r u = (''passed'', x)" and settle: "settle_plan e i x = Ret () w'"
    using policy_gate_confirmed [OF pol row_u st1(1) conf] .
  have x: "runs x i = Some ?r1" "workspaces x = workspaces w" "bounded x"
    using evaluate_post_plan_frame [of i r u] evaluate_post_plan_next [of u i r] eval u v bv
    by (auto simp: bounded_def intro: less_le_trans)
  let ?p = "planned_run x ?r1"
  note settled = settle_plan_confirmed [OF settle x(1) st1(1) x(3) conf]
  note same = db_eq_frame [of w' "put_run i (\<lambda>_. set_status Confirmed ?p) x", simplified, OF settled(2)]
  have r': "r' = set_status Confirmed ?p" using same(1) x(1) assms(4) by simp
  have verdict: "\<not> plan_only r" "has_changes ?p \<noteq> Some False" "rc_auto_apply (config r)"
    "staleness_reason (put_run i (\<lambda>_. ?p) x) ?p (workspaces x (workspace_id r)) = None"
    "\<not> ws_is_locked x (workspace_id r)"
    using settled(1) st1(2)
    by (auto simp: plan_verdict_def superseded_verdict_def ws_is_locked_def split: if_splits option.splits)
  have "staleness_reason w' r' (workspaces w' (workspace_id r)) = None"
    using verdict(4) staleness_reason_cong [of w' "put_run i (\<lambda>_. ?p) x" r' ?p] same r' by simp
  moreover have "\<not> ws_is_locked w' (workspace_id r)" using verdict(5) same by (simp add: ws_is_locked_def)
  moreover have "\<not> (run_is_policy_blocked w' i \<and> applicable_policy_sets w' ws \<noteq> [])"
  proof -
    have "applicable_policy_sets w' ws = applicable_policy_sets x ws"
      "run_is_policy_blocked w' i = run_is_policy_blocked x i"
      using same by (simp_all add: applicable_policy_sets_def run_is_policy_blocked_def)
    moreover have "applicable_policy_sets x ws = [] \<or> \<not> run_is_policy_blocked x i"
      using eval verdict(1) assms(7) u v by (auto simp: evaluate_post_plan_def Let_def split: if_splits)
    ultimately show ?thesis by auto
  qed
  ultimately show ?thesis using verdict r' stage stage_ok by auto
qed

text \<open>A run that applies automatically, claimed and planning.\<close>

definition auto_example :: world where
  "auto_example = claim_step (res_state (create_endpoint example_env [] admin_user 0
     ((example_attrs False)\<lparr>at_auto_apply := Some True\<rparr>) No_Cv no_vcs uploaded_example))"

lemma auto_example_invariant: "run_invariant auto_example"
  unfolding auto_example_def
  by (rule reachable_invariant [OF example_steps(2) uploaded_invariant])
    (blast intro: run_step.create)

lemma auto_example_row:
  obtains r where "runs auto_example 2 = Some r" "status r = Planning" "workspace_id r = 0" "plan_started_at r = Some 0"
    "plan_finished_at r = None" "rc_auto_apply (config r)" "\<not> plan_only r"
proof -
  have "map_option (\<lambda>r. (status r, workspace_id r, plan_started_at r, plan_finished_at r,
      rc_auto_apply (config r), plan_only r)) (runs auto_example 2)
    = Some (Planning, 0, Some 0, None, True, False)"
    by code_simp
  then show ?thesis by (auto intro: that)
qed

theorem auto_apply_guarded_witness:
  "\<exists>w' r'. complete_plan example_env 2 (Some True) auto_example = Ret () w' \<and> runs w' 2 = Some r'
     \<and> status r' = Confirmed \<and> \<not> ws_is_locked w' 0
     \<and> staleness_reason w' r' (workspaces w' 0) = None"
proof -
  let ?m = "complete_plan example_env 2 (Some True) auto_example"
  have val: "(case ?m of Ret _ w' \<Rightarrow> map_option status (runs w' 2) | Raise _ _ \<Rightarrow> None) = Some Confirmed"
    by code_simp
  then obtain w' r' where m: "?m = Ret () w'" "runs w' 2 = Some r'" "status r' = Confirmed"
    by (cases ?m) auto
  obtain r where r: "runs auto_example 2 = Some r" "status r = Planning" "workspace_id r = 0"
    by (rule auto_example_row)
  have "map_option (\<lambda>_. ()) (workspaces auto_example 0) = Some ()" by code_simp
  then obtain ws where "workspaces auto_example (workspace_id r) = Some ws" using r(3) by auto
  from auto_apply_guarded [OF m(1) r(1,2) m(2,3) _ this] m r(3) auto_example_invariant
  show ?thesis by (auto simp: run_invariant_def)
qed

theorem settle_plan_implements_verdict_witness:
  "\<exists>r. runs auto_example 2 = Some r \<and> db_res (settle_plan example_env 2 auto_example)
    = db_res (carry_out example_env 2 (planned_run auto_example r)
        (plan_verdict (put_run 2 (\<lambda>_. planned_run auto_example r) (db auto_example)) 2
          (planned_run auto_example r))
        (put_run 2 (\<lambda>_. planned_run auto_example r) (db auto_example)))"
proof -
  obtain r where r: "runs auto_example 2 = Some r" "status r = Planning" by (rule auto_example_row)
  from settle_plan_implements_verdict [OF r, of example_env] r(1) show ?thesis by blast
qed

end
