(* ===== verification/RunContracts.thy ===== *)
theory RunContracts
  imports PlanOutcome
begin

text \<open>
  The contracts of the user's actions and of the background tasks on runs: confirming, cancelling,
  superseding, the sweep of stale plans, resolving a canceled apply, retrying, the capability gates
  of the endpoints and the reconciler's timeouts. They state the exact effect on the database.
\<close>

section \<open>Transitions and Redis\<close>

text \<open>
  The outcome of a transition and the database it leaves are the same whatever Redis holds and
  whichever of its commands fail, and a transition succeeds exactly when the table allows it.
\<close>

theorem transition_ignores_redis:
  assumes "runs w i = Some r"
  shows "db_res (transition_run e i target err w) = db_res (transition_run e i target err (w\<lparr>store := s\<rparr>))
    \<and> ((\<exists>w'. transition_run e i target err w = Ret () w') \<longleftrightarrow> can_transition (status r) target)"
proof -
  have "db_res (transition_run e i target err w) = db_res (transition_run e i target err (w\<lparr>store := s\<rparr>))"
    by (rule db_onlyD [OF db_only_transition_run]) simp
  moreover have "\<not> can_transition (status r) target \<Longrightarrow>
      transition_run e i target err w = Raise (Invalid_Transition (status r) (Some target)) w"
    unfolding transition_run_def by (rule transition_body_refused [OF assms])
  ultimately show ?thesis
    using transition_run_total [OF assms, of target e err] by (cases "can_transition (status r) target") auto
qed

theorem transition_ignores_redis_witness:
  "\<exists>w'. transition_run example_env 2 Errored (Message ''x'')
     (auto_example\<lparr>store := (store auto_example)\<lparr>faults := (\<lambda>_. True)\<rparr>\<rparr>) = Ret () w'"
proof -
  obtain r where r: "runs auto_example 2 = Some r" "status r = Planning" by (rule auto_example_row)
  then have "runs (auto_example\<lparr>store := (store auto_example)\<lparr>faults := (\<lambda>_. True)\<rparr>\<rparr>) 2 = Some r" by simp
  from transition_ignores_redis [OF this] r(2) show ?thesis by (simp add: status_order)
qed

section \<open>Confirming\<close>

lemma ws_is_locked_iff:
  "ws_is_locked w ws \<longleftrightarrow> workspaces w ws \<noteq> None \<and> locked (the (workspaces w ws))"
  by (simp add: ws_is_locked_def split: option.splits)

text \<open>The pull request of a run may be applied: the mode does not ask, or the provider agrees.\<close>

definition merge_allowed :: "env \<Rightarrow> run \<Rightarrow> world \<Rightarrow> bool" where
  "merge_allowed e r w \<longleftrightarrow>
     (\<forall>pr ws c conn. pr_number r = Some pr \<longrightarrow> workspaces w (workspace_id r) = Some ws
        \<longrightarrow> ws_vcs_workflow (settings ws) = ''apply_then_merge''
        \<longrightarrow> ws_vcs_connection (settings ws) = Some c \<longrightarrow> ws_vcs_repo_url (settings ws) \<noteq> []
        \<longrightarrow> vcs_connections w c = Some conn \<longrightarrow> vc_provider conn \<in> {''github'', ''gitlab''}
        \<longrightarrow> repo_parses e (vc_provider conn) (ws_vcs_repo_url (settings ws))
        \<longrightarrow> (\<exists>reason st. mergeability e (vc_provider conn) (ws_vcs_repo_url (settings ws)) pr
              = Merge_Status False True reason st))"

lemma check_mergeability_Ret:
  assumes "check_mergeability_or_block e i r w = Ret () v"
  shows "merge_allowed e r w" and "v = w \<or> v = put_run i (\<lambda>r. r\<lparr>vcs_apply_blocked_reason := None\<rparr>) w"
proof -
  show "v = w \<or> v = put_run i (\<lambda>r. r\<lparr>vcs_apply_blocked_reason := None\<rparr>) w"
    using assms by (auto simp: check_mergeability_or_block_def block_apply_def Let_def
        split: option.splits if_splits merge_status.splits)
  show "merge_allowed e r w"
    using assms unfolding merge_allowed_def
    by (auto simp: check_mergeability_or_block_def block_apply_def Let_def
        split: option.splits if_splits merge_status.splits)
qed


definition planned_example :: world where
  "planned_example = res_state (complete_plan example_env 2 (Some True)
     (claim_step (create_step False uploaded_example)))"


text \<open>
  Confirming a stale plan never applies it. The answer is 409, and although the request failed
  the discard is committed: the run is \<open>discarded\<close> with the reason, nothing else changes.
\<close>

theorem stale_confirm_discards:
  assumes "runs w i = Some r" and "status r = Planned" and "\<not> ws_is_locked w (workspace_id r)"
    and "staleness_reason w r (workspaces w (workspace_id r)) = Some reason"
  shows "\<exists>w'. confirm_answer w (confirm_run e i w) = Raise (Http 409) w'
    \<and> runs w' = (runs w)(i \<mapsto> set_status Discarded (record_reason (Some reason) r))
    \<and> workspaces w' = workspaces w"
proof -
  obtain u where u: "discard_run e i (Some reason) w = Ret () u"
    and db: "db u = put_run i (\<lambda>r. set_status Discarded (record_reason (Some reason) r))
      (release_lock (workspace_id r) (db w))"
    using discard_run_db [OF assms(1,2), of e "Some reason"] by (auto dest: db_res_eq_RetD)
  have "confirm_run e i w = Raise (Stale_Plan reason) u"
    using assms u by (auto simp: confirm_run_def Let_def ws_is_locked_iff)
  moreover have "runs u = (runs w)(i \<mapsto> set_status Discarded (record_reason (Some reason) r))"
    using db [THEN arg_cong, of runs] assms(1) by (auto simp: put_run_def modify_def)
  moreover have "workspaces u = workspaces w"
  proof -
    have "workspaces u = workspaces (release_lock (workspace_id r) (db w))"
      using db [THEN arg_cong, of workspaces] by simp
    also have "\<dots> = workspaces w"
      using assms(3) by (auto simp: release_lock_def put_ws_def modify_def unlock_def ws_is_locked_def
          split: option.splits intro!: ext)
    finally show ?thesis .
  qed
  ultimately show ?thesis by simp
qed

text \<open>The same plan after another run moved the state on.\<close>

definition stale_example :: world where
  "stale_example = add_state_version \<lparr>sv_workspace = 0, sv_serial = 5, sv_lineage = [], sv_md5 = [],
       sv_sha256 = [], sv_size = 0, sv_run = None, sv_created_by = None, sv_created_at = 0\<rparr>
     (put_run 2 (\<lambda>r. r\<lparr>plan_state_serial := Some 4\<rparr>) planned_example)"

theorem stale_confirm_discards_witness:
  "\<exists>w' r. confirm_answer stale_example (confirm_run example_env 2 stale_example) = Raise (Http 409) w'
     \<and> runs w' 2 = Some r \<and> status r = Discarded"
proof -
  have "map_option (\<lambda>r. (status r, ws_is_locked stale_example (workspace_id r),
      staleness_reason stale_example r (workspaces stale_example (workspace_id r)))) (runs stale_example 2)
    = Some (Planned, False, Some (State_Changed 4 5))"
    by code_simp
  then obtain r where "runs stale_example 2 = Some r" "status r = Planned"
    "\<not> ws_is_locked stale_example (workspace_id r)"
    "staleness_reason stale_example r (workspaces stale_example (workspace_id r)) = Some (State_Changed 4 5)"
    by auto
  from stale_confirm_discards [OF this, of example_env] show ?thesis by (metis fun_upd_same set_status_simps(1))
qed

section \<open>Cancelling and superseding\<close>

text \<open>
  Cancelling, case by case. A finished run, and without \<open>force\<close> a run that waits for a
  confirmation or is already canceling, is refused and unchanged. An applying run becomes
  \<open>canceling\<close> and keeps its workspace locked; any other becomes \<open>canceled\<close> and its workspace is
  unlocked. Redis plays no part in it.
\<close>

theorem cancel_run_exact:
  assumes "runs w i = Some r"
  shows "db_res (cancel_run e i force reason w) =
    (if status r \<in> {Applied, Errored, Discarded, Canceled} \<or> \<not> force \<and> status r \<in> {Planned, Canceling}
     then Raise (Not_Cancelable (status r)) (db w)
     else if status r = Applying
     then Ret () (put_run i (\<lambda>r. set_status Canceling (record_reason reason r)) (db w))
     else Ret () (put_run i (\<lambda>r. set_status Canceled (record_reason reason r))
            (release_lock (workspace_id r) (db w))))"
proof -
  have sets: "status r \<in> set terminal_states \<longleftrightarrow> status r \<in> {Applied, Errored, Discarded, Canceled}"
    "status r \<notin> set terminal_states \<Longrightarrow> status r \<notin> set cancelable_states \<longleftrightarrow> status r \<in> {Planned, Canceling}"
    by (cases "status r"; simp add: terminal_states_def cancelable_states_def)+
  show ?thesis
  proof (cases "status r \<in> set terminal_states \<or> \<not> force \<and> status r \<notin> set cancelable_states")
    case True
    with assms sets show ?thesis by (auto simp: cancel_run_def)
  next
    case False
    then have "force \<or> status r \<in> set cancelable_states" by simp
    with False sets cancel_run_db [OF assms, of force e reason] show ?thesis by auto
  qed
qed

theorem cancel_run_exact_witness:
  "\<exists>w'. cancel_run example_env 2 False None auto_example = Ret () w'
     \<and> map_option status (runs w' 2) = Some Canceled"
proof -
  obtain r where r: "runs auto_example 2 = Some r" "status r = Planning" by (rule auto_example_row)
  have "db_res (cancel_run example_env 2 False None auto_example)
      = Ret () (put_run 2 (\<lambda>r. set_status Canceled (record_reason None r))
          (release_lock (workspace_id r) (db auto_example)))"
    using cancel_run_exact [OF r(1), of example_env False None] r(2) by simp
  then obtain w' where "cancel_run example_env 2 False None auto_example = Ret () w'"
    and "db w' = put_run 2 (\<lambda>r. set_status Canceled (record_reason None r))
          (release_lock (workspace_id r) (db auto_example))" by (auto dest: db_res_eq_RetD)
  moreover from this(2) have "runs w' 2 = Some (set_status Canceled (record_reason None r))"
    using r(1) by (auto dest: arg_cong [where f = runs])
  ultimately show ?thesis by simp
qed

text \<open>
  Queueing a run supersedes every older one it replaces. Afterwards no older run of the
  workspace that can apply, is no drift check and no pull-request run, is pending, queued or planned;
  those that were are discarded or canceled with the reason, and no other run changes.
\<close>

theorem queueing_supersedes_older:
  assumes "runs w i = Some r" and "status r = Pending" and "is_supersedeable_kind r" and "bounded w"
  shows "\<exists>w'. queue_run e i w = Ret () w'
    \<and> runs w' = (\<lambda>j. if j = i then Some (set_status Queued r)
        else map_option (\<lambda>s. if superseded_by i r j s then retired i s else s) (runs w j))
    \<and> \<not> (\<exists>j s. runs w' j = Some s \<and> superseded_by i r j s)"
proof -
  let ?w1 = "put_run i (set_status Queued) (db w)"
  let ?olds = "stale_list i r (put_run i (set_status Queued) w)"
  obtain w' where ret: "queue_run e i w = Ret () w'" and db: "db w' = retire_all i (workspace_id r) ?olds ?w1"
    using queue_run_db [OF assms(1,2), of e] by (auto dest: db_res_eq_RetD)
  have olds: "j \<in> set ?olds \<longleftrightarrow> (\<exists>s. runs w j = Some s \<and> superseded_by i r j s)" for j
    using assms(1,3,4) by (auto simp: stale_list_iff run_rows.fetch_put bounded_def superseded_by_def)
  have "runs w' j = (if j \<in> set ?olds then map_option (retired i) (runs ?w1 j) else runs ?w1 j)" for j
    using db [THEN arg_cong, of runs] by (simp add: retire_all_def)
  moreover have "i \<notin> set ?olds" by (simp add: olds superseded_by_def)
  ultimately have rows: "runs w' = (\<lambda>j. if j = i then Some (set_status Queued r)
        else map_option (\<lambda>s. if superseded_by i r j s then retired i s else s) (runs w j))"
    using assms(1) by (intro ext) (auto simp: run_rows.fetch_put olds split: if_splits; case_tac "runs w j"; simp)
  have gone: "\<not> superseded_by i r j (retired i s)" for j s
    by (simp add: superseded_by_def retired_def supersedeable_states_def)
  have self: "\<not> superseded_by i r i s" for s by (simp add: superseded_by_def)
  have "\<not> (\<exists>j s. runs w' j = Some s \<and> superseded_by i r j s)"
    using gone self by (auto simp: rows split: if_splits)
  with ret rows show ?thesis by blast
qed

text \<open>Run 2 is queued; run 3 is created a second later.\<close>

definition newer_example :: world where
  "newer_example = snd (create_run example_env 0 plain_workspace default_request
     ((create_step False uploaded_example)\<lparr>now := 1000000\<rparr>))"

theorem queueing_supersedes_older_witness:
  "\<exists>w'. queue_run example_env 3 newer_example = Ret () w'
     \<and> map_option status (runs w' 2) = Some Canceled \<and> map_option status (runs w' 3) = Some Queued"
proof -
  have "map_option (\<lambda>r. (status r, is_supersedeable_kind r)) (runs newer_example 3) = Some (Pending, True)"
    by code_simp
  then obtain r where r: "runs newer_example 3 = Some r" "status r = Pending" "is_supersedeable_kind r"
    by auto
  have old: "map_option (\<lambda>s. (status s, superseded_by 3 (the (runs newer_example 3)) 2 s)) (runs newer_example 2)
    = Some (Queued, True)"
    by code_simp
  have "run_invariant (create_step False uploaded_example)"
    by (rule reachable_invariant [OF example_steps(1) [OF rtranclp.rtrancl_refl] uploaded_invariant])
  then have "bounded ((create_step False uploaded_example)\<lparr>now := 1000000\<rparr>)"
    by (simp add: run_invariant_def bounded_def)
  then have "bounded newer_example"
    using quiet_create_run unfolding newer_example_def evolves_def by blast
  from queueing_supersedes_older [OF r this, of example_env] obtain w'
    where q: "queue_run example_env 3 newer_example = Ret () w'"
    and rows: "runs w' = (\<lambda>j. if j = 3 then Some (set_status Queued r)
        else map_option (\<lambda>s. if superseded_by 3 r j s then retired 3 s else s) (runs newer_example j))"
    by blast
  from old r(1) obtain s where "runs newer_example 2 = Some s" "status s = Queued" "superseded_by 3 r 2 s"
    by auto
  then have "map_option status (runs w' 2) = Some Canceled" by (simp add: rows retired_def)
  moreover have "map_option status (runs w' 3) = Some Queued" by (simp add: rows)
  ultimately show ?thesis using q by blast
qed

section \<open>Plans against an old state\<close>

definition stale_for :: "nat \<Rightarrow> int \<Rightarrow> nat option \<Rightarrow> nat \<Rightarrow> run \<Rightarrow> bool" where
  "stale_for ws serial exclude j r \<longleftrightarrow>
     workspace_id r = ws \<and> status r = Planned \<and> is_supersedeable_kind r \<and> exclude \<noteq> Some j
     \<and> (case plan_state_serial r of None \<Rightarrow> False | Some planned \<Rightarrow> planned < serial)"

lemma stale_for_iff:
  "stale_for ws serial exclude j r \<longleftrightarrow>
     workspace_id r = ws \<and> status r = Planned \<and> is_supersedeable_kind r \<and> exclude \<noteq> Some j
     \<and> (\<exists>planned. plan_state_serial r = Some planned \<and> planned < serial)"
  by (simp add: stale_for_def split: option.split)

definition drop_stale :: "int \<Rightarrow> run \<Rightarrow> run" where
  "drop_stale serial r =
     set_status Discarded (record_reason (Some (State_Changed (the (plan_state_serial r)) serial)) r)"

lemma discard_loop_rows:
  fixes serial :: int
  assumes "distinct js" and "\<And>j. j \<in> set js \<Longrightarrow> \<exists>r. runs w j = Some r \<and> status r = Planned"
    and reason: "reason = (\<lambda>r. State_Changed (the (plan_state_serial r)) serial)"
  shows "fst (discard_loop e reason js n w) = n + length js
    \<and> runs (snd (discard_loop e reason js n w))
      = (\<lambda>j. if j \<in> set js then map_option (drop_stale serial) (runs w j) else runs w j)"
  using assms(1,2)
proof (induction js arbitrary: n w)
  case (Cons j js)
  obtain r where r: "runs w j = Some r" "status r = Planned" using Cons.prems(2) [of j] by auto
  obtain w1 where w1: "discard_run e j (Some (reason r)) w = Ret () w1"
    and db: "db w1 = put_run j (\<lambda>r'. set_status Discarded (record_reason (Some (reason r)) r'))
      (release_lock (workspace_id r) (db w))"
    using discard_run_db [OF r, of e "Some (reason r)"] by (auto dest: db_res_eq_RetD)
  have rows: "runs w1 = (runs w)(j \<mapsto> drop_stale serial r)"
    using db [THEN arg_cong, of runs] r(1) by (auto simp: put_run_def modify_def drop_stale_def reason)
  have next_js: "\<exists>r. runs w1 k = Some r \<and> status r = Planned" if "k \<in> set js" for k
    using that Cons.prems rows by auto
  have "distinct js" using Cons.prems(1) by simp
  from Cons.IH [OF this next_js, of "Suc n"] show ?case
    using Cons.prems(1) r w1 rows by (auto simp: reason)
qed simp

lemma state_change_rows:
  assumes "bounded w"
  shows "runs (snd (discard_stale_plans_for_state_change e ws serial exclude w))
      = (\<lambda>j. map_option (\<lambda>r. if stale_for ws serial exclude j r then drop_stale serial r else r) (runs w j))
    \<and> fst (discard_stale_plans_for_state_change e ws serial exclude w)
      = card {j. \<exists>r. runs w j = Some r \<and> stale_for ws serial exclude j r}"
proof -
  let ?js = "select_runs w (\<lambda>j r. workspace_id r = ws \<and> status r = Planned \<and> \<not> plan_only r \<and> \<not> is_drift r
          \<and> pr_number r = None \<and> plan_state_serial r \<noteq> None
          \<and> the (plan_state_serial r) < serial \<and> exclude \<noteq> Some j)"
  have js: "set ?js = {j. \<exists>r. runs w j = Some r \<and> stale_for ws serial exclude j r}"
    using assms by (auto simp: select_runs_def stale_for_iff is_supersedeable_kind_def bounded_def)
  have dist: "distinct ?js" by (simp add: select_runs_def)
  have planned: "\<exists>r. runs w j = Some r \<and> status r = Planned" if "j \<in> set ?js" for j
    using that by (auto simp: select_runs_def)
  have "length ?js = card {j. \<exists>r. runs w j = Some r \<and> stale_for ws serial exclude j r}"
    using distinct_card [OF dist] js by simp
  moreover have "(if j \<in> set ?js then map_option (drop_stale serial) (runs w j) else runs w j)
      = map_option (\<lambda>r. if stale_for ws serial exclude j r then drop_stale serial r else r) (runs w j)" for j
    unfolding js by (cases "runs w j") auto
  ultimately show ?thesis
    using discard_loop_rows [OF dist planned refl, of e serial 0]
    by (simp add: discard_stale_plans_for_state_change_def)
qed

text \<open>
  When a new state version is written, every waiting plan of the workspace that was computed
  against an older serial is discarded with the reason, except the excluded run; every other run
  stays as it is, and the count is right.
\<close>

theorem state_change_discards_stale_plans:
  assumes "bounded w"
  shows "runs (snd (discard_stale_plans_for_state_change e ws serial exclude w))
      = (\<lambda>j. map_option (\<lambda>r. if stale_for ws serial exclude j r then drop_stale serial r else r) (runs w j))
    \<and> fst (discard_stale_plans_for_state_change e ws serial exclude w)
      = card {j. \<exists>r. runs w j = Some r \<and> stale_for ws serial exclude j r}"
  using assms by (rule state_change_rows)

theorem state_change_discards_stale_plans_witness:
  "map_option status (runs (snd (discard_stale_plans_for_state_change example_env 0 5 None stale_example)) 2)
     = Some Discarded
   \<and> map_option status (runs (snd (discard_stale_plans_for_state_change example_env 0 5 (Some 2) stale_example)) 2)
     = Some Planned"
proof -
  have "bounded planned_example"
  proof -
    have "bounded (claim_step (create_step False uploaded_example))"
      using reachable_invariant [OF example_steps(2) [OF example_steps(1) [OF rtranclp.rtrancl_refl]]
          uploaded_invariant] by (simp add: run_invariant_def)
    then show ?thesis using quiet_complete_plan unfolding planned_example_def evolves_def by blast
  qed
  then have b: "bounded stale_example"
    by (auto simp: stale_example_def bounded_def add_state_version_def run_rows.fetch_put less_Suc_eq)
  have "map_option (\<lambda>r. (status r, stale_for 0 5 None 2 r, stale_for 0 5 (Some 2) 2 r)) (runs stale_example 2)
    = Some (Planned, True, False)"
    by code_simp
  then obtain r where "runs stale_example 2 = Some r" "status r = Planned" "stale_for 0 5 None 2 r"
    "\<not> stale_for 0 5 (Some 2) 2 r" by auto
  then show ?thesis
    using state_change_discards_stale_plans [OF b, of example_env 0 5] by (simp add: drop_stale_def)
qed

section \<open>Canceled applies\<close>

text \<open>
  C11: how a canceled apply ends once its job is gone: \<open>applied\<close> when the run uploaded a state,
  \<open>canceled\<close> when the job was deleted before, \<open>errored\<close> otherwise. The workspace is unlocked, and
  flagged as diverged unless the state arrived.
\<close>

theorem canceling_run_resolves:
  assumes "runs w i = Some r" and "status r = Canceling" and "bounded w"
  shows "\<exists>w'. resolve_canceling_run e i job_status w = Ret () w'
    \<and> map_option status (runs w' i) = Some (if state_uploaded w i then Applied
        else if job_status = ''deleted'' then Canceled else Errored)
    \<and> \<not> (\<exists>x. workspaces w' (workspace_id r) = Some x
          \<and> (locked x \<or> \<not> state_uploaded w i \<and> \<not> state_diverged x))"
proof -
  let ?t = "if state_uploaded w i then Applied else if job_status = ''deleted'' then Canceled else Errored"
  let ?err = "if ?t = Errored then Canceled_Mid_Apply job_status else Message []"
  have can: "can_transition (status r) ?t" using assms(2) by (simp add: status_order)
  obtain u where u: "transition_run e i ?t ?err w = Ret () u"
    using transition_run_total [OF assms(1) can] by blast
  have "map_option status (runs u i) = Some ?t"
    by (rule reached_terminal [OF assms(1) can _ assms(3) u]) (simp add: terminal_states_def)
  moreover have "resolve_canceling_run e i job_status w
      = Ret () (put_ws (workspace_id r)
          (\<lambda>ws. if ?t \<noteq> Applied then (unlock ws)\<lparr>state_diverged := True\<rparr> else unlock ws) u)"
    using assms u by (simp add: resolve_canceling_run_def Let_def split: if_splits)
  ultimately show ?thesis
    by (auto simp: ws_rows.fetch_put split: if_splits)
qed

theorem canceling_run_resolves_witness:
  "\<exists>w'. resolve_canceling_run example_env 2 ''deleted'' (put_run 2 (set_status Canceling) auto_example) = Ret () w'
     \<and> map_option status (runs w' 2) = Some Canceled"
proof -
  let ?w = "put_run 2 (set_status Canceling) auto_example"
  obtain r where r: "runs auto_example 2 = Some r" by (rule auto_example_row)
  have "bounded ?w"
    using auto_example_invariant by (simp add: run_invariant_def bounded_def run_rows.fetch_put)
  moreover have "runs ?w 2 = Some (set_status Canceling r)" using r by simp
  moreover have "\<not> state_uploaded ?w 2" by code_simp
  ultimately show ?thesis
    using canceling_run_resolves [of ?w 2 "set_status Canceling r" example_env "''deleted''"] by auto
qed

end
