(* ===== verification/ApiContracts.thy ===== *)
theory ApiContracts
  imports RunContracts
begin

text \<open>
  The contracts of the run endpoints: what a caller without the capability can change, what a
  created or retried run is, what an apply triggers, and that a run which never started its job does
  not stay in flight.
\<close>

section \<open>Capabilities\<close>

text \<open>
  Without the capability of the action nothing happens: confirming needs \<open>run:apply\<close>, or
  \<open>run:apply-destroy\<close> for a destroy run; discarding, cancelling and retrying need \<open>run:cancel\<close>. The
  answer is 403 and the world is unchanged, whatever state the run is in.
\<close>

theorem unauthorised_actions_change_nothing:
  assumes "runs w i = Some r" and "workspaces w (workspace_id r) = Some ws"
    and "caps = caller_capabilities roles user ws"
  shows "(\<not> has_capability caps (if rc_is_destroy (config r) then RUN_APPLY_DESTROY else RUN_APPLY)
        \<longrightarrow> confirm_endpoint e roles user i w = Raise (Http 403) w)
    \<and> (\<not> has_capability caps RUN_CANCEL
        \<longrightarrow> discard_endpoint e roles user i w = Raise (Http 403) w
          \<and> cancel_endpoint e roles user i w = Raise (Http 403) w
          \<and> retry_endpoint e roles user i w = Raise (Http 403) w)"
  using assms
  by (simp add: confirm_endpoint_def discard_endpoint_def cancel_endpoint_def retry_endpoint_def
      require_run_ws_capability_def caller_capabilities_def)

theorem unauthorised_actions_change_nothing_witness:
  "confirm_endpoint example_env [] guest_user 2 planned_example = Raise (Http 403) planned_example
   \<and> retry_endpoint example_env [] guest_user 2 planned_example = Raise (Http 403) planned_example"
proof -
  have "map_option (\<lambda>r. (workspace_id r, rc_is_destroy (config r))) (runs planned_example 2) = Some (0, False)"
    by code_simp
  then obtain r where r: "runs planned_example 2 = Some r" "workspace_id r = 0" "\<not> rc_is_destroy (config r)"
    by auto
  have "map_option (\<lambda>ws. (has_capability (caller_capabilities [] guest_user ws) RUN_APPLY,
      has_capability (caller_capabilities [] guest_user ws) RUN_CANCEL)) (workspaces planned_example 0)
    = Some (False, False)"
    by code_simp
  then obtain ws where "workspaces planned_example (workspace_id r) = Some ws"
    "\<not> has_capability (caller_capabilities [] guest_user ws) RUN_APPLY"
    "\<not> has_capability (caller_capabilities [] guest_user ws) RUN_CANCEL"
    using r(2) by auto
  with unauthorised_actions_change_nothing [OF r(1) this(1) refl, of "[]" guest_user example_env] r(3)
  show ?thesis by simp
qed

section \<open>Created runs\<close>

text \<open>What happens to the row after it is made leaves the columns fixed at creation alone.\<close>

lemma created_row:
  assumes "quiet (snd (create_run e ws_id ws rq w)) w'" and "bounded w"
  obtains r where "runs w' (next_id w) = Some r"
    and "frozen r = frozen (new_run e ws_id (settings ws) rq (now w))"
proof -
  have "bounded (snd (create_run e ws_id ws rq w))"
    using assms(2) quiet_create_run unfolding evolves_def by blast
  from quiet.row [OF assms(1) this, of "next_id w" "new_run e ws_id (settings ws) rq (now w)"] that
  show ?thesis by (auto simp: create_run_row quiet_row_def row_step_def)
qed

lemma create_and_queue_row:
  assumes "create_and_queue e user ws_id ws a po cv sha branch w = Ret i w'" and "bounded w"
  obtains r where "runs w' i = Some r"
    and "frozen r = frozen (new_run e ws_id (settings ws) (attrs_request user a po cv) (now w))"
    and "i = next_id w"
proof -
  let ?w1 = "snd (create_run e ws_id ws (attrs_request user a po cv) w)"
  let ?f = "\<lambda>r. r\<lparr>config := (config r)\<lparr>rc_vcs_sha := sha, rc_vcs_branch := branch\<rparr>\<rparr>"
  let ?w2 = "if sha \<noteq> [] then put_run (next_id w) ?f ?w1 else ?w1"
  have "quiet ?w1 ?w2" by (simp add: frozen_def quiet_put_plain)
  moreover have called: "i = next_id w \<and> (w' = ?w2 \<or> queue_run e (next_id w) ?w2 = Ret () w')"
    using assms(1) unfolding create_and_queue_def case_prod_beta create_run_db(1) Let_def
    by (auto simp: res_simps split: if_splits option.splits)
  moreover have "quiet ?w2 w'"
    using called quiet_queue_run [of ?w2 e "next_id w"] by (elim conjE disjE) simp_all
  ultimately have "quiet ?w1 w'" by (blast intro: quiet.trans)
  from created_row [OF this assms(2)] that called show ?thesis by blast
qed

lemma fetch_vcs_config_frame:
  assumes "fetch_vcs_config api ws_id ws ref w = Ret x w1"
  shows "workspaces w1 = workspaces w" "now w1 = now w" "runs w1 = runs w" "next_id w \<le> next_id w1"
  using assms by (auto simp: fetch_vcs_config_def create_configuration_version_def
      mark_configuration_uploaded_def add_cv_def put_cv_def split: option.splits if_splits)

lemma create_endpoint_calls:
  assumes "create_endpoint e roles user ws_id a ref api w = Ret i w'" and "workspaces w ws_id = Some ws"
  defines "spec \<equiv> (case cv_given ref of None \<Rightarrow> False
      | Some c \<Rightarrow> (case config_versions w c of None \<Rightarrow> False | Some x \<Rightarrow> cv_speculative x))"
  defines "plan1 \<equiv> at_plan_only a \<or> spec"
  shows "cv_given ref \<noteq> None \<Longrightarrow> ws_catalog_item (settings ws) = None"
    and "ws_execution_mode (settings ws) = ''agent'' \<Longrightarrow> ws_vcs_connection (settings ws) \<noteq> None
      \<Longrightarrow> cv_given ref \<noteq> None \<Longrightarrow> plan1"
    and "has_capability (caller_capabilities roles user ws)
        (if plan1 then RUN_PLAN else if at_is_destroy a then RUN_APPLY_DESTROY else RUN_APPLY)"
    and "\<exists>v cv sha branch. create_and_queue e user ws_id ws a (plan1 \<or> at_vcs_ref a \<noteq> []) cv sha branch v
        = Ret i w' \<and> (v = w \<or> (\<exists>x ref'. fetch_vcs_config api ws_id (settings ws) ref' w = Ret x v))"
  using assms(1,2) unfolding plan1_def spec_def
  by (auto simp: create_endpoint_def Let_def caller_capabilities_def [symmetric] res_simps
      split: if_splits res.splits option.splits) blast+

lemma frozen_parts:
  "plan_only r = rc_plan_only (frozen r)" "workspace_id r = rc_workspace (frozen r)"
  "rc_is_destroy (config r) = rc_is_destroy (frozen r)" "rc_targets (config r) = rc_targets (frozen r)"
  "rc_auto_apply (config r) = rc_auto_apply (frozen r)"
  by (simp_all add: frozen_def)

text \<open>
  C12: what a successful request to create a run makes. The run belongs to the workspace and was
  frozen from the request; it may apply only if the caller holds \<open>run:apply\<close> (\<open>run:apply-destroy\<close> for a
  destroy), and a run of a speculative configuration version, of an explicit VCS reference or of
  uploaded code on a VCS workspace never applies; nobody pins code on a catalogue workspace.
\<close>

theorem created_run_is_authorised:
  assumes created: "create_endpoint e roles user ws_id a ref api w = Ret i w'" and "bounded w"
    and ws: "workspaces w ws_id = Some ws" and caps: "caps = caller_capabilities roles user ws"
    and spec: "spec \<longleftrightarrow> (case cv_given ref of None \<Rightarrow> False
      | Some c \<Rightarrow> (case config_versions w c of None \<Rightarrow> False | Some x \<Rightarrow> cv_speculative x))"
  shows "\<exists>r. runs w i = None \<and> runs w' i = Some r \<and> workspace_id r = ws_id
    \<and> rc_is_destroy (config r) = at_is_destroy a
    \<and> has_capability caps (if at_plan_only a \<or> spec then RUN_PLAN
        else if at_is_destroy a then RUN_APPLY_DESTROY else RUN_APPLY)
    \<and> plan_only r = (at_plan_only a \<or> spec \<or> at_vcs_ref a \<noteq> [])
    \<and> (cv_given ref \<noteq> None \<longrightarrow> ws_catalog_item (settings ws) = None
        \<and> (ws_execution_mode (settings ws) = ''agent'' \<and> ws_vcs_connection (settings ws) \<noteq> None
            \<longrightarrow> plan_only r))"
proof -
  note calls = create_endpoint_calls [OF created ws, folded spec caps]
  from calls(4) obtain v cv sha branch
    where v: "create_and_queue e user ws_id ws a ((at_plan_only a \<or> spec) \<or> at_vcs_ref a \<noteq> [])
        cv sha branch v = Ret i w'"
      and before: "v = w \<or> (\<exists>x ref'. fetch_vcs_config api ws_id (settings ws) ref' w = Ret x v)"
    by blast
  have same: "runs v = runs w" and next_id: "next_id w \<le> next_id v"
    using before by (auto dest: fetch_vcs_config_frame)
  then have "bounded v"
    using \<open>bounded w\<close> by (auto simp: bounded_def intro: less_le_trans)
  from create_and_queue_row [OF v this] obtain r where r: "runs w' i = Some r"
      "frozen r = frozen (new_run e ws_id (settings ws) (attrs_request user a
        ((at_plan_only a \<or> spec) \<or> at_vcs_ref a \<noteq> []) cv) (now v))"
      and i: "i = next_id v" .
  then have "plan_only r = ((at_plan_only a \<or> spec) \<or> at_vcs_ref a \<noteq> [])" "workspace_id r = ws_id"
      "rc_is_destroy (config r) = at_is_destroy a"
    unfolding frozen_parts by (simp_all add: frozen_def new_run_def attrs_request_def)
  moreover have "runs w i = None"
    using \<open>bounded w\<close> next_id i unfolding bounded_def by (metis not_None_eq not_le)
  moreover have "cv_given ref \<noteq> None \<longrightarrow> ws_catalog_item (settings ws) = None
      \<and> (ws_execution_mode (settings ws) = ''agent'' \<and> ws_vcs_connection (settings ws) \<noteq> None
          \<longrightarrow> at_plan_only a \<or> spec \<or> at_vcs_ref a \<noteq> [])"
    using calls(1,2) by blast
  ultimately show ?thesis using r(1) calls(3) by (simp add: caps)
qed

theorem created_run_is_authorised_witness:
  "\<exists>r. runs (create_step False uploaded_example) 2 = Some r \<and> workspace_id r = 0 \<and> \<not> plan_only r
     \<and> has_capability (caller_capabilities [] admin_user plain_workspace) RUN_APPLY"
proof -
  let ?m = "create_endpoint example_env [] admin_user 0 (example_attrs False) No_Cv no_vcs uploaded_example"
  have "(case ?m of Ret i _ \<Rightarrow> Some i | Raise _ _ \<Rightarrow> None) = Some 2" by code_simp
  then obtain w' where m: "?m = Ret 2 w'" by (cases ?m) auto
  moreover have "bounded uploaded_example" using uploaded_invariant by (simp add: run_invariant_def)
  moreover have "workspaces uploaded_example 0 = Some plain_workspace" by (simp add: uploaded_example_def)
  ultimately obtain r where "runs w' 2 = Some r" "workspace_id r = 0" "\<not> plan_only r"
    "has_capability (caller_capabilities [] admin_user plain_workspace) RUN_APPLY"
    using created_run_is_authorised [of example_env "[]" admin_user 0 "example_attrs False" No_Cv no_vcs
        uploaded_example 2 w' plain_workspace _ False]
    by (auto simp: cv_given_def example_attrs_def)
  then show ?thesis by (auto simp: create_step_def m)
qed

section \<open>Retried runs\<close>

text \<open>
  A retry is accepted for a finished run only and makes a new run of the same workspace with the
  same kind, targets, replacements and refresh settings; but it is never a destroy run and whether it
  applies by itself is decided by the workspace, whatever the original run was.
\<close>

theorem retried_run_copies:
  assumes retried: "retry_endpoint e roles user i w = Ret j w'" and "bounded w"
    and r: "runs w i = Some r" and ws: "workspaces w (workspace_id r) = Some ws"
  shows "(status r \<in> set terminal_states \<or> plan_only r \<and> status r = Planned) \<and> runs w j = None
    \<and> (\<exists>s. runs w' j = Some s \<and> frozen s = (frozen (new_run e (workspace_id r) (settings ws)
              (retry_request user i r (the (retry_cv w r))) (now w)))
        \<and> workspace_id s = workspace_id r \<and> plan_only s = plan_only r
        \<and> rc_targets (config s) = none_if_empty (rc_targets (config r))
        \<and> \<not> rc_is_destroy (config s) \<and> rc_auto_apply (config s) = ws_auto_apply (settings ws))"
proof -
  let ?rq = "retry_request user i r (the (retry_cv w r))"
  let ?w1 = "snd (create_run e (workspace_id r) ws ?rq w)"
  have finished: "status r \<in> set terminal_states \<or> plan_only r \<and> status r = Planned"
    and call: "j = next_id w \<and> queue_run e (next_id w) (put_run (next_id w) (copy_vcs r) ?w1) = Ret () w'"
    using retried r ws
    by (auto simp: retry_endpoint_def case_prod_beta create_run_db(1) split: if_splits option.splits res.splits)
  have "quiet ?w1 (put_run (next_id w) (copy_vcs r) ?w1)"
    by (rule quiet_put_plain) (simp_all add: frozen_def copy_vcs_def)
  from quiet.trans [OF this quiet_queue_run [of _ e "next_id w"]] have "quiet ?w1 w'" using call by simp
  from created_row [OF this assms(2)] obtain s where s: "runs w' (next_id w) = Some s"
    "frozen s = frozen (new_run e (workspace_id r) (settings ws) ?rq (now w))" .
  have "plan_only s = plan_only r \<and> workspace_id s = workspace_id r \<and> \<not> rc_is_destroy (config s)
      \<and> rc_targets (config s) = none_if_empty (rc_targets (config r))
      \<and> rc_auto_apply (config s) = ws_auto_apply (settings ws)"
    unfolding frozen_parts s(2) by (simp add: frozen_def new_run_def retry_request_def default_request_def)
  moreover have "runs w (next_id w) = None" using assms(2) unfolding bounded_def by blast
  ultimately show ?thesis using finished call s by blast
qed

definition errored_destroy :: world where
  "errored_destroy = put_run 2 (\<lambda>r. set_status Errored (r\<lparr>config := (config r)\<lparr>rc_is_destroy := True\<rparr>\<rparr>)) auto_example"

theorem retried_run_copies_witness:
  "\<exists>w' s. retry_endpoint example_env [] admin_user 2 errored_destroy = Ret 3 w' \<and> runs w' 3 = Some s
     \<and> map_option (\<lambda>r. rc_is_destroy (config r)) (runs errored_destroy 2) = Some True
     \<and> \<not> rc_is_destroy (config s)"
proof -
  let ?w = errored_destroy
  have "(case retry_endpoint example_env [] admin_user 2 ?w of Ret j _ \<Rightarrow> Some j | Raise _ _ \<Rightarrow> None) = Some 3"
    by code_simp
  then obtain w' where w': "retry_endpoint example_env [] admin_user 2 ?w = Ret 3 w'"
    by (cases "retry_endpoint example_env [] admin_user 2 ?w") auto
  have row: "map_option (\<lambda>r. (rc_is_destroy (config r), workspace_id r)) (runs ?w 2) = Some (True, 0)"
    and "map_option (\<lambda>_. ()) (workspaces ?w 0) = Some ()"
    by code_simp+
  then obtain r ws where "runs ?w 2 = Some r" "rc_is_destroy (config r)" "workspaces ?w (workspace_id r) = Some ws"
    by auto
  moreover have "bounded ?w"
    using auto_example_invariant
    by (simp add: run_invariant_def bounded_def run_rows.fetch_put errored_destroy_def)
  ultimately show ?thesis using retried_run_copies [OF w'] w' by fastforce
qed

section \<open>Lost runs\<close>

text \<open>
  A run cannot stay planning or applying without a job. Once the launch timeout has passed the next
  reconciler pass fails it and unlocks its workspace, whatever Redis does; the log store has to
  answer, as the pass first saves the log.
\<close>

theorem unlaunched_run_is_failed:
  assumes "runs w i = Some r" and "status r = Planning \<or> status r = Applying" and "job_name r = None"
    and "phase_start r = Some t" and "seconds (launch_timeout e) < now w - t"
    and "stored_log e i (phase_of r) \<noteq> None"
  shows "\<exists>w'. reconcile_one e i w = Ret () w' \<and> map_option status (runs w' i) = Some Errored
    \<and> \<not> ws_is_locked w' (workspace_id r)"
proof -
  let ?capped = "is_drift r \<and> status r = Planning \<and> 0 < drift_max_duration e
      \<and> seconds (drift_max_duration e) < now w - t"
  define msg where "msg = (if ?capped then Drift_Cap_Exceeded (drift_max_duration e)
      else Stuck_Pre_Launch (launch_timeout e))"
  have one: "reconcile_one e i w = handle_failed e i r msg w"
    using assms by (simp add: reconcile_one_def check_stale_def msg_def)
  obtain v where v: "persist_live_log_if_missing e i (phase_of r) w = Ret () v" and db: "db v = db w"
  proof -
    obtain b where "stored_log e i (phase_of r) = Some b" using assms(6) by blast
    with that show ?thesis by (cases b) (auto simp: persist_live_log_if_missing_def)
  qed
  have row: "runs v i = Some r" using db [THEN arg_cong, of runs] assms(1) by simp
  have can: "can_transition (status r) Errored" using assms(2) by (auto simp: status_order)
  obtain u where u: "transition_run e i Errored msg v = Ret () u" "db u = enter_status i Errored msg (db v)"
    using transition_leaf_cases [OF row can, of e msg] transition_leaf_eq [of Errored e i msg] by auto
  have "map_option status (runs u i) = Some Errored"
    using row u(2) [THEN arg_cong, of runs] by (simp add: enter_status_def run_rows.fetch_put)
  then show ?thesis
    by (auto simp: one handle_failed_def v u(1) ws_is_locked_iff release_lock_def ws_rows.fetch_put)
qed

theorem unlaunched_run_is_failed_witness:
  "\<exists>w'. reconcile_one example_env 2 (auto_example\<lparr>now := 1000000000\<rparr>) = Ret () w'
     \<and> map_option status (runs w' 2) = Some Errored \<and> \<not> ws_is_locked w' 0"
proof -
  let ?w = "auto_example\<lparr>now := 1000000000\<rparr>"
  obtain r where r: "runs auto_example 2 = Some r" "status r = Planning" "workspace_id r = 0"
      "plan_started_at r = Some 0"
    by (rule auto_example_row)
  have "map_option job_name (runs ?w 2) = Some None" by code_simp
  then have "job_name r = None" using r(1) by simp
  moreover have "phase_start r = Some 0" using r by (simp add: phase_start_def)
  moreover have "stored_log example_env 2 (phase_of r) \<noteq> None" "seconds (launch_timeout example_env) < 1000000000"
    by (simp_all add: example_env_def seconds_def)
  ultimately show ?thesis
    using unlaunched_run_is_failed [of ?w 2 r 0 example_env] r by auto
qed

section \<open>What an apply sets off\<close>

definition applying_example :: world where
  "applying_example = put_run 2 (set_status Applying)
     (auto_example\<lparr>workspaces := (workspaces auto_example)(1 \<mapsto> plain_workspace),
        config_versions := (config_versions auto_example)(8 \<mapsto> \<lparr>cv_workspace = 1, cv_source = ''tfe-api'',
          cv_status = ''uploaded'', cv_auto_queue = False, cv_speculative = True, cv_created_at = 0\<rparr>),
        run_triggers := [9 \<mapsto> \<lparr>tr_source = 0, tr_workspace = 1\<rparr>], next_id := 10\<rparr>)"

text \<open>
  The run an apply triggers downstream is made from the newest uploaded configuration version,
  also when that version is speculative and no other was ever uploaded: the run is no plan-only run
  and can be applied, although the endpoint that creates runs would refuse to apply that version.
\<close>

theorem trigger_applies_speculative_version:
  "\<exists>w r c x. complete_apply example_env 2 applying_example = Ret () w \<and> runs w 10 = Some r
     \<and> runs applying_example 10 = None \<and> workspace_id r = 1 \<and> \<not> plan_only r \<and> status r = Queued
     \<and> rc_cv (config r) = Some c \<and> config_versions w c = Some x \<and> cv_speculative x
     \<and> get_latest_uploaded_cv applying_example 1 = None"
proof -
  let ?m = "complete_apply example_env 2 applying_example"
  have "(case ?m of Raise _ _ \<Rightarrow> None | Ret _ w \<Rightarrow> Some (map_option
      (\<lambda>r. (workspace_id r, plan_only r, status r, rc_cv (config r))) (runs w 10),
      map_option cv_speculative (config_versions w 8)))
    = Some (Some (1, False, Queued, Some 8), Some True)"
    by code_simp
  then obtain w r x where "?m = Ret () w" "runs w 10 = Some r" "config_versions w 8 = Some x" "cv_speculative x"
    "(workspace_id r, plan_only r, status r, rc_cv (config r)) = (1, False, Queued, Some 8)"
    by (cases ?m) auto
  moreover have "runs applying_example 10 = None" "get_latest_uploaded_cv applying_example 1 = None"
    by code_simp+
  ultimately show ?thesis by auto
qed

definition pr_apply_example :: world where
  "pr_apply_example = put_run 2 (\<lambda>r. r\<lparr>config := (config r)\<lparr>rc_pr := Some 5\<rparr>\<rparr>)
     (applying_example\<lparr>store := (store applying_example)\<lparr>faults := (\<lambda>_. True)\<rparr>\<rparr>)"

text \<open>
  The answer to a finished apply is lost when Redis fails under the run of a pull request. The
  request raises after the apply was recorded, so all of it is rolled back: the run stays applying and
  its workspace as it was.
\<close>

theorem apply_result_lost_on_redis_error:
  "\<exists>w'. report_apply_result example_env 2 pr_apply_example = Raise Redis_Error w'
     \<and> runs w' = runs pr_apply_example \<and> workspaces w' = workspaces pr_apply_example
     \<and> map_option status (runs w' 2) = Some Applying"
proof -
  let ?m = "complete_apply example_env 2 pr_apply_example"
  have "(case ?m of Raise x _ \<Rightarrow> Some x | Ret _ _ \<Rightarrow> None) = Some Redis_Error"
    and status: "map_option status (runs pr_apply_example 2) = Some Applying"
    by code_simp+
  then obtain w' where "?m = Raise Redis_Error w'" by (cases ?m) auto
  then show ?thesis using status by (auto simp: report_apply_result_def rolled_back_def)
qed

end
