(* ===== verification/Bytes.thy ===== *)
theory Bytes
  imports PyText "HOL-Library.Word"
begin

text \<open>
  Python's bytes and texts for the encryption code: \<open>bytes\<close> are 8-bit words, a text that may hold any
  character is its list of code points (\<open>lit\<close> reads an ASCII literal). \<open>str.encode\<close> and \<open>bytes.decode\<close>
  in UTF-8, and URL-safe base64 without padding, which is \<open>_b64e\<close> and \<open>_b64d\<close> of
  \<open>crypto/envelope.py\<close> with the standard library's lenient decoder. The lemmas show that both read
  back what they wrote.
\<close>

type_synonym bytes = "8 word list"
type_synonym pystr = "nat list"

definition lit :: "string \<Rightarrow> pystr" where
  "lit s = map of_char s"

section \<open>UTF-8\<close>

definition utf8_char :: "nat \<Rightarrow> nat list option" where
  "utf8_char c =
     (if c < 128 then Some [c]
      else if c < 2048 then Some [192 + c div 64, 128 + c mod 64]
      else if 55296 \<le> c \<and> c < 57344 then None
      else if c < 65536 then Some [224 + c div 4096, 128 + c div 64 mod 64, 128 + c mod 64]
      else if c < 1114112 then
        Some [240 + c div 262144, 128 + c div 4096 mod 64, 128 + c div 64 mod 64, 128 + c mod 64]
      else None)"

fun utf8_write :: "pystr \<Rightarrow> nat list option" where
  "utf8_write [] = Some []"
| "utf8_write (c # cs) =
     (case (utf8_char c, utf8_write cs) of (Some xs, Some ys) \<Rightarrow> Some (xs @ ys) | _ \<Rightarrow> None)"

definition continuation :: "nat \<Rightarrow> bool" where
  "continuation b = (128 \<le> b \<and> b < 192)"

fun utf8_read :: "nat list \<Rightarrow> pystr option" where
  "utf8_read [] = Some []"
| "utf8_read (a # bs) =
     (if a < 128 then map_option ((#) a) (utf8_read bs)
      else case bs of
        [] \<Rightarrow> None
      | b # cs \<Rightarrow>
          if \<not> (194 \<le> a \<and> continuation b) then None
          else if a < 224 then map_option ((#) ((a - 192) * 64 + (b - 128))) (utf8_read cs)
          else case cs of
            [] \<Rightarrow> None
          | c # ds \<Rightarrow>
              if \<not> continuation c then None
              else if a < 240 then
                let n = (a - 224) * 4096 + (b - 128) * 64 + (c - 128)
                in if n < 2048 \<or> 55296 \<le> n \<and> n < 57344 then None
                   else map_option ((#) n) (utf8_read ds)
              else case ds of
                [] \<Rightarrow> None
              | d # es \<Rightarrow>
                  let n = (a - 240) * 262144 + (b - 128) * 4096 + (c - 128) * 64 + (d - 128)
                  in if \<not> continuation d \<or> n < 65536 \<or> 1114112 \<le> n then None
                     else map_option ((#) n) (utf8_read es))"

definition utf8_encode :: "pystr \<Rightarrow> bytes option" where
  "utf8_encode s = map_option (map of_nat) (utf8_write s)"

definition utf8_decode :: "bytes \<Rightarrow> pystr option" where
  "utf8_decode bs = utf8_read (map unat bs)"

lemma base64_digits:
  "(c::nat) div 4096 * 4096 + c div 64 mod 64 * 64 + c mod 64 = c"
  "(c::nat) div 262144 * 262144 + c div 4096 mod 64 * 4096 + c div 64 mod 64 * 64 + c mod 64 = c"
proof -
  have one: "n div 64 * 64 + n mod 64 = n" for n :: nat by simp
  have "c div 4096 = c div 64 div 64" "c div 262144 = c div 4096 div 64"
    by (simp_all flip: div_mult2_eq)
  then have two: "c div 64 = c div 4096 * 64 + c div 64 mod 64"
    and three: "c div 4096 = c div 262144 * 64 + c div 4096 mod 64"
    using one [of "c div 64"] one [of "c div 4096"] by simp_all
  show "c div 4096 * 4096 + c div 64 mod 64 * 64 + c mod 64 = c" using one [of c] two by linarith
  then show "c div 262144 * 262144 + c div 4096 mod 64 * 4096 + c div 64 mod 64 * 64 + c mod 64 = c"
    using three by linarith
qed

lemma utf8_char_read:
  assumes "utf8_char c = Some xs"
  shows "utf8_read (xs @ ys) = map_option ((#) c) (utf8_read ys)"
proof -
  have bound: "c < n * m \<Longrightarrow> c div n < m" for n m :: nat
    by (simp add: less_mult_imp_div_less mult.commute)
  consider (1) "c < 128" | (2) "128 \<le> c" "c < 2048"
    | (3) "2048 \<le> c" "c < 65536" "\<not> (55296 \<le> c \<and> c < 57344)" | (4) "65536 \<le> c" "c < 1114112"
    using assms by (auto simp: utf8_char_def split: if_splits)
  then show ?thesis
  proof cases
    case 1
    with assms show ?thesis by (auto simp: utf8_char_def)
  next
    case 2
    then have "xs = [192 + c div 64, 128 + c mod 64]" using assms by (simp add: utf8_char_def)
    moreover have "c div 64 < 32" "2 \<le> c div 64" using 2 bound [of 64 32] div_le_mono [of 128 c 64] by simp_all
    ultimately show ?thesis using div_mult_mod_eq [of c 64] by (simp add: continuation_def)
  next
    case 3
    then have "xs = [224 + c div 4096, 128 + c div 64 mod 64, 128 + c mod 64]"
      using assms by (auto simp: utf8_char_def)
    moreover have "c div 4096 < 16" using 3 bound [of 4096 16] by simp
    ultimately show ?thesis using 3 base64_digits(1) [of c] by (auto simp: continuation_def Let_def)
  next
    case 4
    then have "xs = [240 + c div 262144, 128 + c div 4096 mod 64, 128 + c div 64 mod 64, 128 + c mod 64]"
      using assms by (simp add: utf8_char_def)
    then show ?thesis using 4 base64_digits(2) [of c] by (simp add: continuation_def Let_def)
  qed
qed

lemma utf8_char_bytes: "utf8_char c = Some xs \<Longrightarrow> b \<in> set xs \<Longrightarrow> b < 256"
  unfolding utf8_char_def by (auto split: if_splits)

lemma utf8_write_read: "utf8_write s = Some bs \<Longrightarrow> utf8_read bs = Some s"
  by (induction s arbitrary: bs) (auto simp: utf8_char_read split: option.splits)

lemma utf8_write_bytes: "utf8_write s = Some bs \<Longrightarrow> b \<in> set bs \<Longrightarrow> b < 256"
  by (induction s arbitrary: bs) (auto dest: utf8_char_bytes split: option.splits)

lemma map_unat_of_nat: "\<forall>b\<in>set bs. b < 256 \<Longrightarrow> map unat (map of_nat bs :: bytes) = bs"
  by (induction bs) (auto simp: unat_of_nat)

lemma utf8_roundtrip: "utf8_encode s = Some bs \<Longrightarrow> utf8_decode bs = Some s"
proof -
  assume "utf8_encode s = Some bs"
  then obtain ns where ns: "utf8_write s = Some ns" "bs = map of_nat ns" by (auto simp: utf8_encode_def)
  then have "map unat bs = ns" by (auto simp del: map_map intro!: map_unat_of_nat dest: utf8_write_bytes)
  then show ?thesis by (simp add: utf8_decode_def utf8_write_read [OF ns(1)])
qed

section \<open>Base64\<close>

definition b64_digit :: "nat \<Rightarrow> nat" where
  "b64_digit d =
     (if d < 26 then 65 + d else if d < 52 then 71 + d else if d < 62 then d - 4
      else if d = 62 then 45 else 95)"

fun b64_encode :: "nat list \<Rightarrow> pystr" where
  "b64_encode [] = []"
| "b64_encode [a] = [b64_digit (a div 4), b64_digit (a mod 4 * 16), 61, 61]"
| "b64_encode [a, b] =
     [b64_digit (a div 4), b64_digit (a mod 4 * 16 + b div 16), b64_digit (b mod 16 * 4), 61]"
| "b64_encode (a # b # c # xs) =
     [b64_digit (a div 4), b64_digit (a mod 4 * 16 + b div 16), b64_digit (b mod 16 * 4 + c div 64),
      b64_digit (c mod 64)] @ b64_encode xs"

definition rstrip_char :: "'a \<Rightarrow> 'a list \<Rightarrow> 'a list" where
  "rstrip_char c s = rev (dropWhile ((=) c) (rev s))"

definition b64e :: "bytes \<Rightarrow> pystr" where
  "b64e raw = rstrip_char 61 (b64_encode (map unat raw))"

text \<open>
  The decoder takes both alphabets, skips characters of neither, and stops at the padding that
  completes a group. The state is the position in the group, the bits left over and the paddings
  seen since the last digit.
\<close>

definition b64_value :: "nat \<Rightarrow> nat option" where
  "b64_value c =
     (if 65 \<le> c \<and> c \<le> 90 then Some (c - 65) else if 97 \<le> c \<and> c \<le> 122 then Some (c - 71)
      else if 48 \<le> c \<and> c \<le> 57 then Some (c + 4) else if c = 43 \<or> c = 45 then Some 62
      else if c = 47 \<or> c = 95 then Some 63 else None)"

fun a2b :: "nat \<Rightarrow> nat \<Rightarrow> nat \<Rightarrow> pystr \<Rightarrow> nat list option" where
  "a2b quad left pads [] = (if quad = 0 then Some [] else None)"
| "a2b quad left pads (c # cs) =
     (if c = 61 then
        if 2 \<le> quad then (if 4 \<le> quad + pads + 1 then Some [] else a2b quad left (pads + 1) cs)
        else a2b quad left pads cs
      else
        case b64_value c of
          None \<Rightarrow> a2b quad left pads cs
        | Some v \<Rightarrow>
            if quad = 0 then a2b 1 v 0 cs
            else if quad = 1 then map_option ((#) (left * 4 + v div 16)) (a2b 2 (v mod 16) 0 cs)
            else if quad = 2 then map_option ((#) (left * 16 + v div 4)) (a2b 3 (v mod 4) 0 cs)
            else map_option ((#) (left * 64 + v)) (a2b 0 0 0 cs))"

definition b64d :: "pystr \<Rightarrow> bytes option" where
  "b64d s =
     (if \<not> (\<forall>c\<in>set s. c < 128) then None
      else map_option (map of_nat) (a2b 0 0 0 (s @ replicate (nat (- int (length s) mod 4)) 61)))"

lemma b64_digit_value: "d < 64 \<Longrightarrow> b64_value (b64_digit d) = Some d" "b64_digit d \<noteq> 61"
  by (auto simp: b64_value_def b64_digit_def)

lemma b64_digit_plain: "d < 64 \<Longrightarrow> b64_digit d < 128 \<and> b64_digit d \<noteq> 46 \<and> b64_digit d \<noteq> 58"
  by (auto simp: b64_digit_def)

lemma sextets:
  fixes a b c :: nat
  assumes "a < 256" "b < 256" "c < 256"
  shows "a div 4 < 64" "a mod 4 * 16 < 64" "b mod 16 * 4 < 64" "a mod 4 * 16 + b div 16 < 64"
    "b mod 16 * 4 + c div 64 < 64" "b div 16 < 16"
    and "a div 4 * 4 + (a mod 4 * 16 + b div 16) div 16 = a" "(a mod 4 * 16 + b div 16) mod 16 = b div 16"
    "b div 16 * 16 + (b mod 16 * 4 + c div 64) div 4 = b" "(b mod 16 * 4 + c div 64) mod 4 = c div 64"
    "c div 64 * 64 + c mod 64 = c"
  using assms less_mult_imp_div_less [of a 64 4] less_mult_imp_div_less [of b 16 16]
    less_mult_imp_div_less [of c 4 64] mod_less_divisor [of 4 a] mod_less_divisor [of 16 b]
  by simp_all

lemma a2b_encode: "\<forall>x\<in>set xs. x < 256 \<Longrightarrow> a2b 0 0 0 (b64_encode xs) = Some xs"
proof (induction xs rule: b64_encode.induct)
  case (2 a)
  then show ?case using sextets [of a 0 0] by (simp add: b64_digit_value)
next
  case (3 a b)
  then show ?case using sextets [of a b 0] by (simp add: b64_digit_value)
next
  case (4 a b c xs)
  then show ?case using sextets [of a b c] by (simp add: b64_digit_value)
qed simp

lemma rstrip_char_append: "d \<notin> set s \<Longrightarrow> rstrip_char d (s @ replicate n d) = s"
  by (induction s rule: rev_induct) (simp_all add: rstrip_char_def dropWhile_append)

lemma b64_encode_form:
  assumes "\<forall>x\<in>set xs. x < 256"
  shows "\<exists>s n. b64_encode xs = s @ replicate n 61 \<and> n = nat (- int (length s) mod 4)
    \<and> (\<forall>c\<in>set s. c < 128 \<and> c \<noteq> 46 \<and> c \<noteq> 58 \<and> c \<noteq> 61)"
  using assms
proof (induction xs rule: b64_encode.induct)
  case (2 a)
  then show ?case using sextets [of a 0 0] b64_digit_plain b64_digit_value(2)
    by (intro exI [of _ "[b64_digit (a div 4), b64_digit (a mod 4 * 16)]"]) (simp add: numeral_2_eq_2)
next
  case (3 a b)
  then show ?case using sextets [of a b 0] b64_digit_plain b64_digit_value(2)
    by (intro exI [of _ "[b64_digit (a div 4), b64_digit (a mod 4 * 16 + b div 16), b64_digit (b mod 16 * 4)]"])
      simp
next
  case (4 a b c xs)
  then obtain s n where s: "b64_encode xs = s @ replicate n 61" "n = nat (- int (length s) mod 4)"
    "\<forall>c\<in>set s. c < 128 \<and> c \<noteq> 46 \<and> c \<noteq> 58 \<and> c \<noteq> 61" by auto
  let ?g = "[b64_digit (a div 4), b64_digit (a mod 4 * 16 + b div 16), b64_digit (b mod 16 * 4 + c div 64),
      b64_digit (c mod 64)]"
  have "- int (length (?g @ s)) mod 4 = - int (length s) mod 4" by simp presburger
  moreover have "\<forall>d\<in>set ?g. d < 128 \<and> d \<noteq> 46 \<and> d \<noteq> 58 \<and> d \<noteq> 61"
    using 4 sextets [of a b c] b64_digit_plain b64_digit_value(2) by simp
  ultimately show ?case using s by (intro exI [of _ "?g @ s"] exI [of _ n]) auto
qed simp

lemma b64_roundtrip: "b64d (b64e raw) = Some raw"
  and b64e_plain: "c \<in> set (b64e raw) \<Longrightarrow> c < 128 \<and> c \<noteq> 46 \<and> c \<noteq> 58"
proof -
  let ?xs = "map unat raw"
  have small: "\<forall>x\<in>set ?xs. x < 256" using unsigned_less [where 'a = nat and 'b = 8] by auto
  obtain s n where s: "b64_encode ?xs = s @ replicate n 61" "n = nat (- int (length s) mod 4)"
    "\<forall>c\<in>set s. c < 128 \<and> c \<noteq> 46 \<and> c \<noteq> 58 \<and> c \<noteq> 61"
    using b64_encode_form [OF small] by blast
  then have e: "b64e raw = s" unfolding b64e_def by (metis rstrip_char_append)
  then show "c \<in> set (b64e raw) \<Longrightarrow> c < 128 \<and> c \<noteq> 46 \<and> c \<noteq> 58" using s(3) by blast
  have "a2b 0 0 0 (s @ replicate n 61) = Some ?xs" using a2b_encode [OF small] s(1) by simp
  then show "b64d (b64e raw) = Some raw" using s e by (simp add: b64d_def comp_def)
qed

end
