(* ===== verification/Envelope.thy ===== *)
theory Envelope
  imports Bytes
begin

text \<open>
  The two envelopes of values encrypted at rest (\<open>crypto/envelope.py\<close>): the text
  \<open>tpenc:1:<version>:<nonce>:<ciphertext>\<close> for columns, and the binary
  \<open>TPENC1 | version | nonce | ciphertext\<close> for state files. AES-GCM is the record \<open>aead\<close>, whose two
  operations fail (\<open>None\<close>) where the library raises; nonces are arguments, as the code draws
  them from \<open>os.urandom\<close>. What the code relies on is \<open>aead_correct\<close>: with a 32-byte key and a 12-byte
  nonce, sealing succeeds and unsealing gives the plaintext back.
\<close>

datatype crypto_error = Value_Error | Unicode_Error | Overflow_Error | Invalid_Tag | Key_Error
  | No_Dek int | Canary_Mismatch | Wrap_Mismatch | Not_Enabled | Provider_Failed | Readback_Failed

record aead =
  seal :: "bytes \<Rightarrow> bytes \<Rightarrow> bytes \<Rightarrow> bytes option"
  unseal :: "bytes \<Rightarrow> bytes \<Rightarrow> bytes \<Rightarrow> bytes option"

definition aead_correct :: "aead \<Rightarrow> bool" where
  "aead_correct A \<longleftrightarrow> (\<forall>k n m. length k = 32 \<and> length n = 12 \<longrightarrow>
     (\<exists>c. seal A k n m = Some c \<and> unseal A k n c = Some m))"

definition dek_len :: nat where
  "dek_len = 32"

section \<open>Text envelopes\<close>

definition marker :: pystr where
  "marker = lit ''tpenc''"

definition format_version :: pystr where
  "format_version = lit ''1''"

definition startswith :: "pystr \<Rightarrow> pystr \<Rightarrow> bool" where
  "startswith s p = (take (length p) s = p)"

definition is_encrypted :: "pystr \<Rightarrow> bool" where
  "is_encrypted value = startswith value (marker @ lit '':'')"

definition encrypt :: "aead \<Rightarrow> bytes \<Rightarrow> pystr \<Rightarrow> bytes \<Rightarrow> int \<Rightarrow> crypto_error + pystr" where
  "encrypt A n plaintext dek dek_version =
     (if length dek \<noteq> dek_len then Inl Value_Error
      else bind_sum (some_or Unicode_Error (utf8_encode plaintext)) (\<lambda>raw.
           bind_sum (some_or Value_Error (seal A dek n raw)) (\<lambda>ct.
             Inr (marker @ lit '':'' @ format_version @ lit '':'' @ lit (show_int dek_version) @ lit '':''
                  @ b64e n @ lit '':'' @ b64e ct))))"

text \<open>\<open>int\<close> of a part; digits and blanks outside of ASCII, which Python also reads, count as an error.\<close>

definition int_of_text :: "pystr \<Rightarrow> int option" where
  "int_of_text s = (if \<forall>c\<in>set s. c < 128 then py_int (map char_of s) else None)"

definition parse_version :: "pystr \<Rightarrow> crypto_error + int" where
  "parse_version envelope =
     (let parts = split_max 4 58 envelope
      in if length parts \<noteq> 5 \<or> hd parts \<noteq> marker then Inl Value_Error
         else some_or Value_Error (int_of_text (parts ! 2)))"

definition decrypt :: "aead \<Rightarrow> pystr \<Rightarrow> bytes \<Rightarrow> crypto_error + pystr" where
  "decrypt A envelope dek =
     (case split_max 4 58 envelope of
        [m, fmt, _, nonce_b64, ct_b64] \<Rightarrow>
          if m \<noteq> marker then Inl Value_Error
          else if fmt \<noteq> format_version then Inl Value_Error
          else
            bind_sum (some_or Value_Error (b64d nonce_b64)) (\<lambda>n.
            bind_sum (some_or Value_Error (b64d ct_b64)) (\<lambda>ct.
            bind_sum (some_or Invalid_Tag (unseal A dek n ct)) (\<lambda>pt.
              some_or Unicode_Error (utf8_decode pt))))
      | _ \<Rightarrow> Inl Value_Error)"

section \<open>Binary envelopes\<close>

definition blob_magic :: bytes where
  "blob_magic = [0x54, 0x50, 0x45, 0x4E, 0x43, 0x31]"

definition is_encrypted_blob :: "bytes \<Rightarrow> bool" where
  "is_encrypted_blob blob = (take (length blob_magic) blob = blob_magic)"

fun int_to_bytes :: "nat \<Rightarrow> int \<Rightarrow> bytes" where
  "int_to_bytes 0 n = []"
| "int_to_bytes (Suc k) n = word_of_int (n div 256 ^ k) # int_to_bytes k n"

definition to_bytes :: "int \<Rightarrow> nat \<Rightarrow> crypto_error + bytes" where
  "to_bytes n len = (if 0 \<le> n \<and> n < 256 ^ len then Inr (int_to_bytes len n) else Inl Overflow_Error)"

definition from_bytes :: "bytes \<Rightarrow> int" where
  "from_bytes bs = foldl (\<lambda>n b. n * 256 + uint b) 0 bs"

definition encrypt_blob :: "aead \<Rightarrow> bytes \<Rightarrow> bytes \<Rightarrow> bytes \<Rightarrow> int \<Rightarrow> crypto_error + bytes" where
  "encrypt_blob A n plaintext dek dek_version =
     (if length dek \<noteq> dek_len then Inl Value_Error
      else bind_sum (some_or Value_Error (seal A dek n plaintext)) (\<lambda>ct.
           bind_sum (to_bytes dek_version 4) (\<lambda>ver. Inr (blob_magic @ ver @ n @ ct))))"

definition parse_blob_version :: "bytes \<Rightarrow> crypto_error + int" where
  "parse_blob_version blob =
     (if \<not> is_encrypted_blob blob then Inl Value_Error
      else Inr (from_bytes (take 4 (drop (length blob_magic) blob))))"

definition decrypt_blob :: "aead \<Rightarrow> bytes \<Rightarrow> bytes \<Rightarrow> crypto_error + bytes" where
  "decrypt_blob A blob dek =
     (if \<not> is_encrypted_blob blob then Inl Value_Error
      else let start = length blob_magic + 4; n = take 12 (drop start blob); ct = drop (start + 12) blob
           in some_or Invalid_Tag (unseal A dek n ct))"

section \<open>Reading back\<close>

lemma lit_simps [simp]: "lit [] = []" "lit (c # cs) = of_char c # lit cs"
  by (simp_all add: lit_def)

lemma digit_char_code: "d < 10 \<Longrightarrow> (of_char (digit_char d) :: nat) = 48 + d"
proof -
  assume "d < 10"
  then have "d \<in> {0, 1, 2, 3, 4, 5, 6, 7, 8, 9}" by auto
  then show ?thesis by (auto simp: digit_char_def)
qed

lemma show_nat_lit: "c \<in> set (lit (show_nat n)) \<Longrightarrow> 48 \<le> c \<and> c \<le> 57"
  by (auto simp: lit_def digit_char_code dest!: show_nat_chars)

lemma show_int_lit: "c \<in> set (lit (show_int n)) \<Longrightarrow> c < 58"
  using show_nat_lit by (fastforce simp: show_int_def split: if_splits)

lemma int_of_show: "0 \<le> n \<Longrightarrow> int_of_text (lit (show_int n)) = Some n"
proof -
  assume n: "0 \<le> n"
  have "\<forall>c\<in>set (lit (show_int n)). c < 128" using show_int_lit by fastforce
  moreover have "map char_of (lit (show_int n)) = show_int n" by (simp add: lit_def comp_def)
  ultimately show ?thesis using py_int_show_int [OF n] by (simp add: int_of_text_def)
qed

lemma envelope_split:
  "split_max 4 58 (marker @ lit '':'' @ format_version @ lit '':'' @ lit (show_int v) @ lit '':''
      @ b64e n @ lit '':'' @ b64e ct)
    = [marker, format_version, lit (show_int v), b64e n, b64e ct]"
proof -
  have "58 \<notin> set (lit (show_int v))" using show_int_lit by fastforce
  moreover have "58 \<notin> set marker" "58 \<notin> set format_version" by (simp_all add: marker_def format_version_def)
  moreover have "58 \<notin> set (b64e x)" for x using b64e_plain by blast
  ultimately show ?thesis by (simp add: split_max_sep split_max_plain del: split_max.simps)
qed

lemma from_bytes_to_bytes:
  "foldl (\<lambda>n b. n * 256 + uint b) s (int_to_bytes k n) = s * 256 ^ k + n mod 256 ^ k"
proof (induction k arbitrary: s)
  case (Suc k)
  have "uint (word_of_int (n div 256 ^ k) :: 8 word) = n div 256 ^ k mod 256"
    by (simp add: uint_word_of_int)
  moreover have "n mod 256 ^ Suc k = 256 ^ k * (n div 256 ^ k mod 256) + n mod 256 ^ k"
    using zmod_zmult2_eq [of 256 n "256 ^ k"] by (simp add: mult.commute)
  ultimately show ?case
    by (simp only: int_to_bytes.simps foldl_Cons Suc.IH) (simp add: algebra_simps)
qed simp

lemma length_int_to_bytes [simp]: "length (int_to_bytes k n) = k"
  by (induction k) simp_all

lemma seal_correct:
  assumes "aead_correct A" "length dek = dek_len" "length n = 12"
  obtains c where "seal A dek n m = Some c" "unseal A dek n c = Some m"
  using assms unfolding aead_correct_def dek_len_def by blast

lemma encrypt_form:
  assumes "encrypt A n p dek v = Inr x" "0 \<le> v"
  shows "is_encrypted x" "parse_version x = Inr v"
proof -
  obtain ct where x: "x = marker @ lit '':'' @ format_version @ lit '':'' @ lit (show_int v) @ lit '':''
      @ b64e n @ lit '':'' @ b64e ct"
    using assms(1) by (auto simp: encrypt_def sum_returns split: if_splits)
  show "is_encrypted x" by (simp add: x is_encrypted_def startswith_def)
  show "parse_version x = Inr v"
    by (simp only: x parse_version_def Let_def envelope_split) (simp add: int_of_show [OF assms(2)])
qed

section \<open>Properties\<close>

lemma encrypt_reads_back:
  assumes "aead_correct A" and "length dek = dek_len" and "length n = 12" and "0 \<le> v"
    and "utf8_encode p \<noteq> None"
  shows "\<exists>env. encrypt A n p dek v = Inr env \<and> is_encrypted env \<and> parse_version env = Inr v
    \<and> decrypt A env dek = Inr p"
proof -
  obtain raw where raw: "utf8_encode p = Some raw" using assms(5) by blast
  obtain ct where ct: "seal A dek n raw = Some ct" "unseal A dek n ct = Some raw"
    by (rule seal_correct [OF assms(1-3)])
  let ?env = "marker @ lit '':'' @ format_version @ lit '':'' @ lit (show_int v) @ lit '':''
      @ b64e n @ lit '':'' @ b64e ct"
  note split = envelope_split [of v n ct]
  have "encrypt A n p dek v = Inr ?env" using assms(2) raw ct(1) by (simp add: encrypt_def)
  moreover from encrypt_form [OF this assms(4)] have "is_encrypted ?env" "parse_version ?env = Inr v" .
  moreover have "decrypt A ?env dek = Inr p"
    by (simp only: decrypt_def split list.case) (simp add: b64_roundtrip ct(2) utf8_roundtrip [OF raw])
  ultimately show ?thesis by blast
qed

text \<open>
  The text envelope reads back. A text that UTF-8 can encode is encrypted under any version of a
  32-byte key; the result is recognised as an envelope, names its version, and decrypts to the text.
\<close>

theorem envelope_roundtrip:
  assumes "aead_correct A" and "length dek = dek_len" and "length n = 12" and "0 \<le> v"
    and "utf8_encode p \<noteq> None"
  shows "\<exists>env. encrypt A n p dek v = Inr env \<and> is_encrypted env \<and> parse_version env = Inr v
    \<and> decrypt A env dek = Inr p"
  using assms by (rule encrypt_reads_back)

definition toy_aead :: aead where
  "toy_aead = \<lparr>seal = (\<lambda>k n m. Some (m @ n)), unseal = (\<lambda>k n c.
     if length n \<le> length c \<and> drop (length c - length n) c = n then Some (take (length c - length n) c)
     else None)\<rparr>"

lemma toy_aead_correct: "aead_correct toy_aead"
  by (simp add: aead_correct_def toy_aead_def)

theorem envelope_roundtrip_witness:
  "\<exists>env. encrypt toy_aead (replicate 12 7) (lit ''hello'') (replicate 32 9) 3 = Inr env
     \<and> decrypt toy_aead env (replicate 32 9) = Inr (lit ''hello'')"
  using envelope_roundtrip [OF toy_aead_correct, of "replicate 32 9" "replicate 12 7" 3 "lit ''hello''"]
  by (auto simp: dek_len_def utf8_encode_def utf8_char_def)

lemma blob_reads_back:
  assumes "aead_correct A" and "length dek = dek_len" and "length n = 12"
  shows "if 0 \<le> v \<and> v < 2 ^ 32
    then \<exists>c blob. seal A dek n p = Some c \<and> encrypt_blob A n p dek v = Inr blob \<and> is_encrypted_blob blob
      \<and> length blob = length c + 22 \<and> parse_blob_version blob = Inr v \<and> decrypt_blob A blob dek = Inr p
    else encrypt_blob A n p dek v = Inl Overflow_Error"
proof -
  obtain ct where ct: "seal A dek n p = Some ct" "unseal A dek n ct = Some p"
    by (rule seal_correct [OF assms])
  let ?blob = "blob_magic @ int_to_bytes 4 v @ n @ ct"
  have eq: "encrypt_blob A n p dek v = (if 0 \<le> v \<and> v < 2 ^ 32 then Inr ?blob else Inl Overflow_Error)"
    using assms(2) ct(1) by (simp add: encrypt_blob_def to_bytes_def)
  show ?thesis
  proof (cases "0 \<le> v \<and> v < 2 ^ 32")
    case True
    have "length blob_magic = 6" by (simp add: blob_magic_def)
    moreover from this have magic: "is_encrypted_blob ?blob" by (simp add: is_encrypted_blob_def)
    moreover have "from_bytes (int_to_bytes 4 v) = v"
      using True from_bytes_to_bytes [of 0 4 v] by (simp add: from_bytes_def)
    ultimately show ?thesis
      using True eq ct assms(3) by (simp add: parse_blob_version_def decrypt_blob_def)
  next
    case False
    then show ?thesis by (simp only: eq if_False)
  qed
qed

text \<open>
  The binary envelope reads back, and its version field has four bytes. A version from 0 to
  \<open>2^32 - 1\<close> is written and read back, the blob is 22 bytes longer than the ciphertext and decrypts to
  the plaintext; any other version is an overflow error.
\<close>

theorem blob_roundtrip:
  assumes "aead_correct A" and "length dek = dek_len" and "length n = 12"
  shows "if 0 \<le> v \<and> v < 2 ^ 32
    then \<exists>c blob. seal A dek n p = Some c \<and> encrypt_blob A n p dek v = Inr blob \<and> is_encrypted_blob blob
      \<and> length blob = length c + 22 \<and> parse_blob_version blob = Inr v \<and> decrypt_blob A blob dek = Inr p
    else encrypt_blob A n p dek v = Inl Overflow_Error"
  using assms by (rule blob_reads_back)

theorem blob_roundtrip_witness:
  "(\<exists>blob. encrypt_blob toy_aead (replicate 12 7) [1, 2, 3] (replicate 32 9) 258 = Inr blob
      \<and> parse_blob_version blob = Inr 258 \<and> decrypt_blob toy_aead blob (replicate 32 9) = Inr [1, 2, 3])
   \<and> encrypt_blob toy_aead (replicate 12 7) [1, 2, 3] (replicate 32 9) (2 ^ 32) = Inl Overflow_Error"
  using blob_roundtrip [OF toy_aead_correct, of "replicate 32 9" "replicate 12 7" 258 "[1, 2, 3]"]
    blob_roundtrip [OF toy_aead_correct, of "replicate 32 9" "replicate 12 7" "2 ^ 32" "[1, 2, 3]"]
  by (auto simp: dek_len_def)

end
