(* ===== verification/Encryption.thy ===== *)
theory Encryption
  imports Envelope
begin

text \<open>
  Encryption at rest (\<open>crypto/service.py\<close>, \<open>crypto/state.py\<close>, \<open>crypto/types.py\<close>, the static provider
  of \<open>crypto/providers.py\<close>): the cache of data-encryption keys (DEKs) a process holds, the table of
  wrapped keys, and the life of both: the first start that mints a key, restarts, rotation, and the
  refresh by which a process learns the keys others minted.

  A key-encryption provider (\<open>kek\<close>) wraps and unwraps DEKs. The static one is modelled; Vault and AWS
  are the fields \<open>vault_kek\<close> and \<open>kms_kek\<close> of the settings, which stand for their HTTP clients.
  What the code draws from \<open>os.urandom\<close> is the argument \<open>draws\<close>. \<open>keyring\<close> is what one process sees: the
  table \<open>crypto_keys\<close> and its own service object, \<open>None\<close> before anything asked for it.
\<close>

section \<open>The service object\<close>

record enc_service =
  es_enabled :: bool
  es_deks :: "(int \<times> bytes) list"
  es_active :: "int option"
  es_provider :: string
  es_canary_ok :: bool

definition new_service :: enc_service where
  "new_service = \<lparr>es_enabled = False, es_deks = [], es_active = None, es_provider = [], es_canary_ok = True\<rparr>"

record enc_status =
  st_enabled :: bool
  st_provider :: string
  st_active :: "int option"
  st_versions :: "int list"
  st_canary_ok :: bool
  st_decryptable :: bool

definition service_status :: "enc_service \<Rightarrow> enc_status" where
  "service_status s =
     \<lparr>st_enabled = es_enabled s, st_provider = es_provider s, st_active = es_active s,
      st_versions = sort (remdups (map fst (es_deks s))), st_canary_ok = es_canary_ok s,
      st_decryptable = (es_canary_ok s \<and> (\<not> es_enabled s \<or> es_active s \<noteq> None))\<rparr>"

definition encrypt_value :: "aead \<Rightarrow> bytes \<Rightarrow> enc_service \<Rightarrow> pystr \<Rightarrow> crypto_error + pystr" where
  "encrypt_value A n s plaintext =
     (case es_active s of
        None \<Rightarrow> Inr plaintext
      | Some v \<Rightarrow>
          if \<not> es_enabled s then Inr plaintext
          else bind_sum (some_or Key_Error (map_of (es_deks s) v)) (\<lambda>dek. encrypt A n plaintext dek v))"

definition decrypt_value :: "aead \<Rightarrow> enc_service \<Rightarrow> pystr \<Rightarrow> crypto_error + pystr" where
  "decrypt_value A s stored =
     (if \<not> is_encrypted stored then Inr stored
      else bind_sum (parse_version stored) (\<lambda>version.
           case map_of (es_deks s) version of
             None \<Rightarrow> Inl (No_Dek version)
           | Some dek \<Rightarrow> decrypt A stored dek))"

definition state_encryption_active :: "enc_service \<Rightarrow> bool" where
  "state_encryption_active s = (es_enabled s \<and> es_active s \<noteq> None)"

definition encrypt_state :: "aead \<Rightarrow> bytes \<Rightarrow> enc_service \<Rightarrow> bytes \<Rightarrow> crypto_error + bytes" where
  "encrypt_state A n s data =
     (if \<not> state_encryption_active s then Inr data
      else let v = the (es_active s)
           in bind_sum (some_or Key_Error (map_of (es_deks s) v)) (\<lambda>dek. encrypt_blob A n data dek v))"

definition decrypt_state :: "aead \<Rightarrow> enc_service \<Rightarrow> bytes \<Rightarrow> crypto_error + bytes" where
  "decrypt_state A s blob =
     (if \<not> is_encrypted_blob blob then Inr blob
      else bind_sum (parse_blob_version blob) (\<lambda>version.
           case map_of (es_deks s) version of
             None \<Rightarrow> Inl (No_Dek version)
           | Some dek \<Rightarrow> decrypt_blob A blob dek))"

text \<open>The wrappers of \<open>crypto/state.py\<close>, which every read and write of a state file uses.\<close>

definition encrypt_state_bytes :: "aead \<Rightarrow> bytes \<Rightarrow> enc_service \<Rightarrow> bytes \<Rightarrow> crypto_error + bytes" where
  "encrypt_state_bytes A n s data =
     (if \<not> state_encryption_active s then Inr data else encrypt_state A n s data)"

definition decrypt_state_bytes :: "aead \<Rightarrow> enc_service \<Rightarrow> bytes \<Rightarrow> crypto_error + bytes" where
  "decrypt_state_bytes A s blob =
     (if \<not> is_encrypted_blob blob then Inr blob else decrypt_state A s blob)"

text \<open>The column type \<open>EncryptedText\<close>: nulls stay nulls.\<close>

definition bind_param :: "aead \<Rightarrow> bytes \<Rightarrow> enc_service \<Rightarrow> pystr option \<Rightarrow> crypto_error + pystr option" where
  "bind_param A n s value =
     (case value of None \<Rightarrow> Inr None | Some v \<Rightarrow> bind_sum (encrypt_value A n s v) (\<lambda>x. Inr (Some x)))"

definition result_value :: "aead \<Rightarrow> enc_service \<Rightarrow> pystr option \<Rightarrow> crypto_error + pystr option" where
  "result_value A s value =
     (case value of None \<Rightarrow> Inr None | Some v \<Rightarrow> bind_sum (decrypt_value A s v) (\<lambda>x. Inr (Some x)))"

section \<open>What the users of the service rely on\<close>

text \<open>
  A value at rest: written as it is while encryption is off; under a usable key it becomes a marked
  value that reads back; an unmarked value reads as itself; and reading depends on the keys alone. The
  columns and the state files are the two instances.
\<close>

locale at_rest =
  fixes active :: "'s \<Rightarrow> bool" and usable :: "'s \<Rightarrow> 'n \<Rightarrow> 'v \<Rightarrow> bool" and keys :: "'s \<Rightarrow> 'k"
    and enc :: "'n \<Rightarrow> 's \<Rightarrow> 'v \<Rightarrow> crypto_error + 'v" and dec :: "'s \<Rightarrow> 'v \<Rightarrow> crypto_error + 'v"
    and marked :: "'v \<Rightarrow> bool"
  assumes enc_off: "\<not> active s \<Longrightarrow> enc n s x = Inr x"
    and enc_on: "active s \<Longrightarrow> usable s n x \<Longrightarrow> \<exists>y. enc n s x = Inr y \<and> marked y \<and> dec s y = Inr x"
    and dec_plain: "\<not> marked x \<Longrightarrow> dec s x = Inr x"
    and dec_keys: "keys s = keys s' \<Longrightarrow> dec s y = dec s' y"
begin

text \<open>What one process writes, every process with the same keys reads, whatever its own setting.\<close>

lemma written_reads_back:
  assumes "\<not> marked x" and "active s \<Longrightarrow> usable s n x" and "keys s' = keys s"
  obtains y where "enc n s x = Inr y" and "dec s' y = Inr x"
proof (cases "active s")
  case True
  with assms(2) obtain y where "enc n s x = Inr y" "dec s y = Inr x" using enc_on by blast
  with assms(3) dec_keys [of s' s y] that show ?thesis by simp
next
  case False
  with assms(1) that show ?thesis using enc_off dec_plain by blast
qed

end

definition usable_key :: "enc_service \<Rightarrow> bool" where
  "usable_key s =
     (case es_active s of None \<Rightarrow> False
      | Some v \<Rightarrow> 0 \<le> v \<and> v < 2 ^ 32 \<and> map_option length (map_of (es_deks s) v) = Some dek_len)"

lemma usable_keyD:
  assumes "usable_key s"
  obtains v dek where "es_active s = Some v" "0 \<le> v" "v < 2 ^ 32" "map_of (es_deks s) v = Some dek"
    "length dek = dek_len"
  using assms by (auto simp: usable_key_def split: option.splits)

interpretation state_files: at_rest state_encryption_active
    "\<lambda>s n x. aead_correct A \<and> length n = 12 \<and> usable_key s" es_deks
    "encrypt_state_bytes A" "decrypt_state_bytes A" is_encrypted_blob for A
proof unfold_locales
  fix s and n :: bytes and x
  assume on: "state_encryption_active s" and ok: "aead_correct A \<and> length n = 12 \<and> usable_key s"
  obtain v dek where k: "es_active s = Some v" "0 \<le> v" "v < 2 ^ 32" "map_of (es_deks s) v = Some dek"
      "length dek = dek_len"
    using ok usable_keyD by blast
  then obtain y where "encrypt_blob A n x dek v = Inr y" "is_encrypted_blob y" "parse_blob_version y = Inr v"
      "decrypt_blob A y dek = Inr x"
    using ok blob_reads_back [of A dek n v x] by auto
  with on k show "\<exists>y. encrypt_state_bytes A n s x = Inr y \<and> is_encrypted_blob y \<and> decrypt_state_bytes A s y = Inr x"
    by (auto simp: encrypt_state_bytes_def encrypt_state_def decrypt_state_bytes_def decrypt_state_def)
qed (simp_all add: encrypt_state_bytes_def decrypt_state_bytes_def decrypt_state_def)

interpretation text_columns: at_rest state_encryption_active
    "\<lambda>s n x. aead_correct A \<and> length n = 12 \<and> usable_key s \<and> utf8_encode x \<noteq> None" es_deks
    "encrypt_value A" "decrypt_value A" is_encrypted for A
proof unfold_locales
  fix s and n :: bytes and x
  assume on: "state_encryption_active s"
    and ok: "aead_correct A \<and> length n = 12 \<and> usable_key s \<and> utf8_encode x \<noteq> None"
  obtain v dek where k: "es_active s = Some v" "0 \<le> v" "map_of (es_deks s) v = Some dek" "length dek = dek_len"
    using ok usable_keyD by blast
  then obtain y where "encrypt A n x dek v = Inr y" "is_encrypted y" "parse_version y = Inr v"
      "decrypt A y dek = Inr x"
    using ok encrypt_reads_back [of A dek n v x] by auto
  with on k show "\<exists>y. encrypt_value A n s x = Inr y \<and> is_encrypted y \<and> decrypt_value A s y = Inr x"
    by (auto simp: encrypt_value_def decrypt_value_def state_encryption_active_def)
qed (auto simp: encrypt_value_def decrypt_value_def state_encryption_active_def split: option.split)

section \<open>Providers\<close>

record kek =
  kek_id :: string
  kek_wrap :: "bytes \<Rightarrow> bytes \<Rightarrow> crypto_error + pystr"
  kek_unwrap :: "pystr \<Rightarrow> crypto_error + bytes"

definition static_wrap :: "aead \<Rightarrow> bytes \<Rightarrow> bytes \<Rightarrow> bytes \<Rightarrow> crypto_error + pystr" where
  "static_wrap A key n dek =
     bind_sum (some_or Value_Error (seal A key n dek)) (\<lambda>ct. Inr (b64e n @ lit ''.'' @ b64e ct))"

definition static_unwrap :: "aead \<Rightarrow> bytes \<Rightarrow> pystr \<Rightarrow> crypto_error + bytes" where
  "static_unwrap A key wrapped =
     (case split_max 1 46 wrapped of
        [nonce_b64, ct_b64] \<Rightarrow>
          bind_sum (some_or Value_Error (b64d nonce_b64)) (\<lambda>n.
          bind_sum (some_or Value_Error (b64d ct_b64)) (\<lambda>ct. some_or Invalid_Tag (unseal A key n ct)))
      | _ \<Rightarrow> Inl Value_Error)"

definition static_provider :: "aead \<Rightarrow> (bytes \<Rightarrow> bytes) \<Rightarrow> pystr \<Rightarrow> crypto_error + kek" where
  "static_provider A sha256 master_secret =
     (if master_secret = [] then Inl Value_Error
      else bind_sum (some_or Unicode_Error (utf8_encode master_secret)) (\<lambda>raw.
        Inr \<lparr>kek_id = ''static'', kek_wrap = static_wrap A (sha256 raw),
             kek_unwrap = static_unwrap A (sha256 raw)\<rparr>))"

record crypto_env =
  ce_aead :: aead
  ce_sha256 :: "bytes \<Rightarrow> bytes"
  ce_enabled :: bool
  ce_backend :: string
  ce_static_key :: pystr
  ce_vault_address :: string
  ce_vault_key_name :: string
  ce_vault_token :: string
  ce_vault :: kek
  ce_kms_key_id :: string
  ce_kms :: kek

definition build_provider :: "crypto_env \<Rightarrow> crypto_error + kek" where
  "build_provider cfg =
     (if ce_backend cfg = ''static'' then static_provider (ce_aead cfg) (ce_sha256 cfg) (ce_static_key cfg)
      else if ce_backend cfg = ''vault_transit'' then
        (if ce_vault_address cfg = [] \<or> ce_vault_key_name cfg = [] \<or> ce_vault_token cfg = []
         then Inl Value_Error else Inr (ce_vault cfg))
      else if ce_backend cfg = ''awskms'' then
        (if ce_kms_key_id cfg = [] then Inl Value_Error else Inr (ce_kms cfg))
      else Inl Value_Error)"

section \<open>Loading keys\<close>

record key_row =
  ck_version :: int
  ck_wrapped :: pystr
  ck_provider :: string
  ck_canary :: pystr
  ck_active :: bool

record keyring =
  key_rows :: "key_row list"
  svc :: "enc_service option"

record draws =
  dr_dek :: bytes
  dr_wrap :: bytes
  dr_canary :: bytes

definition canary_text :: pystr where
  "canary_text = lit ''terrapod-encryption-canary-v1''"

definition get_encryption :: "keyring \<Rightarrow> enc_service" where
  "get_encryption k = (case svc k of None \<Rightarrow> new_service | Some s \<Rightarrow> s)"

text \<open>A new key, proved usable before it is stored: wrap, unwrap, compare, and encrypt the canary.\<close>

definition mint_key :: "aead \<Rightarrow> kek \<Rightarrow> draws \<Rightarrow> int \<Rightarrow> crypto_error + key_row" where
  "mint_key A p d version =
     bind_sum (kek_wrap p (dr_wrap d) (dr_dek d)) (\<lambda>wrapped.
     bind_sum (kek_unwrap p wrapped) (\<lambda>back.
       if back \<noteq> dr_dek d then Inl Wrap_Mismatch
       else bind_sum (encrypt A (dr_canary d) canary_text (dr_dek d) version) (\<lambda>canary.
         Inr \<lparr>ck_version = version, ck_wrapped = wrapped, ck_provider = kek_id p, ck_canary = canary,
              ck_active = True\<rparr>)))"

fun unwrap_all :: "kek \<Rightarrow> key_row list \<Rightarrow> enc_service \<Rightarrow> (crypto_error, unit, enc_service) res" where
  "unwrap_all p [] s = Ret () s"
| "unwrap_all p (r # rs) s =
     (case kek_unwrap p (ck_wrapped r) of
        Inl e \<Rightarrow> Raise e s
      | Inr dek \<Rightarrow>
          let s1 = s\<lparr>es_deks := AList.update (ck_version r) dek (es_deks s)\<rparr>
          in unwrap_all p rs (if ck_active r then s1\<lparr>es_active := Some (ck_version r)\<rparr> else s1))"

definition check_canary ::
    "aead \<Rightarrow> key_row list \<Rightarrow> enc_service \<Rightarrow> (crypto_error, unit, enc_service) res" where
  "check_canary A rows s =
     (let unproved = Ret () (if rows \<noteq> [] then s\<lparr>es_canary_ok := False\<rparr> else s)
      in case find (\<lambda>r. Some (ck_version r) = es_active s) rows of
           None \<Rightarrow> unproved
         | Some r \<Rightarrow>
             if ck_canary r = [] then unproved
             else case decrypt_value A s (ck_canary r) of
               Inl e \<Rightarrow> Raise e s
             | Inr t \<Rightarrow> if t \<noteq> canary_text then Raise Canary_Mismatch s
                        else Ret () (s\<lparr>es_canary_ok := True\<rparr>))"

definition load_keys ::
    "crypto_env \<Rightarrow> kek \<Rightarrow> draws \<Rightarrow> key_row list \<times> enc_service
      \<Rightarrow> (crypto_error, unit, key_row list \<times> enc_service) res" where
  "load_keys cfg p d = (\<lambda>(rows, s).
     case (if rows = [] \<and> ce_enabled cfg
           then bind_sum (mint_key (ce_aead cfg) p d 1) (\<lambda>row. Inr [row]) else Inr rows) of
       Inl e \<Rightarrow> Raise e (rows, s)
     | Inr rows1 \<Rightarrow>
         (case bind_res (unwrap_all p rows1 (s\<lparr>es_provider := kek_id p\<rparr>)) (\<lambda>_ s1.
                 let s2 = (if es_active s1 = None then s1\<lparr>es_active := max_of (map ck_version rows1)\<rparr> else s1)
                 in check_canary (ce_aead cfg) rows1 (s2\<lparr>es_enabled := ce_enabled cfg\<rparr>)) of
            Ret _ s3 \<Rightarrow> Ret () (rows1, s3)
          | Raise e s3 \<Rightarrow> Raise e (rows1, s3)))"

section \<open>The life of the keys\<close>

text \<open>
  A failure while encryption is enabled stops the process; while it is disabled and keys exist, the
  process runs on with a service that reports itself unable to decrypt.
\<close>

definition init_encryption ::
    "crypto_env \<Rightarrow> draws \<Rightarrow> keyring \<Rightarrow> (crypto_error, unit, keyring) res" where
  "init_encryption cfg d k =
     (let rows = key_rows k;
          failed = (\<lambda>e rows1 s.
            if ce_enabled cfg then Raise e (k\<lparr>key_rows := rows1\<rparr>)
            else if rows \<noteq> [] then
              Ret () \<lparr>key_rows = rows1, svc = Some (s\<lparr>es_enabled := False, es_canary_ok := False\<rparr>)\<rparr>
            else Raise e (k\<lparr>key_rows := rows1\<rparr>))
      in if \<not> ce_enabled cfg \<and> rows = [] then Ret () (k\<lparr>svc := Some new_service\<rparr>)
         else case build_provider cfg of
           Inl e \<Rightarrow> failed e rows new_service
         | Inr p \<Rightarrow>
             (case load_keys cfg p d (rows, new_service) of
                Ret _ (rows1, s) \<Rightarrow> Ret () \<lparr>key_rows = rows1, svc = Some s\<rparr>
              | Raise e (rows1, s) \<Rightarrow> failed e rows1 s))"

definition rotate_dek :: "crypto_env \<Rightarrow> draws \<Rightarrow> keyring \<Rightarrow> (crypto_error, int, keyring) res" where
  "rotate_dek cfg d k =
     (let s = get_encryption k; k1 = k\<lparr>svc := Some s\<rparr>
      in if \<not> es_enabled s \<or> es_active s = None then Raise Not_Enabled k1
         else case build_provider cfg of
           Inl e \<Rightarrow> Raise e k1
         | Inr p \<Rightarrow>
             let new_version = (case max_of (map ck_version (key_rows k)) of None \<Rightarrow> 0 | Some m \<Rightarrow> m) + 1
             in case mint_key (ce_aead cfg) p d new_version of
                  Inl e \<Rightarrow> Raise e k1
                | Inr row \<Rightarrow>
                    Ret new_version
                      \<lparr>key_rows = map (\<lambda>r. r\<lparr>ck_active := False\<rparr>) (key_rows k) @ [row],
                       svc = Some (s\<lparr>es_deks := AList.update new_version (dr_dek d) (es_deks s),
                                     es_active := Some new_version\<rparr>)\<rparr>)"

definition refresh_keys :: "crypto_env \<Rightarrow> draws \<Rightarrow> keyring \<Rightarrow> keyring" where
  "refresh_keys cfg d k =
     (let rows = key_rows k
      in if \<not> ce_enabled cfg \<or> rows = [] then k
         else
           let current = get_encryption k; k1 = k\<lparr>svc := Some current\<rparr>;
               active_ver = map_option ck_version (find ck_active rows)
           in if list_all (\<lambda>r. map_of (es_deks current) (ck_version r) \<noteq> None) rows
                 \<and> (active_ver = None \<or> es_active current = active_ver)
              then k1
              else case bind_sum (build_provider cfg) (\<lambda>p.
                     case load_keys cfg p d (rows, new_service) of
                       Ret _ (rows1, s) \<Rightarrow> Inr (rows1, s)
                     | Raise e _ \<Rightarrow> Inl e) of
                Inl e \<Rightarrow> k1
              | Inr (rows1, s) \<Rightarrow> \<lparr>key_rows = rows1, svc = Some s\<rparr>)"

text \<open>The operator's drill: unwrap every stored key now and read its canary.\<close>

record live_report =
  lr_ok :: bool
  lr_enabled :: bool
  lr_provider :: "string option"
  lr_checked :: "int list"
  lr_failures :: "int list"

definition row_decrypts :: "aead \<Rightarrow> kek \<Rightarrow> key_row \<Rightarrow> bool \<times> bool" where
  "row_decrypts A p r =
     (case kek_unwrap p (ck_wrapped r) of
        Inl _ \<Rightarrow> (False, False)
      | Inr dek \<Rightarrow>
          if ck_canary r = [] then (True, True)
          else case decrypt A (ck_canary r) dek of
            Inl _ \<Rightarrow> (False, False)
          | Inr t \<Rightarrow> (True, t = canary_text))"

definition verify_live :: "crypto_env \<Rightarrow> keyring \<Rightarrow> crypto_error + live_report" where
  "verify_live cfg k =
     (if key_rows k = [] then
        Inr \<lparr>lr_ok = True, lr_enabled = ce_enabled cfg, lr_provider = None, lr_checked = [], lr_failures = []\<rparr>
      else bind_sum (build_provider cfg) (\<lambda>p.
        let outcome = row_decrypts (ce_aead cfg) p;
            failures = filter (\<lambda>r. \<not> snd (outcome r)) (key_rows k)
        in Inr \<lparr>lr_ok = (failures = []), lr_enabled = ce_enabled cfg, lr_provider = Some (kek_id p),
                lr_checked = sort (map ck_version (filter (\<lambda>r. fst (outcome r)) (key_rows k))),
                lr_failures = map ck_version failures\<rparr>))"

section \<open>Migrating a column\<close>

text \<open>
  \<open>cli/encryption_migrate.py\<close>: a column is a list of row ids and nullable values, \<open>committed\<close> what the
  database keeps and \<open>working\<close> what the transaction sees. An exception rolls back to the last commit.
\<close>

datatype migrate_mode = To_Encrypted | To_Plaintext

type_synonym column = "(nat \<times> pystr option) list"

record column_tx =
  committed :: column
  working :: column

definition plan_row ::
    "aead \<Rightarrow> bytes \<Rightarrow> migrate_mode \<Rightarrow> enc_service \<Rightarrow> pystr \<Rightarrow> crypto_error + (pystr \<times> pystr) option" where
  "plan_row A n mode s stored =
     (case mode of
        To_Encrypted \<Rightarrow>
          bind_sum (if is_encrypted stored then bind_sum (parse_version stored) (\<lambda>v. Inr (Some v)) else Inr None)
            (\<lambda>v. if is_encrypted stored \<and> v = es_active s then Inr None
                 else bind_sum (decrypt_value A s stored) (\<lambda>plaintext.
                      bind_sum (encrypt_value A n s plaintext) (\<lambda>new. Inr (Some (new, plaintext)))))
      | To_Plaintext \<Rightarrow>
          if \<not> is_encrypted stored then Inr None
          else bind_sum (decrypt_value A s stored) (\<lambda>plaintext. Inr (Some (plaintext, plaintext))))"

definition write_column :: "nat \<Rightarrow> pystr \<Rightarrow> column \<Rightarrow> column" where
  "write_column i new = map (\<lambda>(j, v). if j = i then (j, Some new) else (j, v))"

definition read_column :: "nat \<Rightarrow> column \<Rightarrow> pystr option" where
  "read_column i col = (case map_of col i of Some v \<Rightarrow> v | None \<Rightarrow> None)"

definition batch_size :: nat where
  "batch_size = 200"

fun migrate_rows ::
    "aead \<Rightarrow> (nat \<Rightarrow> bytes) \<Rightarrow> migrate_mode \<Rightarrow> enc_service \<Rightarrow> (nat \<times> pystr) list \<Rightarrow> nat \<times> nat \<Rightarrow> column_tx
      \<Rightarrow> (crypto_error, nat \<times> nat, column_tx) res" where
  "migrate_rows A nonces mode s [] counts tx = Ret counts (tx\<lparr>committed := working tx\<rparr>)"
| "migrate_rows A nonces mode s ((i, stored) # rest) (rewritten, skipped) tx =
     (let rolled_back = tx\<lparr>working := committed tx\<rparr>
      in case plan_row A (nonces i) mode s stored of
           Inl e \<Rightarrow> Raise e rolled_back
         | Inr None \<Rightarrow> migrate_rows A nonces mode s rest (rewritten, Suc skipped) tx
         | Inr (Some (new, plaintext)) \<Rightarrow>
             let tx1 = tx\<lparr>working := write_column i new (working tx)\<rparr>;
                 check = the (read_column i (working tx1))
             in case (if is_encrypted check then decrypt_value A s check else Inr check) of
                  Inl e \<Rightarrow> Raise e rolled_back
                | Inr readback \<Rightarrow>
                    if readback \<noteq> plaintext then Raise Readback_Failed rolled_back
                    else migrate_rows A nonces mode s rest (Suc rewritten, skipped)
                      (if Suc rewritten mod batch_size = 0 then tx1\<lparr>committed := working tx1\<rparr> else tx1))"

definition migrate_column ::
    "aead \<Rightarrow> (nat \<Rightarrow> bytes) \<Rightarrow> migrate_mode \<Rightarrow> enc_service \<Rightarrow> column
      \<Rightarrow> (crypto_error, nat \<times> nat, column_tx) res" where
  "migrate_column A nonces mode s col =
     migrate_rows A nonces mode s
       (List.map_filter (\<lambda>(i, v). case v of None \<Rightarrow> None | Some x \<Rightarrow> if x = [] then None else Some (i, x)) col)
       (0, 0) \<lparr>committed = col, working = col\<rparr>"

fun migrate_columns ::
    "aead \<Rightarrow> (nat \<Rightarrow> nat \<Rightarrow> bytes) \<Rightarrow> migrate_mode \<Rightarrow> enc_service \<Rightarrow> nat \<Rightarrow> column list
      \<Rightarrow> (crypto_error, unit, column list) res" where
  "migrate_columns A nonces mode s c [] = Ret () []"
| "migrate_columns A nonces mode s c (col # cols) =
     (case migrate_column A (nonces c) mode s col of
        Raise e tx \<Rightarrow> Raise e (committed tx # cols)
      | Ret _ tx \<Rightarrow>
          (case migrate_columns A nonces mode s (Suc c) cols of
             Ret u cols1 \<Rightarrow> Ret u (committed tx # cols1)
           | Raise e cols1 \<Rightarrow> Raise e (committed tx # cols1)))"

definition encrypted_columns :: "(string \<times> string) list" where
  "encrypted_columns =
     [(''certificate_authority'', ''ca_key_pem''), (''variables'', ''value''),
      (''variable_set_variables'', ''value''), (''vcs_connections'', ''token''),
      (''vcs_connections'', ''webhook_secret''), (''notification_configurations'', ''token'')]"

definition migrate ::
    "crypto_env \<Rightarrow> draws \<Rightarrow> (nat \<Rightarrow> nat \<Rightarrow> bytes) \<Rightarrow> migrate_mode \<Rightarrow> (string \<times> string \<Rightarrow> column)
      \<Rightarrow> keyring \<Rightarrow> (crypto_error, unit, keyring \<times> column list) res" where
  "migrate cfg d nonces mode database k =
     (let cols = map database encrypted_columns
      in case init_encryption cfg d k of
           Raise e k1 \<Rightarrow> Raise e (k1, cols)
         | Ret _ k1 \<Rightarrow>
             (let s = get_encryption k1
              in if mode = To_Encrypted \<and> (\<not> es_enabled s \<or> es_active s = None) then Raise Not_Enabled (k1, cols)
                 else if mode = To_Plaintext \<and> es_deks s = [] then Raise Not_Enabled (k1, cols)
                 else case migrate_columns (ce_aead cfg) nonces mode s 0 cols of
                   Ret u cols1 \<Rightarrow> Ret u (k1, cols1)
                 | Raise e cols1 \<Rightarrow> Raise e (k1, cols1)))"

end
