(* ===== verification/KeyLifecycle.thy ===== *)
theory KeyLifecycle
  imports Encryption
begin

text \<open>
  What encryption at rest promises. A cluster is the key table and the service object of every server
  process; processes start, rotate and refresh in any order, with any settings and any failing
  provider, as long as a provider that unwraps a key unwraps it to what it was (\<open>honest\<close>). The
  invariant \<open>cluster_sound\<close> ties every cached key to its row; from it follow that no value written by
  any process is lost, and what start, rotation and migration do when something fails.
\<close>

section \<open>One value\<close>

lemma encrypt_len: "encrypt A n p dek v = Inr x \<Longrightarrow> length dek = dek_len"
  by (simp add: encrypt_def split: if_splits)

lemma sealed_reads:
  assumes "encrypt A n p dek v = Inr x" "aead_correct A" "length n = 12" "0 \<le> v"
  shows "is_encrypted x" "parse_version x = Inr v" "decrypt A x dek = Inr p"
proof -
  have "utf8_encode p \<noteq> None" using assms(1) by (auto simp: encrypt_def sum_returns split: if_splits)
  from envelope_roundtrip [OF assms(2) encrypt_len [OF assms(1)] assms(3,4) this] assms(1)
  show "is_encrypted x" "parse_version x = Inr v" "decrypt A x dek = Inr p" by auto
qed

section \<open>The cluster\<close>

definition honest :: "(pystr \<Rightarrow> bytes option) \<Rightarrow> aead \<Rightarrow> crypto_env \<Rightarrow> bool" where
  "honest U A cfg \<longleftrightarrow> ce_aead cfg = A \<and> (\<forall>p w dek. build_provider cfg = Inr p \<longrightarrow> kek_unwrap p w = Inr dek
     \<longrightarrow> U w = Some dek)"

record cluster =
  cl_rows :: "key_row list"
  cl_procs :: "nat \<Rightarrow> enc_service option"

definition view :: "cluster \<Rightarrow> nat \<Rightarrow> keyring" where
  "view c i = \<lparr>key_rows = cl_rows c, svc = cl_procs c i\<rparr>"

definition on_process :: "nat \<Rightarrow> (keyring \<Rightarrow> keyring) \<Rightarrow> cluster \<Rightarrow> cluster" where
  "on_process i f c =
     (let k = f (view c i) in \<lparr>cl_rows = key_rows k, cl_procs = (cl_procs c)(i := svc k)\<rparr>)"

definition start_process :: "crypto_env \<Rightarrow> draws \<Rightarrow> keyring \<Rightarrow> keyring" where
  "start_process cfg d k = res_state (init_encryption cfg d (k\<lparr>svc := None\<rparr>))"

inductive key_step :: "(pystr \<Rightarrow> bytes option) \<Rightarrow> aead \<Rightarrow> cluster \<Rightarrow> cluster \<Rightarrow> bool" for U A where
  start: "honest U A cfg \<Longrightarrow> key_step U A c (on_process i (start_process cfg d) c)"
| rotate: "honest U A cfg \<Longrightarrow> key_step U A c (on_process i (\<lambda>k. res_state (rotate_dek cfg d k)) c)"
| refresh: "honest U A cfg \<Longrightarrow> key_step U A c (on_process i (refresh_keys cfg d) c)"

definition keys_sound :: "(pystr \<Rightarrow> bytes option) \<Rightarrow> key_row list \<Rightarrow> bool" where
  "keys_sound U rows \<longleftrightarrow> distinct (map ck_version rows)
     \<and> (\<forall>r\<in>set rows. 1 \<le> ck_version r \<and> (\<exists>dek. U (ck_wrapped r) = Some dek \<and> length dek = dek_len))"

definition cache_sound :: "(pystr \<Rightarrow> bytes option) \<Rightarrow> key_row list \<Rightarrow> enc_service \<Rightarrow> bool" where
  "cache_sound U rows s \<longleftrightarrow> (\<forall>v dek. map_of (es_deks s) v = Some dek \<longrightarrow>
     (\<exists>r\<in>set rows. ck_version r = v \<and> U (ck_wrapped r) = Some dek))
     \<and> (\<forall>v. es_active s = Some v \<longrightarrow> map_of (es_deks s) v \<noteq> None)"

definition covers :: "key_row list \<Rightarrow> enc_service \<Rightarrow> bool" where
  "covers rows s \<longleftrightarrow> (\<forall>r\<in>set rows. map_of (es_deks s) (ck_version r) \<noteq> None)"

definition cluster_sound :: "(pystr \<Rightarrow> bytes option) \<Rightarrow> cluster \<Rightarrow> bool" where
  "cluster_sound U c \<longleftrightarrow> keys_sound U (cl_rows c) \<and> (\<forall>i s. cl_procs c i = Some s \<longrightarrow> cache_sound U (cl_rows c) s)"

definition extends :: "key_row list \<Rightarrow> key_row list \<Rightarrow> bool" where
  "extends rows rows' \<longleftrightarrow> (\<forall>r\<in>set rows. \<exists>r'\<in>set rows'. ck_version r' = ck_version r \<and> ck_wrapped r' = ck_wrapped r)"

lemma extends_refl [simp]: "extends rows rows"
  by (auto simp: extends_def)

lemma extends_trans: "extends a b \<Longrightarrow> extends b c \<Longrightarrow> extends a c"
  unfolding extends_def by metis

lemma cache_sound_extends: "cache_sound U rows s \<Longrightarrow> extends rows rows' \<Longrightarrow> cache_sound U rows' s"
  unfolding cache_sound_def extends_def by metis

lemma cache_sound_new [simp]: "cache_sound U rows new_service"
  by (simp add: cache_sound_def new_service_def)

lemma cache_sound_flags [simp]:
  "cache_sound U rows (s\<lparr>es_provider := x\<rparr>) = cache_sound U rows s"
  "cache_sound U rows (s\<lparr>es_enabled := b\<rparr>) = cache_sound U rows s"
  "cache_sound U rows (s\<lparr>es_canary_ok := b\<rparr>) = cache_sound U rows s"
  "covers rows (s\<lparr>es_enabled := b\<rparr>) = covers rows s" "covers rows (s\<lparr>es_canary_ok := b\<rparr>) = covers rows s"
  by (simp_all add: cache_sound_def covers_def)

lemma decrypt_value_flags [simp]:
  "decrypt_value A (s\<lparr>es_enabled := b\<rparr>) = decrypt_value A s"
  "decrypt_value A (s\<lparr>es_canary_ok := b\<rparr>) = decrypt_value A s"
  by (simp_all add: decrypt_value_def fun_eq_iff)

section \<open>Loading keeps the invariant\<close>

lemma mint_sound:
  assumes "mint_key A p d v = Inr row" and "\<And>w dek. kek_unwrap p w = Inr dek \<Longrightarrow> U w = Some dek"
  shows "ck_version row = v" "U (ck_wrapped row) = Some (dr_dek d)" "length (dr_dek d) = dek_len" "ck_active row"
  using assms by (auto simp: mint_key_def sum_returns split: if_splits dest: encrypt_len)

lemma unwrap_all_sound:
  assumes "\<And>w dek. kek_unwrap p w = Inr dek \<Longrightarrow> U w = Some dek" and "set rs \<subseteq> set rows"
    and "cache_sound U rows s"
  shows "cache_sound U rows (res_state (unwrap_all p rs s))"
  using assms(2,3)
proof (induction rs arbitrary: s)
  case (Cons r rs)
  show ?case
  proof (cases "kek_unwrap p (ck_wrapped r)")
    case (Inr dek)
    let ?s = "s\<lparr>es_deks := AList.update (ck_version r) dek (es_deks s)\<rparr>"
    have "cache_sound U rows ?s" "cache_sound U rows (?s\<lparr>es_active := Some (ck_version r)\<rparr>)"
      using Cons.prems assms(1) [OF Inr] by (auto simp: cache_sound_def split: if_splits)
    then show ?thesis using Cons.IH Cons.prems(1) Inr by (simp add: Let_def)
  qed (use Cons in simp)
qed simp

lemma unwrap_all_covers:
  assumes "unwrap_all p rs s = Ret () s'"
  shows "covers rs s'" "map_of (es_deks s) v \<noteq> None \<Longrightarrow> map_of (es_deks s') v \<noteq> None"
proof -
  have "covers rs s' \<and> (\<forall>v. map_of (es_deks s) v \<noteq> None \<longrightarrow> map_of (es_deks s') v \<noteq> None)"
    using assms
  proof (induction rs arbitrary: s)
    case (Cons r rs)
    then obtain dek where "kek_unwrap p (ck_wrapped r) = Inr dek" by (auto split: sum.splits)
    with Cons.prems obtain s1 where s1: "unwrap_all p rs s1 = Ret () s'"
      "es_deks s1 = AList.update (ck_version r) dek (es_deks s)"
      by (auto simp: Let_def split: if_splits)
    from Cons.IH [OF s1(1)] s1(2) show ?case by (auto simp: covers_def)
  qed (simp add: covers_def)
  then show "covers rs s'" "map_of (es_deks s) v \<noteq> None \<Longrightarrow> map_of (es_deks s') v \<noteq> None" by blast+
qed

lemma check_canary_keeps:
  "es_deks (res_state (check_canary A rows s)) = es_deks s"
  "es_active (res_state (check_canary A rows s)) = es_active s"
  "es_enabled (res_state (check_canary A rows s)) = es_enabled s"
  by (simp_all add: check_canary_def Let_def split: option.split sum.split)

lemma check_canary_sound:
  "cache_sound U rows (res_state (check_canary A rs s)) = cache_sound U rows s"
  "covers rows (res_state (check_canary A rs s)) = covers rows s"
  by (simp_all add: cache_sound_def covers_def check_canary_keeps)

lemma max_of_versions: "max_of (map ck_version rows) = Some m \<Longrightarrow> \<exists>r\<in>set rows. ck_version r = m"
  using max_of_in by fastforce

lemma load_keys_sound:
  assumes unwraps: "\<And>w dek. kek_unwrap p w = Inr dek \<Longrightarrow> U w = Some dek" and rows: "keys_sound U rows"
  obtains rows1 s where "res_state (load_keys cfg p d (rows, new_service)) = (rows1, s)"
    and "keys_sound U rows1" and "extends rows rows1" and "cache_sound U rows1 s" and "rows \<noteq> [] \<Longrightarrow> rows1 = rows"
    and "load_keys cfg p d (rows, new_service) = Ret () (rows1, s) \<Longrightarrow>
      covers rows1 s \<and> es_enabled s = ce_enabled cfg"
proof -
  let ?first = "if rows = [] \<and> ce_enabled cfg
      then bind_sum (mint_key (ce_aead cfg) p d 1) (\<lambda>row. Inr [row]) else Inr rows"
  show ?thesis
  proof (cases ?first)
    case (Inl e)
    with that [of rows new_service] rows show ?thesis by (simp add: load_keys_def)
  next
    case (Inr rows1)
    have rows1: "keys_sound U rows1" "extends rows rows1" "rows \<noteq> [] \<Longrightarrow> rows1 = rows"
    proof -
      have "rows1 = rows \<or> rows = [] \<and> (\<exists>row. mint_key (ce_aead cfg) p d 1 = Inr row \<and> rows1 = [row])"
        using Inr by (auto simp: sum_returns split: if_splits)
      then have "keys_sound U rows1 \<and> extends rows rows1 \<and> (rows \<noteq> [] \<longrightarrow> rows1 = rows)"
        using rows mint_sound [where U = U and p = p and A = "ce_aead cfg" and d = d and v = 1, OF _ unwraps]
        by (elim disjE conjE exE) (auto simp add: keys_sound_def extends_def)
      then show "keys_sound U rows1" "extends rows rows1" "rows \<noteq> [] \<Longrightarrow> rows1 = rows" by blast+
    qed
    let ?s0 = "new_service\<lparr>es_provider := kek_id p\<rparr>"
    let ?u = "unwrap_all p rows1 ?s0"
    have u: "cache_sound U rows1 (res_state ?u)" by (rule unwrap_all_sound [OF unwraps]) simp_all
    show ?thesis
    proof (cases ?u)
      case (Raise e s1)
      then show ?thesis
        using that [of rows1 s1] rows1 u Inr by (simp add: load_keys_def split del: if_split)
    next
      case (Ret x s1)
      have cov: "covers rows1 s1" using unwrap_all_covers(1) [of p rows1 ?s0 s1] Ret by simp
      let ?s2 = "if es_active s1 = None then s1\<lparr>es_active := max_of (map ck_version rows1)\<rparr> else s1"
      let ?m = "check_canary (ce_aead cfg) rows1 (?s2\<lparr>es_enabled := ce_enabled cfg\<rparr>)"
      have s2: "cache_sound U rows1 ?s2"
        using u Ret cov by (auto simp: cache_sound_def covers_def dest!: max_of_versions)
      have "covers rows1 ?s2" using cov by (simp add: covers_def)
      then have "cache_sound U rows1 (res_state ?m)" "covers rows1 (res_state ?m)"
          "es_enabled (res_state ?m) = ce_enabled cfg"
        using s2 by (simp_all add: check_canary_sound check_canary_keeps split del: if_split)
      moreover have "load_keys cfg p d (rows, new_service) =
          (case ?m of Ret _ s3 \<Rightarrow> Ret () (rows1, s3) | Raise e s3 \<Rightarrow> Raise e (rows1, s3))"
        using Inr Ret by (simp add: load_keys_def Let_def split del: if_split)
      ultimately show ?thesis
        using that [of rows1 "res_state ?m"] rows1 by (cases ?m) simp_all
    qed
  qed
qed

lemma honest_unwraps: "honest U A cfg \<Longrightarrow> build_provider cfg = Inr p \<Longrightarrow> kek_unwrap p w = Inr dek \<Longrightarrow> U w = Some dek"
  by (simp add: honest_def)

lemma load_keys_Ret:
  assumes "load_keys cfg p d (rows, s0) = Ret () (rows1, s)"
  obtains s1 s2 where "unwrap_all p rows1 (s0\<lparr>es_provider := kek_id p\<rparr>) = Ret () s1"
    and "s2 = (if es_active s1 = None then s1\<lparr>es_active := max_of (map ck_version rows1)\<rparr> else s1)"
    and "check_canary (ce_aead cfg) rows1 (s2\<lparr>es_enabled := ce_enabled cfg\<rparr>) = Ret () s"
    and "ce_enabled cfg \<Longrightarrow> rows1 \<noteq> []"
proof -
  let ?first = "if rows = [] \<and> ce_enabled cfg
      then bind_sum (mint_key (ce_aead cfg) p d 1) (\<lambda>row. Inr [row]) else Inr rows"
  let ?s2 = "\<lambda>rs s1. if es_active s1 = None then s1\<lparr>es_active := max_of (map ck_version rs)\<rparr> else s1"
  let ?m = "\<lambda>rs. bind_res (unwrap_all p rs (s0\<lparr>es_provider := kek_id p\<rparr>))
      (\<lambda>_ s1. check_canary (ce_aead cfg) rs (?s2 rs s1\<lparr>es_enabled := ce_enabled cfg\<rparr>))"
  have "?first = Inr rows1 \<and> ?m rows1 = Ret () s"
  proof (cases ?first)
    case (Inr rs)
    with assms show ?thesis by (cases "?m rs") (simp_all add: load_keys_def Let_def split del: if_split cong: if_cong)
  qed (use assms in \<open>simp add: load_keys_def split del: if_split\<close>)
  then have first: "?first = Inr rows1" and m: "?m rows1 = Ret () s" by simp_all
  then have "ce_enabled cfg \<Longrightarrow> rows1 \<noteq> []" by (auto simp: sum_returns split: if_splits)
  moreover obtain s1 where "unwrap_all p rows1 (s0\<lparr>es_provider := kek_id p\<rparr>) = Ret () s1"
    using m by (cases "unwrap_all p rows1 (s0\<lparr>es_provider := kek_id p\<rparr>)") simp_all
  ultimately show ?thesis using m by (intro that [of s1 "?s2 rows1 s1"]) (simp_all split del: if_split)
qed

text \<open>What a process sees after a start: the table keeps its keys and the cache is sound.\<close>

definition grown :: "(pystr \<Rightarrow> bytes option) \<Rightarrow> keyring \<Rightarrow> keyring \<Rightarrow> bool" where
  "grown U k k' \<longleftrightarrow> keys_sound U (key_rows k') \<and> extends (key_rows k) (key_rows k')
     \<and> (\<forall>s. svc k' = Some s \<longrightarrow> cache_sound U (key_rows k') s)"

lemma init_grown:
  assumes "honest U A cfg" "keys_sound U (key_rows k)" "svc k = None"
  shows "grown U k (res_state (init_encryption cfg d k))"
proof (cases "\<not> ce_enabled cfg \<and> key_rows k = []")
  case True
  then show ?thesis using assms by (simp add: init_encryption_def grown_def)
next
  case active: False
  show ?thesis
  proof (cases "build_provider cfg")
    case (Inl e)
    then show ?thesis using assms active by (auto simp: init_encryption_def grown_def Let_def)
  next
    case (Inr p)
    let ?m = "load_keys cfg p d (key_rows k, new_service)"
    obtain rows1 s where m: "res_state ?m = (rows1, s)" "keys_sound U rows1" "extends (key_rows k) rows1"
      "cache_sound U rows1 s"
      by (rule load_keys_sound [OF honest_unwraps [OF assms(1) Inr] assms(2)]) blast+
    show ?thesis
      using m Inr active assms(3) by (cases ?m) (auto simp: init_encryption_def grown_def Let_def)
  qed
qed

lemma init_covers:
  assumes "honest U A cfg" "keys_sound U (key_rows k)" "ce_enabled cfg" "init_encryption cfg d k = Ret () k'"
  obtains s where "svc k' = Some s" "covers (key_rows k') s" "cache_sound U (key_rows k') s"
    "extends (key_rows k) (key_rows k')" "keys_sound U (key_rows k')" "es_enabled s"
proof -
  obtain p where p: "build_provider cfg = Inr p"
    using assms(3,4) by (auto simp: init_encryption_def Let_def split: sum.splits)
  let ?m = "load_keys cfg p d (key_rows k, new_service)"
  obtain rows1 s where m: "res_state ?m = (rows1, s)" "keys_sound U rows1" "extends (key_rows k) rows1"
    "cache_sound U rows1 s" "?m = Ret () (rows1, s) \<Longrightarrow> covers rows1 s \<and> es_enabled s = ce_enabled cfg"
    by (rule load_keys_sound [OF honest_unwraps [OF assms(1) p] assms(2)]) blast+
  have "?m = Ret () (rows1, s) \<and> k' = \<lparr>key_rows = rows1, svc = Some s\<rparr>"
    using assms(3,4) p m(1) by (cases ?m) (auto simp: init_encryption_def Let_def)
  with m that [of s] assms(3) show ?thesis by simp
qed

lemma rotate_grown:
  assumes "honest U A cfg" "keys_sound U (key_rows k)" "\<And>s. svc k = Some s \<Longrightarrow> cache_sound U (key_rows k) s"
  shows "grown U k (res_state (rotate_dek cfg d k))"
proof -
  let ?s = "get_encryption k"
  have s: "cache_sound U (key_rows k) ?s" using assms(3) by (simp add: get_encryption_def split: option.split)
  let ?k1 = "k\<lparr>svc := Some ?s\<rparr>"
  have same: "grown U k ?k1" using assms(2) s by (simp add: grown_def)
  define v where "v = (case max_of (map ck_version (key_rows k)) of None \<Rightarrow> 0 | Some m \<Rightarrow> m) + 1"
  show ?thesis
  proof (cases "rotate_dek cfg d k")
    case (Raise e k')
    then have "k' = ?k1"
      by (simp add: rotate_dek_def Let_def split: if_splits sum.splits option.splits)
    then show ?thesis using Raise same by simp
  next
    case (Ret v' k')
    then obtain p row where p: "build_provider cfg = Inr p" "mint_key (ce_aead cfg) p d v = Inr row"
      and k': "k' = \<lparr>key_rows = map (\<lambda>r. r\<lparr>ck_active := False\<rparr>) (key_rows k) @ [row],
        svc = Some (?s\<lparr>es_deks := AList.update v (dr_dek d) (es_deks ?s), es_active := Some v\<rparr>)\<rparr>"
      by (auto simp: rotate_dek_def Let_def v_def split: if_splits sum.splits)
    note row = mint_sound [OF p(2) honest_unwraps [OF assms(1) p(1)]]
    have above: "ck_version r < v" if "r \<in> set (key_rows k)" for r
    proof (cases "max_of (map ck_version (key_rows k))")
      case (Some m)
      then show ?thesis using that max_of_ge [OF Some, of "ck_version r"] by (simp add: v_def)
    qed (use that in simp)
    have "1 \<le> v"
      using assms(2) by (auto simp: v_def keys_sound_def split: option.split dest!: max_of_versions)
    then have "keys_sound U (key_rows k')"
      using assms(2) row above by (fastforce simp: keys_sound_def k' comp_def)
    moreover have ext: "extends (key_rows k) (key_rows k')" by (auto simp: extends_def k')
    moreover have "cache_sound U (key_rows k') (the (svc k'))"
      using cache_sound_extends [OF s ext] row by (auto simp: cache_sound_def k')
    ultimately show ?thesis using Ret by (auto simp: grown_def k')
  qed
qed

lemma refresh_grown:
  assumes "honest U A cfg" "keys_sound U (key_rows k)" "\<And>s. svc k = Some s \<Longrightarrow> cache_sound U (key_rows k) s"
  shows "grown U k (refresh_keys cfg d k)"
proof -
  have s: "cache_sound U (key_rows k) (get_encryption k)"
    using assms(3) by (simp add: get_encryption_def split: option.split)
  have same: "grown U k k" "grown U k (k\<lparr>svc := Some (get_encryption k)\<rparr>)"
    using assms(2,3) s by (auto simp: grown_def)
  have loaded: "grown U k \<lparr>key_rows = rows1, svc = Some s1\<rparr>"
    if p: "build_provider cfg = Inr p" and l: "load_keys cfg p d (key_rows k, new_service) = Ret u (rows1, s1)"
    for p u rows1 s1
    by (rule load_keys_sound [where cfg = cfg and d = d, OF honest_unwraps [OF assms(1) p] assms(2)])
      (use l in \<open>auto simp: grown_def\<close>)
  let ?load = "bind_sum (build_provider cfg) (\<lambda>p. case load_keys cfg p d (key_rows k, new_service) of
      Ret _ (rows1, s) \<Rightarrow> Inr (rows1, s) | Raise e _ \<Rightarrow> Inl e)"
  show ?thesis
  proof (cases ?load)
    case (Inr loadeds)
    obtain rows1 s1 where r: "loadeds = (rows1, s1)" by fastforce
    obtain p where p: "build_provider cfg = Inr p" and "(case load_keys cfg p d (key_rows k, new_service) of
        Ret _ (rows1, s) \<Rightarrow> Inr (rows1, s) | Raise e _ \<Rightarrow> Inl e) = Inr (rows1, s1)"
      using Inr unfolding r bind_sum_Inr by blast
    then have "load_keys cfg p d (key_rows k, new_service) = Ret () (rows1, s1)"
      by (auto split: res.splits)
    from loaded [OF p this] have "grown U k \<lparr>key_rows = rows1, svc = Some s1\<rparr>" .
    then show ?thesis using same Inr r by (simp add: refresh_keys_def Let_def)
  qed (use same in \<open>simp add: refresh_keys_def Let_def\<close>)
qed

lemma on_process_sound:
  assumes "cluster_sound U c" and "grown U (view c i) (f (view c i))"
  shows "cluster_sound U (on_process i f c)" "extends (cl_rows c) (cl_rows (on_process i f c))"
  using assms by (auto simp: cluster_sound_def on_process_def grown_def view_def Let_def
      intro: cache_sound_extends)

lemma key_step_sound:
  assumes "key_step U A c c'" "cluster_sound U c"
  shows "cluster_sound U c' \<and> extends (cl_rows c) (cl_rows c')"
  using assms(1)
proof cases
  case (start cfg i d)
  have "grown U (view c i) (start_process cfg d (view c i))"
    using init_grown [OF start(2), of "(view c i)\<lparr>svc := None\<rparr>" d] assms(2)
    by (simp add: start_process_def view_def cluster_sound_def grown_def)
  from on_process_sound [OF assms(2), where f = "start_process cfg d", OF this] start(1) show ?thesis by simp
next
  case (rotate cfg i d)
  have "grown U (view c i) (res_state (rotate_dek cfg d (view c i)))"
    using rotate(2) assms(2) by (intro rotate_grown) (auto simp: view_def cluster_sound_def)
  from on_process_sound [OF assms(2), where f = "\<lambda>k. res_state (rotate_dek cfg d k)", OF this] rotate(1) show ?thesis by simp
next
  case (refresh cfg i d)
  have "grown U (view c i) (refresh_keys cfg d (view c i))"
    using refresh(2) assms(2) by (intro refresh_grown) (auto simp: view_def cluster_sound_def)
  from on_process_sound [OF assms(2), where f = "refresh_keys cfg d", OF this] refresh(1) show ?thesis by simp
qed

lemma reachable_sound:
  assumes "(key_step U A)\<^sup>*\<^sup>* c c'" "cluster_sound U c"
  shows "cluster_sound U c' \<and> extends (cl_rows c) (cl_rows c')"
  using assms by (induction rule: rtranclp_induct) (auto dest: key_step_sound intro: extends_trans)

text \<open>Two sound caches agree on a version, whatever rows were added in between.\<close>

lemma caches_agree:
  assumes "cache_sound U rows s" "extends rows rows'" "keys_sound U rows'" "cache_sound U rows' s'"
    and "covers rows' s'" "map_of (es_deks s) v = Some dek"
  shows "map_of (es_deks s') v = Some dek"
proof -
  obtain r where r: "r \<in> set rows'" "ck_version r = v" "U (ck_wrapped r) = Some dek"
    using cache_sound_extends [OF assms(1,2)] assms(6) unfolding cache_sound_def by blast
  obtain dek' where dek': "map_of (es_deks s') v = Some dek'" using assms(5) r(1,2) by (auto simp: covers_def)
  then obtain r' where "r' \<in> set rows'" "ck_version r' = v" "U (ck_wrapped r') = Some dek'"
    using assms(4) unfolding cache_sound_def by blast
  then have "r' = r" using r(1,2) assms(3) by (auto simp: keys_sound_def distinct_map inj_on_def)
  with r(3) \<open>U (ck_wrapped r') = Some dek'\<close> dek' show ?thesis by simp
qed

section \<open>No value is lost\<close>

text \<open>
  C5: no encrypted value is ever lost. A text that any process encrypted is read back by every
  process that starts later, after any number of starts, rotations and refreshes of any process with
  any settings, provided its provider still unwraps keys to what they were: once the start succeeds,
  the stored text decrypts to the original.
\<close>

theorem no_value_lost:
  assumes "(key_step U A)\<^sup>*\<^sup>* c c'" and "cluster_sound U c" and "aead_correct A"
    and "cl_procs c i = Some s" and "state_encryption_active s" and "encrypt_value A n s p = Inr x"
    and "length n = 12" and "honest U A cfg" and "ce_enabled cfg"
    and "init_encryption cfg d \<lparr>key_rows = cl_rows c', svc = None\<rparr> = Ret () k"
  shows "is_encrypted x \<and> decrypt_value A (get_encryption k) x = Inr p"
proof -
  from reachable_sound [OF assms(1,2)] have c': "keys_sound U (cl_rows c')" "extends (cl_rows c) (cl_rows c')"
    by (simp_all add: cluster_sound_def)
  then obtain s' where s': "svc k = Some s'" "covers (key_rows k) s'" "cache_sound U (key_rows k) s'"
    "extends (cl_rows c') (key_rows k)" "keys_sound U (key_rows k)"
    by (metis init_covers [OF assms(8) _ assms(9,10)] keyring.simps(1))
  obtain v dek where v: "es_active s = Some v" "map_of (es_deks s) v = Some dek" "encrypt A n p dek v = Inr x"
    using assms(5,6) by (auto simp: state_encryption_active_def encrypt_value_def sum_returns)
  have s: "cache_sound U (cl_rows c) s" using assms(2,4) by (simp add: cluster_sound_def)
  have "map_of (es_deks s') v = Some dek"
    by (rule caches_agree [OF s extends_trans [OF c'(2) s'(4)] s'(5,3,2) v(2)])
  moreover have "0 \<le> v"
    using s v(2) assms(2) by (fastforce simp: cache_sound_def cluster_sound_def keys_sound_def)
  note sealed_reads [OF v(3) assms(3,7) this]
  ultimately show ?thesis by (simp add: get_encryption_def s'(1) decrypt_value_def)
qed

definition example_cfg :: crypto_env where
  "example_cfg = \<lparr>ce_aead = toy_aead, ce_sha256 = (\<lambda>b. take 32 (b @ replicate 32 0)), ce_enabled = True,
     ce_backend = ''static'', ce_static_key = lit ''key'', ce_vault_address = [], ce_vault_key_name = [],
     ce_vault_token = [], ce_vault = \<lparr>kek_id = [], kek_wrap = (\<lambda>_ _. Inl Provider_Failed),
       kek_unwrap = (\<lambda>_. Inl Provider_Failed)\<rparr>, ce_kms_key_id = [],
     ce_kms = \<lparr>kek_id = [], kek_wrap = (\<lambda>_ _. Inl Provider_Failed),
       kek_unwrap = (\<lambda>_. Inl Provider_Failed)\<rparr>\<rparr>"

definition example_unwrap :: "pystr \<Rightarrow> bytes option" where
  "example_unwrap w = (case build_provider example_cfg of
     Inl _ \<Rightarrow> None | Inr p \<Rightarrow> (case kek_unwrap p w of Inl _ \<Rightarrow> None | Inr d \<Rightarrow> Some d))"

lemma example_honest: "honest example_unwrap toy_aead example_cfg"
proof -
  have "ce_aead example_cfg = toy_aead" by (simp add: example_cfg_def)
  then show ?thesis by (simp add: honest_def example_unwrap_def)
qed

definition example_draws :: "nat \<Rightarrow> draws" where
  "example_draws i = \<lparr>dr_dek = replicate 32 (of_nat i), dr_wrap = replicate 12 1, dr_canary = replicate 12 2\<rparr>"

definition first_start :: cluster where
  "first_start = on_process 0 (start_process example_cfg (example_draws 1))
     \<lparr>cl_rows = [], cl_procs = (\<lambda>_. None)\<rparr>"

definition rotated :: cluster where
  "rotated = on_process 0 (\<lambda>k. res_state (rotate_dek example_cfg (example_draws 5) k)) first_start"

lemma first_start_sound: "cluster_sound example_unwrap first_start"
proof -
  have "cluster_sound example_unwrap \<lparr>cl_rows = [], cl_procs = (\<lambda>_. None)\<rparr>"
    by (simp add: cluster_sound_def keys_sound_def)
  from key_step_sound [OF key_step.start [OF example_honest] this] show ?thesis
    by (simp add: first_start_def)
qed

theorem no_value_lost_witness:
  "\<exists>s x k. cl_procs first_start 0 = Some s \<and> encrypt_value toy_aead (replicate 12 3) s (lit ''secret'') = Inr x
     \<and> init_encryption example_cfg (example_draws 9) \<lparr>key_rows = cl_rows rotated, svc = None\<rparr> = Ret () k
     \<and> es_active (get_encryption k) = Some 2
     \<and> decrypt_value toy_aead (get_encryption k) x = Inr (lit ''secret'')"
proof -
  have "map_option (\<lambda>s. (state_encryption_active s,
      case encrypt_value toy_aead (replicate 12 3) s (lit ''secret'') of Inl _ \<Rightarrow> False | Inr _ \<Rightarrow> True))
      (cl_procs first_start 0) = Some (True, True)"
    by code_simp
  then obtain s x where s: "cl_procs first_start 0 = Some s" "state_encryption_active s"
    "encrypt_value toy_aead (replicate 12 3) s (lit ''secret'') = Inr x"
    by (cases "cl_procs first_start 0"; cases "encrypt_value toy_aead (replicate 12 3)
        (the (cl_procs first_start 0)) (lit ''secret'')") auto
  let ?m = "init_encryption example_cfg (example_draws 9) \<lparr>key_rows = cl_rows rotated, svc = None\<rparr>"
  have "(case ?m of Ret _ k \<Rightarrow> es_active (get_encryption k) | Raise _ _ \<Rightarrow> None) = Some 2" by code_simp
  then obtain k where k: "?m = Ret () k" "es_active (get_encryption k) = Some 2" by (cases ?m) auto
  have "key_step example_unwrap toy_aead first_start rotated"
    unfolding rotated_def by (rule key_step.rotate [OF example_honest])
  then have "(key_step example_unwrap toy_aead)\<^sup>*\<^sup>* first_start rotated" by blast
  from no_value_lost [OF this first_start_sound toy_aead_correct s _ example_honest _ k(1)] s k
  show ?thesis by (auto simp: example_cfg_def)
qed

section \<open>Failures\<close>



text \<open>
  Rotation is all or nothing. When it fails, no row and no cached key has changed. When it
  succeeds, every old key is still stored and cached, only marked inactive, the new version is active,
  and its wrapped key was seen to unwrap to the key in use.
\<close>

theorem rotation_all_or_nothing:
  "case rotate_dek cfg d k of
     Raise _ k' \<Rightarrow> key_rows k' = key_rows k \<and> get_encryption k' = get_encryption k
   | Ret v k' \<Rightarrow> \<exists>p row. build_provider cfg = Inr p \<and> kek_unwrap p (ck_wrapped row) = Inr (dr_dek d)
       \<and> ck_version row = v \<and> key_rows k' = map (\<lambda>r. r\<lparr>ck_active := False\<rparr>) (key_rows k) @ [row]
       \<and> v \<notin> ck_version ` set (key_rows k) \<and> es_active (get_encryption k') = Some v
       \<and> map_of (es_deks (get_encryption k')) = (map_of (es_deks (get_encryption k)))(v \<mapsto> dr_dek d)"
proof (cases "rotate_dek cfg d k")
  case (Raise e k')
  then have "k' = k\<lparr>svc := Some (get_encryption k)\<rparr>"
    by (simp add: rotate_dek_def Let_def split: if_splits sum.splits option.splits)
  with Raise show ?thesis by (simp add: get_encryption_def)
next
  case (Ret v k')
  let ?s = "get_encryption k"
  obtain p row where p: "build_provider cfg = Inr p" "mint_key (ce_aead cfg) p d v = Inr row"
    and v: "v = (case max_of (map ck_version (key_rows k)) of None \<Rightarrow> 0 | Some m \<Rightarrow> m) + 1"
    and k': "k' = \<lparr>key_rows = map (\<lambda>r. r\<lparr>ck_active := False\<rparr>) (key_rows k) @ [row],
        svc = Some (?s\<lparr>es_deks := AList.update v (dr_dek d) (es_deks ?s), es_active := Some v\<rparr>)\<rparr>"
  proof -
    let ?v = "(case max_of (map ck_version (key_rows k)) of None \<Rightarrow> 0 | Some m \<Rightarrow> m) + 1"
    obtain p where p: "build_provider cfg = Inr p"
      using Ret by (cases "build_provider cfg") (simp_all add: rotate_dek_def Let_def split: if_splits)
    moreover obtain row where "mint_key (ce_aead cfg) p d ?v = Inr row"
      using Ret p by (cases "mint_key (ce_aead cfg) p d ?v") (simp_all add: rotate_dek_def Let_def split: if_splits)
    ultimately show ?thesis using Ret that [of p row] by (auto simp: rotate_dek_def Let_def split: if_splits)
  qed
  have "kek_unwrap p (ck_wrapped row) = Inr (dr_dek d)" "ck_version row = v"
    using p(2) by (auto simp: mint_key_def sum_returns split: if_splits)
  moreover have "v \<notin> ck_version ` set (key_rows k)"
    using v max_of_ge by (fastforce split: option.splits)
  moreover have "es_active (get_encryption k') = Some v"
      "map_of (es_deks (get_encryption k')) = (map_of (es_deks ?s))(v \<mapsto> dr_dek d)"
    by (simp_all add: k' get_encryption_def update_conv')
  moreover have "key_rows k' = map (\<lambda>r. r\<lparr>ck_active := False\<rparr>) (key_rows k) @ [row]" by (simp add: k')
  ultimately show ?thesis unfolding Ret res.case using p(1) by blast
qed

text \<open>
  A value that looks like an envelope is lost while encryption was never enabled. The default
  service stores every text as it is, but reading one that starts with \<open>tpenc:\<close> raises; every other
  text reads back.
\<close>

theorem marked_plaintext_unreadable:
  "encrypt_value A n new_service v = Inr v
   \<and> (\<exists>err. decrypt_value A new_service v = (if is_encrypted v then Inl err else Inr v))"
proof -
  have "\<exists>err. decrypt_value A new_service v = Inl err" if "is_encrypted v"
    using that by (cases "parse_version v") (auto simp: decrypt_value_def new_service_def)
  then show ?thesis by (auto simp: encrypt_value_def decrypt_value_def new_service_def)
qed

section \<open>The migration\<close>

definition reads :: "aead \<Rightarrow> enc_service \<Rightarrow> column \<Rightarrow> nat \<Rightarrow> (crypto_error + pystr) option" where
  "reads A s col i = map_option (decrypt_value A s) (read_column i col)"

text \<open>What a finished migration leaves: the active version, or a text that is its own reading.\<close>

definition migrated :: "aead \<Rightarrow> migrate_mode \<Rightarrow> enc_service \<Rightarrow> pystr \<Rightarrow> bool" where
  "migrated A mode s x =
     (case mode of
        To_Encrypted \<Rightarrow> is_encrypted x \<and> (\<exists>v. es_active s = Some v \<and> parse_version x = Inr v)
      | To_Plaintext \<Rightarrow> decrypt_value A s x = Inr x)"

lemma read_column_write:
  "read_column j (write_column i new col) =
     (if j = i \<and> map_of col i \<noteq> None then Some new else read_column j col)"
  by (induction col) (auto simp: read_column_def write_column_def)

lemma plan_row_reads: "plan_row A n mode s stored = Inr (Some (new, p)) \<Longrightarrow> decrypt_value A s stored = Inr p"
  by (auto simp: plan_row_def sum_returns split: migrate_mode.splits if_splits)

lemma plan_row_skips:
  assumes "plan_row A n mode s stored = Inr None"
  shows "migrated A mode s stored"
  using assms by (auto simp: plan_row_def migrated_def decrypt_value_def sum_returns
      split: migrate_mode.splits if_splits)

lemma plan_row_new:
  assumes "plan_row A n mode s stored = Inr (Some (new, p))" and "decrypt_value A s new = Inr p"
    and "mode = To_Encrypted \<Longrightarrow> state_encryption_active s \<and> 0 \<le> the (es_active s)"
  shows "migrated A mode s new"
proof (cases mode)
  case To_Encrypted
  then obtain v where v: "es_active s = Some v" "es_enabled s" "0 \<le> v"
    using assms(3) by (auto simp: state_encryption_active_def)
  have "encrypt_value A n s p = Inr new"
    using assms(1) To_Encrypted by (auto simp: plan_row_def sum_returns split: if_splits)
  then obtain dek where "encrypt A n p dek v = Inr new"
    using v by (auto simp: encrypt_value_def sum_returns)
  from encrypt_form [OF this v(3)] show ?thesis using To_Encrypted v by (simp add: migrated_def)
next
  case To_Plaintext
  then have "new = p" using assms(1) by (auto simp: plan_row_def sum_returns split: if_splits)
  then show ?thesis using assms(2) To_Plaintext by (simp add: migrated_def)
qed

lemma migrate_rows_keeps:
  assumes "distinct (map fst items)" and "\<forall>(i, x)\<in>set items. read_column i (working tx) = Some x"
    and "\<forall>i. reads A s (working tx) i = R i \<and> reads A s (committed tx) i = R i"
  shows "(\<forall>i. reads A s (committed (res_state (migrate_rows A nonces mode s items counts tx))) i = R i)
    \<and> ((mode = To_Encrypted \<longrightarrow> state_encryption_active s \<and> 0 \<le> the (es_active s)) \<longrightarrow>
       (\<forall>counts' tx'. migrate_rows A nonces mode s items counts tx = Ret counts' tx' \<longrightarrow>
         (\<forall>j. j \<notin> fst ` set items \<longrightarrow> read_column j (committed tx') = read_column j (working tx))
         \<and> (\<forall>j\<in>fst ` set items. \<exists>x. read_column j (committed tx') = Some x \<and> migrated A mode s x)))"
  using assms
proof (induction items arbitrary: counts tx)
  case (Cons item items)
  obtain i stored where item: "item = (i, stored)" by fastforce
  obtain rw sk where counts: "counts = (rw, sk)" by fastforce
  have stored: "read_column i (working tx) = Some stored" using Cons.prems(2) item by simp
  have rest: "\<forall>(j, x)\<in>set items. j \<noteq> i \<and> read_column j (working tx) = Some x"
    using Cons.prems(1,2) item by (auto simp: rev_image_eqI)
  show ?case
  proof (cases "plan_row A (nonces i) mode s stored")
    case (Inl e)
    then show ?thesis using Cons.prems(3) by (simp add: item counts Let_def)
  next
    case (Inr planned)
    show ?thesis
    proof (cases planned)
      case None
      have "\<forall>(j, x)\<in>set items. read_column j (working tx) = Some x" using rest by auto
      note IH = Cons.IH [OF _ this Cons.prems(3), of "(rw, Suc sk)"]
      show ?thesis
        using IH Cons.prems(1) Inr None plan_row_skips stored rest by (fastforce simp: item counts Let_def)
    next
      case (Some pair)
      obtain new p where pair: "pair = (new, p)" by fastforce
      let ?tx1 = "tx\<lparr>working := write_column i new (working tx)\<rparr>"
      have new: "read_column i (working ?tx1) = Some new"
      proof -
        have "map_of (working tx) i \<noteq> None" using stored by (auto simp: read_column_def split: option.splits)
        then show ?thesis by (simp add: read_column_write)
      qed
      let ?readback = "if is_encrypted new then decrypt_value A s new else Inr new"
      have rb: "?readback = decrypt_value A s new" by (simp add: decrypt_value_def)
      let ?tx2 = "if Suc rw mod batch_size = 0 then ?tx1\<lparr>committed := working ?tx1\<rparr> else ?tx1"
      have step: "migrate_rows A nonces mode s (item # items) counts tx =
          (case decrypt_value A s new of
             Inl e \<Rightarrow> Raise e (tx\<lparr>working := committed tx\<rparr>)
           | Inr readback \<Rightarrow>
               if readback \<noteq> p then Raise Readback_Failed (tx\<lparr>working := committed tx\<rparr>)
               else migrate_rows A nonces mode s items (Suc rw, sk) ?tx2)"
        using Inr Some pair new by (simp add: item counts Let_def rb split del: if_split cong: if_cong)
      show ?thesis
      proof (cases "decrypt_value A s new = Inr p")
        case False
        then show ?thesis
          unfolding step using Cons.prems(3) by (cases "decrypt_value A s new") simp_all
      next
        case True
        have w: "working ?tx2 = write_column i new (working tx)" by simp
        have "reads A s (working tx) i = Some (Inr p)"
          using stored plan_row_reads [of A "nonces i" mode s stored new p] Inr Some pair by (simp add: reads_def)
        then have "R i = Some (Inr p)" using Cons.prems(3) by metis
        moreover have "map_option (decrypt_value A s) (read_column j (working tx)) = R j" for j
          using Cons.prems(3) unfolding reads_def by blast
        ultimately have same: "reads A s (working ?tx1) j = R j" for j
          using True by (simp add: reads_def read_column_write)
        then have reads2: "\<forall>j. reads A s (working ?tx2) j = R j \<and> reads A s (committed ?tx2) j = R j"
          using Cons.prems(3) by simp
        have "\<forall>(j, x)\<in>set items. read_column j (working ?tx2) = Some x"
          using rest by (auto simp: w read_column_write)
        note IH = Cons.IH [OF _ this reads2, of "(Suc rw, sk)"]
        have mig: "(mode = To_Encrypted \<longrightarrow> state_encryption_active s \<and> 0 \<le> the (es_active s))
            \<Longrightarrow> migrated A mode s new"
          using plan_row_new [of A "nonces i" mode s stored new p] Inr Some pair True by simp
        show ?thesis
          unfolding step True sum.case using IH Cons.prems(1) mig new rest w
          by (fastforce simp: item read_column_write)
      qed
    qed
  qed
qed simp

lemma selected_rows:
  assumes "distinct (map fst col)"
  defines "items \<equiv> List.map_filter
    (\<lambda>(i, v). case v of None \<Rightarrow> None | Some x \<Rightarrow> if x = [] then None else Some (i, x)) col"
  shows "distinct (map fst items)" and "(i, x) \<in> set items \<longleftrightarrow> read_column i col = Some x \<and> x \<noteq> []"
proof -
  have in_col: "(i, x) \<in> set items \<longleftrightarrow> (i, Some x) \<in> set col \<and> x \<noteq> []" for i x
    unfolding items_def by (induction col) (auto simp: List.map_filter_simps split: option.splits if_splits)
  show "distinct (map fst items)"
    using assms(1) unfolding items_def
    by (induction col) (force simp: List.map_filter_def image_iff split: option.splits if_splits)+
  show "(i, x) \<in> set items \<longleftrightarrow> read_column i col = Some x \<and> x \<noteq> []"
    using assms(1) by (auto simp: in_col read_column_def map_of_eq_Some_iff split: option.splits dest: eq_key_imp_eq_value)
qed

text \<open>
  A migration never loses a value, and finishes the job when it succeeds. Whatever the cipher
  does, every row reads the same from the committed column after a migration, or after one that
  failed half-way, as it did before. A migration that returns leaves every non-empty value under the
  active key version, or (towards plaintext) as a text that is its own reading.
\<close>

theorem migration_keeps_values:
  assumes "distinct (map fst col)" and "m = migrate_column A nonces mode s col"
    and "mode = To_Encrypted \<Longrightarrow> state_encryption_active s \<and> 0 \<le> the (es_active s)"
  shows "reads A s (committed (res_state m)) i = reads A s col i
    \<and> \<not> (\<exists>counts tx x. m = Ret counts tx \<and> read_column i col = Some x \<and> x \<noteq> []
          \<and> \<not> (\<exists>y. read_column i (committed tx) = Some y \<and> migrated A mode s y))"
proof -
  let ?items = "List.map_filter (\<lambda>(i, v). case v of None \<Rightarrow> None | Some x \<Rightarrow> if x = [] then None else Some (i, x)) col"
  let ?tx = "\<lparr>committed = col, working = col\<rparr>"
  have "\<forall>(i, x)\<in>set ?items. read_column i (working ?tx) = Some x"
    using selected_rows(2) [OF assms(1)] by auto
  note keeps = migrate_rows_keeps [OF selected_rows(1) [OF assms(1)] this, of A s "reads A s col" nonces mode "(0, 0)"]
  have m: "m = migrate_rows A nonces mode s ?items (0, 0) ?tx" by (simp add: assms(2) migrate_column_def)
  have "\<exists>y. read_column i (committed tx) = Some y \<and> migrated A mode s y"
    if "m = Ret counts tx" "read_column i col = Some x" "x \<noteq> []" for counts tx x
  proof -
    have "i \<in> fst ` set ?items" using that(2,3) selected_rows(2) [OF assms(1), of i x] by force
    then show ?thesis using keeps that(1) assms(3) unfolding m by simp blast
  qed
  then show ?thesis using keeps unfolding m by auto
qed

theorem migration_keeps_values_witness:
  "\<exists>s x y. cl_procs rotated 0 = Some s
     \<and> migrate_column toy_aead (\<lambda>_. replicate 12 4) To_Encrypted s [(1, Some (lit ''a'')), (2, None)]
       = Ret (1, 0) \<lparr>committed = [(1, Some y), (2, None)], working = x\<rparr>
     \<and> decrypt_value toy_aead s y = Inr (lit ''a'') \<and> parse_version y = Inr 2"
proof -
  let ?col = "[(1, Some (lit ''a'')), (2, None)] :: column"
  let ?m = "\<lambda>s. migrate_column toy_aead (\<lambda>_. replicate 12 4) To_Encrypted s ?col"
  have "map_option (\<lambda>s. (state_encryption_active s, es_active s,
      case ?m s of Ret c tx \<Rightarrow> c = (1, 0) \<and> map fst (committed tx) = [1, 2] \<and> snd (committed tx ! 1) = None
      | Raise _ _ \<Rightarrow> False)) (cl_procs rotated 0) = Some (True, Some 2, True)"
    by code_simp
  then obtain s tx where s: "cl_procs rotated 0 = Some s" "state_encryption_active s" "es_active s = Some 2"
    and m: "?m s = Ret (1, 0) tx" "map fst (committed tx) = [1, 2]" "snd (committed tx ! 1) = None"
    by (cases "cl_procs rotated 0"; cases "?m (the (cl_procs rotated 0))") auto
  obtain z where z: "committed tx = [(1, z), (2, None)]" using m(2,3) by (auto simp: map_eq_Cons_conv)
  have "distinct (map fst ?col)" by simp
  note keeps = migration_keeps_values [OF this refl, of To_Encrypted s toy_aead "\<lambda>_. replicate 12 4" 1]
  have "lit ''a'' \<noteq> []" "read_column 1 ?col = Some (lit ''a'')" by (simp_all add: read_column_def)
  with keeps m(1) s obtain y where y: "read_column 1 (committed tx) = Some y" "migrated toy_aead To_Encrypted s y"
    by auto
  then have "z = Some y" by (simp add: z read_column_def)
  moreover have "reads toy_aead s (committed tx) 1 = reads toy_aead s ?col 1" using keeps m(1) s by simp
  then have "decrypt_value toy_aead s y = Inr (lit ''a'')"
    using y(1) by (simp add: reads_def read_column_def decrypt_value_def is_encrypted_def startswith_def marker_def)
  ultimately show ?thesis
    using s m(1) z y(2) by (cases tx) (auto simp: migrated_def)
qed

end
