(* ===== verification/StateVersions.thy ===== *)
theory StateVersions
  imports RunApi Encryption
begin

text \<open>
  State versions and the workspace lock: the endpoints of \<open>api/routers/tfe_v2.py\<close> that the CLI and
  other runs use, the management endpoints of \<open>api/routers/state_management.py\<close>, and the runner's
  uploads of \<open>api/routers/run_artifacts.py\<close>.

  A state is stored as an object under the pair of its workspace and version ids (\<open>state_key\<close>), through
  the encryption service of the process; \<open>object_store\<close> is the storage client, any of whose calls may
  fail. A handler runs on the world and the object store. An exception rolls the database back, not
  the objects. The digests of \<open>hashlib\<close>, the JSON reader, the encryption service and its nonce are in
  \<open>state_env\<close>. The table's integer columns have 32 bits, its texts a maximal length (\<open>sv_fits\<close>), and
  a serial is unique per workspace. The ID a lock request gives is the text \<open>given\<close>, if any.
  The index of states for disaster recovery, metrics and the response bodies are left out.
\<close>

section \<open>Storage\<close>

type_synonym skey = "nat \<times> nat"

record object_store =
  os_objects :: "skey \<Rightarrow> bytes option"
  os_faults :: "nat \<Rightarrow> bool"
  os_calls :: nat

type_synonym server = "world \<times> object_store"
type_synonym 'a state_handler = "server \<Rightarrow> (exn, 'a, server) res"

definition state_key :: "nat \<Rightarrow> nat \<Rightarrow> skey" where
  "state_key workspace version = (workspace, version)"

definition os_command :: "(object_store \<Rightarrow> (exn, 'a, object_store) res) \<Rightarrow> 'a state_handler" where
  "os_command f = (\<lambda>(w, os).
     let os1 = os\<lparr>os_calls := Suc (os_calls os)\<rparr>
     in if os_faults os (os_calls os) then Raise Storage_Error (w, os1)
        else case f os1 of Ret a os2 \<Rightarrow> Ret a (w, os2) | Raise e os2 \<Rightarrow> Raise e (w, os2))"

definition os_put :: "skey \<Rightarrow> bytes \<Rightarrow> unit state_handler" where
  "os_put key data = os_command (\<lambda>os. Ret () (os\<lparr>os_objects := (os_objects os)(key \<mapsto> data)\<rparr>))"

definition os_get :: "skey \<Rightarrow> bytes state_handler" where
  "os_get key = os_command (\<lambda>os.
     case os_objects os key of None \<Rightarrow> Raise Storage_Error os | Some data \<Rightarrow> Ret data os)"

definition os_delete :: "skey \<Rightarrow> unit state_handler" where
  "os_delete key = os_command (\<lambda>os. Ret () (os\<lparr>os_objects := (os_objects os)(key := None)\<rparr>))"

datatype state_json = Bad_Json | Not_An_Object | State_Json int string

record state_env =
  se_run_env :: env
  se_aead :: aead
  se_service :: enc_service
  se_nonce :: bytes
  se_md5 :: "bytes \<Rightarrow> string"
  se_sha256 :: "bytes \<Rightarrow> string"
  se_json :: "bytes \<Rightarrow> state_json"

definition store_state :: "state_env \<Rightarrow> skey \<Rightarrow> bytes \<Rightarrow> unit state_handler" where
  "store_state se key data s =
     (case encrypt_state_bytes (se_aead se) (se_nonce se) (se_service se) data of
        Inl _ \<Rightarrow> Raise Crypto_Failed s
      | Inr blob \<Rightarrow> os_put key blob s)"

definition load_state :: "state_env \<Rightarrow> skey \<Rightarrow> bytes state_handler" where
  "load_state se key s =
     bind_res (os_get key s) (\<lambda>blob s1.
       case decrypt_state_bytes (se_aead se) (se_service se) blob of
         Inl _ \<Rightarrow> Raise Crypto_Failed s1
       | Inr data \<Rightarrow> Ret data s1)"

section \<open>Rows\<close>

definition on_db :: "'a handler \<Rightarrow> 'a state_handler" where
  "on_db h = (\<lambda>(w, os). case h w of Ret a w1 \<Rightarrow> Ret a (w1, os) | Raise e w1 \<Rightarrow> Raise e (w1, os))"

definition transaction :: "'a state_handler \<Rightarrow> 'a state_handler" where
  "transaction h = (\<lambda>(w, os).
     case h (w, os) of Ret a s \<Rightarrow> Ret a s | Raise e (w1, os1) \<Rightarrow> Raise e (rolled_back w w1, os1))"

definition int4 :: "int \<Rightarrow> bool" where
  "int4 n = (- 2147483648 \<le> n \<and> n < 2147483648)"

definition sv_fits :: "state_version \<Rightarrow> bool" where
  "sv_fits sv =
     (int4 (sv_serial sv) \<and> int4 (sv_size sv) \<and> length (sv_lineage sv) \<le> 63 \<and> length (sv_md5 sv) \<le> 32
      \<and> length (sv_sha256 sv) \<le> 64
      \<and> (case sv_created_by sv of None \<Rightarrow> True | Some x \<Rightarrow> length x \<le> 255))"

definition insert_state_version :: "state_version \<Rightarrow> nat handler" where
  "insert_state_version sv w =
     (if \<not> sv_fits sv then Raise Data_Error w
      else if sv_serial sv \<in> set (state_serials w (sv_workspace sv)) then Raise Integrity_Error w
      else case sv_run sv of
        Some i \<Rightarrow> if runs w i = None then Raise Integrity_Error w
                  else Ret (next_id w) (add_state_version sv w)
      | None \<Rightarrow> Ret (next_id w) (add_state_version sv w))"

definition version_at :: "world \<Rightarrow> nat \<Rightarrow> int \<Rightarrow> nat option" where
  "version_at w ws serial =
     first_of (select (next_id w) (state_versions w) (\<lambda>_ sv. sv_workspace sv = ws \<and> sv_serial sv = serial))"

definition put_sv :: "nat \<Rightarrow> (state_version \<Rightarrow> state_version) \<Rightarrow> world \<Rightarrow> world" where
  "put_sv i f w = w\<lparr>state_versions := modify i f (state_versions w)\<rparr>"

interpretation sv_rows: row_store state_versions put_sv
  by unfold_locales (simp add: put_sv_def modify_apply)

definition drop_sv :: "nat \<Rightarrow> world \<Rightarrow> world" where
  "drop_sv i w = w\<lparr>state_versions := (state_versions w)(i := None)\<rparr>"

definition clear_diverged :: "nat \<Rightarrow> world \<Rightarrow> world" where
  "clear_diverged ws w = put_ws ws (\<lambda>x. x\<lparr>state_diverged := False\<rparr>) w"

definition announce :: "nat \<Rightarrow> string \<Rightarrow> server \<Rightarrow> server" where
  "announce ws event_type = (\<lambda>(w, os). (publish_workspace_event ws event_type w, os))"

definition next_serial :: "world \<Rightarrow> nat \<Rightarrow> int" where
  "next_serial w ws = (case current_state_serial w ws of None \<Rightarrow> 0 | Some m \<Rightarrow> m) + 1"

definition new_version :: "nat \<Rightarrow> int \<Rightarrow> string \<Rightarrow> string \<Rightarrow> string \<Rightarrow> int \<Rightarrow> nat option \<Rightarrow> string option
    \<Rightarrow> int \<Rightarrow> state_version" where
  "new_version ws serial lineage md5 sha256 stored run_id created_by t =
     \<lparr>sv_workspace = ws, sv_serial = serial, sv_lineage = lineage, sv_md5 = md5, sv_sha256 = sha256,
      sv_size = stored, sv_run = run_id, sv_created_by = created_by, sv_created_at = t\<rparr>"

definition discard_older_plans :: "state_env \<Rightarrow> nat \<Rightarrow> int \<Rightarrow> nat option \<Rightarrow> unit handler" where
  "discard_older_plans se ws serial exclude w =
     Ret () (snd (discard_stale_plans_for_state_change (se_run_env se) ws serial exclude w))"

section \<open>Managing versions\<close>

definition require_sv_workspace_capability ::
    "role list \<Rightarrow> auth_user \<Rightarrow> state_version \<Rightarrow> string \<Rightarrow> world \<Rightarrow> nat option" where
  "require_sv_workspace_capability roles user sv required w =
     (case workspaces w (sv_workspace sv) of
        None \<Rightarrow> Some 404
      | Some ws \<Rightarrow> if has_capability (caller_capabilities roles user ws) required then None else Some 403)"

definition delete_state_version :: "role list \<Rightarrow> auth_user \<Rightarrow> nat \<Rightarrow> unit state_handler" where
  "delete_state_version roles user i = (\<lambda>(w, os).
     case state_versions w i of
       None \<Rightarrow> Raise (Http 404) (w, os)
     | Some sv \<Rightarrow>
     (case require_sv_workspace_capability roles user sv STATE_DELETE w of
        Some code \<Rightarrow> Raise (Http code) (w, os)
      | None \<Rightarrow>
          if current_state_serial w (sv_workspace sv) = Some (sv_serial sv) \<and> 0 < sv_size sv
          then Raise (Http 409) (w, os)
          else
            (case res_state (os_delete (state_key (sv_workspace sv) i) (w, os)) of
               (w1, os1) \<Rightarrow>
                 Ret () (announce (sv_workspace sv) ''state_version_created'' (drop_sv i w1, os1)))))"

definition rollback_state_version :: "state_env \<Rightarrow> role list \<Rightarrow> auth_user \<Rightarrow> nat \<Rightarrow> nat state_handler" where
  "rollback_state_version se roles user i = (\<lambda>(w, os).
     case state_versions w i of
       None \<Rightarrow> Raise (Http 404) (w, os)
     | Some sv \<Rightarrow>
     (case require_sv_workspace_capability roles user sv STATE_WRITE w of
        Some code \<Rightarrow> Raise (Http code) (w, os)
      | None \<Rightarrow>
     (case load_state se (state_key (sv_workspace sv) i) (w, os) of
        Raise _ s1 \<Rightarrow> Raise (Http 404) s1
      | Ret data s1 \<Rightarrow>
          let ws = sv_workspace sv; serial = next_serial w ws
          in transaction (\<lambda>s1.
               bind_res (on_db (insert_state_version (new_version ws serial (sv_lineage sv) (se_md5 se data) []
                   (int (length data)) None (Some (au_email user)) (now w))) s1) (\<lambda>j s2.
               bind_res (on_db (discard_older_plans se ws serial None) s2) (\<lambda>_ s3.
               bind_res (store_state se (state_key ws j) data s3) (\<lambda>_ s4.
                 Ret j (announce ws ''state_version_created'' s4))))) s1)))"

text \<open>\<open>stream_to_tempfile\<close>: the declared length is checked first, then the bytes received.\<close>

definition max_upload :: int where
  "max_upload = 268435456"

definition body_too_large :: "int option \<Rightarrow> bytes \<Rightarrow> bool" where
  "body_too_large declared body =
     ((case declared of Some n \<Rightarrow> max_upload < n | None \<Rightarrow> False) \<or> max_upload < int (length body))"

definition upload_state_manual ::
    "state_env \<Rightarrow> role list \<Rightarrow> auth_user \<Rightarrow> nat \<Rightarrow> int option \<Rightarrow> bytes \<Rightarrow> nat state_handler" where
  "upload_state_manual se roles user ws_id declared body = (\<lambda>(w, os).
     case workspaces w ws_id of
       None \<Rightarrow> Raise (Http 404) (w, os)
     | Some ws \<Rightarrow>
         if \<not> has_capability (caller_capabilities roles user ws) STATE_WRITE then Raise (Http 403) (w, os)
         else if body_too_large declared body then Raise (Http 413) (w, os)
         else if body = [] then Raise (Http 400) (w, os)
         else
     (case se_json se body of
        Bad_Json \<Rightarrow> Raise (Http 400) (w, os)
      | Not_An_Object \<Rightarrow> Raise (Http 500) (w, os)
      | State_Json _ lineage \<Rightarrow>
          let serial = next_serial w ws_id
          in transaction (\<lambda>s.
               bind_res (on_db (insert_state_version (new_version ws_id serial lineage (se_md5 se body) []
                   (int (length body)) None (Some (au_email user)) (now w))) s) (\<lambda>j s1.
               bind_res (store_state se (state_key ws_id j) body s1) (\<lambda>_ s2.
               bind_res (on_db (discard_older_plans se ws_id serial None) s2) (\<lambda>_ s3.
                 Ret j (announce ws_id ''state_version_created'' s3))))) (w, os)))"

section \<open>Versions of the CLI\<close>

text \<open>\<open>sv_attrs\<close> is the parsed body; \<open>sa_run\<close> is \<open>None\<close> also for a malformed run id, which is ignored.\<close>

record sv_attrs =
  sa_serial :: int
  sa_lineage :: string
  sa_md5 :: string
  sa_force :: bool
  sa_run :: "nat option"

definition create_state_version ::
    "state_env \<Rightarrow> role list \<Rightarrow> auth_user \<Rightarrow> nat \<Rightarrow> sv_attrs \<Rightarrow> nat state_handler" where
  "create_state_version se roles user ws_id a = (\<lambda>(w, os).
     case workspaces w ws_id of
       None \<Rightarrow> Raise (Http 404) (w, os)
     | Some ws \<Rightarrow>
         if \<not> has_capability (caller_capabilities roles user ws) STATE_WRITE then Raise (Http 403) (w, os)
         else if \<not> sa_force a \<and> version_at w ws_id (sa_serial a) \<noteq> None then Raise (Http 409) (w, os)
         else transaction (\<lambda>s.
           bind_res (on_db (insert_state_version (new_version ws_id (sa_serial a) (sa_lineage a) (sa_md5 a) [] 0
               (sa_run a) (Some (au_email user)) (now w))) s) (\<lambda>j s1.
           bind_res (on_db (discard_older_plans se ws_id (sa_serial a) (sa_run a)) s1) (\<lambda>_ s2.
             Ret j (announce ws_id ''state_version_created'' s2)))) (w, os))"

definition upload_state_content :: "state_env \<Rightarrow> nat \<Rightarrow> int option \<Rightarrow> bytes \<Rightarrow> unit state_handler" where
  "upload_state_content se i declared body = (\<lambda>(w, os).
     case state_versions w i of
       None \<Rightarrow> Raise (Http 404) (w, os)
     | Some sv \<Rightarrow>
         if body_too_large declared body then Raise (Http 413) (w, os)
         else if body = [] then Raise (Http 422) (w, os)
         else if sv_md5 sv \<noteq> [] \<and> sv_md5 sv \<noteq> se_md5 se body then Raise (Http 422) (w, os)
         else
           transaction (\<lambda>s.
             bind_res (store_state se (state_key (sv_workspace sv) i) body s) (\<lambda>_ (w1, os1).
               let w2 = put_sv i (\<lambda>sv. sv\<lparr>sv_size := int (length body), sv_md5 := se_md5 se body\<rparr>) w1
               in Ret () (announce (sv_workspace sv) ''state_version_created''
                    (clear_diverged (sv_workspace sv) w2, os1)))) (w, os))"

text \<open>
  Who may read a state: a runner reads its own workspace and those that list it as a consumer, anyone
  else by capability. \<open>consumers\<close> are the rows of \<open>workspace_remote_state_consumers\<close>.
\<close>

definition runner_state_read_allowed ::
    "env \<Rightarrow> (nat \<times> nat) list \<Rightarrow> auth_user \<Rightarrow> nat \<Rightarrow> world \<Rightarrow> bool" where
  "runner_state_read_allowed e consumers user producer w =
     (if au_auth_method user \<noteq> ''runner_token'' \<or> au_run_id user \<in> {None, Some []} then False
      else case uuid_parse e (the (au_run_id user)) of
        None \<Rightarrow> False
      | Some i \<Rightarrow>
          (case runs w i of
             None \<Rightarrow> False
           | Some r \<Rightarrow> workspace_id r = producer \<or> (producer, workspace_id r) \<in> set consumers))"

definition may_read_state ::
    "env \<Rightarrow> (nat \<times> nat) list \<Rightarrow> role list \<Rightarrow> auth_user \<Rightarrow> string \<Rightarrow> nat \<Rightarrow> workspace \<Rightarrow> world \<Rightarrow> bool" where
  "may_read_state e consumers roles user required ws_id ws w =
     (runner_state_read_allowed e consumers user ws_id w
      \<or> has_capability (caller_capabilities roles user ws) required)"

definition current_version :: "world \<Rightarrow> nat \<Rightarrow> nat option" where
  "current_version w ws =
     least_by (\<lambda>i. - sv_serial (the (state_versions w i)))
       (select (next_id w) (state_versions w) (\<lambda>_ sv. sv_workspace sv = ws))"

definition current_state_version ::
    "env \<Rightarrow> (nat \<times> nat) list \<Rightarrow> role list \<Rightarrow> auth_user \<Rightarrow> nat \<Rightarrow> nat handler" where
  "current_state_version e consumers roles user ws_id w =
     (case workspaces w ws_id of
        None \<Rightarrow> Raise (Http 404) w
      | Some ws \<Rightarrow>
          if \<not> may_read_state e consumers roles user STATE_READ_METADATA ws_id ws w then Raise (Http 403) w
          else
     (case current_version w ws_id of
        None \<Rightarrow> Raise (Http 404) w
      | Some i \<Rightarrow> Ret i w))"

definition download_state ::
    "state_env \<Rightarrow> (nat \<times> nat) list \<Rightarrow> role list \<Rightarrow> auth_user \<Rightarrow> nat \<Rightarrow> bytes state_handler" where
  "download_state se consumers roles user i = (\<lambda>(w, os).
     case state_versions w i of
       None \<Rightarrow> Raise (Http 404) (w, os)
     | Some sv \<Rightarrow>
     (case workspaces w (sv_workspace sv) of
        None \<Rightarrow> Raise (Http 404) (w, os)
      | Some ws \<Rightarrow>
          if \<not> may_read_state (se_run_env se) consumers roles user STATE_READ (sv_workspace sv) ws w
          then Raise (Http 403) (w, os)
          else
     (case os_get (state_key (sv_workspace sv) i) (w, os) of
        Raise _ s1 \<Rightarrow> Raise (Http 404) s1
      | Ret blob s1 \<Rightarrow>
          (case decrypt_state_bytes (se_aead se) (se_service se) blob of
             Inl _ \<Rightarrow> Raise Crypto_Failed s1
           | Inr data \<Rightarrow> Ret data s1))))"

section \<open>The runner's uploads\<close>

definition persist_runner_state ::
    "state_env \<Rightarrow> nat \<Rightarrow> run \<Rightarrow> bytes \<Rightarrow> int \<Rightarrow> string \<Rightarrow> nat state_handler" where
  "persist_runner_state se i r body serial lineage = (\<lambda>(w, os).
     let ws = workspace_id r; md5 = se_md5 se body; sha256 = se_sha256 se body
     in case version_at w ws serial of
          Some j \<Rightarrow>
            let existing = the (state_versions w j)
            in if (if sv_sha256 existing \<noteq> [] then sv_sha256 existing = sha256 else sv_md5 existing = md5)
               then Ret 200 (clear_diverged ws w, os)
               else Raise (Http 409) (w, os)
        | None \<Rightarrow>
            (case insert_state_version (new_version ws serial lineage md5 sha256 (int (length body)) (Some i)
                    (if rc_created_by (config r) = [] then None else Some (rc_created_by (config r))) (now w)) w of
               Raise x w1 \<Rightarrow> Raise (if x = Integrity_Error then Http 409 else x) (w, os)
             | Ret j w1 \<Rightarrow>
                 transaction (\<lambda>_.
                   bind_res (store_state se (state_key ws j) body (w1, os)) (\<lambda>_ (w2, os2).
                   bind_res (on_db (discard_older_plans se ws serial (Some i)) (clear_diverged ws w2, os2)) (\<lambda>_ s3.
                     Ret 204 (announce ws ''state_version_created'' s3)))) (w, os)))"

definition upload_state ::
    "state_env \<Rightarrow> auth_user \<Rightarrow> nat \<Rightarrow> int option \<Rightarrow> bytes \<Rightarrow> nat state_handler" where
  "upload_state se user i declared body = (\<lambda>(w, os).
     case require_runner_for_run user (uuid_str (se_run_env se) i) of
       Inl code \<Rightarrow> Raise (Http code) (w, os)
     | Inr _ \<Rightarrow>
     (case runs w i of
        None \<Rightarrow> Raise (Http 404) (w, os)
      | Some r \<Rightarrow>
          if body_too_large declared body then Raise (Http 413) (w, os)
          else
     (case se_json se body of
        Bad_Json \<Rightarrow> Raise (Http 400) (w, os)
      | Not_An_Object \<Rightarrow> Raise (Http 500) (w, os)
      | State_Json serial lineage \<Rightarrow> persist_runner_state se i r body serial lineage (w, os))))"

text \<open>
  What a run gets as its workspace's state: the decrypted bytes while encryption is on, and otherwise a
  redirect to a presigned URL of the object, which serves it as it is stored (\<open>served\<close>).
\<close>

datatype state_answer = State_Bytes bytes | Redirect skey

fun served :: "object_store \<Rightarrow> state_answer \<Rightarrow> bytes option" where
  "served os (State_Bytes data) = Some data"
| "served os (Redirect key) = os_objects os key"

definition os_presign :: "skey \<Rightarrow> skey state_handler" where
  "os_presign key = os_command (Ret key)"

definition download_run_state :: "state_env \<Rightarrow> auth_user \<Rightarrow> nat \<Rightarrow> state_answer state_handler" where
  "download_run_state se user i = (\<lambda>(w, os).
     case require_runner_for_run user (uuid_str (se_run_env se) i) of
       Inl code \<Rightarrow> Raise (Http code) (w, os)
     | Inr _ \<Rightarrow>
     (case runs w i of
        None \<Rightarrow> Raise (Http 404) (w, os)
      | Some r \<Rightarrow>
     (case current_version w (workspace_id r) of
        None \<Rightarrow> Raise (Http 404) (w, os)
      | Some j \<Rightarrow>
          let key = state_key (workspace_id r) j
          in if state_encryption_active (se_service se)
             then bind_res (load_state se key (w, os)) (\<lambda>data s1. Ret (State_Bytes data) s1)
             else bind_res (os_presign key (w, os)) (\<lambda>url s1. Ret (Redirect url) s1))))"

definition mark_state_diverged :: "env \<Rightarrow> auth_user \<Rightarrow> nat \<Rightarrow> unit handler" where
  "mark_state_diverged e user i w =
     (case require_runner_for_run user (uuid_str e i) of
        Inl code \<Rightarrow> Raise (Http code) w
      | Inr _ \<Rightarrow>
     (case runs w i of
        None \<Rightarrow> Raise (Http 404) w
      | Some r \<Rightarrow>
          if workspaces w (workspace_id r) = None then Raise (Http 404) w
          else Ret () (publish_workspace_event (workspace_id r) ''state_diverged''
                 (put_ws (workspace_id r) (\<lambda>x. x\<lparr>state_diverged := True\<rparr>) w))))"

section \<open>The workspace lock\<close>

definition user_lock :: "auth_user \<Rightarrow> string" where
  "user_lock user = ''lock-'' @ au_email user"

definition set_lock :: "bool \<Rightarrow> string option \<Rightarrow> nat \<Rightarrow> unit handler" where
  "set_lock b lid ws_id w =
     (if (case lid of None \<Rightarrow> False | Some l \<Rightarrow> 255 < length l) then Raise Data_Error w
      else Ret () (publish_workspace_event ws_id ''workspace_lock_change''
             (put_ws ws_id (\<lambda>x. x\<lparr>locked := b, lock_id := lid\<rparr>) w)))"

definition lock_workspace :: "role list \<Rightarrow> auth_user \<Rightarrow> nat \<Rightarrow> string option \<Rightarrow> unit handler" where
  "lock_workspace roles user ws_id given w =
     (case workspaces w ws_id of
        None \<Rightarrow> Raise (Http 404) w
      | Some ws \<Rightarrow>
          if \<not> has_capability (caller_capabilities roles user ws) WORKSPACE_LOCK then Raise (Http 403) w
          else if locked ws then Raise (Http 409) w
          else set_lock True (Some (case given of Some l \<Rightarrow> l | None \<Rightarrow> user_lock user)) ws_id w)"

definition unlock_workspace :: "role list \<Rightarrow> auth_user \<Rightarrow> nat \<Rightarrow> unit handler" where
  "unlock_workspace roles user ws_id w =
     (case workspaces w ws_id of
        None \<Rightarrow> Raise (Http 404) w
      | Some ws \<Rightarrow>
          let caps = caller_capabilities roles user ws; own_lock = lock_id ws = Some (user_lock user)
          in if \<not> has_capability caps WORKSPACE_LOCK then Raise (Http 403) w
             else if locked ws \<and> \<not> own_lock \<and> \<not> has_capability caps WORKSPACE_FORCE_UNLOCK
             then Raise (Http 403) w
             else set_lock False None ws_id w)"

definition force_unlock_workspace :: "role list \<Rightarrow> auth_user \<Rightarrow> nat \<Rightarrow> unit handler" where
  "force_unlock_workspace roles user ws_id w =
     (case workspaces w ws_id of
        None \<Rightarrow> Raise (Http 404) w
      | Some ws \<Rightarrow>
          if \<not> has_capability (caller_capabilities roles user ws) WORKSPACE_FORCE_UNLOCK then Raise (Http 403) w
          else set_lock False None ws_id w)"

end
