(* ===== verification/StateContracts.thy ===== *)
theory StateContracts
  imports StateVersions RunContracts
begin

text \<open>
  What holds of the state versions of a workspace. \<open>sound\<close> is the invariant of the table and of the
  object store: serials are unique in a workspace and fit their column, and every version that was
  uploaded is in storage and decrypts to bytes of the recorded size and digest. Every endpoint of
  \<open>StateVersions\<close>, interleaved with the steps of the runs, keeps it (\<open>state_step\<close>). The processes
  share the cipher, the digests and the data-encryption keys (\<open>compatible\<close>); each may have encryption
  on or off and another active key.

  A handler that adds a version has one of two outcomes: the version is \<open>recorded\<close>, or it raised and
  database and objects are as they were (\<open>unrecorded\<close>). The three handlers that store the bytes
  with the row share that analysis.
\<close>

named_theorems server_simps "evaluation of a handler over the database and the object store"

section \<open>The environment\<close>

definition library_ok :: "state_env \<Rightarrow> bool" where
  "library_ok se \<longleftrightarrow>
     aead_correct (se_aead se) \<and> length (se_nonce se) = 12
   \<and> (\<forall>b. length (se_md5 se b) = 32 \<and> length (se_sha256 se b) = 64)
   \<and> (\<forall>b. is_encrypted_blob b \<longrightarrow> se_json se b = Bad_Json)
   \<and> (state_encryption_active (se_service se) \<longrightarrow> usable_key (se_service se))"

definition compatible :: "state_env \<Rightarrow> state_env \<Rightarrow> bool" where
  "compatible se0 se \<longleftrightarrow>
     library_ok se \<and> se_aead se = se_aead se0 \<and> es_deks (se_service se) = es_deks (se_service se0)
   \<and> se_md5 se = se_md5 se0"

definition reads_as :: "state_env \<Rightarrow> bytes \<Rightarrow> bytes \<Rightarrow> bool" where
  "reads_as se blob data \<longleftrightarrow>
     decrypt_state_bytes (se_aead se) (se_service se) blob = Inr data \<and> \<not> is_encrypted_blob data"

lemma decrypt_compatible:
  "compatible se0 se \<Longrightarrow>
    decrypt_state_bytes (se_aead se) (se_service se) blob
      = decrypt_state_bytes (se_aead se0) (se_service se0) blob"
  using state_files.dec_keys [of "se_service se" "se_service se0"] by (simp add: compatible_def)

lemma seal_state:
  assumes "compatible se0 se" and plain: "\<not> is_encrypted_blob data"
  obtains blob where "encrypt_state_bytes (se_aead se) (se_nonce se) (se_service se) data = Inr blob"
    and "reads_as se0 blob data"
proof -
  have key: "aead_correct (se_aead se) \<and> length (se_nonce se) = 12 \<and> usable_key (se_service se)"
    if "state_encryption_active (se_service se)"
    using that assms(1) unfolding compatible_def library_ok_def by blast
  have "es_deks (se_service se0) = es_deks (se_service se)" using assms(1) by (simp add: compatible_def)
  then obtain blob where "encrypt_state_bytes (se_aead se) (se_nonce se) (se_service se) data = Inr blob"
      "decrypt_state_bytes (se_aead se) (se_service se0) blob = Inr data"
    by (rule state_files.written_reads_back [OF plain key, rotated])
  then show ?thesis using that assms by (simp add: reads_as_def compatible_def)
qed

section \<open>Storage\<close>

lemma on_db_eq [server_simps]:
  "on_db h (w, os) = (case h w of Ret a w1 \<Rightarrow> Ret a (w1, os) | Raise e w1 \<Rightarrow> Raise e (w1, os))"
  by (simp add: on_db_def)

lemma announce_eq [server_simps]:
  "announce ws ev (w, os) = (publish_workspace_event ws ev w, os)"
  by (simp add: announce_def)

lemma publish_frame [simp]:
  "runs (publish_workspace_event ws ev w) = runs w"
  "workspaces (publish_workspace_event ws ev w) = workspaces w"
  "state_versions (publish_workspace_event ws ev w) = state_versions w"
  "next_id (publish_workspace_event ws ev w) = next_id w"
  "db (publish_workspace_event ws ev w) = db w"
  by (simp_all add: publish_workspace_event_def)

lemma rolled_back_frame [simp]:
  "runs (rolled_back w w1) = runs w" "workspaces (rolled_back w w1) = workspaces w"
  "state_versions (rolled_back w w1) = state_versions w" "next_id (rolled_back w w1) = next_id w"
  "db (rolled_back w w1) = db w"
  by (simp_all add: rolled_back_def)

lemma clear_diverged_frame [simp]:
  "runs (clear_diverged ws w) = runs w" "state_versions (clear_diverged ws w) = state_versions w"
  "next_id (clear_diverged ws w) = next_id w" "db (clear_diverged ws w) = clear_diverged ws (db w)"
  by (simp_all add: clear_diverged_def)

lemma store_state_cases [consumes 2, case_names failed stored]:
  assumes "compatible se0 se" and "\<not> is_encrypted_blob data"
  obtains (failed) x os1 where "store_state se key data (w, os) = Raise x (w, os1)"
      "os_objects os1 = os_objects os"
    | (stored) blob os1 where "store_state se key data (w, os) = Ret () (w, os1)"
      "os_objects os1 = (os_objects os)(key \<mapsto> blob)" "reads_as se0 blob data"
proof -
  obtain blob where "encrypt_state_bytes (se_aead se) (se_nonce se) (se_service se) data = Inr blob"
    "reads_as se0 blob data"
    using assms by (rule seal_state)
  with that show ?thesis
    by (cases "os_faults os (os_calls os)") (simp_all add: store_state_def os_put_def os_command_def Let_def)
qed

lemma load_state_cases:
  obtains (failed) x os1 where "load_state se key (w, os) = Raise x (w, os1)" "os_objects os1 = os_objects os"
    | (loaded) data blob os1 where "load_state se key (w, os) = Ret data (w, os1)"
      "os_objects os1 = os_objects os" "os_objects os key = Some blob"
      "decrypt_state_bytes (se_aead se) (se_service se) blob = Inr data"
proof (cases "load_state se key (w, os)")
  case (Ret data s)
  then show ?thesis
    using that(2) [of data] by (auto simp: load_state_def os_get_def os_command_def Let_def split: if_splits
        option.splits sum.splits)
next
  case (Raise x s)
  then show ?thesis
    using that(1) [of x] by (auto simp: load_state_def os_get_def os_command_def Let_def split: if_splits
        option.splits sum.splits)
qed

section \<open>Adding a version\<close>

lemma insert_state_version_cases:
  obtains (added) "insert_state_version sv w = Ret (next_id w) (add_state_version sv w)"
      "sv_fits sv" "sv_serial sv \<notin> set (state_serials w (sv_workspace sv))"
    | (refused) x where "insert_state_version sv w = Raise x w"
proof (cases "\<exists>x. insert_state_version sv w = Raise x w")
  case False
  then show ?thesis
    using that(1) by (auto simp: insert_state_version_def split: if_splits option.splits)
qed (use that(2) in blast)

lemma discard_run_frame:
  "state_versions (res_state (discard_run e i reason w)) = state_versions w
   \<and> next_id (res_state (discard_run e i reason w)) = next_id w"
proof (cases "\<exists>r. runs w i = Some r \<and> status r = Planned")
  case True
  then obtain r where r: "runs w i = Some r" "status r = Planned" by blast
  from db_res_eq_RetD [OF discard_run_db [OF r]] obtain w1 where w1: "discard_run e i reason w = Ret () w1"
    and db: "db w1 = put_run i (\<lambda>r. set_status Discarded (record_reason reason r))
      (release_lock (workspace_id r) (db w))" by blast
  show ?thesis
    using arg_cong [OF db, of state_versions] arg_cong [OF db, of next_id] w1
    by (simp add: release_lock_def)
next
  case False
  then show ?thesis by (auto simp: discard_run_def split: option.split)
qed

lemma discard_loop_frame:
  "state_versions (snd (discard_loop e reason js n w)) = state_versions w
   \<and> next_id (snd (discard_loop e reason js n w)) = next_id w"
proof (induction js arbitrary: n w)
  case (Cons j js)
  then show ?case
    using discard_run_frame [of e j "map_option reason (runs w j)" w]
    by (auto split: res.split)
qed simp

lemma state_change_frame [simp]:
  "state_versions (snd (discard_stale_plans_for_state_change e ws serial ex w)) = state_versions w"
  "next_id (snd (discard_stale_plans_for_state_change e ws serial ex w)) = next_id w"
  by (simp_all add: discard_stale_plans_for_state_change_def discard_loop_frame)

definition stale_runs :: "nat \<Rightarrow> int \<Rightarrow> nat option \<Rightarrow> run table \<Rightarrow> run table" where
  "stale_runs ws serial exclude t =
     (\<lambda>j. map_option (\<lambda>r. if stale_for ws serial exclude j r then drop_stale serial r else r) (t j))"

text \<open>\<open>sv\<close> has been added with a new id, and the waiting plans it makes stale are discarded.\<close>

definition row_added :: "state_version \<Rightarrow> nat option \<Rightarrow> world \<Rightarrow> world \<Rightarrow> bool" where
  "row_added sv exclude w w' \<longleftrightarrow>
     sv_fits sv \<and> sv_serial sv \<notin> set (state_serials w (sv_workspace sv))
   \<and> state_versions w' = (state_versions w)(next_id w \<mapsto> sv) \<and> next_id w' = Suc (next_id w)
   \<and> quiet w w' \<and> (bounded w \<longrightarrow> runs w' = stale_runs (sv_workspace sv) (sv_serial sv) exclude (runs w))"

definition recorded ::
    "state_env \<Rightarrow> state_version \<Rightarrow> nat option \<Rightarrow> bytes \<Rightarrow> server \<Rightarrow> server \<Rightarrow> bool" where
  "recorded se0 sv exclude data = (\<lambda>(w, os) (w', os').
     row_added sv exclude w w'
   \<and> (\<exists>blob. os_objects os' = (os_objects os)(state_key (sv_workspace sv) (next_id w) \<mapsto> blob)
        \<and> reads_as se0 blob data))"

definition unrecorded :: "server \<Rightarrow> server \<Rightarrow> bool" where
  "unrecorded = (\<lambda>(w, os) (w', os'). db w' = db w \<and> os_objects os' = os_objects os)"

lemma add_state_version_frame [simp]:
  "runs (add_state_version sv w) = runs w" "next_id (add_state_version sv w) = Suc (next_id w)"
  "workspaces (add_state_version sv w) = workspaces w"
  "state_versions (add_state_version sv w) = (state_versions w)(next_id w \<mapsto> sv)"
  by (simp_all add: add_state_version_def)

lemma row_addedI:
  assumes "sv_fits sv" and "sv_serial sv \<notin> set (state_serials w (sv_workspace sv))"
    and "db v = db (snd (discard_stale_plans_for_state_change e (sv_workspace sv) (sv_serial sv) exclude u))"
    and "runs u = runs w" and "next_id u = Suc (next_id w)"
    and "state_versions u = (state_versions w)(next_id w \<mapsto> sv)"
  shows "row_added sv exclude w v"
proof -
  let ?d = "snd (discard_stale_plans_for_state_change e (sv_workspace sv) (sv_serial sv) exclude u)"
  have "quiet w u" by (rule quiet.frame) (use assms(4,5) in simp_all)
  then have q: "quiet w ?d" using quiet_state_change by (rule quiet.trans)
  then have "quiet w v" using quiet_db_eq [OF assms(3)] by blast
  moreover have "bounded u" if "bounded w" using that assms(4,5) by (auto simp: bounded_def less_Suc_eq)
  ultimately show ?thesis
    using assms(1,2,4-6) db_eq_frame [OF assms(3)] state_change_rows [of u e "sv_workspace sv" "sv_serial sv" exclude]
    by (simp add: row_added_def stale_runs_def)
qed

section \<open>The outcomes of the handlers\<close>

lemma bind_split:
  "(\<And>a u. m = Ret a u \<Longrightarrow> P (k a u)) \<Longrightarrow> (\<And>x u. m = Raise x u \<Longrightarrow> P (Raise x u)) \<Longrightarrow> P (bind_res m k)"
  by (cases m) auto

lemma next_serial_fresh: "next_serial w ws \<notin> set (state_serials w ws)"
  using max_of_ge [of "state_serials w ws"]
  by (force simp: next_serial_def current_state_serial_def split: option.splits)

lemma unrecorded_iff [server_simps]:
  "unrecorded (w, os) (w', os') \<longleftrightarrow> db w' = db w \<and> os_objects os' = os_objects os"
  by (simp add: unrecorded_def)

lemma recorded_iff [server_simps]:
  "recorded se0 sv exclude data (w, os) (w', os') \<longleftrightarrow> row_added sv exclude w w'
   \<and> (\<exists>blob. os_objects os' = (os_objects os)(state_key (sv_workspace sv) (next_id w) \<mapsto> blob)
        \<and> reads_as se0 blob data)"
  by (simp add: recorded_def)

lemma transaction_eq [server_simps]:
  "transaction h (w, os) =
     (case h (w, os) of Ret a s \<Rightarrow> Ret a s | Raise e (w1, os1) \<Rightarrow> Raise e (rolled_back w w1, os1))"
  by (simp add: transaction_def)

definition rollback_row :: "state_env \<Rightarrow> auth_user \<Rightarrow> world \<Rightarrow> state_version \<Rightarrow> bytes \<Rightarrow> state_version" where
  "rollback_row se user w sv data =
     new_version (sv_workspace sv) (next_serial w (sv_workspace sv)) (sv_lineage sv) (se_md5 se data) []
       (int (length data)) None (Some (au_email user)) (now w)"

definition manual_row :: "state_env \<Rightarrow> auth_user \<Rightarrow> world \<Rightarrow> nat \<Rightarrow> string \<Rightarrow> bytes \<Rightarrow> state_version" where
  "manual_row se user w ws lineage body =
     new_version ws (next_serial w ws) lineage (se_md5 se body) [] (int (length body)) None
       (Some (au_email user)) (now w)"

definition runner_row :: "state_env \<Rightarrow> world \<Rightarrow> nat \<Rightarrow> run \<Rightarrow> bytes \<Rightarrow> int \<Rightarrow> string \<Rightarrow> state_version" where
  "runner_row se w i r body serial lineage =
     new_version (workspace_id r) serial lineage (se_md5 se body) (se_sha256 se body) (int (length body))
       (Some i) (if rc_created_by (config r) = [] then None else Some (rc_created_by (config r))) (now w)"

lemma new_version_simps [simp]:
  "sv_workspace (new_version ws serial lineage md5 sha n run cb t) = ws"
  "sv_serial (new_version ws serial lineage md5 sha n run cb t) = serial"
  "sv_lineage (new_version ws serial lineage md5 sha n run cb t) = lineage"
  "sv_md5 (new_version ws serial lineage md5 sha n run cb t) = md5"
  "sv_sha256 (new_version ws serial lineage md5 sha n run cb t) = sha"
  "sv_size (new_version ws serial lineage md5 sha n run cb t) = n"
  by (simp_all add: new_version_def)

text \<open>The row first, then the plans, then the bytes: the order of a rollback.\<close>

lemma record_then_store:
  assumes "compatible se0 se" and "\<not> is_encrypted_blob data" and "sv_workspace sv = ws" and "sv_serial sv = serial"
  obtains (through) s' where "transaction (\<lambda>s.
        bind_res (on_db (insert_state_version sv) s) (\<lambda>j s2.
        bind_res (on_db (discard_older_plans se ws serial exclude) s2) (\<lambda>_ s3.
        bind_res (store_state se (state_key ws j) data s3) (\<lambda>_ s4. Ret j (announce ws ev s4))))) (w, os)
      = Ret (next_id w) s'" "recorded se0 sv exclude data (w, os) s'"
    | (failed) x s' where "transaction (\<lambda>s.
        bind_res (on_db (insert_state_version sv) s) (\<lambda>j s2.
        bind_res (on_db (discard_older_plans se ws serial exclude) s2) (\<lambda>_ s3.
        bind_res (store_state se (state_key ws j) data s3) (\<lambda>_ s4. Ret j (announce ws ev s4))))) (w, os)
      = Raise x s'" "unrecorded (w, os) s'"
proof (cases rule: insert_state_version_cases [of sv w])
  case added
  let ?d = "snd (discard_stale_plans_for_state_change (se_run_env se) ws serial exclude (add_state_version sv w))"
  from assms(1,2) show ?thesis
  proof (cases rule: store_state_cases [where key = "state_key ws (next_id w)" and w = ?d and os = os])
    case (failed x os1)
    with added that(2) show ?thesis by (simp add: server_simps discard_older_plans_def)
  next
    case (stored blob os1)
    have "row_added sv exclude w (publish_workspace_event ws ev ?d)"
      by (rule row_addedI [where u = "add_state_version sv w" and e = "se_run_env se"])
        (use added assms(3,4) in simp_all)
    with stored added that(1) assms(3) show ?thesis
      by (simp add: server_simps discard_older_plans_def) blast
  qed
next
  case (refused x)
  with that(2) show ?thesis by (simp add: server_simps)
qed

text \<open>The bytes before the plans: the order of both uploads.\<close>

lemma store_then_discard:
  assumes "compatible se0 se" and "\<not> is_encrypted_blob data" and "sv_workspace sv = ws" and "sv_serial sv = serial"
    and "sv_fits sv" and "sv_serial sv \<notin> set (state_serials w (sv_workspace sv))"
    and f: "f = (\<lambda>w. w) \<or> f = clear_diverged ws"
    and k: "\<And>w2 os2. k () (w2, os2) = Ret a (announce ws ev
      (snd (discard_stale_plans_for_state_change (se_run_env se) ws serial exclude (f w2)), os2))"
  obtains (through) s' where
      "bind_res (store_state se (state_key ws (next_id w)) data (add_state_version sv w, os)) k = Ret a s'"
      "recorded se0 sv exclude data (w, os) s'"
    | (failed) x v os' where
      "bind_res (store_state se (state_key ws (next_id w)) data (add_state_version sv w, os)) k = Raise x (v, os')"
      "os_objects os' = os_objects os"
proof -
  let ?u = "f (add_state_version sv w)"
  let ?d = "snd (discard_stale_plans_for_state_change (se_run_env se) ws serial exclude ?u)"
  from assms(1,2) show ?thesis
  proof (cases rule: store_state_cases [where key = "state_key ws (next_id w)"
      and w = "add_state_version sv w" and os = os])
    case (failed x os1)
    with that(2) show ?thesis by simp
  next
    case (stored blob os1)
    have "row_added sv exclude w (publish_workspace_event ws ev ?d)"
      by (rule row_addedI [where u = ?u and e = "se_run_env se"]) (use assms in auto)
    with stored that(1) assms(3) show ?thesis
      by (simp add: server_simps k) blast
  qed
qed

lemma rollback_outcome:
  assumes "compatible se0 se" and sv: "state_versions w i = Some sv"
    and plain: "\<forall>blob data. os_objects os (state_key (sv_workspace sv) i) = Some blob
      \<and> decrypt_state_bytes (se_aead se) (se_service se) blob = Inr data \<longrightarrow> \<not> is_encrypted_blob data"
  shows "case rollback_state_version se roles user i (w, os) of
      Ret j s' \<Rightarrow> j = next_id w \<and> require_sv_workspace_capability roles user sv STATE_WRITE w = None
        \<and> (\<exists>blob data. os_objects os (state_key (sv_workspace sv) i) = Some blob
          \<and> decrypt_state_bytes (se_aead se) (se_service se) blob = Inr data
          \<and> recorded se0 (rollback_row se user w sv data) None data (w, os) s')
    | Raise x s' \<Rightarrow> unrecorded (w, os) s'"
proof (cases "require_sv_workspace_capability roles user sv STATE_WRITE w")
  case (Some code)
  with sv show ?thesis by (simp add: rollback_state_version_def unrecorded_def)
next
  case None
  show ?thesis
  proof (cases rule: load_state_cases [of se "state_key (sv_workspace sv) i" w os])
    case (failed x os1)
    with sv None show ?thesis by (simp add: rollback_state_version_def unrecorded_def)
  next
    case (loaded data blob os1)
    let ?row = "rollback_row se user w sv data"
    have "\<not> is_encrypted_blob data" using plain loaded by blast
    moreover have "sv_workspace ?row = sv_workspace sv" "sv_serial ?row = next_serial w (sv_workspace sv)"
      by (simp_all add: rollback_row_def)
    ultimately show ?thesis
      by (rule record_then_store [OF assms(1), of data ?row _ _ None "''state_version_created''" w os1])
        (use sv None loaded in \<open>auto simp: rollback_state_version_def rollback_row_def Let_def
          unrecorded_def recorded_def\<close>)
  qed
qed

lemma manual_outcome:
  assumes "compatible se0 se"
  shows "case upload_state_manual se roles user ws_id declared body (w, os) of
      Ret j s' \<Rightarrow> j = next_id w \<and> (\<exists>ws. workspaces w ws_id = Some ws
          \<and> has_capability (caller_capabilities roles user ws) STATE_WRITE)
        \<and> \<not> body_too_large declared body
        \<and> (\<exists>serial lineage. se_json se body = State_Json serial lineage
          \<and> recorded se0 (manual_row se user w ws_id lineage body) None body (w, os) s')
    | Raise x s' \<Rightarrow> unrecorded (w, os) s'"
proof (cases "\<exists>x. upload_state_manual se roles user ws_id declared body (w, os) = Raise x (w, os)")
  case True
  then show ?thesis by (auto simp: unrecorded_def)
next
  case False
  then obtain ws serial lineage where ws: "workspaces w ws_id = Some ws"
      "has_capability (caller_capabilities roles user ws) STATE_WRITE" "\<not> body_too_large declared body"
      "body \<noteq> []" "se_json se body = State_Json serial lineage"
    by (auto simp: upload_state_manual_def split: option.splits if_splits state_json.splits)
  let ?row = "manual_row se user w ws_id lineage body"
  have plain: "\<not> is_encrypted_blob body" using assms ws(5) by (auto simp: compatible_def library_ok_def)
  show ?thesis
  proof (cases rule: insert_state_version_cases [of ?row w])
    case added
    have "sv_workspace ?row = ws_id" "sv_serial ?row = next_serial w ws_id" by (simp_all add: manual_row_def)
    moreover define k where "k = (\<lambda>(_::unit) s2. bind_res (on_db (discard_older_plans se ws_id (next_serial w ws_id) None) s2)
        (\<lambda>_ s3. Ret (next_id w) (announce ws_id ''state_version_created'' s3)))"
    moreover have "k () (w2, os2) = Ret (next_id w) (announce ws_id ''state_version_created''
      (snd (discard_stale_plans_for_state_change (se_run_env se) ws_id (next_serial w ws_id) None w2), os2))" for w2 os2
      by (simp add: k_def server_simps discard_older_plans_def)
    ultimately show ?thesis
      by (elim store_then_discard [OF assms plain _ _ added(2,3) disjI1 [OF refl], where k = k and os = os])
        (use ws added in \<open>auto simp: upload_state_manual_def manual_row_def server_simps Let_def\<close>)
  next
    case (refused x)
    with ws show ?thesis by (simp add: upload_state_manual_def manual_row_def Let_def server_simps)
  qed
qed

definition same_state :: "state_version \<Rightarrow> string \<Rightarrow> string \<Rightarrow> bool" where
  "same_state sv md5 sha256 =
     (if sv_sha256 sv \<noteq> [] then sv_sha256 sv = sha256 else sv_md5 sv = md5)"

lemma version_at_Some:
  assumes "version_at w ws serial = Some j"
  shows "\<exists>sv. state_versions w j = Some sv \<and> sv_workspace sv = ws \<and> sv_serial sv = serial"
  using first_of_SomeD [OF assms [unfolded version_at_def]] by auto

lemma persist_outcome:
  assumes "compatible se0 se" and plain: "\<not> is_encrypted_blob body"
  shows "case version_at w (workspace_id r) serial of
      Some j \<Rightarrow> persist_runner_state se i r body serial lineage (w, os)
        = (if same_state (the (state_versions w j)) (se_md5 se body) (se_sha256 se body)
           then Ret 200 (clear_diverged (workspace_id r) w, os) else Raise (Http 409) (w, os))
    | None \<Rightarrow>
        (case persist_runner_state se i r body serial lineage (w, os) of
           Ret c s' \<Rightarrow> c = 204 \<and> recorded se0 (runner_row se w i r body serial lineage) (Some i) body (w, os) s'
         | Raise x s' \<Rightarrow> unrecorded (w, os) s')"
proof (cases "version_at w (workspace_id r) serial")
  case (Some j)
  then show ?thesis by (simp add: persist_runner_state_def same_state_def Let_def)
next
  case None
  let ?row = "runner_row se w i r body serial lineage"
  let ?ws = "workspace_id r"
  show ?thesis
  proof (cases rule: insert_state_version_cases [of ?row w])
    case added
    have "sv_workspace ?row = ?ws" "sv_serial ?row = serial" by (simp_all add: runner_row_def)
    moreover define k where "k = (\<lambda>(_::unit) (w2, os2). bind_res (on_db (discard_older_plans se ?ws serial (Some i))
        (clear_diverged ?ws w2, os2)) (\<lambda>_ s3. Ret (204::nat) (announce ?ws ''state_version_created'' s3)))"
    moreover have "k () (w2, os2) = Ret 204 (announce ?ws ''state_version_created''
      (snd (discard_stale_plans_for_state_change (se_run_env se) ?ws serial (Some i) (clear_diverged ?ws w2)), os2))" for w2 os2
      by (simp add: k_def server_simps discard_older_plans_def)
    ultimately show ?thesis
      by (elim store_then_discard [OF assms(1) plain _ _ added(2,3) disjI2 [OF refl], where k = k and os = os])
        (use None added in \<open>auto simp: persist_runner_state_def runner_row_def server_simps Let_def\<close>)
  next
    case (refused x)
    with None show ?thesis by (simp add: persist_runner_state_def runner_row_def unrecorded_def Let_def)
  qed
qed

section \<open>The invariant\<close>

definition versions_ok :: "world \<Rightarrow> bool" where
  "versions_ok w \<longleftrightarrow>
     (\<forall>i sv. state_versions w i = Some sv \<longrightarrow> i < next_id w \<and> sv_fits sv)
   \<and> (\<forall>i j sv sv'. state_versions w i = Some sv \<longrightarrow> state_versions w j = Some sv' \<longrightarrow>
        sv_workspace sv = sv_workspace sv' \<longrightarrow> sv_serial sv = sv_serial sv' \<longrightarrow> i = j)"

definition in_storage :: "state_env \<Rightarrow> object_store \<Rightarrow> nat \<Rightarrow> state_version \<Rightarrow> bool" where
  "in_storage se0 os i sv \<longleftrightarrow>
     (\<exists>blob data. os_objects os (state_key (sv_workspace sv) i) = Some blob \<and> reads_as se0 blob data
        \<and> int (length data) = sv_size sv \<and> se_md5 se0 data = sv_md5 sv)"

definition sound :: "state_env \<Rightarrow> server \<Rightarrow> bool" where
  "sound se0 = (\<lambda>(w, os).
     versions_ok w
   \<and> (\<forall>key blob. os_objects os key = Some blob \<longrightarrow> (\<exists>data. reads_as se0 blob data))
   \<and> (\<forall>i sv. state_versions w i = Some sv \<longrightarrow> 0 < sv_size sv \<longrightarrow> in_storage se0 os i sv))"

lemma state_serials_iff:
  "versions_ok w \<Longrightarrow> s \<in> set (state_serials w ws) \<longleftrightarrow>
    (\<exists>i sv. state_versions w i = Some sv \<and> sv_workspace sv = ws \<and> sv_serial sv = s)"
  by (force simp: state_serials_def versions_ok_def)

lemma sound_frame:
  assumes "sound se0 (w, os)" and "state_versions w' = state_versions w" and "next_id w \<le> next_id w'"
    and "os_objects os' = os_objects os"
  shows "sound se0 (w', os')"
  using assms unfolding sound_def versions_ok_def in_storage_def by (auto intro: less_le_trans)

lemma unrecorded_sound:
  assumes "unrecorded (w, os) s'" and "sound se0 (w, os)"
  shows "sound se0 s'"
proof -
  obtain w' os' where s': "s' = (w', os')" by (cases s')
  with assms(1) have "db w' = db w" "os_objects os' = os_objects os" by (simp_all add: server_simps)
  with s' assms(2) sound_frame [of se0 w os w' os'] show ?thesis using db_eq_frame [of w' w] by simp
qed

lemma row_added_versions_ok:
  assumes "row_added sv exclude w w'" and "versions_ok w"
  shows "versions_ok w'"
proof -
  have new: "state_versions w i = Some sv' \<Longrightarrow> sv_workspace sv' = sv_workspace sv \<Longrightarrow> sv_serial sv' \<noteq> sv_serial sv"
    for i sv'
    using assms state_serials_iff [OF assms(2), of "sv_serial sv" "sv_workspace sv"]
    by (auto simp: row_added_def)
  with assms show ?thesis
    unfolding versions_ok_def row_added_def by (auto simp: less_Suc_eq split: if_splits) metis+
qed

lemma recorded_sound:
  assumes "recorded se0 sv exclude data (w, os) s'" and "sound se0 (w, os)"
    and "sv_size sv = int (length data)" and "sv_md5 sv = se_md5 se0 data"
  shows "sound se0 s'"
proof -
  obtain w' os' where s': "s' = (w', os')" by (cases s')
  obtain blob where r: "row_added sv exclude w w'" "reads_as se0 blob data"
      "os_objects os' = (os_objects os)(state_key (sv_workspace sv) (next_id w) \<mapsto> blob)"
    using assms(1) s' by (auto simp: server_simps)
  have vs: "versions_ok w" using assms(2) by (simp add: sound_def)
  then have fresh: "state_versions w i = Some sv' \<Longrightarrow> i \<noteq> next_id w" for i sv'
    by (auto simp: versions_ok_def)
  show ?thesis
    using assms(2-4) r row_added_versions_ok [OF r(1) vs] fresh
    unfolding sound_def in_storage_def s' row_added_def
    by (auto simp: state_key_def split: if_splits)
qed

section \<open>The other handlers\<close>

lemma set_lock_frame:
  "state_versions (res_state (set_lock b lid ws w)) = state_versions w
   \<and> next_id (res_state (set_lock b lid ws w)) = next_id w \<and> runs (res_state (set_lock b lid ws w)) = runs w"
  by (simp add: set_lock_def)

lemma lock_frame:
  "state_versions (res_state (lock_workspace roles user ws given w)) = state_versions w
   \<and> next_id (res_state (lock_workspace roles user ws given w)) = next_id w
   \<and> runs (res_state (lock_workspace roles user ws given w)) = runs w"
  by (simp add: lock_workspace_def set_lock_frame split: option.split)

lemma unlock_frame:
  "state_versions (res_state (unlock_workspace roles user ws w)) = state_versions w
   \<and> next_id (res_state (unlock_workspace roles user ws w)) = next_id w
   \<and> runs (res_state (unlock_workspace roles user ws w)) = runs w"
  by (simp add: unlock_workspace_def set_lock_frame Let_def split: option.split)

lemma force_unlock_frame:
  "state_versions (res_state (force_unlock_workspace roles user ws w)) = state_versions w
   \<and> next_id (res_state (force_unlock_workspace roles user ws w)) = next_id w
   \<and> runs (res_state (force_unlock_workspace roles user ws w)) = runs w"
  by (simp add: force_unlock_workspace_def set_lock_frame split: option.split)

lemma diverged_frame:
  "state_versions (res_state (mark_state_diverged e user i w)) = state_versions w
   \<and> next_id (res_state (mark_state_diverged e user i w)) = next_id w
   \<and> runs (res_state (mark_state_diverged e user i w)) = runs w"
  by (simp add: mark_state_diverged_def split: option.split sum.split)

lemma create_outcome:
  "case create_state_version se roles user ws_id a (w, os) of
      Ret j (w', os') \<Rightarrow> j = next_id w \<and> os' = os \<and> (\<exists>ws. workspaces w ws_id = Some ws
          \<and> has_capability (caller_capabilities roles user ws) STATE_WRITE)
        \<and> row_added (new_version ws_id (sa_serial a) (sa_lineage a) (sa_md5 a) [] 0 (sa_run a)
            (Some (au_email user)) (now w)) (sa_run a) w w'
    | Raise x s' \<Rightarrow> unrecorded (w, os) s'"
proof (cases "\<exists>x. create_state_version se roles user ws_id a (w, os) = Raise x (w, os)")
  case True
  then show ?thesis by (auto simp: unrecorded_def)
next
  case False
  then obtain ws where ws: "workspaces w ws_id = Some ws"
      "has_capability (caller_capabilities roles user ws) STATE_WRITE"
      "\<not> (\<not> sa_force a \<and> version_at w ws_id (sa_serial a) \<noteq> None)"
    by (auto simp: create_state_version_def split: option.splits if_splits)
  let ?row = "new_version ws_id (sa_serial a) (sa_lineage a) (sa_md5 a) [] 0 (sa_run a)
            (Some (au_email user)) (now w)"
  show ?thesis
  proof (cases rule: insert_state_version_cases [of ?row w])
    case added
    have "row_added ?row (sa_run a) w (publish_workspace_event ws_id ''state_version_created''
        (snd (discard_stale_plans_for_state_change (se_run_env se) ws_id (sa_serial a) (sa_run a)
          (add_state_version ?row w))))"
      by (rule row_addedI [where u = "add_state_version ?row w" and e = "se_run_env se"]) (use added in simp_all)
    with ws added show ?thesis
      by (auto simp: create_state_version_def server_simps discard_older_plans_def)
  next
    case (refused x)
    with ws show ?thesis by (auto simp: create_state_version_def server_simps)
  qed
qed

lemma content_outcome:
  assumes "compatible se0 se" and plain: "\<not> is_encrypted_blob body"
  shows "case upload_state_content se i declared body (w, os) of
      Ret _ (w', os') \<Rightarrow> (\<exists>sv blob. state_versions w i = Some sv \<and> (sv_md5 sv = [] \<or> sv_md5 sv = se_md5 se body)
        \<and> body \<noteq> [] \<and> int (length body) \<le> max_upload
        \<and> state_versions w' = (state_versions w)(i \<mapsto>
            sv\<lparr>sv_size := int (length body), sv_md5 := se_md5 se body\<rparr>)
        \<and> next_id w' = next_id w \<and> runs w' = runs w
        \<and> os_objects os' = (os_objects os)(state_key (sv_workspace sv) i \<mapsto> blob)
        \<and> reads_as se0 blob body)
    | Raise x s' \<Rightarrow> unrecorded (w, os) s'"
proof (cases "\<exists>x. upload_state_content se i declared body (w, os) = Raise x (w, os)")
  case True
  then show ?thesis by (auto simp: unrecorded_def)
next
  case False
  then obtain sv where sv: "state_versions w i = Some sv" "\<not> body_too_large declared body" "body \<noteq> []"
      "\<not> (sv_md5 sv \<noteq> [] \<and> sv_md5 sv \<noteq> se_md5 se body)"
    by (auto simp: upload_state_content_def split: option.splits if_splits)
  from assms show ?thesis
  proof (cases rule: store_state_cases [where key = "state_key (sv_workspace sv) i" and w = w and os = os])
    case (failed x os1)
    with sv show ?thesis by (auto simp: upload_state_content_def server_simps)
  next
    case (stored blob os1)
    have "int (length body) \<le> max_upload" using sv(2) by (simp add: body_too_large_def)
    with sv stored show ?thesis
      by (auto simp: upload_state_content_def server_simps Let_def put_sv_def modify_def)
  qed
qed

lemma delete_outcome:
  "case delete_state_version roles user i (w, os) of
      Ret _ (w', os') \<Rightarrow> (\<exists>sv. state_versions w i = Some sv
        \<and> require_sv_workspace_capability roles user sv STATE_DELETE w = None
        \<and> \<not> (current_state_serial w (sv_workspace sv) = Some (sv_serial sv) \<and> 0 < sv_size sv)
        \<and> state_versions w' = (state_versions w)(i := None) \<and> next_id w' = next_id w \<and> runs w' = runs w
        \<and> (os_objects os' = os_objects os
           \<or> os_objects os' = (os_objects os)(state_key (sv_workspace sv) i := None)))
    | Raise x s' \<Rightarrow> s' = (w, os)"
  by (auto simp: delete_state_version_def os_delete_def os_command_def announce_def drop_sv_def Let_def
      split: option.split if_split)

end
