(* ===== verification/StateSafety.thy ===== *)
theory StateSafety
  imports StateContracts
begin

text \<open>
  The theorems about state versions and the workspace lock. \<open>state_step\<close> lets any state endpoint run,
  with any arguments and any pattern of storage faults, and any step of the runs in between;
  \<open>version_effect\<close> is the abstract view of a step: a version is recorded, a placeholder is added, the
  bytes of a version arrive, a version is dropped, or nothing happens to the versions. The theorems
  about whole histories go through that view.
\<close>

section \<open>Steps\<close>

inductive state_step :: "state_env \<Rightarrow> server \<Rightarrow> server \<Rightarrow> bool" for se0 where
  create_version: "state_step se0 s (res_state (create_state_version se roles user ws a s))"
| upload_content: "compatible se0 se \<Longrightarrow> \<not> is_encrypted_blob body \<Longrightarrow>
    state_step se0 s (res_state (upload_state_content se i declared body s))"
| delete_version: "state_step se0 s (res_state (delete_state_version roles user i s))"
| rollback: "compatible se0 se \<Longrightarrow> state_step se0 s (res_state (rollback_state_version se roles user i s))"
| upload_manual: "compatible se0 se \<Longrightarrow>
    state_step se0 s (res_state (upload_state_manual se roles user ws declared body s))"
| runner_upload: "compatible se0 se \<Longrightarrow> state_step se0 s (res_state (upload_state se user i declared body s))"
| diverged: "state_step se0 (w, os) (res_state (mark_state_diverged e user i w), os)"
| lock: "state_step se0 (w, os) (res_state (lock_workspace roles user ws given w), os)"
| unlock: "state_step se0 (w, os) (res_state (unlock_workspace roles user ws w), os)"
| force_unlock: "state_step se0 (w, os) (res_state (force_unlock_workspace roles user ws w), os)"
| elsewhere: "run_step w w' \<Longrightarrow> state_versions w' = state_versions w \<Longrightarrow> next_id w \<le> next_id w' \<Longrightarrow>
    os_objects os' = os_objects os \<Longrightarrow> state_step se0 (w, os) (w', os')"

text \<open>What a step does to the versions: nothing, a new one, new bytes for one, or one less.\<close>

definition bytes_stored :: "state_env \<Rightarrow> nat \<Rightarrow> state_version \<Rightarrow> bytes \<Rightarrow> server \<Rightarrow> server \<Rightarrow> bool" where
  "bytes_stored se0 i sv data = (\<lambda>(w, os) (w', os').
     state_versions w i = Some sv \<and> (sv_md5 sv = [] \<or> sv_md5 sv = se_md5 se0 data)
   \<and> data \<noteq> [] \<and> int (length data) \<le> max_upload \<and> length (se_md5 se0 data) = 32
   \<and> state_versions w' = (state_versions w)(i \<mapsto> sv\<lparr>sv_size := int (length data), sv_md5 := se_md5 se0 data\<rparr>)
   \<and> next_id w' = next_id w \<and> runs w' = runs w
   \<and> (\<exists>blob. os_objects os' = (os_objects os)(state_key (sv_workspace sv) i \<mapsto> blob) \<and> reads_as se0 blob data))"

definition row_dropped :: "nat \<Rightarrow> state_version \<Rightarrow> server \<Rightarrow> server \<Rightarrow> bool" where
  "row_dropped i sv = (\<lambda>(w, os) (w', os').
     state_versions w i = Some sv
   \<and> \<not> (current_state_serial w (sv_workspace sv) = Some (sv_serial sv) \<and> 0 < sv_size sv)
   \<and> state_versions w' = (state_versions w)(i := None) \<and> next_id w' = next_id w \<and> runs w' = runs w
   \<and> (os_objects os' = os_objects os
      \<or> os_objects os' = (os_objects os)(state_key (sv_workspace sv) i := None)))"

definition versions_kept :: "server \<Rightarrow> server \<Rightarrow> bool" where
  "versions_kept = (\<lambda>(w, os) (w', os').
     state_versions w' = state_versions w \<and> next_id w \<le> next_id w' \<and> os_objects os' = os_objects os)"

definition version_effect :: "state_env \<Rightarrow> server \<Rightarrow> server \<Rightarrow> bool" where
  "version_effect se0 s s' \<longleftrightarrow>
     versions_kept s s'
   \<or> (\<exists>sv exclude data. recorded se0 sv exclude data s s' \<and> sv_size sv = int (length data)
        \<and> sv_md5 sv = se_md5 se0 data)
   \<or> (\<exists>sv exclude. row_added sv exclude (fst s) (fst s') \<and> sv_size sv = 0
        \<and> os_objects (snd s') = os_objects (snd s))
   \<or> (\<exists>i sv data. bytes_stored se0 i sv data s s')
   \<or> (\<exists>i sv. row_dropped i sv s s')"

lemma kept_effect: "versions_kept s s' \<Longrightarrow> version_effect se0 s s'"
  by (simp add: version_effect_def)

lemma unrecorded_effect:
  assumes "unrecorded (w, os) s'"
  shows "version_effect se0 (w, os) s' \<and> quiet w (fst s')"
proof -
  obtain w' os' where s': "s' = (w', os')" by (cases s')
  with assms have db: "db w' = db w" and os: "os_objects os' = os_objects os" by (simp_all add: server_simps)
  have "quiet w w'" using quiet_db_eq [OF db, of w] by simp
  with db_eq_frame [OF db] os s' show ?thesis by (simp add: kept_effect versions_kept_def)
qed

lemma recorded_effect:
  assumes "recorded se0 sv exclude data (w, os) s'" and "sv_size sv = int (length data)"
    and "sv_md5 sv = se_md5 se0 data"
  shows "version_effect se0 (w, os) s' \<and> quiet w (fst s')"
proof -
  obtain w' os' where s': "s' = (w', os')" by (cases s')
  with assms(1) have "quiet w w'" by (simp add: server_simps row_added_def)
  moreover have "version_effect se0 (w, os) s'"
    unfolding version_effect_def using assms s' by blast
  ultimately show ?thesis using s' by simp
qed

lemma frame_effect:
  "state_versions w' = state_versions w \<and> next_id w' = next_id w \<and> runs w' = runs w \<Longrightarrow>
    version_effect se0 (w, os) (w', os) \<and> quiet w w'"
  by (simp add: kept_effect versions_kept_def quiet.frame)

lemma create_effect:
  "version_effect se0 (w, os) (res_state (create_state_version se roles user ws_id a (w, os)))
   \<and> quiet w (fst (res_state (create_state_version se roles user ws_id a (w, os))))"
proof (cases "create_state_version se roles user ws_id a (w, os)")
  case (Raise x s')
  with create_outcome [where se = se and roles = roles and user = user and ws_id = ws_id and a = a and w = w and os = os] show ?thesis by (simp add: unrecorded_effect)
next
  case (Ret j s')
  then obtain w' where s': "s' = (w', os)" using create_outcome [where se = se and roles = roles and user = user and ws_id = ws_id and a = a and w = w and os = os] by (cases s') auto
  let ?row = "new_version ws_id (sa_serial a) (sa_lineage a) (sa_md5 a) [] 0 (sa_run a) (Some (au_email user)) (now w)"
  have row: "row_added ?row (sa_run a) w w'"
    using create_outcome [where se = se and roles = roles and user = user and ws_id = ws_id and a = a and w = w and os = os] Ret s' by simp
  then have "version_effect se0 (w, os) (w', os)"
    unfolding version_effect_def by (intro disjI2 disjI1 exI [of _ ?row] exI [of _ "sa_run a"]) auto
  with row Ret s' show ?thesis by (simp add: row_added_def)
qed

lemma content_effect:
  assumes "compatible se0 se" and plain: "\<not> is_encrypted_blob body"
  shows "version_effect se0 (w, os) (res_state (upload_state_content se i declared body (w, os)))
   \<and> quiet w (fst (res_state (upload_state_content se i declared body (w, os))))"
proof (cases "upload_state_content se i declared body (w, os)")
  case (Raise x s')
  with content_outcome [OF assms, where i = i and declared = declared and w = w and os = os] show ?thesis by (simp add: unrecorded_effect)
next
  case (Ret u s')
  obtain w' os' where s': "s' = (w', os')" by (cases s')
  have md5: "se_md5 se = se_md5 se0" "length (se_md5 se0 body) = 32"
    using assms(1) by (auto simp: compatible_def library_ok_def)
  obtain sv where "bytes_stored se0 i sv body (w, os) (w', os')"
    using content_outcome [OF assms, where i = i and declared = declared and w = w and os = os] Ret s' md5
    by (auto simp: bytes_stored_def)
  then have "version_effect se0 (w, os) (w', os')" unfolding version_effect_def by blast
  moreover have "quiet w w'"
    using content_outcome [OF assms, where i = i and declared = declared and w = w and os = os] Ret s' by (auto intro: quiet.frame)
  ultimately show ?thesis using Ret s' by simp
qed

lemma delete_effect:
  "version_effect se0 (w, os) (res_state (delete_state_version roles user i (w, os)))
   \<and> quiet w (fst (res_state (delete_state_version roles user i (w, os))))"
proof (cases "delete_state_version roles user i (w, os)")
  case (Raise x s')
  with delete_outcome [where roles = roles and user = user and i = i and w = w and os = os] show ?thesis by (simp add: kept_effect versions_kept_def)
next
  case (Ret u s')
  obtain w' os' where s': "s' = (w', os')" by (cases s')
  obtain sv where "row_dropped i sv (w, os) (w', os')"
    using delete_outcome [where roles = roles and user = user and i = i and w = w and os = os] Ret s'
    by (auto simp: row_dropped_def)
  then have "version_effect se0 (w, os) (w', os')" unfolding version_effect_def by blast
  moreover have "quiet w w'"
    using delete_outcome [where roles = roles and user = user and i = i and w = w and os = os] Ret s' by (auto intro: quiet.frame)
  ultimately show ?thesis using Ret s' by simp
qed

lemma rollback_effect:
  assumes c: "compatible se0 se" and sound: "sound se0 (w, os)"
  shows "version_effect se0 (w, os) (res_state (rollback_state_version se roles user i (w, os)))
   \<and> quiet w (fst (res_state (rollback_state_version se roles user i (w, os))))"
proof (cases "state_versions w i")
  case None
  then show ?thesis by (simp add: rollback_state_version_def kept_effect versions_kept_def)
next
  case (Some sv)
  have plain: "\<forall>blob data. os_objects os (state_key (sv_workspace sv) i) = Some blob
      \<and> decrypt_state_bytes (se_aead se) (se_service se) blob = Inr data \<longrightarrow> \<not> is_encrypted_blob data"
    using sound decrypt_compatible [OF c] unfolding sound_def reads_as_def by fastforce
  note o = rollback_outcome [OF c Some plain, where roles = roles and user = user]
  show ?thesis
  proof (cases "rollback_state_version se roles user i (w, os)")
    case (Raise x s')
    with o show ?thesis by (simp add: unrecorded_effect)
  next
    case (Ret j s')
    with o obtain data where r: "recorded se0 (rollback_row se user w sv data) None data (w, os) s'" by auto
    have "se_md5 se = se_md5 se0" using c by (simp add: compatible_def)
    then show ?thesis using recorded_effect [OF r] Ret by (simp add: rollback_row_def)
  qed
qed

lemma manual_effect:
  assumes c: "compatible se0 se"
  shows "version_effect se0 (w, os) (res_state (upload_state_manual se roles user ws_id declared body (w, os)))
   \<and> quiet w (fst (res_state (upload_state_manual se roles user ws_id declared body (w, os))))"
proof (cases "upload_state_manual se roles user ws_id declared body (w, os)")
  case (Raise x s')
  with manual_outcome [OF c, where roles = roles and user = user and ws_id = ws_id and declared = declared and body = body and w = w and os = os] show ?thesis by (simp add: unrecorded_effect)
next
  case (Ret j s')
  with manual_outcome [OF c, where roles = roles and user = user and ws_id = ws_id and declared = declared and body = body and w = w and os = os] obtain lineage where
    r: "recorded se0 (manual_row se user w ws_id lineage body) None body (w, os) s'" by auto
  have "se_md5 se = se_md5 se0" using c by (simp add: compatible_def)
  then show ?thesis using recorded_effect [OF r] Ret by (simp add: manual_row_def)
qed

lemma runner_effect:
  assumes c: "compatible se0 se"
  shows "version_effect se0 (w, os) (res_state (upload_state se user i declared body (w, os)))
   \<and> quiet w (fst (res_state (upload_state se user i declared body (w, os))))"
proof (cases "\<exists>x. upload_state se user i declared body (w, os) = Raise x (w, os)")
  case True
  then show ?thesis by (auto simp: kept_effect versions_kept_def)
next
  case False
  then obtain r serial lineage where u: "upload_state se user i declared body (w, os)
      = persist_runner_state se i r body serial lineage (w, os)" and json: "se_json se body = State_Json serial lineage"
    by (auto simp: upload_state_def split: option.splits if_splits state_json.splits sum.splits)
  have plain: "\<not> is_encrypted_blob body" using c json by (auto simp: compatible_def library_ok_def)
  note o = persist_outcome [OF c plain, where w = w and r = r and serial = serial and i = i and lineage = lineage and os = os]
  show ?thesis
  proof (cases "version_at w (workspace_id r) serial")
    case (Some j)
    with o u frame_effect [of "clear_diverged (workspace_id r) w" w se0 os] show ?thesis
      by (simp add: kept_effect versions_kept_def quiet.frame)
  next
    case None
    show ?thesis
    proof (cases "persist_runner_state se i r body serial lineage (w, os)")
      case (Raise x s')
      with o None u show ?thesis by (simp add: unrecorded_effect)
    next
      case (Ret c' s')
      have "se_md5 se = se_md5 se0" using c by (simp add: compatible_def)
      with Ret o None u recorded_effect [of se0 "runner_row se w i r body serial lineage" "Some i" body w os s']
      show ?thesis by (simp add: runner_row_def)
    qed
  qed
qed

lemma state_step_effect:
  assumes "state_step se0 (w, os) (w', os')" and "sound se0 (w, os)"
  shows "version_effect se0 (w, os) (w', os')"
  using assms(1)
proof cases
  case (rollback se roles user i)
  then show ?thesis using rollback_effect [OF _ assms(2)] by metis
next
  case (elsewhere)
  then show ?thesis by (simp add: kept_effect versions_kept_def)
qed (use create_effect content_effect delete_effect manual_effect runner_effect diverged_frame lock_frame
      unlock_frame force_unlock_frame frame_effect in metis)+

lemma state_step_runs:
  assumes "state_step se0 (w, os) (w', os')" and "sound se0 (w, os)" and "run_invariant w"
  shows "run_invariant w' \<and> lawful w w'"
proof -
  have "quiet w w' \<or> run_step w w'"
    using assms(1)
  proof cases
    case (rollback se roles user i)
    then show ?thesis using rollback_effect [OF _ assms(2)] by (metis fst_conv)
  qed (use create_effect content_effect delete_effect manual_effect runner_effect diverged_frame lock_frame
      unlock_frame force_unlock_frame frame_effect fst_conv in metis)+
  then show ?thesis
    using assms(3) quiet_invariant quiet_lawful run_step_invariant run_step_lawful by blast
qed

lemma bytes_stored_sound:
  assumes "bytes_stored se0 i sv data (w, os) (w', os')" and "sound se0 (w, os)"
  shows "sound se0 (w', os')"
proof -
  obtain blob where b: "state_versions w i = Some sv" "data \<noteq> []" "int (length data) \<le> max_upload"
      "length (se_md5 se0 data) = 32" "next_id w' = next_id w" "reads_as se0 blob data"
      "state_versions w' = (state_versions w)(i \<mapsto> sv\<lparr>sv_size := int (length data), sv_md5 := se_md5 se0 data\<rparr>)"
      "os_objects os' = (os_objects os)(state_key (sv_workspace sv) i \<mapsto> blob)"
    using assms(1) unfolding bytes_stored_def by auto
  have "versions_ok w" using assms(2) by (simp add: sound_def)
  with b(1-5,7) have "versions_ok w'"
    unfolding versions_ok_def sv_fits_def int4_def max_upload_def by (auto split: if_splits)
  with b assms(2) show ?thesis
    unfolding sound_def in_storage_def by (auto simp: state_key_def split: if_splits)
qed

lemma row_dropped_sound:
  assumes "row_dropped i sv (w, os) (w', os')" and "sound se0 (w, os)"
  shows "sound se0 (w', os')"
proof -
  have d: "state_versions w' = (state_versions w)(i := None)" "next_id w' = next_id w"
      "os_objects os' = os_objects os \<or> os_objects os' = (os_objects os)(state_key (sv_workspace sv) i := None)"
    using assms(1) unfolding row_dropped_def by auto
  have "versions_ok w'" using assms(2) d unfolding sound_def versions_ok_def by (auto split: if_splits)
  moreover have "in_storage se0 os' j v" if "state_versions w' j = Some v" "0 < sv_size v" for j v
  proof -
    from that d(1) have "state_versions w j = Some v" "j \<noteq> i" by (auto split: if_splits)
    with that(2) assms(2) d(3) show ?thesis unfolding sound_def in_storage_def by (auto simp: state_key_def)
  qed
  ultimately show ?thesis using assms(2) d(3) unfolding sound_def by (auto split: if_splits)
qed

lemma placeholder_sound:
  assumes "row_added sv exclude w w'" and "sv_size sv = 0" and "os_objects os' = os_objects os"
    and "sound se0 (w, os)"
  shows "sound se0 (w', os')"
proof -
  have "versions_ok w'" using assms row_added_versions_ok by (auto simp: sound_def)
  with assms show ?thesis
    unfolding sound_def in_storage_def row_added_def by (auto split: if_splits)
qed

lemma effect_sound:
  assumes "version_effect se0 (w, os) (w', os')" and "sound se0 (w, os)"
  shows "sound se0 (w', os')"
  using assms(1) unfolding version_effect_def
proof (elim disjE exE conjE)
  assume "versions_kept (w, os) (w', os')"
  then show ?thesis using sound_frame [OF assms(2)] by (simp add: versions_kept_def)
qed (use assms(2) recorded_sound bytes_stored_sound row_dropped_sound placeholder_sound in auto)

lemma state_step_sound:
  assumes "state_step se0 s s'" and "sound se0 s"
  shows "sound se0 s'"
proof -
  obtain w os w' os' where s: "s = (w, os)" "s' = (w', os')" by (cases s, cases s')
  show ?thesis using effect_sound [OF state_step_effect] assms unfolding s by blast
qed

end
