(* ===== verification/StateProperties.thy ===== *)
theory StateProperties
  imports StateSafety
begin

text \<open>
  The properties of the state versions and of the workspace lock, each with an example it applies to.
  The examples use a toy cipher and digest that satisfy what the theorems assume of the real ones.
\<close>

lemma ret_of: "(case m of Ret _ _ \<Rightarrow> True | Raise _ _ \<Rightarrow> False) \<Longrightarrow> m = Ret (res_value m) (res_state m)"
  by (cases m) auto

lemma sound_storage:
  "sound se0 (w, os) \<Longrightarrow> state_versions w i = Some sv \<Longrightarrow> 0 < sv_size sv \<Longrightarrow> in_storage se0 os i sv"
  by (simp add: sound_def)

section \<open>An example\<close>

definition toy_digest :: "nat \<Rightarrow> bytes \<Rightarrow> string" where
  "toy_digest n b = take n (map (\<lambda>x. if even (unat x) then CHR ''0'' else CHR ''1'') b @ replicate n CHR ''f'')"

definition toy_json :: "bytes \<Rightarrow> state_json" where
  "toy_json b = (case b of [] \<Rightarrow> Bad_Json
     | c # rest \<Rightarrow> if c = 123 then State_Json (int (length rest)) ''lineage'' else Bad_Json)"

definition toy_service :: "bool \<Rightarrow> enc_service" where
  "toy_service on = new_service\<lparr>es_enabled := on, es_deks := [(1, replicate 32 9)], es_active := Some 1\<rparr>"

definition toy_env :: "bool \<Rightarrow> state_env" where
  "toy_env on = \<lparr>se_run_env = example_env, se_aead = toy_aead, se_service = toy_service on,
     se_nonce = replicate 12 7, se_md5 = toy_digest 32, se_sha256 = toy_digest 64, se_json = toy_json\<rparr>"

lemma toy_env_fields [simp]:
  "se_md5 (toy_env on) = toy_digest 32" "se_sha256 (toy_env on) = toy_digest 64"
  "se_json (toy_env on) = toy_json" "se_aead (toy_env on) = toy_aead"
  by (simp_all add: toy_env_def)

lemma toy_compatible: "compatible (toy_env a) (toy_env b)"
proof -
  have "toy_json b = Bad_Json" if "is_encrypted_blob b" for b
    using that by (auto simp: toy_json_def is_encrypted_blob_def blob_magic_def split: list.split)
  then show ?thesis
    by (auto simp: compatible_def library_ok_def toy_env_def toy_aead_correct toy_digest_def
        toy_service_def usable_key_def dek_len_def)
qed

definition empty_store :: object_store where
  "empty_store = \<lparr>os_objects = (\<lambda>_. None), os_faults = (\<lambda>_. False), os_calls = 0\<rparr>"

text \<open>A workspace without state; then a manual upload by a process that encrypts (version 2).\<close>

definition first_state :: bytes where
  "first_state = [123, 1, 2]"

definition uploaded_once :: server where
  "uploaded_once = res_state (upload_state_manual (toy_env True) [] admin_user 0 None first_state
     (uploaded_example, empty_store))"

lemma fresh_sound: "sound se (uploaded_example, empty_store)"
  by (simp add: sound_def versions_ok_def uploaded_example_def empty_world_def empty_store_def)

lemma first_step: "state_step (toy_env True) (uploaded_example, empty_store) uploaded_once"
  unfolding uploaded_once_def by (rule upload_manual [OF toy_compatible])

lemma once_sound: "sound (toy_env True) (fst uploaded_once, snd uploaded_once)"
  using state_step_sound [OF first_step fresh_sound] by simp

lemma once_invariant: "run_invariant (fst uploaded_once)"
  using state_step_runs [of "toy_env True" uploaded_example empty_store "fst uploaded_once" "snd uploaded_once"]
    first_step fresh_sound uploaded_invariant by simp

text \<open>The version it made.\<close>

lemma once_version:
  obtains sv where "state_versions (fst uploaded_once) 2 = Some sv" "sv_workspace sv = 0" "sv_serial sv = 1"
    "sv_size sv = 3" "sv_lineage sv = ''lineage''" "sv_md5 sv = toy_digest 32 first_state"
proof -
  have "map_option (\<lambda>sv. (sv_workspace sv, sv_serial sv, sv_size sv, sv_lineage sv, sv_md5 sv))
      (state_versions (fst uploaded_once) 2) = Some (0, 1, 3, ''lineage'', toy_digest 32 first_state)"
    by code_simp
  with that show ?thesis by auto
qed

lemma once_serial: "current_state_serial (fst uploaded_once) 0 = Some 1"
  by code_simp

section \<open>Soundness\<close>



section \<open>The current state\<close>

lemma current_serial_ge:
  assumes "versions_ok w" and "state_versions w i = Some sv"
  shows "\<exists>m. current_state_serial w (sv_workspace sv) = Some m \<and> sv_serial sv \<le> m"
proof -
  have "sv_serial sv \<in> set (state_serials w (sv_workspace sv))"
    using assms by (auto simp: state_serials_iff)
  then show ?thesis
    using max_of_ge by (cases "current_state_serial w (sv_workspace sv)")
      (auto simp: current_state_serial_def)
qed

text \<open>
  C4: the state a workspace runs on cannot be lost. If its version with the highest serial has been
  uploaded, then after any step that version is still there with its serial, lineage and digest, its
  bytes are still in storage under that digest, and the current serial has not gone down.
\<close>

theorem current_state_survives:
  assumes "state_step se0 (w, os) (w', os')" and "sound se0 (w, os)"
    and "state_versions w i = Some sv" and "current_state_serial w (sv_workspace sv) = Some (sv_serial sv)"
    and "0 < sv_size sv" and "sv_md5 sv \<noteq> []"
  shows "\<exists>sv' m. state_versions w' i = Some sv' \<and> sv_workspace sv' = sv_workspace sv
    \<and> sv_serial sv' = sv_serial sv \<and> sv_lineage sv' = sv_lineage sv \<and> sv_md5 sv' = sv_md5 sv
    \<and> in_storage se0 os' i sv' \<and> current_state_serial w' (sv_workspace sv) = Some m \<and> sv_serial sv \<le> m"
proof -
  have sound': "sound se0 (w', os')" using state_step_sound [OF assms(1,2)] .
  have "i < next_id w" using assms(2,3) by (auto simp: sound_def versions_ok_def)
  then have "\<exists>sv'. state_versions w' i = Some sv' \<and> sv_workspace sv' = sv_workspace sv
      \<and> sv_serial sv' = sv_serial sv \<and> sv_lineage sv' = sv_lineage sv \<and> sv_md5 sv' = sv_md5 sv \<and> 0 < sv_size sv'"
    using state_step_effect [OF assms(1,2)] assms(3-6) unfolding version_effect_def
    by (elim disjE exE conjE)
      (auto simp: versions_kept_def row_added_def recorded_def bytes_stored_def row_dropped_def)
  then obtain sv' where sv': "state_versions w' i = Some sv'" "sv_workspace sv' = sv_workspace sv"
      "sv_serial sv' = sv_serial sv" "sv_lineage sv' = sv_lineage sv" "sv_md5 sv' = sv_md5 sv" "0 < sv_size sv'"
    by blast
  have "in_storage se0 os' i sv'" using sound' sv' by (simp add: sound_def)
  moreover have "versions_ok w'" using sound' by (simp add: sound_def)
  ultimately show ?thesis using current_serial_ge [of w' i sv'] sv' by auto
qed

text \<open>Deleting the only, uploaded version, with the capability to do so.\<close>

theorem current_state_survives_witness:
  "\<exists>sv. state_versions (fst (res_state (delete_state_version [] admin_user 2 uploaded_once))) 2 = Some sv
     \<and> sv_serial sv = 1"
proof -
  obtain w' os' where d: "res_state (delete_state_version [] admin_user 2 uploaded_once) = (w', os')" by force
  have "state_step (toy_env True) (fst uploaded_once, snd uploaded_once) (w', os')"
    unfolding d [symmetric] prod.collapse by (rule delete_version)
  note survives = current_state_survives [OF this once_sound]
  obtain sv where sv: "state_versions (fst uploaded_once) 2 = Some sv" "sv_workspace sv = 0" "sv_serial sv = 1"
    "sv_size sv = 3" "sv_md5 sv = toy_digest 32 first_state" by (rule once_version)
  have "sv_md5 sv \<noteq> []" by (simp add: sv toy_digest_def)
  with survives [OF sv(1)] show ?thesis by (auto simp: sv once_serial d)
qed

section \<open>Rolling back\<close>

text \<open>
  C15: a rollback copies forward. When it succeeds, exactly one version is added: it has the next
  serial and is the current one, keeps the lineage, belongs to no run, and its bytes, read back, are those
  of the version rolled back to; all other versions and objects stay as they are. Of the runs,
  exactly those with a waiting plan against an older state are discarded.
\<close>

theorem rollback_copies_forward:
  assumes "compatible se0 se" and "sound se0 (w, os)" and "bounded w" and "state_versions w i = Some sv"
    and "rollback_state_version se roles user i (w, os) = Ret j (w', os')"
  shows "\<exists>new data old_blob blob. state_versions w j = None \<and> state_versions w' = (state_versions w)(j \<mapsto> new)
    \<and> sv_workspace new = sv_workspace sv \<and> sv_serial new = next_serial w (sv_workspace sv)
    \<and> current_state_serial w' (sv_workspace sv) = Some (sv_serial new)
    \<and> sv_lineage new = sv_lineage sv \<and> sv_run new = None \<and> sv_created_by new = Some (au_email user)
    \<and> os_objects os (state_key (sv_workspace sv) i) = Some old_blob \<and> reads_as se0 old_blob data
    \<and> os_objects os' = (os_objects os)(state_key (sv_workspace sv) j \<mapsto> blob) \<and> reads_as se0 blob data
    \<and> sv_size new = int (length data) \<and> sv_md5 new = se_md5 se0 data
    \<and> runs w' = stale_runs (sv_workspace sv) (sv_serial new) None (runs w)"
proof -
  note c = decrypt_compatible [OF assms(1)]
  have plain: "\<forall>blob data. os_objects os (state_key (sv_workspace sv) i) = Some blob
      \<and> decrypt_state_bytes (se_aead se) (se_service se) blob = Inr data \<longrightarrow> \<not> is_encrypted_blob data"
    using assms(2) c unfolding sound_def reads_as_def by fastforce
  obtain old_blob data where o: "j = next_id w" "os_objects os (state_key (sv_workspace sv) i) = Some old_blob"
      "decrypt_state_bytes (se_aead se) (se_service se) old_blob = Inr data"
      "recorded se0 (rollback_row se user w sv data) None data (w, os) (w', os')"
    using rollback_outcome [OF assms(1,4) plain, where roles = roles and user = user] assms(5) by auto
  let ?new = "rollback_row se user w sv data"
  have r: "row_added ?new None w w'" using o(4) by (simp add: server_simps)
  obtain blob where blob: "os_objects os' = (os_objects os)(state_key (sv_workspace sv) j \<mapsto> blob)"
      "reads_as se0 blob data"
    using o(1,4) by (auto simp: server_simps rollback_row_def)
  have ok: "versions_ok w" using assms(2) by (simp add: sound_def)
  have ok': "versions_ok w'" using row_added_versions_ok [OF r ok] .
  have new: "state_versions w' = (state_versions w)(j \<mapsto> ?new)" "sv_workspace ?new = sv_workspace sv"
      "sv_serial ?new = next_serial w (sv_workspace sv)"
    using r o(1) by (simp_all add: row_added_def rollback_row_def)
  have fresh: "state_versions w j = None" using ok o(1) by (cases "state_versions w j") (auto simp: versions_ok_def)
  have "current_state_serial w' (sv_workspace sv) = Some (sv_serial ?new)"
  proof -
    obtain m where m: "current_state_serial w' (sv_workspace sv) = Some m" "sv_serial ?new \<le> m"
      using current_serial_ge [OF ok', of j ?new] new by auto
    then have "m \<in> set (state_serials w' (sv_workspace sv))" using max_of_in by (simp add: current_state_serial_def)
    then obtain k v where k: "state_versions w' k = Some v" "sv_workspace v = sv_workspace sv" "sv_serial v = m"
      using state_serials_iff [OF ok'] by blast
    have "m < sv_serial ?new" if "k \<noteq> j"
      using that k new(1) current_serial_ge [OF ok, of k v] new(3) by (auto simp: next_serial_def)
    with m(2) have "k = j" by force
    with k new m show ?thesis by simp
  qed
  then show ?thesis
    using r o blob new fresh assms(1,3) plain c
    by (intro exI [of _ ?new] exI [of _ data] exI [of _ old_blob] exI [of _ blob])
      (auto simp: row_added_def rollback_row_def new_version_def reads_as_def compatible_def)
qed

theorem rollback_copies_forward_witness:
  "\<exists>new. state_versions (fst (res_state (rollback_state_version (toy_env False) [] admin_user 2 uploaded_once))) 3
      = Some new \<and> sv_serial new = 2 \<and> sv_lineage new = ''lineage''"
proof -
  let ?m = "rollback_state_version (toy_env False) [] admin_user 2 uploaded_once"
  obtain w' os' where d: "res_state ?m = (w', os')" by force
  have "(case ?m of Ret j _ \<Rightarrow> Some j | Raise _ _ \<Rightarrow> None) = Some 3" by code_simp
  then have ret: "rollback_state_version (toy_env False) [] admin_user 2 (fst uploaded_once, snd uploaded_once)
      = Ret 3 (w', os')"
    using d by (cases ?m) auto
  have bounded: "bounded (fst uploaded_once)" using once_invariant by (simp add: run_invariant_def)
  obtain sv where sv: "state_versions (fst uploaded_once) 2 = Some sv" "sv_workspace sv = 0"
    "sv_lineage sv = ''lineage''" by (rule once_version)
  have "next_serial (fst uploaded_once) 0 = 2" by (simp add: next_serial_def once_serial)
  then show ?thesis
    using rollback_copies_forward [OF toy_compatible once_sound bounded sv(1) ret] sv d by auto
qed

section \<open>New versions and waiting plans\<close>



section \<open>Uploading and downloading\<close>


definition placeholder :: server where
  "placeholder = res_state (create_state_version (toy_env True) [] admin_user 0
     \<lparr>sa_serial = 7, sa_lineage = ''l'', sa_md5 = [], sa_force = False, sa_run = None\<rparr>
     (uploaded_example, empty_store))"

definition content_sent :: "(exn, unit, server) res" where
  "content_sent = upload_state_content (toy_env True) 2 None [123, 5] placeholder"


section \<open>The runner's upload\<close>

lemma upload_state_json:
  assumes "upload_state se user i declared body (w, os) = Ret c s'"
  obtains r serial lineage where "runs w i = Some r" "se_json se body = State_Json serial lineage"
    "require_runner_for_run user (uuid_str (se_run_env se) i) = Inr ()" "\<not> body_too_large declared body"
    "persist_runner_state se i r body serial lineage (w, os) = Ret c s'"
  using assms by (auto simp: upload_state_def split: option.splits if_splits state_json.splits sum.splits)

text \<open>
  A runner may repeat its upload. Once a state has been recorded for a run, sending the same bytes
  again answers 200 and at most clears the divergence flag; sending other bytes under the same serial
  (with another SHA-256) answers 409 and changes nothing.
\<close>

theorem runner_upload_idempotent:
  assumes "compatible se0 se" and "sound se0 (w, os)"
    and "upload_state se user i declared body (w, os) = Ret 204 (w', os')"
    and "runs w i = Some r" and "bounded w" and "se_json se body = State_Json serial lineage"
    and "se_json se other = State_Json serial lineage'" and "se_sha256 se other \<noteq> se_sha256 se body"
    and "\<not> body_too_large declared other"
  shows "upload_state se user i declared body (w', os') = Ret 200 (clear_diverged (workspace_id r) w', os')
    \<and> upload_state se user i declared other (w', os') = Raise (Http 409) (w', os')"
proof -
  have plain: "\<not> is_encrypted_blob body" using assms(1,6) by (auto simp: compatible_def library_ok_def)
  have guards: "require_runner_for_run user (uuid_str (se_run_env se) i) = Inr ()" "\<not> body_too_large declared body"
    and persisted: "persist_runner_state se i r body serial lineage (w, os) = Ret 204 (w', os')"
    using upload_state_json [OF assms(3)] assms(4,6) by auto
  note o = persist_outcome [OF assms(1) plain, where w = w and r = r and serial = serial and i = i
      and lineage = lineage and os = os]
  let ?row = "runner_row se w i r body serial lineage"
  have "version_at w (workspace_id r) serial = None"
  proof (rule ccontr)
    assume "version_at w (workspace_id r) serial \<noteq> None"
    with o persisted show False by (auto split: if_splits)
  qed
  with o persisted have row: "row_added ?row (Some i) w w'" by (simp add: server_simps)
  have ok': "versions_ok w'" using row_added_versions_ok [OF row] assms(2) by (simp add: sound_def)
  have new: "state_versions w' (next_id w) = Some ?row" using row by (simp add: row_added_def)
  have row_cols: "sv_workspace ?row = workspace_id r" "sv_serial ?row = serial" "sv_sha256 ?row = se_sha256 se body"
    by (simp_all add: runner_row_def)
  have at: "version_at w' (workspace_id r) serial = Some (next_id w)"
  proof (cases "version_at w' (workspace_id r) serial")
    case None
    have "next_id w < next_id w'" using row by (simp add: row_added_def)
    with None new row_cols show ?thesis
      by (auto simp: version_at_def select_def filter_empty_conv split: option.splits)
  next
    case (Some k)
    then obtain v where "state_versions w' k = Some v" "sv_workspace v = workspace_id r" "sv_serial v = serial"
      using version_at_Some by blast
    with ok' new row_cols have "k = next_id w" unfolding versions_ok_def by metis
    with Some show ?thesis by simp
  qed
  obtain r' where r': "runs w' i = Some r'" "config r' = config r"
    using row assms(4,5) by (auto simp: row_added_def stale_runs_def drop_stale_def)
  have "se_sha256 se body \<noteq> []"
  proof
    assume "se_sha256 se body = []"
    moreover have "length (se_sha256 se body) = 64" using assms(1) by (simp add: compatible_def library_ok_def)
    ultimately show False by simp
  qed
  then show ?thesis
    using guards assms(6-9) r' at new row_cols
    by (auto simp: upload_state_def persist_runner_state_def Let_def)
qed

definition runner_user :: auth_user where
  "runner_user = \<lparr>au_email = ''runner'', au_roles = [], au_auth_method = ''runner_token'',
     au_run_id = Some (uuid_str example_env 2), au_kind = ''user'', au_pinned_roles = None\<rparr>"

text \<open>Run 2 of workspace 0 uploads the state of serial 2.\<close>

definition running :: world where
  "running = uploaded_example\<lparr>
     runs := [2 \<mapsto> new_run example_env 0 (settings plain_workspace) default_request 0], next_id := 3\<rparr>"

definition sent_once :: "(exn, nat, server) res" where
  "sent_once = upload_state (toy_env True) runner_user 2 None [123, 4, 6] (running, empty_store)"

theorem runner_upload_idempotent_witness:
  "(\<exists>s. upload_state (toy_env True) runner_user 2 None [123, 4, 6] (res_state sent_once) = Ret 200 s)
   \<and> (\<exists>s. upload_state (toy_env True) runner_user 2 None [123, 4, 7] (res_state sent_once) = Raise (Http 409) s)"
proof -
  let ?w = "fst (res_state sent_once)" and ?os = "snd (res_state sent_once)"
  have "(case sent_once of Ret _ _ \<Rightarrow> True | Raise _ _ \<Rightarrow> False)" and "res_value sent_once = 204"
    by code_simp+
  with ret_of [of sent_once]
  have sent: "upload_state (toy_env True) runner_user 2 None [123, 4, 6] (running, empty_store) = Ret 204 (?w, ?os)"
    by (simp add: sent_once_def)
  have "sound (toy_env True) (running, empty_store)" and "bounded running"
    by (simp_all add: sound_def versions_ok_def bounded_def running_def uploaded_example_def empty_world_def
        empty_store_def)
  note idempotent = runner_upload_idempotent [OF toy_compatible this(1) sent _ this(2)]
  have digests: "toy_digest 64 [123, 4, 7] \<noteq> toy_digest 64 [123, 4, 6]" by code_simp
  have "\<not> body_too_large None [123, 4, 7]" by (simp add: body_too_large_def max_upload_def)
  with digests show ?thesis
    using idempotent [where r = "new_run example_env 0 (settings plain_workspace) default_request 0"
        and serial = 2 and lineage = "''lineage''" and lineage' = "''lineage''" and other = "[123, 4, 7]"]
    by (simp add: running_def toy_json_def)
qed

section \<open>Conflicting and exhausted serials\<close>

lemma rolled_back_same [simp]: "rolled_back w w = w"
  by (simp add: rolled_back_def)

text \<open>
  C40: \<open>force\<close> cannot overwrite a serial. Creating a version under a serial the workspace already has is a
  conflict without \<open>force\<close>; with it the check is skipped and the insert violates the table's unique
  constraint (or does not fit its columns), an unhandled error. Nothing changes either way.
\<close>

theorem taken_serial_is_never_replaced:
  assumes "workspaces w ws_id = Some ws"
    and "has_capability (caller_capabilities roles user ws) STATE_WRITE"
    and "version_at w ws_id (sa_serial a) \<noteq> None"
  shows "\<exists>x. create_state_version se roles user ws_id a (w, os) = Raise x (w, os)
    \<and> x \<in> (if sa_force a then {Integrity_Error, Data_Error} else {Http 409})"
proof -
  let ?row = "new_version ws_id (sa_serial a) (sa_lineage a) (sa_md5 a) [] 0 (sa_run a)
    (Some (au_email user)) (now w)"
  have "select (next_id w) (state_versions w)
      (\<lambda>_ sv. sv_workspace sv = ws_id \<and> sv_serial sv = sa_serial a) \<noteq> []"
    using assms(3) by (simp add: version_at_def)
  then have "sa_serial a \<in> set (state_serials w ws_id)"
    by (force simp: state_serials_def select_nonempty_iff)
  then have "insert_state_version ?row w = Raise (if sv_fits ?row then Integrity_Error else Data_Error) w"
    by (simp add: insert_state_version_def)
  with assms show ?thesis by (simp add: create_state_version_def server_simps)
qed

theorem taken_serial_is_never_replaced_witness:
  "\<exists>x s. create_state_version (toy_env True) [] admin_user 0
       \<lparr>sa_serial = 1, sa_lineage = ''l'', sa_md5 = [], sa_force = True, sa_run = None\<rparr> uploaded_once = Raise x s
     \<and> x \<in> {Integrity_Error, Data_Error}"
proof -
  let ?a = "\<lparr>sa_serial = 1, sa_lineage = ''l'', sa_md5 = [], sa_force = True, sa_run = None\<rparr>"
  have "version_at (fst uploaded_once) 0 (sa_serial ?a) \<noteq> None" by code_simp
  moreover have "map_option (\<lambda>ws. has_capability (caller_capabilities [] admin_user ws) STATE_WRITE)
      (workspaces (fst uploaded_once) 0) = Some True" by code_simp
  ultimately show ?thesis
    using taken_serial_is_never_replaced [of "fst uploaded_once" 0 _ "[]" admin_user ?a "toy_env True"
        "snd uploaded_once"] by auto
qed

text \<open>
  Serials end at \<open>2^31 - 1\<close>. A rollback or a manual upload that succeeds has increased the current serial
  by one and kept it below \<open>2^31\<close>; once a workspace's serial is the largest, every rollback and manual upload
  raises, and database and objects stay as they are.
\<close>

theorem serials_are_bounded:
  assumes "compatible se0 se" and "sound se0 (w, os)"
    and "m = rollback_state_version se roles user i (w, os)
           \<and> map_option sv_workspace (state_versions w i) = Some ws_id
         \<or> m = upload_state_manual se roles user ws_id declared body (w, os)"
  shows "case m of
      Ret j s' \<Rightarrow> next_serial w ws_id < 2 ^ 31
        \<and> map_option sv_serial (state_versions (fst s') j) = Some (next_serial w ws_id)
    | Raise x s' \<Rightarrow> unrecorded (w, os) s'"
proof -
  have plain: "\<forall>blob data. os_objects os (state_key ws i) = Some blob
      \<and> decrypt_state_bytes (se_aead se) (se_service se) blob = Inr data \<longrightarrow> \<not> is_encrypted_blob data" for ws
    using assms(2) decrypt_compatible [OF assms(1)] unfolding sound_def reads_as_def by fastforce
  have bound: "sv_serial sv < 2 ^ 31 \<and> map_option sv_serial (state_versions (fst s') (next_id w)) = Some (sv_serial sv)"
    if "recorded se0 sv exclude data (w, os) s'" for sv exclude data s'
    using that by (auto simp: recorded_def row_added_def sv_fits_def int4_def)
  show ?thesis
  proof (cases "m = upload_state_manual se roles user ws_id declared body (w, os)")
    case True
    then show ?thesis
      using manual_outcome [OF assms(1), where roles = roles and user = user and ws_id = ws_id
          and declared = declared and body = body and w = w and os = os]
      by (auto simp: manual_row_def dest!: bound split: res.splits)
  next
    case False
    then obtain sv where sv: "m = rollback_state_version se roles user i (w, os)" "state_versions w i = Some sv"
        "sv_workspace sv = ws_id"
      using assms(3) by auto
    then show ?thesis
      using rollback_outcome [OF assms(1) sv(2) plain, where roles = roles and user = user]
      by (auto simp: rollback_row_def dest!: bound split: res.splits)
  qed
qed

definition exhausted :: world where
  "exhausted = uploaded_example\<lparr>state_versions := [2 \<mapsto>
     new_version 0 2147483647 ''l'' [] [] 0 None None 0], next_id := 3\<rparr>"

theorem serials_are_bounded_witness:
  "\<exists>x s. upload_state_manual (toy_env True) [] admin_user 0 None first_state (exhausted, empty_store) = Raise x s
     \<and> unrecorded (exhausted, empty_store) s"
proof -
  let ?m = "upload_state_manual (toy_env True) [] admin_user 0 None first_state (exhausted, empty_store)"
  have "sound (toy_env True) (exhausted, empty_store)"
    by (simp add: sound_def versions_ok_def exhausted_def uploaded_example_def empty_world_def empty_store_def
        sv_fits_def int4_def new_version_def)
  from serials_are_bounded [OF toy_compatible [of True True] this disjI2 [OF refl],
      where roles = "[]" and user = admin_user and ws_id = 0 and declared = None and body = first_state]
  have "case ?m of Ret j s' \<Rightarrow> next_serial exhausted 0 < 2 ^ 31 | Raise x s' \<Rightarrow> unrecorded (exhausted, empty_store) s'"
    by (auto split: res.splits)
  moreover have "next_serial exhausted 0 = 2147483648" by code_simp
  ultimately show ?thesis by (cases ?m) auto
qed

section \<open>The lock\<close>

lemma set_lock_Ret:
  assumes "set_lock b lid ws_id w = Ret u w'"
  shows "workspaces w' = modify ws_id (\<lambda>x. x\<lparr>locked := b, lock_id := lid\<rparr>) (workspaces w)"
  using assms by (auto simp: set_lock_def put_ws_def split: if_splits option.splits)

text \<open>
  The workspace lock excludes. After a successful lock, every further lock request fails with 403 or 409
  and changes nothing, and who unlocks either may force unlocks or is the user whose default lock ID
  is the one stored. A lock taken with an ID of its own is nobody's: its own owner, without the capability to
  force, is refused.
\<close>

theorem lock_excludes:
  assumes "lock_workspace roles alice ws_id given w = Ret u w'" and "workspaces w ws_id = Some ws"
  shows "\<not> locked ws
    \<and> (\<exists>code\<in>{403, 409}. lock_workspace roles bob ws_id given' w' = Raise (Http code) w')
    \<and> (case unlock_workspace roles bob ws_id w' of
         Ret _ w2 \<Rightarrow> map_option locked (workspaces w2 ws_id) = Some False
           \<and> has_capability (caller_capabilities roles bob ws) WORKSPACE_LOCK
           \<and> (has_capability (caller_capabilities roles bob ws) WORKSPACE_FORCE_UNLOCK
              \<or> (case given of None \<Rightarrow> user_lock alice | Some l \<Rightarrow> l) = user_lock bob)
       | Raise x w2 \<Rightarrow> x = Http 403 \<and> w2 = w')"
proof -
  let ?lid = "case given of None \<Rightarrow> user_lock alice | Some l \<Rightarrow> l"
  let ?ws' = "ws\<lparr>locked := True, lock_id := Some ?lid\<rparr>"
  have l: "\<not> locked ws" "set_lock True (Some ?lid) ws_id w = Ret u w'"
    using assms by (auto simp: lock_workspace_def split: if_splits option.splits)
  have ws': "workspaces w' ws_id = Some ?ws'" using set_lock_Ret [OF l(2)] assms(2) by simp
  have caps: "caller_capabilities roles bob ?ws' = caller_capabilities roles bob ws"
    by (simp add: caller_capabilities_def)
  show ?thesis
    using l(1) ws' caps
    by (auto simp: lock_workspace_def unlock_workspace_def Let_def set_lock_def ws_rows.fetch_put_same)
qed

theorem lock_excludes_witness:
  "\<exists>w'. lock_workspace [] admin_user 0 (Some ''build-7'') uploaded_example = Ret () w'
     \<and> (\<exists>code\<in>{403, 409}. lock_workspace [] guest_user 0 None w' = Raise (Http code) w')"
proof -
  let ?m = "lock_workspace [] admin_user 0 (Some ''build-7'') uploaded_example"
  have "(case ?m of Ret _ _ \<Rightarrow> True | Raise _ _ \<Rightarrow> False)" by code_simp
  then have m: "?m = Ret () (res_state ?m)" by (cases ?m) auto
  have "workspaces uploaded_example 0 = Some plain_workspace" by (simp add: uploaded_example_def)
  from lock_excludes [OF m this, of guest_user None] m show ?thesis by blast
qed

section \<open>Reading\<close>

text \<open>
  C18: state bytes are only given to who may read them: a download that succeeds was asked for by a caller
  with the capability to read state, or by the runner of a run whose workspace is the version's own or
  is on its list of consumers, and it returns what is in storage. Nothing in the database changes.
\<close>

theorem state_reads_are_authorised:
  assumes "download_state se consumers roles user i (w, os) = Ret data (w', os')"
  shows "\<exists>sv ws blob. state_versions w i = Some sv \<and> workspaces w (sv_workspace sv) = Some ws \<and> w' = w
    \<and> os_objects os (state_key (sv_workspace sv) i) = Some blob
    \<and> decrypt_state_bytes (se_aead se) (se_service se) blob = Inr data
    \<and> (has_capability (caller_capabilities roles user ws) STATE_READ
       \<or> (\<exists>j r. au_auth_method user = ''runner_token'' \<and> runs w j = Some r
            \<and> (workspace_id r = sv_workspace sv \<or> (sv_workspace sv, workspace_id r) \<in> set consumers)))"
proof -
  have runner: "\<exists>j r. au_auth_method user = ''runner_token'' \<and> runs w j = Some r
      \<and> (workspace_id r = p \<or> (p, workspace_id r) \<in> set consumers)"
    if "runner_state_read_allowed (se_run_env se) consumers user p w" for p
    using that by (auto simp: runner_state_read_allowed_def split: if_splits option.splits)
  show ?thesis
    using assms
    by (auto simp: download_state_def may_read_state_def os_get_def os_command_def Let_def
        split: option.splits if_splits sum.splits) (use runner in blast)+
qed

theorem state_reads_are_authorised_witness:
  "\<exists>s. download_state (toy_env False) [] [] admin_user 2 uploaded_once = Ret first_state s
     \<and> (\<exists>ws. workspaces (fst uploaded_once) 0 = Some ws
          \<and> has_capability (caller_capabilities [] admin_user ws) STATE_READ)"
proof -
  let ?m = "download_state (toy_env False) [] [] admin_user 2 uploaded_once"
  have "(case ?m of Ret d _ \<Rightarrow> d = first_state | Raise _ _ \<Rightarrow> False)" by code_simp
  then obtain w' os' where m: "?m = Ret first_state (w', os')" by (cases ?m) auto
  then have "download_state (toy_env False) [] [] admin_user 2 (fst uploaded_once, snd uploaded_once)
    = Ret first_state (w', os')" by simp
  from state_reads_are_authorised [OF this] obtain sv ws where
      sv: "state_versions (fst uploaded_once) 2 = Some sv" "workspaces (fst uploaded_once) (sv_workspace sv) = Some ws"
      "has_capability (caller_capabilities [] admin_user ws) STATE_READ"
    by (auto simp: admin_user_def)
  obtain sv' where "state_versions (fst uploaded_once) 2 = Some sv'" "sv_workspace sv' = 0" by (rule once_version)
  with sv m show ?thesis by auto
qed

text \<open>
  What a run gets as its state. It is the current version of its own workspace, and the bytes the runner ends
  up with are the uploaded ones as long as encryption is on. A process with encryption off hands out the object
  as it is stored, so a version written while encryption was on reaches the runner as ciphertext,
  although the CLI's download decrypts it.
\<close>

theorem runner_state_is_current:
  assumes "sound se0 (w, os)" and "compatible se0 se"
    and "download_run_state se user i (w, os) = Ret answer (w', os')" and "runs w i = Some r"
    and "current_version w (workspace_id r) = Some j" and "state_versions w j = Some sv" and "0 < sv_size sv"
  shows "au_run_id user = Some (uuid_str (se_run_env se) i)
    \<and> current_state_serial w (workspace_id r) = Some (sv_serial sv)
    \<and> (\<exists>blob data. os_objects os (state_key (workspace_id r) j) = Some blob \<and> reads_as se0 blob data
        \<and> int (length data) = sv_size sv \<and> se_md5 se0 data = sv_md5 sv
        \<and> served os answer = Some (if state_encryption_active (se_service se) then data else blob))"
proof -
  let ?ws = "workspace_id r"
  have ok: "versions_ok w" using assms(1) by (simp add: sound_def)
  have sv: "sv_workspace sv = ?ws" using least_by_in [OF assms(5) [unfolded current_version_def]] assms(6) by auto
  obtain blob data where blob: "os_objects os (state_key ?ws j) = Some blob" "reads_as se0 blob data"
      "int (length data) = sv_size sv" "se_md5 se0 data = sv_md5 sv"
    using sound_storage [OF assms(1,6,7)] sv by (auto simp: in_storage_def)
  obtain m where m: "current_state_serial w ?ws = Some m" "sv_serial sv \<le> m"
    using current_serial_ge [OF ok assms(6)] sv by auto
  then have "m \<in> set (state_serials w ?ws)" using max_of_in by (simp add: current_state_serial_def)
  then obtain k v where k: "state_versions w k = Some v" "sv_workspace v = ?ws" "sv_serial v = m"
    using state_serials_iff [OF ok] by blast
  then have "k \<in> set (select (next_id w) (state_versions w) (\<lambda>_ sv. sv_workspace sv = ?ws))"
    using ok by (auto simp: versions_ok_def)
  from least_by_le [OF assms(5) [unfolded current_version_def] this] have "m \<le> sv_serial sv"
    using k assms(6) by simp
  with m have "current_state_serial w ?ws = Some (sv_serial sv)" by simp
  moreover have "au_run_id user = Some (uuid_str (se_run_env se) i)"
    using assms(3) by (auto simp: download_run_state_def require_runner_for_run_def split: sum.splits if_splits)
  moreover have "served os answer = Some (if state_encryption_active (se_service se) then data else blob)"
  proof (cases "state_encryption_active (se_service se)")
    case True
    show ?thesis
    proof (cases rule: load_state_cases [of se "state_key ?ws j" w os])
      case (failed x os1)
      with True assms(3-5) show ?thesis by (auto simp: download_run_state_def Let_def split: sum.splits)
    next
      case (loaded data' blob' os1)
      with blob(1,2) have "data' = data" using decrypt_compatible [OF assms(2)] by (simp add: reads_as_def)
      with loaded True assms(3-5) show ?thesis
        by (auto simp: download_run_state_def Let_def split: sum.splits)
    qed
  next
    case False
    with assms(3-5) blob(1) show ?thesis
      by (auto simp: download_run_state_def os_presign_def os_command_def Let_def split: sum.splits if_splits)
  qed
  ultimately show ?thesis using blob by blast
qed

text \<open>Run 2 after its upload under encryption, once with encryption still on and once with it off.\<close>

lemma sent_run:
  obtains r sv where "runs (fst (res_state sent_once)) 2 = Some r" "workspace_id r = 0"
    "current_version (fst (res_state sent_once)) 0 = Some 3"
    "state_versions (fst (res_state sent_once)) 3 = Some sv" "sv_size sv = 3"
proof -
  let ?w = "fst (res_state sent_once)"
  have "(map_option (\<lambda>r. workspace_id r) (runs ?w 2), current_version ?w 0, map_option sv_size (state_versions ?w 3))
      = (Some 0, Some 3, Some 3)" by code_simp
  with that show ?thesis by auto
qed

theorem runner_state_is_current_witness:
  "\<exists>data blob. served (snd (res_state sent_once))
       (res_value (download_run_state (toy_env True) runner_user 2 (res_state sent_once))) = Some data
     \<and> served (snd (res_state sent_once))
       (res_value (download_run_state (toy_env False) runner_user 2 (res_state sent_once))) = Some blob
     \<and> reads_as (toy_env True) blob data \<and> is_encrypted_blob blob"
proof -
  let ?s = "res_state sent_once"
  let ?m = "\<lambda>on. download_run_state (toy_env on) runner_user 2 ?s"
  have "state_step (toy_env True) (running, empty_store) ?s"
    unfolding sent_once_def by (rule runner_upload [OF toy_compatible])
  moreover have "sound (toy_env True) (running, empty_store)"
    by (simp add: sound_def versions_ok_def running_def uploaded_example_def empty_world_def empty_store_def)
  ultimately have sound: "sound (toy_env True) (fst ?s, snd ?s)" using state_step_sound by simp
  have "(case ?m True of Ret _ _ \<Rightarrow> True | Raise _ _ \<Rightarrow> False)" "(case ?m False of Ret _ _ \<Rightarrow> True | Raise _ _ \<Rightarrow> False)"
    by code_simp+
  then have ret: "download_run_state (toy_env on) runner_user 2 (fst ?s, snd ?s)
      = Ret (res_value (?m on)) (fst (res_state (?m on)), snd (res_state (?m on)))" for on
    using ret_of [of "?m on"] by (cases on) simp_all
  obtain r sv where v: "runs (fst ?s) 2 = Some r" "workspace_id r = 0" "current_version (fst ?s) (workspace_id r) = Some 3"
      "state_versions (fst ?s) 3 = Some sv" "sv_size sv = 3"
    using sent_run by (metis (no_types))
  have current: "\<exists>blob data. os_objects (snd ?s) (0, 3) = Some blob \<and> reads_as (toy_env True) blob data
      \<and> served (snd ?s) (res_value (?m on))
        = Some (if state_encryption_active (se_service (toy_env on)) then data else blob)" for on
    using runner_state_is_current [OF sound toy_compatible [of True on] ret [of on] v(1,3,4)] v(2,5)
    unfolding state_key_def by (simp only:) auto
  have "state_encryption_active (se_service (toy_env True))" "\<not> state_encryption_active (se_service (toy_env False))"
    by (simp_all add: state_encryption_active_def toy_env_def toy_service_def)
  moreover have "map_option is_encrypted_blob (os_objects (snd ?s) (0, 3)) = Some True" by code_simp
  ultimately show ?thesis using current [of True] current [of False] by (auto simp: reads_as_def)
qed

end
