(* ===== verification/DriftRules.thy ===== *)
theory DriftRules
  imports PyText Complex_Main
begin

text \<open>
  Drift ignore rules (\<open>services/drift_ignore_classifier.py\<close>) and their validation
  (\<open>_validate_drift_ignore_rules\<close> in \<open>api/routers/tfe_v2.py\<close>): which changes of a plan document count as
  drift, and which ones the rules of the workspace silence.

  The document is a parsed JSON value with Python's equality and truth; an object keeps its members in
  order, without duplicate keys. A value of the wrong shape makes the classifier raise, as Python does.
  The order in which a set of keys is walked and the text Python prints for a number with a fraction,
  an array or an object are arguments (\<open>doc_env\<close>).
\<close>

section \<open>Documents\<close>

datatype json =
    JNull
  | JBool bool
  | JInt int
  | JFloat rat
  | JStr string
  | JList "json list"
  | JObj "(string \<times> json) list"

record doc_env =
  key_order :: "string list \<Rightarrow> string list \<Rightarrow> string list"
  json_text :: "json \<Rightarrow> string"

datatype py_fault = Attribute_Error | Type_Error

lemma size_zip [termination_simp]: "(x, y) \<in> set (zip xs ys) \<Longrightarrow> size x < Suc (size_list size xs)"
  using size_list_estimation' [of x xs "size x" size] by (auto dest: set_zip_leftD)

fun json_number :: "json \<Rightarrow> rat option" where
  "json_number (JBool b) = Some (of_bool b)"
| "json_number (JInt i) = Some (of_int i)"
| "json_number (JFloat q) = Some q"
| "json_number _ = None"

text \<open>\<open>==\<close>: numbers and booleans by value, arrays and objects member by member.\<close>

fun py_eq :: "json \<Rightarrow> json \<Rightarrow> bool" where
  "py_eq JNull y = (y = JNull)"
| "py_eq (JBool b) y = (json_number y = Some (of_bool b))"
| "py_eq (JInt i) y = (json_number y = Some (of_int i))"
| "py_eq (JFloat q) y = (json_number y = Some q)"
| "py_eq (JStr s) y = (y = JStr s)"
| "py_eq (JList xs) y =
     (case y of
        JList ys \<Rightarrow> length xs = length ys \<and> (\<forall>p\<in>set (zip xs ys). py_eq (fst p) (snd p))
      | _ \<Rightarrow> False)"
| "py_eq (JObj xs) y =
     (case y of
        JObj ys \<Rightarrow> length xs = length ys
          \<and> (\<forall>p\<in>set xs. case map_of ys (fst p) of None \<Rightarrow> False | Some v \<Rightarrow> py_eq (snd p) v)
      | _ \<Rightarrow> False)"

fun truthy :: "json \<Rightarrow> bool" where
  "truthy JNull = False"
| "truthy (JBool b) = b"
| "truthy (JInt i) = (i \<noteq> 0)"
| "truthy (JFloat q) = (q \<noteq> 0)"
| "truthy (JStr s) = (s \<noteq> [])"
| "truthy (JList xs) = (xs \<noteq> [])"
| "truthy (JObj kvs) = (kvs \<noteq> [])"

definition json_or :: "json \<Rightarrow> json \<Rightarrow> json" where
  "json_or v d = (if truthy v then v else d)"

text \<open>\<open>v.get(k)\<close>, iteration, \<open>str(v)\<close>, and \<open>k in v\<close> for a text \<open>k\<close>.\<close>

definition json_get :: "(string \<times> json) list \<Rightarrow> string \<Rightarrow> json" where
  "json_get kvs k = (case map_of kvs k of None \<Rightarrow> JNull | Some v \<Rightarrow> v)"

fun py_get :: "json \<Rightarrow> string \<Rightarrow> py_fault + json" where
  "py_get (JObj kvs) k = Inr (json_get kvs k)"
| "py_get _ k = Inl Attribute_Error"

fun py_iter :: "json \<Rightarrow> py_fault + json list" where
  "py_iter (JList xs) = Inr xs"
| "py_iter (JObj kvs) = Inr (map (\<lambda>p. JStr (fst p)) kvs)"
| "py_iter (JStr s) = Inr (map (\<lambda>c. JStr [c]) s)"
| "py_iter _ = Inl Type_Error"

fun py_str :: "doc_env \<Rightarrow> json \<Rightarrow> string" where
  "py_str d (JStr s) = s"
| "py_str d (JInt i) = show_int i"
| "py_str d JNull = ''None''"
| "py_str d (JBool b) = (if b then ''True'' else ''False'')"
| "py_str d v = json_text d v"

fun occurs_in :: "string \<Rightarrow> string \<Rightarrow> bool" where
  "occurs_in k [] = (k = [])"
| "occurs_in k (c # cs) = (take (length k) (c # cs) = k \<or> occurs_in k cs)"

fun py_contains :: "string \<Rightarrow> json \<Rightarrow> bool" where
  "py_contains k (JList xs) = (JStr k \<in> set xs)"
| "py_contains k (JObj kvs) = (k \<in> fst ` set kvs)"
| "py_contains k (JStr s) = occurs_in k s"
| "py_contains k _ = False"

section \<open>Rules\<close>

datatype glob =
    Lit char
  | Star
  | Index

text \<open>\<open>_rule_to_regex\<close>: \<open>*\<close> is \<open>[^.]*\<close>, the \<open>*\<close> of \<open>[*]\<close> is \<open>[^\]]+\<close>, the rest stands for itself.\<close>

fun rule_globs :: "char option \<Rightarrow> string \<Rightarrow> glob list" where
  "rule_globs prev [] = []"
| "rule_globs prev (c # cs) =
     (if c = CHR ''*'' then
        (if prev = Some (CHR ''['') \<and> first_of cs = Some (CHR '']'') then Index else Star)
      else Lit c) # rule_globs (Some c) cs"

definition rule_to_regex :: "string \<Rightarrow> glob list" where
  "rule_to_regex rule = rule_globs None rule"

text \<open>\<open>regex.fullmatch\<close> by backtracking.\<close>

fun full_match :: "glob list \<Rightarrow> string \<Rightarrow> bool" where
  "full_match [] s = (s = [])"
| "full_match (Lit c # gs) s = (case s of [] \<Rightarrow> False | x # xs \<Rightarrow> x = c \<and> full_match gs xs)"
| "full_match (Star # gs) s =
     (full_match gs s
      \<or> (case s of [] \<Rightarrow> False | x # xs \<Rightarrow> x \<noteq> CHR ''.'' \<and> full_match (Star # gs) xs))"
| "full_match (Index # gs) s =
     (case s of
        [] \<Rightarrow> False
      | x # xs \<Rightarrow> x \<noteq> CHR '']'' \<and> (full_match gs xs \<or> full_match (Index # gs) xs))"

type_synonym compiled = "(string \<times> glob list) list"

definition compile_rules :: "string list \<Rightarrow> compiled" where
  "compile_rules rules =
     map (\<lambda>r. (r, rule_to_regex r)) (filter (\<lambda>r. r \<noteq> []) (map py_strip rules))"

text \<open>\<open>_validate_drift_ignore_rules\<close>: \<open>None\<close> is the 422 answer.\<close>

definition rule_char :: "char \<Rightarrow> bool" where
  "rule_char c \<longleftrightarrow> (let n = of_char c :: nat in
     48 \<le> n \<and> n \<le> 57 \<or> 65 \<le> n \<and> n \<le> 90 \<or> 97 \<le> n \<and> n \<le> 122) \<or> c \<in> set ''_*.-[]'' \<or> c = CHR 0x22"

fun validate_rule :: "json \<Rightarrow> string option" where
  "validate_rule (JStr s) =
     (let v = py_strip s in
      if v = [] \<or> length v > 500 \<or> \<not> list_all rule_char v then None else Some v)"
| "validate_rule _ = None"

fun validate_drift_ignore_rules :: "json \<Rightarrow> string list option" where
  "validate_drift_ignore_rules (JList raw) =
     (if length raw > 50 then None
      else if list_all (\<lambda>v. validate_rule v \<noteq> None) raw then Some (map (the \<circ> validate_rule) raw)
      else None)"
| "validate_drift_ignore_rules _ = None"

section \<open>Paths that differ\<close>

definition join_key :: "string \<Rightarrow> string \<Rightarrow> string" where
  "join_key prefix k = (if prefix \<noteq> [] then prefix @ CHR ''.'' # k else k)"

definition join_index :: "string \<Rightarrow> nat \<Rightarrow> string" where
  "join_index prefix i = prefix @ CHR ''['' # show_nat i @ '']''"

definition item :: "json list \<Rightarrow> nat \<Rightarrow> json" where
  "item xs i = (if i < length xs then xs ! i else JNull)"

lemma size_json_get [termination_simp]: "size (json_get kvs k) < Suc (size_list (\<lambda>p. Suc (size (snd p))) kvs)"
proof (cases "map_of kvs k")
  case (Some v)
  then have "(k, v) \<in> set kvs" by (rule map_of_SomeD)
  then have "size v \<le> size_list (\<lambda>p. Suc (size (snd p))) kvs"
    by (rule size_list_estimation') simp
  with Some show ?thesis by (simp add: json_get_def)
qed (simp add: json_get_def)

lemma size_item [termination_simp]: "size (item xs i) < Suc (size_list size xs)"
proof (cases "i < length xs")
  case True
  then have "size (xs ! i) \<le> size_list size xs" by (intro size_list_estimation' [of "xs ! i"]) auto
  with True show ?thesis by (simp add: item_def)
qed (simp add: item_def)

fun diff_paths :: "doc_env \<Rightarrow> json \<Rightarrow> json \<Rightarrow> string \<Rightarrow> string list" where
  "diff_paths d before after prefix =
     (if py_eq before after then []
      else case before of
        JObj bs \<Rightarrow>
          (case after of
             JObj as \<Rightarrow>
               concat (map (\<lambda>k. diff_paths d (json_get bs k) (json_get as k) (join_key prefix k))
                 (key_order d (map fst bs) (map fst as)))
           | _ \<Rightarrow> if prefix \<noteq> [] then [prefix] else [])
      | JList bs \<Rightarrow>
          (case after of
             JList as \<Rightarrow>
               concat (map (\<lambda>i. diff_paths d (item bs i) (item as i) (join_index prefix i))
                 [0..<max (length bs) (length as)])
           | _ \<Rightarrow> if prefix \<noteq> [] then [prefix] else [])
      | _ \<Rightarrow> if prefix \<noteq> [] then [prefix] else [])"

declare diff_paths.simps [simp del]

definition drift_actions :: "string list" where
  "drift_actions = [''create'', ''update'', ''delete'', ''replace'']"

text \<open>\<open>any(a in _DRIFT_ACTIONS for a in actions)\<close>: looking up an array or an object in a set raises.\<close>

fun any_drift_action :: "json list \<Rightarrow> py_fault + bool" where
  "any_drift_action [] = Inr False"
| "any_drift_action (a # as) =
     (case a of
        JStr s \<Rightarrow> if s \<in> set drift_actions then Inr True else any_drift_action as
      | JList _ \<Rightarrow> Inl Type_Error
      | JObj _ \<Rightarrow> Inl Type_Error
      | _ \<Rightarrow> any_drift_action as)"

definition resource_change_diff_paths :: "doc_env \<Rightarrow> json \<Rightarrow> py_fault + string list \<times> bool" where
  "resource_change_diff_paths d rc =
     bind_sum (py_get rc ''change'') (\<lambda>c. let change = json_or c (JObj []) in
     bind_sum (py_get change ''actions'') (\<lambda>a. let actions = json_or a (JList []) in
     bind_sum (py_iter actions) (\<lambda>items.
     bind_sum (any_drift_action items) (\<lambda>drifts.
       if \<not> drifts then Inr ([], False)
       else if py_contains ''create'' actions \<or> py_contains ''delete'' actions
           \<or> py_contains ''replace'' actions then Inr ([], True)
       else bind_sum (py_get change ''before'') (\<lambda>before.
         bind_sum (py_get change ''after'') (\<lambda>after.
           Inr (diff_paths d before after [], False)))))))"

section \<open>Matching a path against the rules\<close>

text \<open>\<open>_NUMERIC_INDEX_RE.sub("", s)\<close>: what follows a leading \<open>[12]\<close>, and removing every such index.\<close>

definition after_index :: "string \<Rightarrow> string option" where
  "after_index s =
     (case s of
        [] \<Rightarrow> None
      | c # cs \<Rightarrow>
          if c = CHR ''['' \<and> takeWhile (\<lambda>x. digit_value x \<noteq> None) cs \<noteq> [] then
            (case dropWhile (\<lambda>x. digit_value x \<noteq> None) cs of
               [] \<Rightarrow> None
             | x # rest \<Rightarrow> if x = CHR '']'' then Some rest else None)
          else None)"

lemma after_index_shorter [termination_simp]:
  "after_index (c # cs) = Some rest \<Longrightarrow> length rest < Suc (length cs)"
  using length_dropWhile_le [of "\<lambda>x. digit_value x \<noteq> None" cs]
  by (auto simp: after_index_def split: if_splits list.splits)

fun strip_indices :: "string \<Rightarrow> string" where
  "strip_indices [] = []"
| "strip_indices (c # cs) =
     (case after_index (c # cs) of
        Some rest \<Rightarrow> strip_indices rest
      | None \<Rightarrow> c # strip_indices cs)"

fun sub_indices :: "json \<Rightarrow> py_fault + string" where
  "sub_indices (JStr s) = Inr (strip_indices s)"
| "sub_indices _ = Inl Type_Error"

fun fullmatch :: "glob list \<Rightarrow> json \<Rightarrow> py_fault + bool" where
  "fullmatch g (JStr s) = Inr (full_match g s)"
| "fullmatch g _ = Inl Type_Error"

definition or_else :: "py_fault + bool \<Rightarrow> py_fault + bool \<Rightarrow> py_fault + bool" where
  "or_else m n = bind_sum m (\<lambda>b. if b then Inr True else n)"

text \<open>The first rule that passes the test.\<close>

fun first_rule :: "(glob list \<Rightarrow> py_fault + bool) \<Rightarrow> compiled \<Rightarrow> py_fault + string option" where
  "first_rule test [] = Inr None"
| "first_rule test ((rule, g) # rest) =
     bind_sum (test g) (\<lambda>b. if b then Inr (Some rule) else first_rule test rest)"

definition path_is_ignored ::
    "doc_env \<Rightarrow> json \<Rightarrow> string \<Rightarrow> bool \<Rightarrow> compiled \<Rightarrow> py_fault + string option" where
  "path_is_ignored d address path whole rules =
     (if whole then first_rule (\<lambda>g. fullmatch g address) rules
      else let candidate = (if path \<noteq> [] then JStr (py_str d address @ CHR ''.'' # path) else address) in
        bind_sum (sub_indices candidate) (\<lambda>deindexed.
          first_rule (\<lambda>g. or_else (fullmatch g candidate)
            (or_else (fullmatch g (JStr deindexed)) (fullmatch g address))) rules))"

section \<open>Relevant attributes\<close>

definition path_segments :: "string \<Rightarrow> string list" where
  "path_segments path = filter (\<lambda>p. p \<noteq> []) (map strip_indices (split_on (CHR ''.'') path))"

type_synonym relevance = "string \<Rightarrow> string list list"

fun relevant_loop :: "doc_env \<Rightarrow> json list \<Rightarrow> relevance \<Rightarrow> py_fault + relevance" where
  "relevant_loop d [] index = Inr index"
| "relevant_loop d (ra # ras) index =
     bind_sum (py_get ra ''resource'') (\<lambda>res.
     bind_sum (py_get ra ''attribute'') (\<lambda>attr.
       if \<not> truthy res \<or> \<not> truthy attr then relevant_loop d ras index
       else bind_sum (py_iter attr) (\<lambda>steps.
         let k = strip_indices (py_str d res) in
         relevant_loop d ras (index(k := index k @ [map (py_str d) steps])))))"

definition relevant_attribute_index :: "doc_env \<Rightarrow> json \<Rightarrow> py_fault + relevance" where
  "relevant_attribute_index d plan =
     bind_sum (py_get plan ''relevant_attributes'') (\<lambda>v.
     bind_sum (py_iter (json_or v (JList []))) (\<lambda>ras. relevant_loop d ras (\<lambda>_. [])))"

definition drift_path_is_relevant :: "json \<Rightarrow> string \<Rightarrow> relevance \<Rightarrow> py_fault + bool" where
  "drift_path_is_relevant address path relevant =
     bind_sum (sub_indices address) (\<lambda>a.
       let segs = path_segments path in
       Inr (segs \<noteq> [] \<and> list_ex (\<lambda>rel. let n = min (length rel) (length segs) in
              n \<noteq> 0 \<and> take n rel = take n segs) (relevant a)))"

fun relevant_paths :: "json \<Rightarrow> relevance \<Rightarrow> string list \<Rightarrow> py_fault + string list" where
  "relevant_paths address relevant [] = Inr []"
| "relevant_paths address relevant (p # ps) =
     bind_sum (drift_path_is_relevant address p relevant) (\<lambda>b.
     bind_sum (relevant_paths address relevant ps) (\<lambda>rest. Inr (if b then p # rest else rest)))"

section \<open>The decision\<close>

record suppressed =
  sup_address :: json
  sup_paths :: "string list"
  sup_rule :: "string option"

text \<open>The paths a rule matches, the first rule that matched, and the paths none matches.\<close>

fun match_paths :: "doc_env \<Rightarrow> json \<Rightarrow> compiled \<Rightarrow> string list
    \<Rightarrow> string list \<times> string option \<times> string list \<Rightarrow> py_fault + string list \<times> string option \<times> string list" where
  "match_paths d address rules [] acc = Inr acc"
| "match_paths d address rules (p # ps) (matched, rule, unsuppressed) =
     bind_sum (path_is_ignored d address p False rules) (\<lambda>hit.
       case hit of
         Some r \<Rightarrow> match_paths d address rules ps
           (matched @ [p], if rule = None then Some r else rule, unsuppressed)
       | None \<Rightarrow> match_paths d address rules ps (matched, rule, unsuppressed @ [p]))"

definition evaluate_entry :: "doc_env \<Rightarrow> json \<Rightarrow> string list \<Rightarrow> bool \<Rightarrow> compiled \<Rightarrow> suppressed list
    \<Rightarrow> py_fault + bool \<times> suppressed list" where
  "evaluate_entry d address paths whole rules silent =
     (if whole then
        bind_sum (path_is_ignored d address [] True rules) (\<lambda>hit.
          if hit \<noteq> None then
            Inr (False, silent @ [\<lparr>sup_address = address, sup_paths = [], sup_rule = hit\<rparr>])
          else Inr (True, silent))
      else
        bind_sum (match_paths d address rules paths ([], None, [])) (\<lambda>(matched, rule, unsuppressed).
          if unsuppressed = [] then
            Inr (False, silent @ [\<lparr>sup_address = address, sup_paths = matched, sup_rule = rule\<rparr>])
          else Inr (True, silent)))"

fun changes_loop :: "doc_env \<Rightarrow> compiled \<Rightarrow> json list \<Rightarrow> bool \<times> suppressed list
    \<Rightarrow> py_fault + bool \<times> suppressed list" where
  "changes_loop d rules [] acc = Inr acc"
| "changes_loop d rules (rc # rcs) (still, silent) =
     bind_sum (py_get rc ''address'') (\<lambda>v. let address = json_or v (JStr []) in
       if \<not> truthy address then changes_loop d rules rcs (still, silent)
       else bind_sum (resource_change_diff_paths d rc) (\<lambda>(paths, whole).
         if paths = [] \<and> \<not> whole then changes_loop d rules rcs (still, silent)
         else bind_sum (evaluate_entry d address paths whole rules silent) (\<lambda>(drifted, silent).
           changes_loop d rules rcs (still \<or> drifted, silent))))"

fun drift_loop :: "doc_env \<Rightarrow> compiled \<Rightarrow> relevance \<Rightarrow> json list \<Rightarrow> bool \<times> suppressed list
    \<Rightarrow> py_fault + bool \<times> suppressed list" where
  "drift_loop d rules relevant [] acc = Inr acc"
| "drift_loop d rules relevant (rd # rds) (still, silent) =
     bind_sum (py_get rd ''address'') (\<lambda>v. let address = json_or v (JStr []) in
       if \<not> truthy address then drift_loop d rules relevant rds (still, silent)
       else bind_sum (resource_change_diff_paths d rd) (\<lambda>(paths, whole).
         if whole then
           bind_sum (evaluate_entry d address [] True rules silent) (\<lambda>(drifted, silent).
             drift_loop d rules relevant rds (still \<or> drifted, silent))
         else bind_sum (relevant_paths address relevant paths) (\<lambda>rel.
           if rel = [] then drift_loop d rules relevant rds (still, silent)
           else bind_sum (evaluate_entry d address rel False rules silent) (\<lambda>(drifted, silent).
             drift_loop d rules relevant rds (still \<or> drifted, silent)))))"

definition classify_drift :: "doc_env \<Rightarrow> json \<Rightarrow> string list \<Rightarrow> py_fault + bool \<times> suppressed list" where
  "classify_drift d plan rules =
     (let rs = compile_rules rules in
      bind_sum (py_get plan ''resource_changes'') (\<lambda>c. let changes = json_or c (JList []) in
      bind_sum (py_get plan ''resource_drift'') (\<lambda>r. let drift = json_or r (JList []) in
        if \<not> truthy changes \<and> \<not> truthy drift then Inr (False, [])
        else bind_sum (relevant_attribute_index d plan) (\<lambda>relevant.
          bind_sum (py_iter changes) (\<lambda>rcs.
          bind_sum (changes_loop d rs rcs (False, [])) (\<lambda>acc.
          bind_sum (py_iter drift) (\<lambda>rds. drift_loop d rs relevant rds acc)))))))"

end
