(* ===== verification/DriftVerdict.thy ===== *)
theory DriftVerdict
  imports DriftRules "HOL-Library.Sublist"
begin

text \<open>
  What the drift classifier decides: the rule matcher against the language of a rule, the reported
  paths against the places where two documents differ, and \<open>classify_drift\<close> against the decision
  stated on the plan's entries.
\<close>

section \<open>The language of a rule\<close>

fun in_glob :: "glob \<Rightarrow> string \<Rightarrow> bool" where
  "in_glob (Lit c) p = (p = [c])"
| "in_glob Star p = (CHR ''.'' \<notin> set p)"
| "in_glob Index p = (p \<noteq> [] \<and> CHR '']'' \<notin> set p)"

definition rule_matches :: "glob list \<Rightarrow> string \<Rightarrow> bool" where
  "rule_matches gs s \<longleftrightarrow> (\<exists>parts. list_all2 in_glob gs parts \<and> concat parts = s)"

lemma rule_matches_Nil [simp]: "rule_matches [] s \<longleftrightarrow> s = []"
  by (auto simp: rule_matches_def)

lemma rule_matches_Cons: "rule_matches (g # gs) s \<longleftrightarrow> (\<exists>p q. s = p @ q \<and> in_glob g p \<and> rule_matches gs q)"
  (is "?l \<longleftrightarrow> ?r")
proof
  assume ?l
  then obtain p parts where "s = p @ concat parts" "in_glob g p" "list_all2 in_glob gs parts"
    by (auto simp: rule_matches_def list_all2_Cons1)
  then show ?r unfolding rule_matches_def by blast
next
  assume ?r
  then obtain p parts where "s = p @ concat parts" "in_glob g p" "list_all2 in_glob gs parts"
    by (auto simp: rule_matches_def)
  then show ?l unfolding rule_matches_def by (intro exI [of _ "p # parts"]) simp
qed

lemma full_match_Star: "full_match (Star # gs) s \<longleftrightarrow> (\<exists>p q. s = p @ q \<and> in_glob Star p \<and> full_match gs q)"
proof (induction s)
  case (Cons x xs)
  show ?case
  proof
    assume "full_match (Star # gs) (x # xs)"
    with Cons.IH consider "full_match gs (x # xs)"
      | p q where "x \<noteq> CHR ''.''" "xs = p @ q" "in_glob Star p" "full_match gs q" by auto
    then show "\<exists>p q. x # xs = p @ q \<and> in_glob Star p \<and> full_match gs q"
    proof cases
      case 1
      then show ?thesis by (intro exI [of _ "[]"] exI [of _ "x # xs"]) simp
    next
      case 2
      then show ?thesis by (intro exI [of _ "x # p"] exI [of _ q]) simp
    qed
  next
    assume "\<exists>p q. x # xs = p @ q \<and> in_glob Star p \<and> full_match gs q"
    then obtain p q where "x # xs = p @ q" "in_glob Star p" "full_match gs q" by blast
    with Cons.IH show "full_match (Star # gs) (x # xs)" by (cases p) auto
  qed
qed simp

lemma full_match_Index:
  "full_match (Index # gs) s \<longleftrightarrow> (\<exists>p q. s = p @ q \<and> in_glob Index p \<and> full_match gs q)"
proof (induction s)
  case (Cons x xs)
  show ?case
  proof
    assume "full_match (Index # gs) (x # xs)"
    with Cons.IH consider "x \<noteq> CHR '']''" "full_match gs xs"
      | p q where "x \<noteq> CHR '']''" "xs = p @ q" "in_glob Index p" "full_match gs q" by auto
    then show "\<exists>p q. x # xs = p @ q \<and> in_glob Index p \<and> full_match gs q"
    proof cases
      case 1
      then show ?thesis by (intro exI [of _ "[x]"] exI [of _ xs]) simp
    next
      case 2
      then show ?thesis by (intro exI [of _ "x # p"] exI [of _ q]) simp
    qed
  next
    assume "\<exists>p q. x # xs = p @ q \<and> in_glob Index p \<and> full_match gs q"
    then obtain p q where pq: "x # xs = p @ q" "in_glob Index p" "full_match gs q" by blast
    then obtain p' where p: "p = x # p'" "xs = p' @ q" by (cases p) auto
    show "full_match (Index # gs) (x # xs)"
    proof (cases p')
      case Nil
      with p pq show ?thesis by simp
    next
      case Cons
      with p pq have "in_glob Index p'" by simp
      with Cons.IH p pq show ?thesis by auto
    qed
  qed
qed simp

lemma full_match_iff: "full_match gs s \<longleftrightarrow> rule_matches gs s"
proof (induction gs arbitrary: s)
  case (Cons g gs)
  show ?case
  proof (cases g)
    case (Lit c)
    with Cons.IH show ?thesis by (cases s) (auto simp: rule_matches_Cons)
  next
    case Star
    with Cons.IH show ?thesis by (simp add: rule_matches_Cons full_match_Star del: full_match.simps)
  next
    case Index
    with Cons.IH show ?thesis by (simp add: rule_matches_Cons full_match_Index del: full_match.simps)
  qed
qed simp

section \<open>Segments\<close>

lemma split_on_not_Nil [simp]: "split_on d s \<noteq> []"
  by (cases s) (auto split: list.splits)

declare split_on.simps(2) [simp del]

lemma split_on_Cons: "split_on d (c # cs) =
    (if c = d then [] # split_on d cs else (c # hd (split_on d cs)) # tl (split_on d cs))"
  by (cases "split_on d cs") (auto simp: split_on.simps(2))

lemma full_match_segments:
  assumes "Index \<notin> set gs"
  shows "full_match gs s \<longleftrightarrow> list_all2 full_match (split_on (Lit (CHR ''.'')) gs) (split_on (CHR ''.'') s)"
  using assms
proof (induction gs arbitrary: s)
  case Nil
  show ?case by (cases s) (auto simp: split_on_Cons list_all2_Cons1)
next
  case (Cons g gs)
  have IH: "full_match gs s \<longleftrightarrow> list_all2 full_match (split_on (Lit (CHR ''.'')) gs) (split_on (CHR ''.'') s)" for s
    using Cons by simp
  obtain t ts where gs: "split_on (Lit (CHR ''.'')) gs = t # ts" by (cases "split_on (Lit (CHR ''.'')) gs") auto
  show ?case
  proof (cases g)
    case (Lit c)
    have cut: "list_all2 full_match (t # ts) (split_on (CHR ''.'') xs)
        \<longleftrightarrow> full_match t (hd (split_on (CHR ''.'') xs)) \<and> list_all2 full_match ts (tl (split_on (CHR ''.'') xs))" for xs
      by (cases "split_on (CHR ''.'') xs") auto
    from Lit show ?thesis
      by (cases s) (auto simp: IH gs cut split_on_Cons)
  next
    case Star
    show ?thesis
    proof (induction s)
      case Nil
      with Star IH [of "[]"] gs show ?case by (simp add: split_on_Cons)
    next
      case (Cons x xs)
      obtain p ps where xs: "split_on (CHR ''.'') xs = p # ps" by (cases "split_on (CHR ''.'') xs") auto
      from Cons Star IH [of "x # xs"] show ?case
        by (auto simp: split_on_Cons gs xs)
    qed
  next
    case Index
    with Cons.prems show ?thesis by simp
  qed
qed

lemma rule_globs_segments:
  "split_on (Lit (CHR ''.'')) (rule_globs prev rule) =
     rule_globs prev (hd (split_on (CHR ''.'') rule)) # map rule_to_regex (tl (split_on (CHR ''.'') rule))"
proof (induction rule arbitrary: prev)
  case (Cons c cs)
  have first: "first_of (hd (split_on (CHR ''.'') cs)) = Some (CHR '']'') \<longleftrightarrow> first_of cs = Some (CHR '']'')"
    by (cases cs) (auto simp: split_on_Cons)
  obtain p ps where cs: "split_on (CHR ''.'') cs = p # ps" by (cases "split_on (CHR ''.'') cs") auto
  have dot: "rule_globs (Some (CHR ''.'')) p = rule_globs None p" by (cases p) auto
  from Cons [of "Some c"] first cs show ?case
    by (auto simp: split_on_Cons rule_to_regex_def dot)
qed (simp add: rule_to_regex_def)

text \<open>
  A rule without the index wildcard \<open>[*]\<close> matches a path segment by segment: both have the same number
  of dotted segments and each segment of the path is matched by its segment of the rule. So a star never
  reaches into the next segment, and a rule never matches a longer or shorter path.
\<close>

theorem rule_matches_segments:
  assumes "Index \<notin> set (rule_to_regex rule)"
  shows "full_match (rule_to_regex rule) path
    \<longleftrightarrow> list_all2 (\<lambda>r p. full_match (rule_to_regex r) p) (split_on (CHR ''.'') rule) (split_on (CHR ''.'') path)"
proof -
  have "split_on (Lit (CHR ''.'')) (rule_to_regex rule) = map rule_to_regex (split_on (CHR ''.'') rule)"
    using rule_globs_segments [of None rule]
    by (cases "split_on (CHR ''.'') rule") (simp_all add: rule_to_regex_def)
  with full_match_segments [OF assms] show ?thesis by (simp add: list_all2_map1)
qed

theorem rule_matches_segments_witness:
  "full_match (rule_to_regex ''aws.*.ta*'') ''aws.db[0].tags'' \<and> \<not> full_match (rule_to_regex ''aws.*'') ''aws.db.tags''"
proof -
  have "Index \<notin> set (rule_to_regex ''aws.*.ta*'')" "Index \<notin> set (rule_to_regex ''aws.*'')" by code_simp+
  note segments = rule_matches_segments [OF this(1), of "''aws.db[0].tags''"] rule_matches_segments [OF this(2), of "''aws.db.tags''"]
  show ?thesis unfolding segments by code_simp
qed

section \<open>The places where two documents differ\<close>

definition walks_keys :: "doc_env \<Rightarrow> bool" where
  "walks_keys d \<longleftrightarrow> (\<forall>xs ys. set (key_order d xs ys) = set xs \<union> set ys)"

datatype step = Key string | Idx nat

fun render :: "string \<Rightarrow> step list \<Rightarrow> string" where
  "render pre [] = pre"
| "render pre (Key k # steps) = render (join_key pre k) steps"
| "render pre (Idx i # steps) = render (join_index pre i) steps"

text \<open>The two documents have values at this place, and the values are not both objects or both arrays.\<close>

fun differs :: "json \<Rightarrow> json \<Rightarrow> step list \<Rightarrow> bool" where
  "differs (JObj bs) (JObj as) [] = False"
| "differs (JList bs) (JList as) [] = False"
| "differs b a [] = (\<not> py_eq b a)"
| "differs (JObj bs) (JObj as) (Key k # steps) =
     (k \<in> fst ` set bs \<union> fst ` set as \<and> differs (json_get bs k) (json_get as k) steps)"
| "differs (JList bs) (JList as) (Idx i # steps) =
     (i < max (length bs) (length as) \<and> differs (item bs i) (item as i) steps)"
| "differs b a (s # steps) = False"

fun wf_json :: "json \<Rightarrow> bool" where
  "wf_json (JList xs) = (\<forall>v\<in>set xs. wf_json v)"
| "wf_json (JObj kvs) = (distinct (map fst kvs) \<and> (\<forall>p\<in>set kvs. wf_json (snd p)))"
| "wf_json _ = True"

lemma wf_json_get: "\<forall>p\<in>set kvs. wf_json (snd p) \<Longrightarrow> wf_json (json_get kvs k)"
  by (auto simp: json_get_def dest!: map_of_SomeD split: option.split)

lemma wf_item: "\<forall>v\<in>set xs. wf_json v \<Longrightarrow> wf_json (item xs i)"
  by (simp add: item_def)

lemma py_eq_keys:
  assumes "py_eq (JObj bs) (JObj as)" and "distinct (map fst bs)" and "distinct (map fst as)"
  shows "fst ` set bs = fst ` set as"
proof (rule card_subset_eq)
  show "fst ` set bs \<subseteq> fst ` set as"
    using assms(1) by (force split: option.splits dest: map_of_SomeD)
  show "card (fst ` set bs) = card (fst ` set as)"
    using assms distinct_card [of "map fst bs"] distinct_card [of "map fst as"] by simp
qed simp

lemma py_eq_member:
  assumes eq: "py_eq (JObj bs) (JObj as)" and "distinct (map fst bs)" "distinct (map fst as)"
    and "k \<in> fst ` set bs \<union> fst ` set as"
  shows "py_eq (json_get bs k) (json_get as k)"
proof -
  from assms(4) py_eq_keys [OF assms(1-3)] have "k \<in> fst ` set bs" by simp
  then obtain v where v: "(k, v) \<in> set bs" by auto
  with assms have "map_of bs k = Some v" by simp
  moreover from eq v have "case map_of as k of None \<Rightarrow> False | Some u \<Rightarrow> py_eq v u" by (auto split: option.splits)
  ultimately show ?thesis by (auto simp: json_get_def split: option.splits)
qed

lemma py_eq_item: "py_eq (JList bs) (JList as) \<Longrightarrow> py_eq (item bs i) (item as i)"
  by (fastforce simp: item_def set_zip)

lemma py_eq_no_difference: "py_eq b a \<Longrightarrow> wf_json b \<Longrightarrow> wf_json a \<Longrightarrow> \<not> differs b a steps"
proof (induction b a steps rule: differs.induct)
  case (4 bs as k steps)
  then have "py_eq (json_get bs k) (json_get as k)" if "k \<in> fst ` set bs \<union> fst ` set as"
    using py_eq_member that by (auto simp del: py_eq.simps)
  with 4 wf_json_get show ?case by (auto simp del: py_eq.simps)
next
  case (5 bs as i steps)
  with py_eq_item wf_item show ?case by (auto simp del: py_eq.simps)
qed auto

lemma differs_leaf:
  "\<not> (\<exists>bs as. b = JObj bs \<and> a = JObj as) \<Longrightarrow> \<not> (\<exists>bs as. b = JList bs \<and> a = JList as)
    \<Longrightarrow> differs b a steps \<longleftrightarrow> steps = [] \<and> \<not> py_eq b a"
  by (cases "(b, a, steps)" rule: differs.cases) auto

lemma ex_differs_obj: "(\<exists>steps. differs (JObj bs) (JObj as) steps \<and> P steps) \<longleftrightarrow>
    (\<exists>k\<in>fst ` set bs \<union> fst ` set as. \<exists>rest. differs (json_get bs k) (json_get as k) rest \<and> P (Key k # rest))"
  (is "?l \<longleftrightarrow> ?r")
proof
  assume ?l
  then obtain steps where "differs (JObj bs) (JObj as) steps" "P steps" by blast
  then show ?r by (cases "(JObj bs, JObj as, steps)" rule: differs.cases) auto
next
  assume ?r
  then obtain k rest where "differs (JObj bs) (JObj as) (Key k # rest)" "P (Key k # rest)" by auto
  then show ?l by blast
qed

lemma ex_differs_list: "(\<exists>steps. differs (JList bs) (JList as) steps \<and> P steps) \<longleftrightarrow>
    (\<exists>i\<in>{0..<max (length bs) (length as)}. \<exists>rest. differs (item bs i) (item as i) rest \<and> P (Idx i # rest))"
  (is "?l \<longleftrightarrow> ?r")
proof
  assume ?l
  then obtain steps where "differs (JList bs) (JList as) steps" "P steps" by blast
  then show ?r by (cases "(JList bs, JList as, steps)" rule: differs.cases) auto
next
  assume ?r
  then obtain i rest where "differs (JList bs) (JList as) (Idx i # rest)" "P (Idx i # rest)" by auto
  then show ?l by blast
qed

lemma diff_paths_leaf:
  "\<not> (\<exists>bs as. b = JObj bs \<and> a = JObj as) \<Longrightarrow> \<not> (\<exists>bs as. b = JList bs \<and> a = JList as)
    \<Longrightarrow> diff_paths d b a pre = (if py_eq b a \<or> pre = [] then [] else [pre])"
  by (cases b; cases a) (simp_all add: diff_paths.simps del: py_eq.simps)

lemma diff_paths_obj:
  "\<not> py_eq (JObj bs) (JObj as) \<Longrightarrow> (\<And>xs ys. set (key_order d xs ys) = set xs \<union> set ys)
    \<Longrightarrow> p \<in> set (diff_paths d (JObj bs) (JObj as) pre) \<longleftrightarrow> (\<exists>k\<in>fst ` set bs \<union> fst ` set as.
      p \<in> set (diff_paths d (json_get bs k) (json_get as k) (join_key pre k)))"
  by (subst diff_paths.simps) (simp add: bex_Un del: py_eq.simps)

lemma diff_paths_list:
  "\<not> py_eq (JList bs) (JList as)
    \<Longrightarrow> p \<in> set (diff_paths d (JList bs) (JList as) pre) \<longleftrightarrow> (\<exists>i\<in>{0..<max (length bs) (length as)}.
      p \<in> set (diff_paths d (item bs i) (item as i) (join_index pre i)))"
  by (subst diff_paths.simps) (simp del: py_eq.simps)

lemma diff_paths_sound:
  assumes "\<And>xs ys. set (key_order d xs ys) = set xs \<union> set ys" and "wf_json before" and "wf_json after"
  shows "p \<in> set (diff_paths d before after pre)
    \<longleftrightarrow> (\<exists>steps. differs before after steps \<and> p = render pre steps \<and> p \<noteq> [])"
  using assms
proof (induction d before after pre rule: diff_paths.induct)
  case (1 d before after pre)
  show ?case
  proof (cases "py_eq before after")
    case True
    with 1 py_eq_no_difference show ?thesis by (auto simp: diff_paths.simps [of d before])
  next
    case False
    consider (objs) bs as where "before = JObj bs" "after = JObj as"
      | (lists) bs as where "before = JList bs" "after = JList as"
      | (leaf) "\<not> (\<exists>bs as. before = JObj bs \<and> after = JObj as)" "\<not> (\<exists>bs as. before = JList bs \<and> after = JList as)"
      by blast
    then show ?thesis
    proof cases
      case objs
      have "p \<in> set (diff_paths d (json_get bs k) (json_get as k) (join_key pre k))
          \<longleftrightarrow> (\<exists>rest. differs (json_get bs k) (json_get as k) rest \<and> p = render (join_key pre k) rest \<and> p \<noteq> [])"
        if "k \<in> fst ` set bs \<union> fst ` set as" for k
        using that 1(3-5) wf_json_get objs
        by (intro 1(2) [OF False objs]) (simp_all add: 1(3))
      then have "p \<in> set (diff_paths d before after pre) \<longleftrightarrow> (\<exists>k\<in>fst ` set bs \<union> fst ` set as. \<exists>rest.
          differs (json_get bs k) (json_get as k) rest \<and> p = render (join_key pre k) rest \<and> p \<noteq> [])"
        unfolding objs diff_paths_obj [OF False [unfolded objs] 1(3)] by (intro bex_cong refl)
      then show ?thesis unfolding objs ex_differs_obj render.simps .
    next
      case lists
      have "p \<in> set (diff_paths d (item bs i) (item as i) (join_index pre i))
          \<longleftrightarrow> (\<exists>rest. differs (item bs i) (item as i) rest \<and> p = render (join_index pre i) rest \<and> p \<noteq> [])"
        if "i < max (length bs) (length as)" for i
        using that 1(3-5) wf_item lists
        by (intro 1(1) [OF False lists]) simp_all
      then have "p \<in> set (diff_paths d before after pre) \<longleftrightarrow> (\<exists>i\<in>{0..<max (length bs) (length as)}. \<exists>rest.
          differs (item bs i) (item as i) rest \<and> p = render (join_index pre i) rest \<and> p \<noteq> [])"
        unfolding lists diff_paths_list [OF False [unfolded lists]] by (intro bex_cong refl) simp
      then show ?thesis unfolding lists ex_differs_list render.simps .
    next
      case leaf
      with False show ?thesis by (auto simp: diff_paths_leaf differs_leaf)
    qed
  qed
qed


section \<open>The decision on a plan\<close>

text \<open>
  The entries of a plan, its references, and a document that holds them (with any other members). An
  entry's address is not empty; an attribute reference has at least one step.
\<close>

record change_entry =
  ce_address :: string
  ce_actions :: "string list"
  ce_before :: json
  ce_after :: json

definition reads_change :: "json \<Rightarrow> change_entry \<Rightarrow> bool" where
  "reads_change v e \<longleftrightarrow> (\<exists>kvs c. v = JObj kvs \<and> json_get kvs ''address'' = JStr (ce_address e) \<and> ce_address e \<noteq> []
     \<and> json_get kvs ''change'' = JObj c \<and> json_get c ''actions'' = JList (map JStr (ce_actions e))
     \<and> json_get c ''before'' = ce_before e \<and> json_get c ''after'' = ce_after e
     \<and> wf_json (ce_before e) \<and> wf_json (ce_after e))"

definition reads_reference :: "json \<Rightarrow> string \<times> json list \<Rightarrow> bool" where
  "reads_reference v r \<longleftrightarrow> (\<exists>kvs. v = JObj kvs \<and> json_get kvs ''resource'' = JStr (fst r) \<and> fst r \<noteq> []
     \<and> json_get kvs ''attribute'' = JList (snd r) \<and> snd r \<noteq> [])"

record plan_entries =
  pl_changes :: "change_entry list"
  pl_drift :: "change_entry list"
  pl_references :: "(string \<times> json list) list"

definition reads_plan :: "json \<Rightarrow> plan_entries \<Rightarrow> bool" where
  "reads_plan v p \<longleftrightarrow> (\<exists>kvs cs ds rs. v = JObj kvs
     \<and> json_or (json_get kvs ''resource_changes'') (JList []) = JList cs \<and> list_all2 reads_change cs (pl_changes p)
     \<and> json_or (json_get kvs ''resource_drift'') (JList []) = JList ds \<and> list_all2 reads_change ds (pl_drift p)
     \<and> json_or (json_get kvs ''relevant_attributes'') (JList []) = JList rs
     \<and> list_all2 reads_reference rs (pl_references p))"

text \<open>
  A rule silences a changed path when it matches the path, the path without block indices, or the
  resource; it silences a created, deleted or replaced resource only when it matches its address. A path
  of an out-of-band change is relevant when a reference to the same resource is above or below it.
\<close>

definition whole_change :: "change_entry \<Rightarrow> bool" where
  "whole_change e \<longleftrightarrow> set (ce_actions e) \<inter> {''create'', ''delete'', ''replace''} \<noteq> {}"

definition changed_path :: "change_entry \<Rightarrow> string \<Rightarrow> bool" where
  "changed_path e p \<longleftrightarrow> (''update'' \<in> set (ce_actions e) \<and> p \<noteq> []
     \<and> (\<exists>steps. differs (ce_before e) (ce_after e) steps \<and> p = render [] steps))"

definition silenced :: "string list \<Rightarrow> string list \<Rightarrow> bool" where
  "silenced rules texts \<longleftrightarrow> (\<exists>rule\<in>set (map py_strip rules). rule \<noteq> []
     \<and> (\<exists>s\<in>set texts. rule_matches (rule_to_regex rule) s))"

definition path_texts :: "string \<Rightarrow> string \<Rightarrow> string list" where
  "path_texts address p =
     [address @ CHR ''.'' # p, strip_indices (address @ CHR ''.'' # p), address]"

definition relevant_to :: "doc_env \<Rightarrow> (string \<times> json list) list \<Rightarrow> string \<Rightarrow> string \<Rightarrow> bool" where
  "relevant_to d refs address p \<longleftrightarrow> path_segments p \<noteq> [] \<and> (\<exists>(res, steps)\<in>set refs.
     strip_indices res = strip_indices address
     \<and> (prefix (map (py_str d) steps) (path_segments p) \<or> prefix (path_segments p) (map (py_str d) steps)))"

definition surfaces :: "string list \<Rightarrow> (string \<Rightarrow> bool) \<Rightarrow> change_entry \<Rightarrow> bool" where
  "surfaces rules relevant e \<longleftrightarrow>
     (if whole_change e then \<not> silenced rules [ce_address e]
      else \<exists>p. changed_path e p \<and> relevant p \<and> \<not> silenced rules (path_texts (ce_address e) p))"

definition drift_remains :: "doc_env \<Rightarrow> string list \<Rightarrow> plan_entries \<Rightarrow> bool" where
  "drift_remains d rules p \<longleftrightarrow>
     (\<exists>e\<in>set (pl_changes p). surfaces rules (\<lambda>_. True) e)
     \<or> (\<exists>e\<in>set (pl_drift p). surfaces rules (relevant_to d (pl_references p) (ce_address e)) e)"

lemma silenced_mono: "set rules \<subseteq> set rules' \<Longrightarrow> silenced rules ts \<Longrightarrow> silenced rules' ts"
  by (auto simp: silenced_def)

lemma surfaces_antimono: "set rules \<subseteq> set rules' \<Longrightarrow> surfaces rules' f e \<Longrightarrow> surfaces rules f e"
  unfolding surfaces_def using silenced_mono by (auto split: if_splits)

lemma drift_remains_antimono: "set rules \<subseteq> set rules' \<Longrightarrow> drift_remains d rules' p \<Longrightarrow> drift_remains d rules p"
  unfolding drift_remains_def using surfaces_antimono by blast

section \<open>One path, one entry\<close>

lemma first_rule_pure:
  "first_rule (\<lambda>g. Inr (f g)) rs = Inr (case filter (\<lambda>r. f (snd r)) rs of [] \<Rightarrow> None | r # _ \<Rightarrow> Some (fst r))"
  by (induction rs) auto

lemma first_rule_hit:
  "\<exists>hit. first_rule (\<lambda>g. Inr (f g)) (compile_rules rules) = Inr hit
     \<and> (hit \<noteq> None \<longleftrightarrow> (\<exists>rule\<in>set (map py_strip rules). rule \<noteq> [] \<and> f (rule_to_regex rule)))"
proof -
  have "(case filter (\<lambda>r. f (snd r)) rs of [] \<Rightarrow> None | r # _ \<Rightarrow> Some (fst r)) \<noteq> None
      \<longleftrightarrow> (\<exists>r\<in>set rs. f (snd r))" for rs :: compiled
    by (auto split: list.split simp: filter_eq_Cons_iff filter_empty_conv)
  then show ?thesis unfolding first_rule_pure by (auto simp: compile_rules_def)
qed

lemma or_else_pure [simp]: "or_else (Inr a) (Inr b) = Inr (a \<or> b)"
  by (simp add: or_else_def)

lemma path_ignored:
  assumes "p \<noteq> []"
  shows "\<exists>hit. path_is_ignored d (JStr address) p False (compile_rules rules) = Inr hit
    \<and> (hit \<noteq> None \<longleftrightarrow> silenced rules (path_texts address p))"
  using assms first_rule_hit [of "\<lambda>g. full_match g (address @ CHR ''.'' # p)
      \<or> full_match g (strip_indices (address @ CHR ''.'' # p)) \<or> full_match g address" rules]
  by (simp add: path_is_ignored_def silenced_def path_texts_def full_match_iff)

lemma address_ignored:
  "\<exists>hit. path_is_ignored d (JStr address) [] True (compile_rules rules) = Inr hit
    \<and> (hit \<noteq> None \<longleftrightarrow> silenced rules [address])"
  using first_rule_hit [of "\<lambda>g. full_match g address" rules]
  by (simp add: path_is_ignored_def silenced_def full_match_iff)

lemma match_paths_rest:
  assumes "[] \<notin> set ps"
  shows "\<exists>m r u. match_paths d (JStr address) (compile_rules rules) ps (m0, r0, u0) = Inr (m, r, u)
    \<and> (u = [] \<longleftrightarrow> u0 = [] \<and> (\<forall>p\<in>set ps. silenced rules (path_texts address p)))"
  using assms
proof (induction ps arbitrary: m0 r0 u0)
  case (Cons p ps)
  from Cons.prems path_ignored [of p d address rules]
  obtain hit where hit: "path_is_ignored d (JStr address) p False (compile_rules rules) = Inr hit"
    "hit \<noteq> None \<longleftrightarrow> silenced rules (path_texts address p)" by auto
  show ?case
  proof (cases hit)
    case None
    with Cons.prems Cons.IH [of m0 r0 "u0 @ [p]"] hit show ?thesis by auto
  next
    case (Some r)
    with Cons.prems Cons.IH [of "m0 @ [p]" "if r0 = None then Some r else r0" u0] hit show ?thesis by auto
  qed
qed simp

lemma evaluate_paths:
  assumes "[] \<notin> set ps"
  shows "\<exists>s. evaluate_entry d (JStr address) ps False (compile_rules rules) silent
    = Inr (\<exists>p\<in>set ps. \<not> silenced rules (path_texts address p), s)"
  using match_paths_rest [OF assms, of d address rules "[]" None "[]"]
  by (fastforce simp: evaluate_entry_def)

lemma evaluate_whole:
  "\<exists>s. evaluate_entry d (JStr address) ps True (compile_rules rules) silent
    = Inr (\<not> silenced rules [address], s)"
  using address_ignored [of d address rules] by (auto simp: evaluate_entry_def)

section \<open>All entries\<close>

lemma any_drift_action_texts:
  "any_drift_action (map JStr as) = Inr (\<exists>a\<in>set as. a \<in> set drift_actions)"
  by (induction as) auto

lemma entry_paths:
  assumes "reads_change rc e"
  shows "resource_change_diff_paths d rc = Inr (
    if whole_change e then ([], True)
    else (if ''update'' \<in> set (ce_actions e) then diff_paths d (ce_before e) (ce_after e) [] else [], False))"
proof -
  from assms obtain kvs c where rc: "rc = JObj kvs" "json_get kvs ''change'' = JObj c"
    "json_get c ''actions'' = JList (map JStr (ce_actions e))"
    "json_get c ''before'' = ce_before e" "json_get c ''after'' = ce_after e"
    by (auto simp: reads_change_def)
  then have "c \<noteq> []" by (auto simp: json_get_def)
  moreover have "json_or (JList xs) (JList []) = JList xs" for xs by (simp add: json_or_def)
  moreover have "(\<exists>a\<in>set (ce_actions e). a \<in> set drift_actions)
      \<longleftrightarrow> whole_change e \<or> ''update'' \<in> set (ce_actions e)"
    by (auto simp: drift_actions_def whole_change_def)
  ultimately show ?thesis
    using rc
    by (auto simp: resource_change_diff_paths_def json_or_def Let_def any_drift_action_texts whole_change_def)
qed

lemma entry_address:
  assumes "reads_change rc e"
  shows "py_get rc ''address'' = Inr (JStr (ce_address e))" and "ce_address e \<noteq> []"
  using assms by (auto simp: reads_change_def)

lemma changed_paths:
  assumes "walks_keys d" and "reads_change rc e" and "''update'' \<in> set (ce_actions e)"
  shows "p \<in> set (diff_paths d (ce_before e) (ce_after e) []) \<longleftrightarrow> changed_path e p"
proof -
  have "wf_json (ce_before e)" "wf_json (ce_after e)" using assms by (auto simp: reads_change_def)
  with diff_paths_sound [of d "ce_before e" "ce_after e" p "[]"] assms show ?thesis
    by (auto simp: walks_keys_def changed_path_def)
qed

lemma evaluate_surfaces:
  assumes "reads_change rc e" and "walks_keys d" and "\<not> whole_change e" and "''update'' \<in> set (ce_actions e)"
    and "ps = filter f (diff_paths d (ce_before e) (ce_after e) [])"
  shows "ps = [] \<Longrightarrow> \<not> surfaces rules f e"
    and "\<exists>s. evaluate_entry d (JStr (ce_address e)) ps False (compile_rules rules) silent = Inr (surfaces rules f e, s)"
proof -
  from changed_paths [OF assms(2,1,4)] assms(5) have ps: "p \<in> set ps \<longleftrightarrow> changed_path e p \<and> f p" for p by auto
  then have surfaces: "surfaces rules f e \<longleftrightarrow> (\<exists>p\<in>set ps. \<not> silenced rules (path_texts (ce_address e) p))"
    using assms(3) by (auto simp: surfaces_def)
  then show "ps = [] \<Longrightarrow> \<not> surfaces rules f e" by simp
  have "[] \<notin> set ps" unfolding ps by (simp add: changed_path_def)
  from evaluate_paths [OF this, of d "ce_address e" rules silent] surfaces
  show "\<exists>s. evaluate_entry d (JStr (ce_address e)) ps False (compile_rules rules) silent = Inr (surfaces rules f e, s)"
    by simp
qed

lemma not_surfaces: "\<not> whole_change e \<Longrightarrow> ''update'' \<notin> set (ce_actions e) \<Longrightarrow> \<not> surfaces rules f e"
  by (simp add: surfaces_def changed_path_def)

lemma changes_loop_decides:
  assumes "list_all2 reads_change rcs es" and d: "walks_keys d"
  shows "\<exists>s. changes_loop d (compile_rules rules) rcs (b, s0) = Inr (b \<or> (\<exists>e\<in>set es. surfaces rules (\<lambda>_. True) e), s)"
  using assms(1)
proof (induction rcs es arbitrary: b s0 rule: list_all2_induct)
  case (Cons rc rcs e es)
  note entry = entry_address [OF Cons.hyps(1)] entry_paths [OF Cons.hyps(1), of d]
  let ?ps = "diff_paths d (ce_before e) (ce_after e) []"
  have at: "json_or (JStr (ce_address e)) (JStr []) = JStr (ce_address e)" "truthy (JStr (ce_address e))"
    using entry(2) by (simp_all add: json_or_def)
  consider "whole_change e" | "\<not> whole_change e" "''update'' \<notin> set (ce_actions e)"
    | "\<not> whole_change e" "''update'' \<in> set (ce_actions e)" by blast
  then show ?case
  proof cases
    case 1
    then have "surfaces rules (\<lambda>_. True) e \<longleftrightarrow> \<not> silenced rules [ce_address e]" by (simp add: surfaces_def)
    with evaluate_whole [of d "ce_address e" "[]" rules s0] obtain s where
      "evaluate_entry d (JStr (ce_address e)) [] True (compile_rules rules) s0 = Inr (surfaces rules (\<lambda>_. True) e, s)"
      by auto
    with 1 entry at Cons.IH [of "b \<or> surfaces rules (\<lambda>_. True) e" s] show ?thesis by simp
  next
    case 2
    with not_surfaces Cons.IH entry at show ?thesis by simp
  next
    case 3
    note e = evaluate_surfaces [OF Cons.hyps(1) d 3, of ?ps "\<lambda>_. True", simplified]
    from e(2) [of rules s0] obtain s where
      "evaluate_entry d (JStr (ce_address e)) ?ps False (compile_rules rules) s0 = Inr (surfaces rules (\<lambda>_. True) e, s)" ..
    with 3 e(1) [of rules] entry at Cons.IH [of b s0] Cons.IH [of "b \<or> surfaces rules (\<lambda>_. True) e" s]
    show ?thesis by (cases "?ps = []") auto
  qed
qed simp

section \<open>Out-of-band changes\<close>

lemma take_prefix: "length xs \<le> length ys \<Longrightarrow> take (length xs) ys = xs \<longleftrightarrow> prefix xs ys \<or> prefix ys xs"
  using take_is_prefix [of "length xs" ys] by (auto simp: prefix_def)

lemma take_min_prefix: "take (min (length xs) (length ys)) xs = take (min (length xs) (length ys)) ys
    \<longleftrightarrow> prefix xs ys \<or> prefix ys xs"
  using take_prefix [of xs ys] take_prefix [of ys xs]
  by (cases "length xs \<le> length ys") (auto simp: min_def)

lemma relevant_loop_index:
  assumes "list_all2 reads_reference vs refs"
  shows "\<exists>index'. relevant_loop d vs index = Inr index' \<and> (\<forall>k. set (index' k) =
    set (index k) \<union> {map (py_str d) steps | res steps. (res, steps) \<in> set refs \<and> strip_indices res = k})"
  using assms
proof (induction vs refs arbitrary: index rule: list_all2_induct)
  case (Cons v vs r refs)
  then obtain kvs where r: "v = JObj kvs" "json_get kvs ''resource'' = JStr (fst r)" "fst r \<noteq> []"
    "json_get kvs ''attribute'' = JList (snd r)" "snd r \<noteq> []" by (auto simp: reads_reference_def)
  let ?k = "strip_indices (fst r)"
  let ?index = "index(?k := index ?k @ [map (py_str d) (snd r)])"
  from Cons.IH [of ?index] obtain index' where index': "relevant_loop d vs ?index = Inr index'"
    "\<And>k. set (index' k) = set (?index k) \<union>
      {map (py_str d) steps | res steps. (res, steps) \<in> set refs \<and> strip_indices res = k}" by blast
  from r index'(1) have "relevant_loop d (v # vs) index = Inr index'" by (simp add: Let_def)
  moreover have "set (index' k) = set (index k) \<union>
      {map (py_str d) steps | res steps. (res, steps) \<in> set (r # refs) \<and> strip_indices res = k}" for k
    unfolding index'(2) by (cases r) auto
  ultimately show ?case by blast
qed simp

definition index_of :: "doc_env \<Rightarrow> (string \<times> json list) list \<Rightarrow> relevance \<Rightarrow> bool" where
  "index_of d refs index \<longleftrightarrow> (\<forall>k. set (index k) =
     {map (py_str d) steps | res steps. (res, steps) \<in> set refs \<and> strip_indices res = k})"

lemma relevant_paths_filter:
  assumes "index_of d refs index" and "\<forall>(res, steps)\<in>set refs. steps \<noteq> []"
  shows "relevant_paths (JStr address) index ps = Inr (filter (relevant_to d refs address) ps)"
proof -
  have common: "(let n = min (length rel) (length segs) in n \<noteq> 0 \<and> take n rel = take n segs)
      \<longleftrightarrow> rel \<noteq> [] \<and> segs \<noteq> [] \<and> (prefix rel segs \<or> prefix segs rel)" for rel segs :: "string list"
    by (auto simp: Let_def take_min_prefix)
  have "drift_path_is_relevant (JStr address) p index = Inr (relevant_to d refs address p)" for p
  proof -
    have "drift_path_is_relevant (JStr address) p index = Inr (path_segments p \<noteq> []
        \<and> (\<exists>rel\<in>set (index (strip_indices address)). rel \<noteq> [] \<and> path_segments p \<noteq> []
          \<and> (prefix rel (path_segments p) \<or> prefix (path_segments p) rel)))"
      by (simp only: drift_path_is_relevant_def sub_indices.simps bind_sum.simps Let_def [of "path_segments p"]
          list_ex_iff common)
    moreover have "set (index (strip_indices address)) = {map (py_str d) steps | res steps.
        (res, steps) \<in> set refs \<and> strip_indices res = strip_indices address}"
      using assms(1) by (simp add: index_of_def)
    moreover define common_prefix where "common_prefix rel \<longleftrightarrow> prefix rel (path_segments p) \<or> prefix (path_segments p) rel"
      for rel
    moreover have "map (py_str d) steps \<noteq> []" if "(res, steps) \<in> set refs" for res steps
      using assms(2) that by auto
    ultimately show ?thesis unfolding relevant_to_def common_prefix_def [symmetric] by auto
  qed
  then show ?thesis by (induction ps) simp_all
qed

lemma drift_loop_decides:
  assumes "list_all2 reads_change rcs es" and d: "walks_keys d"
    and index: "index_of d refs index" "\<forall>(res, steps)\<in>set refs. steps \<noteq> []"
  shows "\<exists>s. drift_loop d (compile_rules rules) index rcs (b, s0)
    = Inr (b \<or> (\<exists>e\<in>set es. surfaces rules (relevant_to d refs (ce_address e)) e), s)"
  using assms(1)
proof (induction rcs es arbitrary: b s0 rule: list_all2_induct)
  case (Cons rc rcs e es)
  note entry = entry_address [OF Cons.hyps(1)] entry_paths [OF Cons.hyps(1), of d]
  let ?f = "relevant_to d refs (ce_address e)"
  let ?ps = "filter ?f (diff_paths d (ce_before e) (ce_after e) [])"
  have at: "json_or (JStr (ce_address e)) (JStr []) = JStr (ce_address e)" "truthy (JStr (ce_address e))"
    using entry(2) by (simp_all add: json_or_def)
  note rel = relevant_paths_filter [OF index, of "ce_address e"]
  consider "whole_change e" | "\<not> whole_change e" "''update'' \<notin> set (ce_actions e)"
    | "\<not> whole_change e" "''update'' \<in> set (ce_actions e)" by blast
  then show ?case
  proof cases
    case 1
    then have "surfaces rules ?f e \<longleftrightarrow> \<not> silenced rules [ce_address e]" by (simp add: surfaces_def)
    with evaluate_whole [of d "ce_address e" "[]" rules s0] obtain s where
      "evaluate_entry d (JStr (ce_address e)) [] True (compile_rules rules) s0 = Inr (surfaces rules ?f e, s)"
      by auto
    with 1 entry at Cons.IH [of "b \<or> surfaces rules ?f e" s] show ?thesis by simp
  next
    case 2
    with not_surfaces Cons.IH entry at show ?thesis by (simp add: rel)
  next
    case 3
    note e = evaluate_surfaces [OF Cons.hyps(1) d 3 refl, of ?f]
    from e(2) [of rules s0] obtain s where
      "evaluate_entry d (JStr (ce_address e)) ?ps False (compile_rules rules) s0 = Inr (surfaces rules ?f e, s)" ..
    with 3 e(1) [of rules] entry at Cons.IH [of b s0] Cons.IH [of "b \<or> surfaces rules ?f e" s]
    show ?thesis by (cases "?ps = []") (auto simp: rel)
  qed
qed simp

lemma classify_drift_complete:
  assumes "reads_plan plan p" and "walks_keys d"
  shows "\<exists>s. classify_drift d plan rules = Inr (drift_remains d rules p, s)"
proof -
  from assms(1) obtain kvs cs ds rs where plan: "plan = JObj kvs"
      "json_or (json_get kvs ''resource_changes'') (JList []) = JList cs"
      "json_or (json_get kvs ''resource_drift'') (JList []) = JList ds"
      "json_or (json_get kvs ''relevant_attributes'') (JList []) = JList rs"
    and reads: "list_all2 reads_change cs (pl_changes p)" "list_all2 reads_change ds (pl_drift p)"
      "list_all2 reads_reference rs (pl_references p)"
    by (auto simp: reads_plan_def)
  from relevant_loop_index [OF reads(3), of d "\<lambda>_. []"] obtain index where
    index: "relevant_attribute_index d plan = Inr index" "index_of d (pl_references p) index"
    using plan by (auto simp: relevant_attribute_index_def index_of_def)
  have steps: "\<forall>(res, steps)\<in>set (pl_references p). steps \<noteq> []"
    using reads(3) by (auto simp: reads_reference_def in_set_conv_nth list_all2_conv_all_nth) (metis snd_conv)
  from changes_loop_decides [OF reads(1) assms(2), of rules False "[]"] obtain s1 where
    s1: "changes_loop d (compile_rules rules) cs (False, []) = Inr (\<exists>e\<in>set (pl_changes p). surfaces rules (\<lambda>_. True) e, s1)"
    by auto
  from drift_loop_decides [OF reads(2) assms(2) index(2) steps, of rules _ s1] obtain s2 where
    s2: "drift_loop d (compile_rules rules) index ds (\<exists>e\<in>set (pl_changes p). surfaces rules (\<lambda>_. True) e, s1)
      = Inr (drift_remains d rules p, s2)" unfolding drift_remains_def by blast
  show ?thesis
  proof (cases "cs = [] \<and> ds = []")
    case True
    with plan reads show ?thesis by (auto simp: classify_drift_def drift_remains_def)
  next
    case False
    with plan index(1) s1 s2 show ?thesis by (auto simp: classify_drift_def Let_def)
  qed
qed


lemma rule_char_no_space: "rule_char c \<Longrightarrow> \<not> py_space c"
  by (auto simp: rule_char_def py_space_def Let_def)

lemma strip_rule:
  assumes "list_all rule_char r"
  shows "py_strip r = r"
proof -
  have "\<not> py_space c" if "c \<in> set r" for c
    using assms that by (intro rule_char_no_space) (simp add: list_all_iff)
  then have "dropWhile py_space r = r" "dropWhile py_space (rev r) = rev r"
    by (auto simp: dropWhile_eq_self_iff hd_rev)
  then show ?thesis by (simp add: py_strip_def)
qed

text \<open>
  Accepted rules are well formed and stay accepted: at most fifty, each non-empty, trimmed, at most
  500 characters of the documented alphabet. The classifier then uses every one of them as it was
  stored.
\<close>

theorem validated_rules_well_formed:
  assumes "validate_drift_ignore_rules v = Some rules"
  shows "length rules \<le> 50
    \<and> (\<forall>r\<in>set rules. r \<noteq> [] \<and> length r \<le> 500 \<and> list_all rule_char r)
    \<and> map fst (compile_rules rules) = rules
    \<and> validate_drift_ignore_rules (JList (map JStr rules)) = Some rules"
proof -
  from assms obtain raw where raw: "v = JList raw" "length raw \<le> 50" "rules = map (the \<circ> validate_rule) raw"
    "list_all (\<lambda>v. validate_rule v \<noteq> None) raw"
    by (cases v) (auto split: if_splits)
  have ok: "r \<noteq> [] \<and> length r \<le> 500 \<and> list_all rule_char r" if "r \<in> set rules" for r
  proof -
    from that raw(3,4) obtain x where "validate_rule x = Some r" by (auto simp: list_all_iff)
    then show ?thesis by (cases x) (auto simp: Let_def split: if_splits)
  qed
  have strip: "py_strip r = r" if "r \<in> set rules" for r using ok [OF that] strip_rule [of r] by simp
  have same: "validate_rule (JStr r) = Some r" if "r \<in> set rules" for r
    using ok [OF that] strip [OF that] by (simp add: Let_def)
  have "map py_strip rules = rules" using strip by (simp add: map_idI)
  then have "map fst (compile_rules rules) = rules" using ok by (simp add: compile_rules_def comp_def filter_id_conv)
  moreover have "list_all (\<lambda>v. validate_rule v \<noteq> None) (map JStr rules)" "map (the \<circ> validate_rule) (map JStr rules) = rules"
    using same by (simp_all add: list_all_iff map_idI del: validate_rule.simps)
  ultimately show ?thesis using ok raw by simp
qed

theorem validated_rules_well_formed_witness:
  "map fst (compile_rules [''aws.db[*].tags'']) = [''aws.db[*].tags''] \<and> validate_drift_ignore_rules (JList [JStr ''a b'']) = None"
proof -
  have "validate_drift_ignore_rules (JList [JStr '' aws.db[*].tags'']) = Some [''aws.db[*].tags'']" by code_simp
  from validated_rules_well_formed [OF this] show ?thesis by code_simp
qed

text \<open>
  An out-of-band change that the configuration does reference is missed when the reference goes through
  a block index. The index is dropped from the changed path and kept in the reference, so the two never
  share a prefix and the change counts as noise, whatever the rules.
\<close>

theorem block_reference_is_missed:
  assumes "reads_plan plan p" and "walks_keys d" and "pl_changes p = []" and "pl_drift p = [e]"
    and "\<not> whole_change e" and "pl_references p = [(ce_address e, [JStr block, JInt i, JStr attr])]"
    and "\<And>q. changed_path e q \<Longrightarrow> path_segments q = [block, attr]" and "attr \<noteq> show_int i"
  shows "\<exists>s. classify_drift d plan rules = Inr (False, s)"
proof -
  have "\<not> relevant_to d (pl_references p) (ce_address e) q" if "changed_path e q" for q
    using assms(6-8) that by (simp add: relevant_to_def)
  then have "\<not> drift_remains d rules p"
    using assms(3-5) by (auto simp: drift_remains_def surfaces_def)
  with classify_drift_complete [OF assms(1,2), of rules] show ?thesis by simp
qed

section \<open>An example\<close>

definition example_docs :: doc_env where
  "example_docs = \<lparr>key_order = (\<lambda>xs ys. xs @ filter (\<lambda>k. k \<notin> set xs) ys), json_text = (\<lambda>_. [])\<rparr>"

lemma example_docs_walk: "set (key_order example_docs xs ys) = set xs \<union> set ys" "walks_keys example_docs"
  by (auto simp: example_docs_def walks_keys_def)

definition example_change :: json where
  "example_change = JObj [(''address'', JStr ''aws.db''), (''change'', JObj [(''actions'', JList [JStr ''update'']),
     (''before'', JObj [(''tags'', JList [JInt 1, JStr ''a''])]), (''after'', JObj [(''tags'', JList [JInt 1])])])]"

definition example_entry :: change_entry where
  "example_entry = \<lparr>ce_address = ''aws.db'', ce_actions = [''update''],
     ce_before = JObj [(''tags'', JList [JInt 1, JStr ''a''])], ce_after = JObj [(''tags'', JList [JInt 1])]\<rparr>"

definition example_plan :: json where
  "example_plan = JObj [(''resource_changes'', JList [example_change])]"

definition example_entries :: plan_entries where
  "example_entries = \<lparr>pl_changes = [example_entry], pl_drift = [], pl_references = []\<rparr>"

lemma example_reads: "reads_plan example_plan example_entries"
  by (simp add: reads_plan_def example_plan_def example_entries_def json_or_def json_get_def reads_change_def
      example_change_def example_entry_def)



definition disk_drift :: "json \<Rightarrow> json" where
  "disk_drift v = JObj [(''disks'', JList [JObj [(''id'', v)]])]"

theorem block_reference_is_missed_witness:
  "\<exists>s. classify_drift example_docs (JObj
     [(''resource_drift'', JList [JObj [(''address'', JStr ''aws.vm''), (''change'', JObj
         [(''actions'', JList [JStr ''update'']), (''before'', disk_drift (JInt 1)), (''after'', disk_drift (JInt 2))])]]),
      (''relevant_attributes'', JList [JObj [(''resource'', JStr ''aws.vm''),
         (''attribute'', JList [JStr ''disks'', JInt 0, JStr ''id''])]])]) [] = Inr (False, s)"
  (is "\<exists>s. classify_drift _ ?plan _ = _")
proof -
  let ?e = "\<lparr>ce_address = ''aws.vm'', ce_actions = [''update''], ce_before = disk_drift (JInt 1),
    ce_after = disk_drift (JInt 2)\<rparr>"
  let ?p = "\<lparr>pl_changes = [], pl_drift = [?e], pl_references = [(''aws.vm'', [JStr ''disks'', JInt 0, JStr ''id''])]\<rparr>"
  have reads: "reads_plan ?plan ?p"
    by (simp add: reads_plan_def json_or_def json_get_def reads_change_def reads_reference_def disk_drift_def)
  have paths: "path_segments q = [''disks'', ''id'']" if "changed_path ?e q" for q
  proof -
    have "diff_paths example_docs (disk_drift (JInt 1)) (disk_drift (JInt 2)) [] = [''disks[0].id'']" by code_simp
    with that diff_paths_sound [OF example_docs_walk(1), of "disk_drift (JInt 1)" "disk_drift (JInt 2)" q "[]"]
    have "q = ''disks[0].id''" by (auto simp: changed_path_def disk_drift_def)
    moreover have "path_segments ''disks[0].id'' = [''disks'', ''id'']" by code_simp
    ultimately show ?thesis by simp
  qed
  have "show_int 0 = ''0''" by code_simp
  with block_reference_is_missed [OF reads example_docs_walk(2), of ?e] paths show ?thesis
    by (simp add: whole_change_def)
qed

end
