(* ===== verification/DriftChecks.thy ===== *)
theory DriftChecks
  imports DriftVerdict RunApi
begin

text \<open>
  Drift detection (\<open>services/drift_detection_service.py\<close>): the periodic cycle that queues plan-only runs for
  the workspaces that are due, and the handler that turns a finished drift run into the workspace's
  drift status, through the ignore rules of \<open>DriftRules\<close>.

  The cycle and the handler each run in one session that is committed at the end, so an exception the
  cycle swallows keeps what was written before it. What is outside is in \<open>drift_env\<close>: the interval floor,
  the provider's answers (a call that raises answers \<open>None\<close>), whether an archive could be stored for a
  configuration version, whether a run's JSON plan was uploaded, and the stored plan document.
\<close>

section \<open>Checking workspaces\<close>

datatype stored_plan = Plan_Missing | Storage_Failed | Plan_Unparseable | Plan_Doc json

record drift_env =
  de_docs :: doc_env
  de_min_interval :: int
  de_vcs :: vcs_api
  de_stored :: "nat \<Rightarrow> bool"
  de_has_json :: "nat \<Rightarrow> bool"
  de_plan :: "nat \<Rightarrow> nat \<Rightarrow> stored_plan"

definition runner_busy_states :: "run_status set" where
  "runner_busy_states = {Planning, Applying}"

definition is_runner_busy :: "world \<Rightarrow> nat \<Rightarrow> bool" where
  "is_runner_busy w ws \<longleftrightarrow>
     select_runs w (\<lambda>_ r. workspace_id r = ws \<and> status r \<in> runner_busy_states) \<noteq> []"

definition has_state :: "world \<Rightarrow> nat \<Rightarrow> bool" where
  "has_state w ws \<longleftrightarrow> select (next_id w) (state_versions w) (\<lambda>_ sv. sv_workspace sv = ws) \<noteq> []"

definition drift_request :: "nat \<Rightarrow> run_request" where
  "drift_request cv = default_request\<lparr>rq_message := Text ''Drift detection check'', rq_plan_only := True,
     rq_source := ''drift-detection'', rq_cv := Some cv, rq_created_by := ''drift-detection'', rq_is_drift := True\<rparr>"

definition create_drift_run_vcs :: "env \<Rightarrow> drift_env \<Rightarrow> nat \<Rightarrow> workspace \<Rightarrow> nat option handler" where
  "create_drift_run_vcs e de ws_id ws w =
     (let cfg = settings ws; api = de_vcs de in
      case (case ws_vcs_connection cfg of None \<Rightarrow> None | Some c \<Rightarrow> vcs_connections w c) of
        None \<Rightarrow> Ret None w
      | Some conn \<Rightarrow>
          if vc_status conn \<noteq> ''active'' then Ret None w
          else if \<not> va_parses api (ws_vcs_repo_url cfg) then Ret None w
          else
     (case va_branch api ws_id of None \<Rightarrow> Ret None w
      | Some branch \<Rightarrow>
          if branch = [] then Ret None w else
     (case va_branch_sha api branch of None \<Rightarrow> Ret None w
      | Some sha \<Rightarrow>
          if sha = [] then Ret None w
          else if \<not> va_archive api sha then Ret None w
          else case create_configuration_version ws_id ''drift-detection'' False False w of (cv, w1) \<Rightarrow>
            if \<not> de_stored de cv then Ret None w1
            else case create_run e ws_id ws (drift_request cv) (mark_configuration_uploaded cv w1) of (i, w2) \<Rightarrow>
              let w3 = put_run i (\<lambda>r. r\<lparr>config := (config r)\<lparr>rc_vcs_sha := sha, rc_vcs_branch := branch\<rparr>\<rparr>) w2
              in bind_res (queue_run e i w3) (\<lambda>_ w4. Ret (Some i) w4))))"

text \<open>\<open>ORDER BY apply_finished_at DESC LIMIT 1\<close>: a null comes first.\<close>

definition applied_with_config :: "world \<Rightarrow> nat \<Rightarrow> nat list" where
  "applied_with_config w ws = select_runs w (\<lambda>_ r. workspace_id r = ws \<and> status r = Applied
     \<and> (case rc_cv (config r) of None \<Rightarrow> False
        | Some c \<Rightarrow> (case config_versions w c of None \<Rightarrow> False | Some x \<Rightarrow> cv_status x = ''uploaded'')))"

definition latest_applied_run :: "world \<Rightarrow> nat \<Rightarrow> nat option" where
  "latest_applied_run w ws =
     (let finished = (\<lambda>i. case runs w i of None \<Rightarrow> None | Some r \<Rightarrow> apply_finished_at r);
          rs = applied_with_config w ws
      in case filter (\<lambda>i. finished i = None) rs of
           i # _ \<Rightarrow> Some i
         | [] \<Rightarrow> least_by (\<lambda>i. - the (finished i)) rs)"

definition latest_applied_cv :: "world \<Rightarrow> nat \<Rightarrow> nat option" where
  "latest_applied_cv w ws =
     (case latest_applied_run w ws of None \<Rightarrow> None
      | Some i \<Rightarrow> (case runs w i of None \<Rightarrow> None | Some r \<Rightarrow> rc_cv (config r)))"

definition create_drift_run_non_vcs :: "env \<Rightarrow> nat \<Rightarrow> workspace \<Rightarrow> nat option handler" where
  "create_drift_run_non_vcs e ws_id ws w =
     (case latest_applied_cv w ws_id of
        None \<Rightarrow> Ret None w
      | Some cv \<Rightarrow>
          (case create_run e ws_id ws (drift_request cv) w of
             (i, w1) \<Rightarrow> bind_res (queue_run e i w1) (\<lambda>_ w2. Ret (Some i) w2)))"

definition drift_due :: "drift_env \<Rightarrow> int \<Rightarrow> workspace \<Rightarrow> bool" where
  "drift_due de t ws \<longleftrightarrow>
     (case drift_last_checked_at ws of
        None \<Rightarrow> True
      | Some seen \<Rightarrow> seconds (max (ws_drift_interval (settings ws)) (de_min_interval de)) \<le> t - seen)"

definition drift_check :: "env \<Rightarrow> drift_env \<Rightarrow> nat \<Rightarrow> unit handler" where
  "drift_check e de ws_id w =
     (case workspaces w ws_id of
        None \<Rightarrow> Ret () w
      | Some ws \<Rightarrow>
          if \<not> drift_due de (now w) ws then Ret () w
          else if locked ws then Ret () w
          else if is_runner_busy w ws_id then Ret () w
          else if \<not> has_state w ws_id then Ret () w
          else bind_res (if has_vcs (settings ws) then create_drift_run_vcs e de ws_id ws w
                         else create_drift_run_non_vcs e ws_id ws w)
            (\<lambda>run w'. case run of
               None \<Rightarrow> Ret () w'
             | Some _ \<Rightarrow> Ret () (put_ws ws_id (\<lambda>x. x\<lparr>drift_last_checked_at := Some (now w)\<rparr>) w')))"

fun drift_check_loop :: "env \<Rightarrow> drift_env \<Rightarrow> nat list \<Rightarrow> world \<Rightarrow> world" where
  "drift_check_loop e de [] w = w"
| "drift_check_loop e de (ws # rest) w = drift_check_loop e de rest (res_state (drift_check e de ws w))"

definition drift_check_cycle :: "env \<Rightarrow> drift_env \<Rightarrow> world \<Rightarrow> world" where
  "drift_check_cycle e de w =
     drift_check_loop e de (select (next_id w) (workspaces w) (\<lambda>_ ws. ws_drift_enabled (settings ws))) w"

section \<open>A finished drift run\<close>

definition apply_drift_ignore_rules :: "drift_env \<Rightarrow> nat \<Rightarrow> run \<Rightarrow> string list \<Rightarrow> string" where
  "apply_drift_ignore_rules de i r rules =
     (case de_plan de (workspace_id r) i of
        Plan_Doc plan \<Rightarrow>
          (case classify_drift (de_docs de) plan rules of
             Inl _ \<Rightarrow> ''drifted''
           | Inr (still, _) \<Rightarrow> if \<not> still then ''no_drift'' else ''drifted'')
      | _ \<Rightarrow> ''drifted'')"

definition drift_outcome :: "drift_env \<Rightarrow> nat \<Rightarrow> run \<Rightarrow> workspace \<Rightarrow> string option" where
  "drift_outcome de i r ws =
     (if status r = Planned then
        (case has_changes r of
           Some True \<Rightarrow>
             if ws_drift_rules (settings ws) \<noteq> [] \<and> de_has_json de i
             then Some (apply_drift_ignore_rules de i r (ws_drift_rules (settings ws)))
             else Some ''drifted''
         | Some False \<Rightarrow> Some ''no_drift''
         | None \<Rightarrow> Some ''drifted'')
      else if status r = Errored then Some ''errored''
      else None)"

definition publish_drift_status :: "nat \<Rightarrow> string \<Rightarrow> world \<Rightarrow> world" where
  "publish_drift_status ws_id st w =
     (let ev = Drift_Status_Change ws_id st in
      redis_try (\<lambda>s. bind_res (publish_event Admin_Events ev s) (\<lambda>_ s1.
        bind_res (publish_event Workspace_List_Events ev s1) (\<lambda>_ s2.
          publish_event (Run_Events ws_id) ev s2))) w)"

definition enqueue_drift_notification :: "env \<Rightarrow> nat \<Rightarrow> run \<Rightarrow> world \<Rightarrow> world" where
  "enqueue_drift_notification e i r w =
     enqueue_slack_notify e i r ''run:drift_detected'' False
       (redis_try (enqueue_trigger ''notification_deliver''
          (Trigger_Payload i (workspace_id r) ''run:drift_detected'')
          (Some (D_Named (''drift_notif:'' @ uuid_str e i))) 60 (now w)) w)"

text \<open>The payload's ids: \<open>None\<close> when the field is missing or empty.\<close>

definition handle_drift_run_completed :: "env \<Rightarrow> drift_env \<Rightarrow> nat option \<Rightarrow> nat option \<Rightarrow> world \<Rightarrow> world" where
  "handle_drift_run_completed e de run_id ws_ref w =
     (case (run_id, ws_ref) of
        (Some i, Some ws_id) \<Rightarrow>
          (case runs w i of
             None \<Rightarrow> w
           | Some r \<Rightarrow>
               if \<not> is_drift r then w
               else
          (case workspaces w ws_id of
             None \<Rightarrow> w
           | Some ws \<Rightarrow>
          (case drift_outcome de i r ws of
             None \<Rightarrow> w
           | Some st \<Rightarrow>
               let w1 = put_ws ws_id (\<lambda>x. x\<lparr>drift_status := st, drift_latest_run_id := Some i,
                     drift_last_checked_at := Some (now w)\<rparr>) w;
                   w2 = publish_drift_status ws_id st w1
               in if st = ''drifted'' then enqueue_drift_notification e i r w2 else w2)))
      | _ \<Rightarrow> w)"

end
