(* ===== verification/DriftProperties.thy ===== *)
theory DriftProperties
  imports DriftChecks Resilience RunProperties
begin

text \<open>
  What the drift checks guarantee: the cycle only adds queued plan-only runs, one per workspace that is
  due, unlocked, idle and has state; and a finished drift run sets the status that the decision of
  \<open>DriftVerdict\<close> asks for, defaulting to \<open>drifted\<close> whenever the plan cannot be read.
\<close>

section \<open>What one check writes\<close>

lemma drift_row: "\<not> is_supersedeable_kind (new_run e ws cfg (drift_request cv) t)"
    "status (new_run e ws cfg (drift_request cv) t) = Pending"
    "config (new_run e ws cfg (drift_request cv) t) = config (new_run e ws cfg (drift_request cv) t)
       \<lparr>rc_plan_only := True, rc_is_drift := True, rc_cv := Some cv, rc_workspace := ws\<rparr>"
  by (simp_all add: is_supersedeable_kind_def new_run_def drift_request_def default_request_def)

lemma queue_new_check:
  assumes "create_run e ws_id ws (drift_request cv) u = (i, u1)" and "i = next_id u"
    and f: "\<And>r. status (f r) = status r" "\<And>r. plan_only (f r) = plan_only r" "\<And>r. workspace_id (f r) = workspace_id r"
  shows "\<exists>u2. queue_run e i (put_run i f u1) = Ret () u2 \<and> db u2 = put_run i (set_status Queued)
    (put_run i f (add_run (new_run e ws_id (settings ws) (drift_request cv) (now u)) (db u)))"
proof -
  let ?r = "new_run e ws_id (settings ws) (drift_request cv) (now u)"
  have db: "db u1 = add_run ?r (db u)" using create_run_db(2) [of e ws_id ws "drift_request cv" u] assms(1) by simp
  then have row: "runs (put_run i f u1) i = Some (f ?r)"
    using assms(1,2) create_run_row [of e ws_id ws "drift_request cv" u] by simp
  have kind: "\<not> is_supersedeable_kind (f ?r)"
    by (simp add: is_supersedeable_kind_def f) (simp add: new_run_def drift_request_def default_request_def)
  have "status (f ?r) = Pending" by (simp add: f drift_row)
  from queue_run_db [OF row this, of e] kind db show ?thesis
    by (auto simp: stale_list_def dest!: db_res_eq_RetD)
qed

text \<open>
  When a workspace may be checked, and what checking the workspaces \<open>V\<close> does: runs that exist are left
  alone, workspaces keep everything but the time of the last check, and every new run is a queued
  plan-only drift run of one of them, on an uploaded configuration.
\<close>

definition checkable :: "drift_env \<Rightarrow> world \<Rightarrow> nat \<Rightarrow> bool" where
  "checkable de w ws_id \<longleftrightarrow> (\<exists>ws. workspaces w ws_id = Some ws \<and> \<not> locked ws \<and> drift_due de (now w) ws)
     \<and> (\<forall>i r. runs w i = Some r \<longrightarrow> workspace_id r = ws_id \<longrightarrow> status r \<notin> {Planning, Applying})
     \<and> (\<exists>j sv. state_versions w j = Some sv \<and> sv_workspace sv = ws_id)"

definition drift_run_of :: "world \<Rightarrow> nat \<Rightarrow> run \<Rightarrow> bool" where
  "drift_run_of w ws_id r \<longleftrightarrow> workspace_id r = ws_id \<and> status r = Queued \<and> plan_only r \<and> is_drift r
     \<and> (\<exists>c x. rc_cv (config r) = Some c \<and> config_versions w c = Some x \<and> cv_status x = ''uploaded'')"

definition ids_fresh :: "world \<Rightarrow> bool" where
  "ids_fresh w \<longleftrightarrow> (\<forall>i\<ge>next_id w. runs w i = None \<and> config_versions w i = None \<and> state_versions w i = None)"

lemma ids_freshD:
  assumes "ids_fresh w"
  shows "runs w i = Some r \<Longrightarrow> i < next_id w" "config_versions w i = Some c \<Longrightarrow> i < next_id w"
    "state_versions w i = Some sv \<Longrightarrow> i < next_id w"
  using assms by (force simp: ids_fresh_def not_le [symmetric])+

definition never_checked :: "workspace \<Rightarrow> workspace" where
  "never_checked ws = ws\<lparr>drift_last_checked_at := None\<rparr>"

definition only_checks :: "drift_env \<Rightarrow> nat set \<Rightarrow> world \<Rightarrow> world \<Rightarrow> bool" where
  "only_checks de V w w' \<longleftrightarrow> next_id w \<le> next_id w' \<and> now w' = now w \<and> state_versions w' = state_versions w
     \<and> ids_fresh w'
     \<and> (\<forall>i<next_id w. runs w' i = runs w i \<and> config_versions w' i = config_versions w i)
     \<and> (\<forall>j. map_option never_checked (workspaces w' j) = map_option never_checked (workspaces w j))
     \<and> (\<forall>j. j \<notin> V \<longrightarrow> workspaces w' j = workspaces w j)
     \<and> (\<forall>i\<ge>next_id w. \<forall>r. runs w' i = Some r \<longrightarrow>
          workspace_id r \<in> V \<and> checkable de w (workspace_id r) \<and> drift_run_of w' (workspace_id r) r)
     \<and> (\<forall>i\<ge>next_id w. \<forall>j\<ge>next_id w. \<forall>r s. runs w' i = Some r \<longrightarrow> runs w' j = Some s \<longrightarrow>
          workspace_id r = workspace_id s \<longrightarrow> i = j)"

lemma only_checks_refl: "ids_fresh w \<Longrightarrow> only_checks de {} w w"
  by (auto simp: only_checks_def ids_fresh_def)

lemma only_checksD:
  assumes "only_checks de V w w'"
  shows "next_id w \<le> next_id w'" "now w' = now w" "state_versions w' = state_versions w" "ids_fresh w'"
    and "i < next_id w \<Longrightarrow> runs w' i = runs w i" "i < next_id w \<Longrightarrow> config_versions w' i = config_versions w i"
    and "map_option never_checked (workspaces w' j) = map_option never_checked (workspaces w j)"
    and "j \<notin> V \<Longrightarrow> workspaces w' j = workspaces w j"
    and "next_id w \<le> i \<Longrightarrow> runs w' i = Some r \<Longrightarrow>
      workspace_id r \<in> V \<and> checkable de w (workspace_id r) \<and> drift_run_of w' (workspace_id r) r"
    and "next_id w \<le> i \<Longrightarrow> next_id w \<le> k \<Longrightarrow> runs w' i = Some r \<Longrightarrow> runs w' k = Some s \<Longrightarrow>
      workspace_id r = workspace_id s \<Longrightarrow> i = k"
  using assms unfolding only_checks_def by blast+

lemma checkable_before:
  assumes "only_checks de V u v" and "ids_fresh u" and "checkable de v x" and "x \<notin> V"
  shows "checkable de u x"
proof -
  have "runs v i = Some r" if "runs u i = Some r" for i r
    using that assms(2) only_checksD(5) [OF assms(1), of i] unfolding ids_fresh_def by (cases "i < next_id u") auto
  then show ?thesis
    using assms(3,4) only_checksD(2,3,8) [OF assms(1)] unfolding checkable_def by metis
qed

lemma drift_run_of_later: "only_checks de V v w \<Longrightarrow> ids_fresh v \<Longrightarrow> drift_run_of v x r \<Longrightarrow> drift_run_of w x r"
  unfolding drift_run_of_def ids_fresh_def using only_checksD(6) by (metis not_less option.discI)

lemma only_checks_trans:
  assumes uv: "only_checks de A u v" and vw: "only_checks de B v w" and "A \<inter> B = {}" and "ids_fresh u"
  shows "only_checks de (A \<union> B) u w"
proof -
  have v: "ids_fresh v" using uv by (simp add: only_checks_def)
  have old: "runs w i = runs u i" "config_versions w i = config_versions u i" if "i < next_id u" for i
    using that only_checksD(1) [OF uv] only_checksD(5,6) [OF uv, of i] only_checksD(5,6) [OF vw, of i] by auto
  have new: "workspace_id r \<in> A \<and> next_id u \<le> i \<and> runs v i = Some r \<and> i < next_id v
      \<or> workspace_id r \<in> B \<and> next_id v \<le> i" if "next_id u \<le> i" "runs w i = Some r" for i r
    using that only_checksD(5) [OF vw, of i] only_checksD(9) [OF vw, of i r] only_checksD(9) [OF uv that(1)] by (cases "i < next_id v") auto
  have ok: "workspace_id r \<in> A \<union> B \<and> checkable de u (workspace_id r) \<and> drift_run_of w (workspace_id r) r"
    if "next_id u \<le> i" "runs w i = Some r" for i r
    using new [OF that]
  proof (elim disjE conjE)
    assume "workspace_id r \<in> A" "runs v i = Some r"
    then show ?thesis using only_checksD(9) [OF uv that(1)] drift_run_of_later [OF vw v] by blast
  next
    assume "workspace_id r \<in> B" "next_id v \<le> i"
    then show ?thesis
      using only_checksD(9) [OF vw _ that(2)] checkable_before [OF uv assms(4)] assms(3) by blast
  qed
  have "i = k" if "next_id u \<le> i" "next_id u \<le> k" "runs w i = Some r" "runs w k = Some s"
      "workspace_id r = workspace_id s" for i k r s
    using new [OF that(1,3)] new [OF that(2,4)] that assms(3)
      only_checksD(10) [OF uv, of i k r s] only_checksD(10) [OF vw, of i k r s] by auto
  with old ok show ?thesis
    using only_checksD(1-4,7,8) [OF uv] only_checksD(1-4,7,8) [OF vw] unfolding only_checks_def
    by simp
qed

lemma only_checks_wider: "only_checks de {} w w' \<Longrightarrow> only_checks de V w w'"
  unfolding only_checks_def by blast

definition same_check :: "(run \<Rightarrow> run) \<Rightarrow> bool" where
  "same_check f \<longleftrightarrow> (\<forall>r. status (f r) = status r \<and> plan_only (f r) = plan_only r \<and> is_drift (f r) = is_drift r
     \<and> workspace_id (f r) = workspace_id r \<and> rc_cv (config (f r)) = rc_cv (config r))"

lemma run_added:
  assumes fresh: "ids_fresh w" and ok: "checkable de w x" and u: "only_checks de {} w u" "runs u = runs w"
    and cv: "config_versions u c = Some y" "cv_status y = ''uploaded''" and f: "same_check f"
    and u2: "db u2 = put_run (next_id u) (set_status Queued) (put_run (next_id u) f
      (add_run (new_run e x (settings ws) (drift_request c) (now u)) (db u)))"
  shows "only_checks de {x} w (put_ws x (\<lambda>ws. ws\<lparr>drift_last_checked_at := t\<rparr>) u2)" (is "only_checks de _ w ?w'")
proof -
  let ?r = "set_status Queued (f (new_run e x (settings ws) (drift_request c) (now u)))"
  have runs2: "runs u2 = (runs u)(next_id u \<mapsto> ?r)"
    using u2 [THEN arg_cong, of runs] by (simp add: add_run_def put_run_def modify_def)
  have id2: "next_id u2 = Suc (next_id u)" using u2 [THEN arg_cong, of next_id] by (simp add: add_run_def)
  have frame: "workspaces u2 = workspaces u" "state_versions u2 = state_versions u"
    "config_versions u2 = config_versions u" "now u2 = now u"
    using u2 [THEN arg_cong, of workspaces] u2 [THEN arg_cong, of state_versions]
      u2 [THEN arg_cong, of config_versions] u2 [THEN arg_cong, of now] by (simp_all add: add_run_def)
  have ids: "ids_fresh ?w'" using only_checksD(4) [OF u(1)] by (auto simp: ids_fresh_def id2 runs2 frame only_checksD(3) [OF u(1)])
  have row: "drift_run_of ?w' x ?r"
    using f cv by (simp add: drift_run_of_def same_check_def set_status_def frame)
      (simp add: new_run_def drift_request_def default_request_def)
  have new: "i = next_id u \<and> r = ?r" if "next_id w \<le> i" "runs ?w' i = Some r" for i r
    using that fresh u(2) by (auto simp: runs2 ids_fresh_def split: if_splits)
  have "workspace_id ?r = x" using row by (simp add: drift_run_of_def)
  then have rows: "workspace_id r = x \<and> checkable de w x \<and> drift_run_of ?w' x r"
    if "next_id w \<le> i" "runs ?w' i = Some r" for i r
    unfolding new [OF that, THEN conjunct2] using row ok by simp
  have old: "runs ?w' i = runs w i \<and> config_versions ?w' i = config_versions w i" if "i < next_id w" for i
    using that only_checksD(1) [OF u(1)] only_checksD(5,6) [OF u(1), of i] by (simp add: runs2 frame)
  have ws: "map_option never_checked (workspaces ?w' j) = map_option never_checked (workspaces w j)"
      "j \<notin> {x} \<Longrightarrow> workspaces ?w' j = workspaces w j" for j
    using only_checksD(8) [OF u(1), of j]
    by (auto simp: put_ws_def modify_def frame never_checked_def [abs_def] option.map_comp comp_def)
  have "i = k" if "next_id w \<le> i" "next_id w \<le> k" "runs ?w' i = Some r" "runs ?w' k = Some s" for i k r s
    using new [OF that(1,3)] new [OF that(2,4)] by simp
  with ids old ws rows show ?thesis
    using only_checksD(1-3) [OF u(1)] unfolding only_checks_def by (simp add: id2 frame)
qed

fun check_outcome :: "drift_env \<Rightarrow> nat \<Rightarrow> world \<Rightarrow> (exn, nat option, world) res \<Rightarrow> bool" where
  "check_outcome de x w (Ret None w') \<longleftrightarrow> only_checks de {} w w'"
| "check_outcome de x w (Ret (Some i) w') \<longleftrightarrow>
     only_checks de {x} w (put_ws x (\<lambda>ws. ws\<lparr>drift_last_checked_at := Some (now w)\<rparr>) w')"
| "check_outcome de x w (Raise y w') \<longleftrightarrow> False"

lemma put_run_id [simp]: "put_run i (\<lambda>r. r) w = w"
  by (simp add: put_run_def modify_def option.map_ident)

lemma new_check_outcome:
  assumes w: "ids_fresh w" "checkable de w x" "only_checks de {} w u" "runs u = runs w"
    and cv: "config_versions u c = Some y" "cv_status y = ''uploaded''" and f: "same_check f"
  shows "check_outcome de x w (case create_run e x ws (drift_request c) u of
    (i, u1) \<Rightarrow> bind_res (queue_run e i (put_run i f u1)) (\<lambda>_ u2. Ret (Some i) u2))"
proof -
  obtain i u1 where c: "create_run e x ws (drift_request c) u = (i, u1)" by force
  then have i: "i = next_id u" using create_run_db(1) [of e x ws "drift_request c" u] by simp
  from queue_new_check [OF c i, of f] f obtain u2 where
    "queue_run e i (put_run i f u1) = Ret () u2"
    "db u2 = put_run i (set_status Queued)
      (put_run i f (add_run (new_run e x (settings ws) (drift_request c) (now u)) (db u)))"
    by (auto simp: same_check_def)
  with run_added [OF w cv f] show ?thesis by (simp add: c i)
qed

lemma non_vcs_outcome:
  assumes "ids_fresh w" and "checkable de w x"
  shows "check_outcome de x w (create_drift_run_non_vcs e x ws w)"
proof (cases "latest_applied_cv w x")
  case None
  then show ?thesis using only_checks_refl [OF assms(1)] by (simp add: create_drift_run_non_vcs_def)
next
  case (Some c)
  then obtain i r where i: "latest_applied_run w x = Some i" "runs w i = Some r" "rc_cv (config r) = Some c"
    by (auto simp: latest_applied_cv_def split: option.splits)
  then have "i \<in> set (applied_with_config w x)"
    by (auto simp: latest_applied_run_def Let_def split: list.splits dest: least_by_in
        dest!: filter_eq_ConsD)
  with i obtain y where "config_versions w c = Some y" "cv_status y = ''uploaded''"
    by (auto simp: applied_with_config_def select_runs_def split: option.splits)
  from new_check_outcome [OF assms only_checks_refl [OF assms(1)] refl this, of "\<lambda>r. r"] Some
  show ?thesis by (simp add: create_drift_run_non_vcs_def same_check_def)
qed

lemma config_added:
  assumes "ids_fresh w" and "create_configuration_version x src q sp w = (cv, w1)"
  shows "only_checks de {} w w1" and "only_checks de {} w (mark_configuration_uploaded cv w1)"
    and "runs (mark_configuration_uploaded cv w1) = runs w"
    and "\<exists>y. config_versions (mark_configuration_uploaded cv w1) cv = Some y \<and> cv_status y = ''uploaded''"
  using assms
  by (auto simp: create_configuration_version_def add_cv_def mark_configuration_uploaded_def put_cv_def
      modify_def only_checks_def ids_fresh_def)

lemma vcs_outcome:
  assumes "ids_fresh w" and "checkable de w x"
  shows "check_outcome de x w (create_drift_run_vcs e de x ws w)"
proof -
  obtain cv w1 where c: "create_configuration_version x ''drift-detection'' False False w = (cv, w1)" by force
  note added = config_added [OF assms(1) c]
  from added(4) obtain y where y: "config_versions (mark_configuration_uploaded cv w1) cv = Some y"
    "cv_status y = ''uploaded''" by blast
  have f: "same_check (\<lambda>r. r\<lparr>config := (config r)\<lparr>rc_vcs_sha := sha, rc_vcs_branch := b\<rparr>\<rparr>)" for sha b
    by (simp add: same_check_def)
  have "check_outcome de x w (Ret None w)" "check_outcome de x w (Ret None w1)"
    using only_checks_refl [OF assms(1)] added(1) by simp_all
  with new_check_outcome [OF assms added(2,3) y f] c show ?thesis
    by (auto simp: create_drift_run_vcs_def Let_def split: option.split)
qed

lemma checkable_now:
  assumes "workspaces w x = Some ws" "\<not> locked ws" "drift_due de (now w) ws" "\<not> is_runner_busy w x" "has_state w x"
    and "ids_fresh w"
  shows "checkable de w x"
proof -
  have "i < next_id w" if "runs w i = Some r" for i r
    using ids_freshD(1) [OF assms(6) that] .
  moreover obtain j sv where "state_versions w j = Some sv" "sv_workspace sv = x"
    using assms(5) by (auto simp: has_state_def select_nonempty_iff)
  ultimately show ?thesis
    using assms(1-4) unfolding checkable_def is_runner_busy_def select_runs_def runner_busy_states_def
    by (auto simp: select_nonempty_iff)
qed

lemma drift_check_step:
  assumes "ids_fresh w"
  shows "only_checks de {x} w (res_state (drift_check e de x w))"
proof -
  have same: "only_checks de {x} w w" using only_checks_wider [OF only_checks_refl [OF assms]] .
  have run: "only_checks de {x} w (res_state (bind_res m (\<lambda>run w'. case run of None \<Rightarrow> Ret () w'
      | Some _ \<Rightarrow> Ret () (put_ws x (\<lambda>ws. ws\<lparr>drift_last_checked_at := Some (now w)\<rparr>) w'))))"
    if "check_outcome de x w m" for m :: "(exn, nat option, world) res"
    using that only_checks_wider by (cases m) (auto split: option.splits)
  show ?thesis
    using same run [OF vcs_outcome [OF assms]] run [OF non_vcs_outcome [OF assms]] checkable_now [OF _ _ _ _ _ assms]
    by (auto simp: drift_check_def split: option.split)
qed

lemma drift_loop_step:
  "distinct xs \<Longrightarrow> ids_fresh w \<Longrightarrow> only_checks de (set xs) w (drift_check_loop e de xs w)"
proof (induction xs arbitrary: w)
  case (Cons x xs)
  let ?v = "res_state (drift_check e de x w)"
  have step: "only_checks de {x} w ?v" using drift_check_step [OF Cons.prems(2)] .
  then have "ids_fresh ?v" by (simp add: only_checks_def)
  with Cons have "only_checks de (set xs) ?v (drift_check_loop e de xs ?v)" by simp
  from only_checks_trans [OF step this _ Cons.prems(2)] Cons.prems(1) show ?case by simp
qed (simp add: only_checks_refl)

text \<open>
  C38: a drift cycle never disturbs work: runs and configurations that exist stay as they are, a workspace
  changes at most in the time of its last check, and what is added is at most one run per workspace, a
  queued plan-only drift run on an uploaded configuration, for a drift-enabled workspace that is due,
  not locked, has state, and has no run that is planning or applying.
\<close>

theorem drift_cycle_only_checks:
  assumes "ids_fresh w"
  shows "only_checks de {x. \<exists>ws. workspaces w x = Some ws \<and> ws_drift_enabled (settings ws)} w (drift_check_cycle e de w)"
proof -
  let ?xs = "select (next_id w) (workspaces w) (\<lambda>_ ws. ws_drift_enabled (settings ws))"
  have "only_checks de (set ?xs) w (drift_check_cycle e de w)"
    unfolding drift_check_cycle_def by (rule drift_loop_step) (simp_all add: assms)
  then show ?thesis unfolding only_checks_def by auto
qed

end
