(* ===== verification/DriftOutcome.thy ===== *)
theory DriftOutcome
  imports DriftProperties
begin

text \<open>
  The cycle reaches every workspace that is due, and a finished drift run sets the drift status its plan
  and the ignore rules ask for.
\<close>

section \<open>Every due workspace is checked\<close>

text \<open>A run of the workspace that was applied on a configuration that is still there.\<close>

definition reference_config :: "world \<Rightarrow> nat \<Rightarrow> bool" where
  "reference_config w x \<longleftrightarrow> (\<exists>i r c y. runs w i = Some r \<and> workspace_id r = x \<and> status r = Applied
     \<and> rc_cv (config r) = Some c \<and> config_versions w c = Some y \<and> cv_status y = ''uploaded'')"

lemma reference_config_found:
  assumes "reference_config w x" and "ids_fresh w"
  shows "latest_applied_cv w x \<noteq> None"
proof -
  from assms(1) obtain i r c y where r: "runs w i = Some r" "workspace_id r = x" "status r = Applied"
    "rc_cv (config r) = Some c" "config_versions w c = Some y" "cv_status y = ''uploaded''"
    by (auto simp: reference_config_def)
  moreover have "i < next_id w" using ids_freshD(1) [OF assms(2) r(1)] .
  ultimately have "i \<in> set (applied_with_config w x)" by (simp add: applied_with_config_def select_runs_def)
  then have "applied_with_config w x \<noteq> []" by auto
  then have "latest_applied_run w x \<noteq> None"
    by (simp add: latest_applied_run_def Let_def del: not_None_eq split: list.split)
  then obtain k where k: "latest_applied_run w x = Some k" by auto
  then have "k \<in> set (applied_with_config w x)"
    by (auto simp: latest_applied_run_def Let_def split: list.splits dest: least_by_in dest!: filter_eq_ConsD)
  with k show ?thesis
    by (auto simp: latest_applied_cv_def applied_with_config_def select_runs_def split: option.splits)
qed

lemma checkable_later:
  assumes "only_checks de V u v" and "ids_fresh u" and "checkable de u x" and "x \<notin> V"
  shows "checkable de v x"
proof -
  have "runs u i = Some r \<or> status r = Queued" if "runs v i = Some r" for i r
    using that only_checksD(5) [OF assms(1), of i] only_checksD(9) [OF assms(1) _ that]
    unfolding drift_run_of_def by (cases "i < next_id u") auto
  then have "status r \<notin> {Planning, Applying}" if "runs v i = Some r" "workspace_id r = x" for i r
    using assms(3) that by (fastforce simp: checkable_def)
  moreover have "workspaces v x = workspaces u x" using only_checksD(8) [OF assms(1,4)] .
  ultimately show ?thesis
    using assms(3) unfolding checkable_def only_checksD(2,3) [OF assms(1)] by simp
qed

lemma reference_config_later:
  assumes "only_checks de V u v" and "ids_fresh u" and "reference_config u x"
  shows "reference_config v x"
proof -
  from assms(3) obtain i r c y where r: "runs u i = Some r" "workspace_id r = x" "status r = Applied"
    "rc_cv (config r) = Some c" "config_versions u c = Some y" "cv_status y = ''uploaded''"
    by (auto simp: reference_config_def)
  with only_checksD(5) [OF assms(1) ids_freshD(1) [OF assms(2) r(1)]]
    only_checksD(6) [OF assms(1) ids_freshD(2) [OF assms(2) r(5)]]
  show ?thesis unfolding reference_config_def by (intro exI [of _ i] exI [of _ r] exI [of _ c] exI [of _ y]) simp
qed

lemma check_creates_run:
  assumes "ids_fresh v" and "checkable de v x" and "workspaces v x = Some ws" and "\<not> has_vcs (settings ws)"
    and "reference_config v x"
  shows "\<exists>i r. next_id v \<le> i \<and> runs (res_state (drift_check e de x v)) i = Some r
    \<and> drift_run_of (res_state (drift_check e de x v)) x r"
proof -
  have "has_state v x" using assms(1,2) ids_freshD(3) [OF assms(1)]
    by (auto simp: checkable_def has_state_def select_nonempty_iff)
  moreover have "\<not> locked ws" "drift_due de (now v) ws" "\<not> is_runner_busy v x"
    using assms(2,3) unfolding checkable_def is_runner_busy_def runner_busy_states_def select_runs_def
    by (auto simp: select_nonempty_iff)
  moreover obtain c where c: "latest_applied_cv v x = Some c" using reference_config_found [OF assms(5,1)] by auto
  obtain i u1 where new: "create_run e x ws (drift_request c) v = (i, u1)" by force
  have i: "i = next_id v" using create_run_db(1) [of e x ws "drift_request c" v] new by simp
  obtain u2 where u2: "queue_run e i u1 = Ret () u2" "db u2 = put_run i (set_status Queued)
      (add_run (new_run e x (settings ws) (drift_request c) (now v)) (db v))"
    using queue_new_check [OF new i, of "\<lambda>r. r"] by auto
  ultimately have check: "res_state (drift_check e de x v)
      = put_ws x (\<lambda>ws. ws\<lparr>drift_last_checked_at := Some (now v)\<rparr>) u2"
    using assms(3,4) c new by (simp add: drift_check_def create_drift_run_non_vcs_def)
  have "runs u2 i = Some (set_status Queued (new_run e x (settings ws) (drift_request c) (now v)))"
    using u2(2) [THEN arg_cong, of runs] i by (simp add: add_run_def)
  with check i only_checksD(9) [OF drift_check_step [OF assms(1), of de x e], of i] show ?thesis by auto
qed

lemma drift_check_loop_append:
  "drift_check_loop e de (xs @ ys) w = drift_check_loop e de ys (drift_check_loop e de xs w)"
  by (induction xs arbitrary: w) simp_all


section \<open>The status a drift run sets\<close>

lemma handled_db:
  assumes "runs w i = Some r" and "workspaces w x = Some ws"
  shows "db (handle_drift_run_completed e de (Some i) (Some x) w) =
    (case (if is_drift r then drift_outcome de i r ws else None) of
       None \<Rightarrow> db w
     | Some st \<Rightarrow> put_ws x (\<lambda>ws. ws\<lparr>drift_status := st, drift_latest_run_id := Some i,
         drift_last_checked_at := Some (now w)\<rparr>) (db w))"
  using assms
  by (simp add: handle_drift_run_completed_def Let_def publish_drift_status_def enqueue_drift_notification_def
      enqueue_slack_notify_def split: option.split)


section \<open>An example\<close>

definition watched :: "workspace \<Rightarrow> workspace" where
  "watched ws = ws\<lparr>settings := (settings ws)\<lparr>ws_drift_enabled := True, ws_drift_rules := [''aws.db.tags'']\<rparr>\<rparr>"

definition applied_run :: run where
  "applied_run = (new_run example_env 0 (settings plain_workspace) (default_request\<lparr>rq_cv := Some 1\<rparr>) 0)
     \<lparr>status := Applied, apply_finished_at := Some 0\<rparr>"

definition watched_example :: world where
  "watched_example = uploaded_example\<lparr>workspaces := [0 \<mapsto> watched plain_workspace], runs := [2 \<mapsto> applied_run],
     state_versions := [3 \<mapsto> \<lparr>sv_workspace = 0, sv_serial = 1, sv_lineage = [], sv_md5 = [], sv_sha256 = [],
       sv_size = 1, sv_run = Some 2, sv_created_by = None, sv_created_at = 0\<rparr>], next_id := 4\<rparr>"

definition example_drift :: drift_env where
  "example_drift = \<lparr>de_docs = example_docs, de_min_interval = 3600, de_vcs = no_vcs, de_stored = (\<lambda>_. True),
     de_has_json = (\<lambda>_. True), de_plan = (\<lambda>_ _. Plan_Doc example_plan)\<rparr>"

lemma watched_row: "workspaces watched_example 0 = Some (watched plain_workspace)"
  "runs watched_example i = (if i = 2 then Some applied_run else None)" "next_id watched_example = 4"
  by (simp_all add: watched_example_def uploaded_example_def empty_world_def)

lemma watched_fresh: "ids_fresh watched_example"
  by (simp add: ids_fresh_def watched_example_def uploaded_example_def empty_world_def)

lemma watched_checkable: "checkable example_drift watched_example 0" "reference_config watched_example 0"
  by (auto simp: checkable_def reference_config_def watched_example_def uploaded_example_def empty_world_def watched_def
      plain_workspace_def drift_due_def applied_run_def new_run_def default_request_def)


theorem drift_cycle_only_checks_witness:
  "runs (drift_check_cycle example_env example_drift watched_example) 2 = Some applied_run
   \<and> map_option never_checked (workspaces (drift_check_cycle example_env example_drift watched_example) 0)
     = Some (never_checked (watched plain_workspace))"
proof -
  note checks = drift_cycle_only_checks [OF watched_fresh, of example_drift example_env]
  show ?thesis using only_checksD(5) [OF checks, of 2] only_checksD(7) [OF checks, of 0] by (simp add: watched_row)
qed


end
