(* ===== verification/Variables.thy ===== *)
theory Variables
  imports DriftRules RunApi
begin

text \<open>
  Variables and variable sets: \<open>services/variable_service.py\<close> and the endpoints of
  \<open>api/routers/variables.py\<close>, on their own tables next to the world.

  A request's attributes are a JSON object, and a value reaches its column as it was sent: a text column
  takes a text that fits, a boolean column takes what the database driver accepts (\<open>ve_bool\<close>, \<open>None\<close> when it
  raises). Any such failure is \<open>Data_Error\<close> and rolls the request back; a duplicate key is an
  \<open>Integrity_Error\<close>. The order in which the database returns rows without \<open>ORDER BY\<close>, its collation and the
  digest are arguments (\<open>var_env\<close>). Time stamps, counts and the workspace names in the response of a set are
  left out.
\<close>

section \<open>Rows\<close>

record variable =
  v_owner :: nat
  v_key :: string
  v_value :: string
  v_category :: string
  v_description :: string
  v_hcl :: bool
  v_sensitive :: bool
  v_version :: string

record variable_set =
  vs_name :: string
  vs_description :: string
  vs_global :: bool
  vs_priority :: bool

text \<open>A variable's owner is its workspace or its set; \<open>vt_assigned\<close> pairs sets with workspaces.\<close>

record var_tables =
  vt_variables :: "variable table"
  vt_sets :: "variable_set table"
  vt_set_vars :: "variable table"
  vt_assigned :: "(nat \<times> nat) list"
  vt_next :: nat

record var_env =
  ve_sha256 :: "string \<Rightarrow> string"
  ve_bool :: "json \<Rightarrow> bool option"
  ve_order :: "nat list \<Rightarrow> nat list"
  ve_collate :: "string \<Rightarrow> string"

type_synonym attrs = "(string \<times> json) list"
type_synonym var_state = "world \<times> var_tables"
type_synonym 'a var_handler = "var_state \<Rightarrow> (exn, 'a, var_state) res"

definition version_hash :: "var_env \<Rightarrow> string \<Rightarrow> string \<Rightarrow> string \<Rightarrow> string" where
  "version_hash ve key val category = take 16 (ve_sha256 ve (key @ '':'' @ val @ '':'' @ category))"

fun text_column :: "json \<Rightarrow> string option" where
  "text_column (JStr s) = Some s"
| "text_column _ = None"

fun sized_column :: "nat \<Rightarrow> json \<Rightarrow> string option" where
  "sized_column n (JStr s) = (if length s \<le> n then Some s else None)"
| "sized_column n _ = None"

definition attr_or :: "attrs \<Rightarrow> string \<Rightarrow> json \<Rightarrow> json" where
  "attr_or attrs k d = (case map_of attrs k of None \<Rightarrow> d | Some v \<Rightarrow> v)"

section \<open>Writing a variable\<close>

definition key_taken :: "nat \<Rightarrow> nat \<Rightarrow> variable \<Rightarrow> variable table \<Rightarrow> bool" where
  "key_taken n i v t \<longleftrightarrow>
     select n t (\<lambda>j x. j \<noteq> i \<and> v_owner x = v_owner v \<and> v_key x = v_key v) \<noteq> []"

definition write_variable :: "nat \<Rightarrow> nat \<Rightarrow> variable \<Rightarrow> variable table \<Rightarrow> exn + variable table" where
  "write_variable n i v t = (if key_taken n i v t then Inl Integrity_Error else Inr (t(i \<mapsto> v)))"

text \<open>The row of \<open>create_variable\<close> and \<open>create_varset_var\<close>.\<close>

definition variable_row :: "var_env \<Rightarrow> nat \<Rightarrow> attrs \<Rightarrow> exn + variable" where
  "variable_row ve owner attrs =
     bind_sum (some_or Data_Error (sized_column 255 (attr_or attrs ''key'' (JStr [])))) (\<lambda>key.
     bind_sum (some_or Data_Error (text_column (attr_or attrs ''value'' (JStr [])))) (\<lambda>val.
     bind_sum (some_or Data_Error (sized_column 20 (attr_or attrs ''category'' (JStr ''terraform'')))) (\<lambda>category.
     bind_sum (some_or Data_Error (text_column (attr_or attrs ''description'' (JStr [])))) (\<lambda>description.
     bind_sum (some_or Data_Error (ve_bool ve (attr_or attrs ''hcl'' (JBool False)))) (\<lambda>hcl.
     bind_sum (some_or Data_Error (ve_bool ve (attr_or attrs ''sensitive'' (JBool False)))) (\<lambda>sensitive.
       Inr \<lparr>v_owner = owner, v_key = key, v_value = val, v_category = category, v_description = description,
         v_hcl = hcl, v_sensitive = sensitive, v_version = version_hash ve key val category\<rparr>))))))"

text \<open>
  \<open>update_variable\<close> and \<open>update_varset_var\<close>: \<open>given\<close> holds the attributes that are assigned. Flipping \<open>sensitive\<close> to
  exactly \<open>False\<close> without a value clears the value.
\<close>

definition column_given :: "(json \<Rightarrow> 'a option) \<Rightarrow> json option \<Rightarrow> 'a \<Rightarrow> exn + 'a" where
  "column_given column v old = (case v of None \<Rightarrow> Inr old | Some j \<Rightarrow> some_or Data_Error (column j))"

definition edit_variable :: "var_env \<Rightarrow> (string \<Rightarrow> json option) \<Rightarrow> variable \<Rightarrow> exn + variable" where
  "edit_variable ve given v =
     bind_sum (column_given (sized_column 255) (given ''key'') (v_key v)) (\<lambda>key.
     bind_sum (column_given text_column (given ''description'') (v_description v)) (\<lambda>description.
     bind_sum (column_given (sized_column 20) (given ''category'') (v_category v)) (\<lambda>category.
     bind_sum (column_given (ve_bool ve) (given ''hcl'') (v_hcl v)) (\<lambda>hcl.
     bind_sum (column_given text_column (given ''value'') (v_value v)) (\<lambda>val.
     bind_sum (column_given (ve_bool ve) (given ''sensitive'') (v_sensitive v)) (\<lambda>sensitive.
       let cleared = (v_sensitive v \<and> given ''sensitive'' = Some (JBool False) \<and> given ''value'' = None) in
       Inr (v\<lparr>v_key := key, v_description := description, v_category := category, v_hcl := hcl,
         v_value := (if cleared then [] else val), v_sensitive := sensitive,
         v_version := (if cleared then version_hash ve key [] category
           else if given ''value'' \<noteq> None then version_hash ve key val category else v_version v)\<rparr>)))))))"

definition given_not_none :: "attrs \<Rightarrow> string \<Rightarrow> json option" where
  "given_not_none attrs k = (case map_of attrs k of Some JNull \<Rightarrow> None | x \<Rightarrow> x)"

text \<open>A response shows the value only of a variable that is not sensitive.\<close>

record shown_variable =
  sh_id :: nat
  sh_key :: string
  sh_value :: "string option"
  sh_sensitive :: bool
  sh_category :: string
  sh_hcl :: bool
  sh_description :: string
  sh_version :: string

definition var_json :: "nat \<Rightarrow> variable \<Rightarrow> shown_variable" where
  "var_json i v = \<lparr>sh_id = i, sh_key = v_key v, sh_value = (if v_sensitive v then None else Some (v_value v)),
     sh_sensitive = v_sensitive v, sh_category = v_category v, sh_hcl = v_hcl v,
     sh_description = v_description v, sh_version = v_version v\<rparr>"

definition row_json :: "variable table \<Rightarrow> nat \<Rightarrow> shown_variable" where
  "row_json t i = var_json i (the (t i))"

section \<open>Workspace variables\<close>

definition with_workspace ::
    "role list \<Rightarrow> auth_user \<Rightarrow> nat \<Rightarrow> string \<Rightarrow> 'a var_handler \<Rightarrow> 'a var_handler" where
  "with_workspace roles user ws_id needed k s =
     (case workspaces (fst s) ws_id of
        None \<Rightarrow> Raise (Http 404) s
      | Some ws \<Rightarrow>
          if \<not> has_capability (caller_capabilities roles user ws) needed then Raise (Http 403) s else k s)"

definition list_variables :: "var_env \<Rightarrow> nat \<Rightarrow> var_tables \<Rightarrow> nat list" where
  "list_variables ve ws_id t = sort_key (\<lambda>i. ve_collate ve (v_key (the (vt_variables t i))))
     (select (vt_next t) (vt_variables t) (\<lambda>_ v. v_owner v = ws_id))"

definition list_workspace_vars :: "var_env \<Rightarrow> role list \<Rightarrow> auth_user \<Rightarrow> nat \<Rightarrow> shown_variable list var_handler" where
  "list_workspace_vars ve roles user ws_id = with_workspace roles user ws_id VAR_READ
     (\<lambda>s. Ret (map (row_json (vt_variables (snd s))) (list_variables ve ws_id (snd s))) s)"

definition create_workspace_var ::
    "var_env \<Rightarrow> role list \<Rightarrow> auth_user \<Rightarrow> nat \<Rightarrow> attrs \<Rightarrow> shown_variable var_handler" where
  "create_workspace_var ve roles user ws_id attrs = with_workspace roles user ws_id VAR_WRITE (\<lambda>(w, t).
     if \<not> truthy (attr_or attrs ''key'' (JStr [])) then Raise (Http 422) (w, t)
     else case bind_sum (variable_row ve ws_id attrs) (\<lambda>v.
            bind_sum (write_variable (vt_next t) (vt_next t) v (vt_variables t)) (\<lambda>rows. Inr (v, rows))) of
        Inl e \<Rightarrow> Raise e (w, t)
      | Inr (v, rows) \<Rightarrow> Ret (var_json (vt_next t) v)
          (publish_workspace_event ws_id ''workspace_variable_change'' w,
           t\<lparr>vt_variables := rows, vt_next := Suc (vt_next t)\<rparr>))"

definition get_variable :: "nat \<Rightarrow> nat \<Rightarrow> variable table \<Rightarrow> variable option" where
  "get_variable owner i rows = (case rows i of None \<Rightarrow> None | Some v \<Rightarrow> if v_owner v = owner then Some v else None)"

definition update_workspace_var ::
    "var_env \<Rightarrow> role list \<Rightarrow> auth_user \<Rightarrow> nat \<Rightarrow> nat \<Rightarrow> attrs \<Rightarrow> shown_variable var_handler" where
  "update_workspace_var ve roles user ws_id i attrs = with_workspace roles user ws_id VAR_WRITE (\<lambda>(w, t).
     case get_variable ws_id i (vt_variables t) of
       None \<Rightarrow> Raise (Http 404) (w, t)
     | Some old \<Rightarrow>
         (case bind_sum (edit_variable ve (given_not_none attrs) old) (\<lambda>v.
            bind_sum (write_variable (vt_next t) i v (vt_variables t)) (\<lambda>rows. Inr (v, rows))) of
            Inl e \<Rightarrow> Raise e (w, t)
          | Inr (v, rows) \<Rightarrow> Ret (var_json i v)
              (publish_workspace_event ws_id ''workspace_variable_change'' w, t\<lparr>vt_variables := rows\<rparr>)))"

definition delete_workspace_var :: "role list \<Rightarrow> auth_user \<Rightarrow> nat \<Rightarrow> nat \<Rightarrow> unit var_handler" where
  "delete_workspace_var roles user ws_id i = with_workspace roles user ws_id VAR_WRITE (\<lambda>(w, t).
     case get_variable ws_id i (vt_variables t) of
       None \<Rightarrow> Raise (Http 404) (w, t)
     | Some _ \<Rightarrow> Ret ()
         (publish_workspace_event ws_id ''workspace_variable_change'' w,
          t\<lparr>vt_variables := (vt_variables t)(i := None)\<rparr>))"

section \<open>Variable sets\<close>

definition with_set :: "nat \<Rightarrow> (variable_set \<Rightarrow> 'a var_handler) \<Rightarrow> 'a var_handler" where
  "with_set i k s = (case vt_sets (snd s) i of None \<Rightarrow> Raise (Http 404) s | Some vs \<Rightarrow> k vs s)"

definition as_admin :: "auth_user \<Rightarrow> 'a var_handler \<Rightarrow> 'a var_handler" where
  "as_admin user k s = (case require_admin user of Inl code \<Rightarrow> Raise (Http code) s | Inr _ \<Rightarrow> k s)"

definition write_set :: "nat \<Rightarrow> nat \<Rightarrow> variable_set \<Rightarrow> variable_set table \<Rightarrow> exn + variable_set table" where
  "write_set n i vs t =
     (if select n t (\<lambda>j x. j \<noteq> i \<and> vs_name x = vs_name vs) \<noteq> [] then Inl Integrity_Error else Inr (t(i \<mapsto> vs)))"

definition edit_set :: "var_env \<Rightarrow> (string \<Rightarrow> json option) \<Rightarrow> variable_set \<Rightarrow> exn + variable_set" where
  "edit_set ve given vs =
     bind_sum (column_given (sized_column 255) (given ''name'') (vs_name vs)) (\<lambda>name.
     bind_sum (column_given text_column (given ''description'') (vs_description vs)) (\<lambda>description.
     bind_sum (column_given (ve_bool ve) (given ''global'') (vs_global vs)) (\<lambda>global.
     bind_sum (column_given (ve_bool ve) (given ''priority'') (vs_priority vs)) (\<lambda>priority.
       Inr \<lparr>vs_name = name, vs_description = description, vs_global = global, vs_priority = priority\<rparr>))))"

definition create_varset :: "var_env \<Rightarrow> auth_user \<Rightarrow> attrs \<Rightarrow> nat var_handler" where
  "create_varset ve user attrs = as_admin user (\<lambda>(w, t).
     if \<not> truthy (attr_or attrs ''name'' (JStr [])) then Raise (Http 422) (w, t)
     else case bind_sum (edit_set ve (map_of attrs)
              \<lparr>vs_name = [], vs_description = [], vs_global = False, vs_priority = False\<rparr>)
            (\<lambda>vs. write_set (vt_next t) (vt_next t) vs (vt_sets t)) of
        Inl e \<Rightarrow> Raise e (w, t)
      | Inr sets \<Rightarrow> Ret (vt_next t) (w, t\<lparr>vt_sets := sets, vt_next := Suc (vt_next t)\<rparr>))"

definition update_varset :: "var_env \<Rightarrow> auth_user \<Rightarrow> nat \<Rightarrow> attrs \<Rightarrow> unit var_handler" where
  "update_varset ve user i attrs = as_admin user (with_set i (\<lambda>old. \<lambda>(w, t).
     case bind_sum (edit_set ve (map_of attrs) old) (\<lambda>vs. write_set (vt_next t) i vs (vt_sets t)) of
       Inl e \<Rightarrow> Raise e (w, t)
     | Inr sets \<Rightarrow> Ret () (w, t\<lparr>vt_sets := sets\<rparr>)))"

text \<open>Deleting a set cascades to its variables and assignments.\<close>

definition delete_varset :: "auth_user \<Rightarrow> nat \<Rightarrow> unit var_handler" where
  "delete_varset user i = as_admin user (with_set i (\<lambda>_. \<lambda>(w, t).
     Ret () (w, t\<lparr>vt_sets := (vt_sets t)(i := None),
       vt_set_vars := (\<lambda>j. case vt_set_vars t j of None \<Rightarrow> None | Some v \<Rightarrow> if v_owner v = i then None else Some v),
       vt_assigned := filter (\<lambda>a. fst a \<noteq> i) (vt_assigned t)\<rparr>)))"

definition list_varset_vars :: "var_env \<Rightarrow> nat \<Rightarrow> shown_variable list var_handler" where
  "list_varset_vars ve i = with_set i (\<lambda>_ s. Ret (map (row_json (vt_set_vars (snd s)))
     (ve_order ve (select (vt_next (snd s)) (vt_set_vars (snd s)) (\<lambda>_ v. v_owner v = i)))) s)"

definition create_varset_var :: "var_env \<Rightarrow> auth_user \<Rightarrow> nat \<Rightarrow> attrs \<Rightarrow> shown_variable var_handler" where
  "create_varset_var ve user i attrs = as_admin user (with_set i (\<lambda>_. \<lambda>(w, t).
     if \<not> truthy (attr_or attrs ''key'' (JStr [])) then Raise (Http 422) (w, t)
     else case bind_sum (variable_row ve i attrs) (\<lambda>v.
            bind_sum (write_variable (vt_next t) (vt_next t) v (vt_set_vars t)) (\<lambda>rows. Inr (v, rows))) of
        Inl e \<Rightarrow> Raise e (w, t)
      | Inr (v, rows) \<Rightarrow> Ret (var_json (vt_next t) v) (w, t\<lparr>vt_set_vars := rows, vt_next := Suc (vt_next t)\<rparr>)))"

definition update_varset_var :: "var_env \<Rightarrow> auth_user \<Rightarrow> nat \<Rightarrow> nat \<Rightarrow> attrs \<Rightarrow> shown_variable var_handler" where
  "update_varset_var ve user i j attrs = as_admin user (with_set i (\<lambda>_. \<lambda>(w, t).
     case get_variable i j (vt_set_vars t) of
       None \<Rightarrow> Raise (Http 404) (w, t)
     | Some old \<Rightarrow>
         (case bind_sum (edit_variable ve (map_of attrs) old) (\<lambda>v.
            bind_sum (write_variable (vt_next t) j v (vt_set_vars t)) (\<lambda>rows. Inr (v, rows))) of
            Inl e \<Rightarrow> Raise e (w, t)
          | Inr (v, rows) \<Rightarrow> Ret (var_json j v) (w, t\<lparr>vt_set_vars := rows\<rparr>))))"

definition delete_varset_var :: "auth_user \<Rightarrow> nat \<Rightarrow> nat \<Rightarrow> unit var_handler" where
  "delete_varset_var user i j = as_admin user (with_set i (\<lambda>_. \<lambda>(w, t).
     case get_variable i j (vt_set_vars t) of
       None \<Rightarrow> Raise (Http 404) (w, t)
     | Some _ \<Rightarrow> Ret () (w, t\<lparr>vt_set_vars := (vt_set_vars t)(j := None)\<rparr>)))"

text \<open>
  Assigning workspaces; \<open>ids\<close> are the parsed ids of the request, unparsable ones are skipped before. Asking
  whether a pair is assigned does not see the pairs this request added, so a repeated id adds it twice
  and the primary key refuses the commit.
\<close>

fun new_assignments :: "world \<Rightarrow> nat \<Rightarrow> nat list \<Rightarrow> (nat \<times> nat) list \<Rightarrow> (nat \<times> nat) list" where
  "new_assignments w i [] assigned = []"
| "new_assignments w i (ws # rest) assigned =
     (if workspaces w ws \<noteq> None \<and> (i, ws) \<notin> set assigned
      then (i, ws) # new_assignments w i rest assigned else new_assignments w i rest assigned)"

definition add_varset_workspaces :: "auth_user \<Rightarrow> nat \<Rightarrow> nat list \<Rightarrow> unit var_handler" where
  "add_varset_workspaces user i ids = as_admin user (with_set i (\<lambda>_. \<lambda>(w, t).
     let new = new_assignments w i ids (vt_assigned t) in
     if \<not> distinct new then Raise Integrity_Error (w, t)
     else Ret () (w, t\<lparr>vt_assigned := vt_assigned t @ new\<rparr>)))"

definition remove_varset_workspaces :: "auth_user \<Rightarrow> nat \<Rightarrow> nat list \<Rightarrow> unit var_handler" where
  "remove_varset_workspaces user i ids = as_admin user (with_set i (\<lambda>_. \<lambda>(w, t).
     Ret () (w, t\<lparr>vt_assigned := filter (\<lambda>a. \<not> (fst a = i \<and> snd a \<in> set ids)) (vt_assigned t)\<rparr>)))"

section \<open>Resolution for a run\<close>

definition get_applicable_varsets :: "var_env \<Rightarrow> nat \<Rightarrow> bool \<Rightarrow> var_tables \<Rightarrow> nat list" where
  "get_applicable_varsets ve ws_id priority t =
     ve_order ve (select (vt_next t) (vt_sets t) (\<lambda>_ vs. vs_global vs \<and> vs_priority vs = priority))
     @ ve_order ve (select (vt_next t) (vt_sets t)
         (\<lambda>i vs. (i, ws_id) \<in> set (vt_assigned t) \<and> \<not> vs_global vs \<and> vs_priority vs = priority))"

definition set_layer :: "var_env \<Rightarrow> nat \<Rightarrow> bool \<Rightarrow> var_tables \<Rightarrow> variable list" where
  "set_layer ve ws_id priority t = concat (map (\<lambda>i. map (\<lambda>j. the (vt_set_vars t j))
     (ve_order ve (select (vt_next t) (vt_set_vars t) (\<lambda>_ v. v_owner v = i))))
     (get_applicable_varsets ve ws_id priority t))"

definition workspace_layer :: "var_env \<Rightarrow> nat \<Rightarrow> var_tables \<Rightarrow> variable list" where
  "workspace_layer ve ws_id t = map (\<lambda>i. the (vt_variables t i)) (list_variables ve ws_id t)"

definition resolve_variables :: "var_env \<Rightarrow> nat \<Rightarrow> var_tables \<Rightarrow> variable list" where
  "resolve_variables ve ws_id t = map snd (foldl (\<lambda>resolved v. AList.update (v_key v) v resolved) []
     (set_layer ve ws_id False t @ workspace_layer ve ws_id t @ set_layer ve ws_id True t))"

end
