(* ===== verification/VariableProperties.thy ===== *)
theory VariableProperties
  imports Variables RunProperties
begin

text \<open>
  What the variable endpoints guarantee over any sequence of calls: secrets are write-only, keys stay unique
  and references valid, changes are authorised and all or nothing; and which value a run gets.
\<close>

section \<open>Calls\<close>

datatype var_op =
    List_Vars nat
  | Create_Var nat attrs
  | Update_Var nat nat attrs
  | Delete_Var nat nat
  | List_Set_Vars nat
  | Create_Set attrs
  | Update_Set nat attrs
  | Delete_Set nat
  | Create_Set_Var nat attrs
  | Update_Set_Var nat nat attrs
  | Delete_Set_Var nat nat
  | Assign_Set nat "nat list"
  | Unassign_Set nat "nat list"

fun answering :: "('a \<Rightarrow> 'b) \<Rightarrow> ('e, 'a, 'w) res \<Rightarrow> ('e, 'b, 'w) res" where
  "answering f (Ret a s) = Ret (f a) s"
| "answering f (Raise e s) = Raise e s"

text \<open>The variables a call shows.\<close>

fun var_call :: "var_env \<Rightarrow> role list \<Rightarrow> auth_user \<Rightarrow> var_op \<Rightarrow> shown_variable list var_handler" where
  "var_call ve roles user (List_Vars ws) s = list_workspace_vars ve roles user ws s"
| "var_call ve roles user (Create_Var ws attrs) s = answering (\<lambda>v. [v]) (create_workspace_var ve roles user ws attrs s)"
| "var_call ve roles user (Update_Var ws i attrs) s = answering (\<lambda>v. [v]) (update_workspace_var ve roles user ws i attrs s)"
| "var_call ve roles user (Delete_Var ws i) s = answering (\<lambda>_. []) (delete_workspace_var roles user ws i s)"
| "var_call ve roles user (List_Set_Vars i) s = list_varset_vars ve i s"
| "var_call ve roles user (Create_Set attrs) s = answering (\<lambda>_. []) (create_varset ve user attrs s)"
| "var_call ve roles user (Update_Set i attrs) s = answering (\<lambda>_. []) (update_varset ve user i attrs s)"
| "var_call ve roles user (Delete_Set i) s = answering (\<lambda>_. []) (delete_varset user i s)"
| "var_call ve roles user (Create_Set_Var i attrs) s = answering (\<lambda>v. [v]) (create_varset_var ve user i attrs s)"
| "var_call ve roles user (Update_Set_Var i j attrs) s = answering (\<lambda>v. [v]) (update_varset_var ve user i j attrs s)"
| "var_call ve roles user (Delete_Set_Var i j) s = answering (\<lambda>_. []) (delete_varset_var user i j s)"
| "var_call ve roles user (Assign_Set i ids) s = answering (\<lambda>_. []) (add_varset_workspaces user i ids s)"
| "var_call ve roles user (Unassign_Set i ids) s = answering (\<lambda>_. []) (remove_varset_workspaces user i ids s)"

fun var_calls :: "var_env \<Rightarrow> role list \<Rightarrow> (auth_user \<times> var_op) list \<Rightarrow> var_state
    \<Rightarrow> (exn + shown_variable list) list \<times> var_state" where
  "var_calls ve roles [] s = ([], s)"
| "var_calls ve roles ((user, op) # rest) s =
     (case var_call ve roles user op s of
        Ret shown s1 \<Rightarrow> (case var_calls ve roles rest s1 of (answers, s2) \<Rightarrow> (Inr shown # answers, s2))
      | Raise e s1 \<Rightarrow> (case var_calls ve roles rest s1 of (answers, s2) \<Rightarrow> (Inl e # answers, s2)))"

lemmas var_endpoint_defs = with_workspace_def with_set_def as_admin_def list_workspace_vars_def create_workspace_var_def
  update_workspace_var_def delete_workspace_var_def list_varset_vars_def create_varset_def update_varset_def
  delete_varset_def create_varset_var_def update_varset_var_def delete_varset_var_def add_varset_workspaces_def
  remove_varset_workspaces_def

section \<open>Authorised and all or nothing\<close>

fun authorised :: "role list \<Rightarrow> auth_user \<Rightarrow> world \<Rightarrow> var_op \<Rightarrow> bool" where
  "authorised roles user w (List_Vars ws) = True"
| "authorised roles user w (List_Set_Vars i) = True"
| "authorised roles user w (Create_Var ws _) = (\<exists>x. workspaces w ws = Some x \<and> has_capability (caller_capabilities roles user x) VAR_WRITE)"
| "authorised roles user w (Update_Var ws _ _) = (\<exists>x. workspaces w ws = Some x \<and> has_capability (caller_capabilities roles user x) VAR_WRITE)"
| "authorised roles user w (Delete_Var ws _) = (\<exists>x. workspaces w ws = Some x \<and> has_capability (caller_capabilities roles user x) VAR_WRITE)"
| "authorised roles user w _ = (''admin'' \<in> effective_platform_roles user)"

lemma call_effect:
  "(\<forall>e s'. var_call ve roles user op (w, t) = Raise e s' \<longrightarrow> s' = (w, t))
   \<and> (\<forall>shown w' t'. var_call ve roles user op (w, t) = Ret shown (w', t') \<longrightarrow> t' \<noteq> t \<longrightarrow> authorised roles user w op)"
proof (cases op)
  case (List_Vars x1)
  then show ?thesis by (auto simp: var_endpoint_defs split: option.splits if_splits)
next
  case (Create_Var x21 x22)
  then show ?thesis by (auto simp: var_endpoint_defs split: option.splits if_splits sum.splits)
qed (auto simp: var_endpoint_defs require_admin_def Let_def split: option.splits if_splits sum.splits)

text \<open>
  A call that fails changes nothing, and a call that changes a table was made by a caller who may: with
  the capability to write variables of the workspace, or as a platform administrator for the sets.
\<close>

theorem variable_changes_authorised:
  "(\<forall>e s'. var_call ve roles user op (w, t) = Raise e s' \<longrightarrow> s' = (w, t))
   \<and> (\<forall>shown w' t'. var_call ve roles user op (w, t) = Ret shown (w', t') \<longrightarrow> t' \<noteq> t \<longrightarrow> authorised roles user w op)"
  by (rule call_effect)

section \<open>Secrets are write-only\<close>

text \<open>What the API shows of a variable and of the tables: everything but the values of sensitive variables.\<close>

definition public :: "variable \<Rightarrow> variable" where
  "public v = (if v_sensitive v then v\<lparr>v_value := [], v_version := []\<rparr> else v)"

definition public_rows :: "variable table \<Rightarrow> variable table" where
  "public_rows t = map_option public \<circ> t"

definition public_tables :: "var_tables \<Rightarrow> var_tables" where
  "public_tables t = t\<lparr>vt_variables := public_rows (vt_variables t), vt_set_vars := public_rows (vt_set_vars t)\<rparr>"

text \<open>The version of a sensitive variable is a digest of its value, so it is left out as well.\<close>

definition without_digest :: "shown_variable \<Rightarrow> shown_variable" where
  "without_digest s = (if sh_sensitive s then s\<lparr>sh_version := []\<rparr> else s)"

text \<open>Flags are sent as JSON booleans (or not at all), and boolean columns take those.\<close>

definition boolean_flag :: "attrs \<Rightarrow> bool" where
  "boolean_flag attrs \<longleftrightarrow> map_of attrs ''sensitive'' \<in> {None, Some JNull, Some (JBool True), Some (JBool False)}"

fun clean_op :: "var_op \<Rightarrow> bool" where
  "clean_op (Update_Var _ _ attrs) = boolean_flag attrs"
| "clean_op (Update_Set_Var _ _ attrs) = boolean_flag attrs"
| "clean_op _ = True"

definition boolean_columns :: "var_env \<Rightarrow> bool" where
  "boolean_columns ve \<longleftrightarrow> (\<forall>b. ve_bool ve (JBool b) = Some b) \<and> ve_bool ve JNull = None"

lemma public_keeps [simp]:
  "v_owner (public v) = v_owner v" "v_key (public v) = v_key v" "v_sensitive (public v) = v_sensitive v"
  "v_category (public v) = v_category v" "v_description (public v) = v_description v" "v_hcl (public v) = v_hcl v"
  by (simp_all add: public_def)

lemma public_eqD:
  assumes "public a = public b"
  shows "v_owner a = v_owner b" "v_key a = v_key b" "v_sensitive a = v_sensitive b"
    and "without_digest (var_json i a) = without_digest (var_json i b)"
proof -
  from assms have "F (public a) = F (public b)" for F :: "variable \<Rightarrow> 'z" by simp
  note eq = this
  show k: "v_owner a = v_owner b" "v_key a = v_key b" "v_sensitive a = v_sensitive b"
    using eq [of v_owner] eq [of v_key] eq [of v_sensitive] by simp_all
  show "without_digest (var_json i a) = without_digest (var_json i b)"
    using k eq [of v_category] eq [of v_description] eq [of v_hcl] eq [of v_value] eq [of v_version]
    by (simp add: without_digest_def var_json_def public_def split: if_splits)
qed

lemma public_public [simp]: "public (public v) = public v"
  by (simp add: public_def)

lemma public_rows_apply: "public_rows t i = map_option public (t i)"
  by (simp add: public_rows_def)

lemma select_public:
  assumes "\<And>i v. p i (public v) = p i v"
  shows "select n (public_rows t) p = select n t p"
  unfolding select_def public_rows_def using assms by (auto intro!: filter_cong split: option.splits)

lemma key_taken_public: "public v = public u \<Longrightarrow> key_taken n i v (public_rows t) = key_taken n i u t"
  using public_eqD [of v u] by (simp add: key_taken_def select_public)

text \<open>Editing the public part of a variable gives the public part of the edited variable.\<close>

lemma map_sum_bind: "map_sum id f (bind_sum m k) = bind_sum m (\<lambda>x. map_sum id f (k x))"
  by (cases m) auto

lemma bind_sum_cong: "(\<And>x. k x = k' x) \<Longrightarrow> bind_sum m k = bind_sum m k'"
  by (cases m) auto

lemma edit_variable_public:
  assumes "boolean_columns ve" and "given ''sensitive'' \<in> {None, Some JNull, Some (JBool True), Some (JBool False)}"
  shows "map_sum id public (edit_variable ve given (public v)) = map_sum id public (edit_variable ve given v)"
proof -
  have flag: "column_given (ve_bool ve) (given ''sensitive'') b = (case given ''sensitive'' of None \<Rightarrow> Inr b
      | Some JNull \<Rightarrow> Inl Data_Error | Some (JBool c) \<Rightarrow> Inr c | Some _ \<Rightarrow> Inr b)" for b
    using assms by (auto simp: column_given_def boolean_columns_def)
  show ?thesis
  proof (cases "given ''value''")
    case None
    then have val: "column_given text_column (given ''value'') x = Inr x" for x by (simp add: column_given_def)
    show ?thesis
      unfolding edit_variable_def public_keeps map_sum_bind val bind_sum.simps flag
      by (rule bind_sum_cong, rule bind_sum_cong, rule bind_sum_cong, rule bind_sum_cong) (use assms(2) None in \<open>auto simp: Let_def public_def\<close>)
  next
    case (Some j)
    then have val: "column_given text_column (given ''value'') x = some_or Data_Error (text_column j)" for x
      by (simp add: column_given_def)
    show ?thesis
      unfolding edit_variable_def public_keeps map_sum_bind val flag
      by (intro bind_sum_cong) (use assms(2) Some in \<open>auto simp: Let_def public_def\<close>)
  qed
qed

fun public_res :: "(exn, shown_variable list, var_state) res \<Rightarrow> (exn, shown_variable list, var_state) res" where
  "public_res (Ret shown s) = Ret (map without_digest shown) (fst s, public_tables (snd s))"
| "public_res (Raise e s) = Raise e (fst s, public_tables (snd s))"

lemma public_tables_simps [simp]:
  "vt_sets (public_tables t) = vt_sets t" "vt_assigned (public_tables t) = vt_assigned t"
  "vt_next (public_tables t) = vt_next t" "vt_variables (public_tables t) = public_rows (vt_variables t)"
  "vt_set_vars (public_tables t) = public_rows (vt_set_vars t)"
  by (simp_all add: public_tables_def)

lemma public_rows_public [simp]: "public_rows (public_rows t) = public_rows t"
  by (rule ext) (simp add: public_rows_def option.map_comp comp_def)

lemma public_rows_update: "public_rows (t(i \<mapsto> v)) = (public_rows t)(i \<mapsto> public v)"
  by (rule ext) (simp add: public_rows_def)

lemma get_variable_public: "get_variable owner i (public_rows t) = map_option public (get_variable owner i t)"
  by (auto simp: get_variable_def public_rows_apply split: option.split)

lemma written_public:
  assumes "public u = public v"
  shows "map_sum id (\<lambda>r. (public u, public_rows r)) (write_variable n i u (public_rows t))
    = map_sum id (\<lambda>r. (public v, public_rows r)) (write_variable n i v t)"
  using key_taken_public [OF assms, of n i t] key_taken_public [OF assms [symmetric], of n i t] assms
  by (auto simp: write_variable_def public_rows_update)

text \<open>A written row: what is shown of it and what the tables show.\<close>

abbreviation public_write :: "exn + variable \<times> variable table \<Rightarrow> exn + variable \<times> variable table" where
  "public_write \<equiv> map_sum id (\<lambda>(v, r). (public v, public_rows r))"

lemma written_row_public:
  assumes "map_sum id public m' = map_sum id public m"
  shows "public_write (bind_sum m' (\<lambda>v. bind_sum (write_variable n i v (public_rows t)) (\<lambda>r. Inr (v, r))))
    = public_write (bind_sum m (\<lambda>v. bind_sum (write_variable n i v t) (\<lambda>r. Inr (v, r))))"
proof -
  have join: "public_write (bind_sum x (\<lambda>r. Inr (v, r))) = map_sum id (\<lambda>r. (public v, public_rows r)) x"
    for x :: "exn + variable table" and v
    by (cases x) simp_all
  show ?thesis using assms written_public by (cases m; cases m') (auto simp: join)
qed

lemma answer_public:
  assumes "public_write m' = public_write m" and "public_tables t' = public_tables t"
    and "\<And>r r'. public_rows r' = public_rows r \<Longrightarrow> public_tables (g' r') = public_tables (g r)"
  shows "public_res (answering (\<lambda>v. [v]) (case m' of Inl e \<Rightarrow> Raise e (w, t')
      | Inr (v, r) \<Rightarrow> Ret (var_json i v) (w1, g' r)))
    = public_res (answering (\<lambda>v. [v]) (case m of Inl e \<Rightarrow> Raise e (w, t)
      | Inr (v, r) \<Rightarrow> Ret (var_json i v) (w1, g r)))"
proof (cases m)
  case (Inl e)
  with assms(1) have "m' = Inl e" by (cases m') auto
  with Inl assms(2) show ?thesis by simp
next
  case (Inr p)
  obtain v r where p: "p = (v, r)" by force
  with Inr assms(1) obtain v' r' where m': "m' = Inr (v', r')" "public v' = public v" "public_rows r' = public_rows r"
    by (cases m') auto
  have "without_digest (var_json i v') = without_digest (var_json i v)" using public_eqD(4) [OF m'(2)] .
  with Inr p m' assms(3) [OF m'(3)] show ?thesis by simp
qed

lemma listed_public: "map without_digest (map (row_json (public_rows t)) is) = map without_digest (map (row_json t) is)"
proof -
  have "without_digest (var_json i (public v)) = without_digest (var_json i v)" for i v
    by (rule public_eqD(4)) simp
  then have "without_digest (row_json (public_rows t) i) = without_digest (row_json t i)" for i
    by (cases "t i") (simp_all add: row_json_def public_rows_apply)
  then show ?thesis by simp
qed

lemma list_variables_public: "list_variables ve ws (public_tables t) = list_variables ve ws t"
proof -
  have "v_key (the (public_rows (vt_variables t) i)) = v_key (the (vt_variables t i))" for i
    by (cases "vt_variables t i") (simp_all add: public_rows_apply)
  then show ?thesis by (simp add: list_variables_def select_public)
qed

lemma public_tables_write [simp]:
  "public_tables (t\<lparr>vt_variables := r, vt_next := n\<rparr>) = (public_tables t)\<lparr>vt_variables := public_rows r, vt_next := n\<rparr>"
  "public_tables (t\<lparr>vt_set_vars := r, vt_next := n\<rparr>) = (public_tables t)\<lparr>vt_set_vars := public_rows r, vt_next := n\<rparr>"
  "public_tables (t\<lparr>vt_variables := r\<rparr>) = (public_tables t)\<lparr>vt_variables := public_rows r\<rparr>"
  "public_tables (t\<lparr>vt_set_vars := r\<rparr>) = (public_tables t)\<lparr>vt_set_vars := public_rows r\<rparr>"
  "public_tables (t\<lparr>vt_sets := s\<rparr>) = (public_tables t)\<lparr>vt_sets := s\<rparr>"
  "public_tables (t\<lparr>vt_sets := s, vt_next := n\<rparr>) = (public_tables t)\<lparr>vt_sets := s, vt_next := n\<rparr>"
  "public_tables (t\<lparr>vt_assigned := a\<rparr>) = (public_tables t)\<lparr>vt_assigned := a\<rparr>"
  by (simp_all add: public_tables_def)

lemma public_tables_public [simp]: "public_tables (public_tables t) = public_tables t"
  by (simp add: public_tables_def)

lemma public_rows_drop: "public_rows (t(i := None)) = (public_rows t)(i := None)"
  by (rule ext) (simp add: public_rows_def)

lemma public_rows_cascade:
  "public_rows (\<lambda>j. case t j of None \<Rightarrow> None | Some v \<Rightarrow> if v_owner v = i then None else Some v)
    = (\<lambda>j. case public_rows t j of None \<Rightarrow> None | Some v \<Rightarrow> if v_owner v = i then None else Some v)"
  by (rule ext) (simp add: public_rows_def split: option.split)

lemma public_cascade_write: "public_tables (t\<lparr>vt_sets := s, vt_set_vars := r, vt_assigned := a\<rparr>)
    = (public_tables t)\<lparr>vt_sets := s, vt_set_vars := public_rows r, vt_assigned := a\<rparr>"
  by (simp add: public_tables_def)

text \<open>Each call sees and shows the public tables only.\<close>

lemma var_call_public:
  assumes "boolean_columns ve" and "clean_op op"
  shows "public_res (var_call ve roles user op (w, public_tables t)) = public_res (var_call ve roles user op (w, t))"
proof (cases op)
  case (List_Vars ws)
  then show ?thesis
    by (auto simp: with_workspace_def list_workspace_vars_def list_variables_public listed_public simp del: map_map
        split: option.split)
next
  case (List_Set_Vars i)
  then show ?thesis
    by (auto simp: with_set_def list_varset_vars_def listed_public select_public simp del: map_map split: option.split)
next
  case (Create_Var ws attrs)
  show ?thesis
    unfolding Create_Var var_call.simps create_workspace_var_def with_workspace_def public_tables_simps prod.case snd_conv fst_conv
    by (auto split: option.split intro!: answer_public written_row_public)
next
  case (Update_Var ws i attrs)
  then have flag: "given_not_none attrs ''sensitive'' \<in> {None, Some JNull, Some (JBool True), Some (JBool False)}"
    using assms(2) by (auto simp: given_not_none_def boolean_flag_def)
  show ?thesis
    unfolding Update_Var var_call.simps update_workspace_var_def with_workspace_def public_tables_simps prod.case snd_conv fst_conv
    using edit_variable_public [OF assms(1), of "given_not_none attrs"] flag
    by (auto simp: get_variable_public split: option.split intro!: answer_public written_row_public)
next
  case (Update_Set_Var i j attrs)
  then have flag: "map_of attrs ''sensitive'' \<in> {None, Some JNull, Some (JBool True), Some (JBool False)}"
    using assms(2) by (simp add: boolean_flag_def)
  show ?thesis
    unfolding Update_Set_Var var_call.simps update_varset_var_def with_set_def as_admin_def public_tables_simps prod.case snd_conv fst_conv
    using edit_variable_public [OF assms(1), of "map_of attrs"] flag
    by (cases "require_admin user")
      (auto simp: get_variable_public split: option.split intro!: answer_public written_row_public)
next
  case (Create_Set_Var i attrs)
  show ?thesis
    unfolding Create_Set_Var var_call.simps create_varset_var_def with_set_def as_admin_def public_tables_simps prod.case snd_conv fst_conv
    by (cases "require_admin user") (auto split: option.split intro!: answer_public written_row_public)
qed (auto simp: var_endpoint_defs get_variable_public public_rows_drop public_rows_cascade public_cascade_write Let_def
      split: option.split sum.split)

lemma var_calls_Cons:
  "fst (var_calls ve roles ((user, op) # rest) s) =
     (case var_call ve roles user op s of
        Ret shown s1 \<Rightarrow> Inr shown # fst (var_calls ve roles rest s1)
      | Raise e s1 \<Rightarrow> Inl e # fst (var_calls ve roles rest s1))"
  by (simp split: res.split prod.split)



section \<open>Consistent tables\<close>

definition rows_unique :: "nat \<Rightarrow> variable table \<Rightarrow> bool" where
  "rows_unique n rows \<longleftrightarrow> (\<forall>i v. rows i = Some v \<longrightarrow> i < n)
     \<and> (\<forall>i j a b. rows i = Some a \<longrightarrow> rows j = Some b \<longrightarrow> v_owner a = v_owner b \<longrightarrow> v_key a = v_key b \<longrightarrow> i = j)"

definition sets_unique :: "nat \<Rightarrow> variable_set table \<Rightarrow> bool" where
  "sets_unique n sets \<longleftrightarrow> (\<forall>i vs. sets i = Some vs \<longrightarrow> i < n)
     \<and> (\<forall>i j a b. sets i = Some a \<longrightarrow> sets j = Some b \<longrightarrow> vs_name a = vs_name b \<longrightarrow> i = j)"

definition vars_ok :: "var_tables \<Rightarrow> bool" where
  "vars_ok t \<longleftrightarrow> rows_unique (vt_next t) (vt_variables t) \<and> rows_unique (vt_next t) (vt_set_vars t)
     \<and> sets_unique (vt_next t) (vt_sets t)
     \<and> (\<forall>j v. vt_set_vars t j = Some v \<longrightarrow> vt_sets t (v_owner v) \<noteq> None)
     \<and> distinct (vt_assigned t) \<and> (\<forall>a\<in>set (vt_assigned t). vt_sets t (fst a) \<noteq> None)"

lemma not_taken:
  assumes "\<not> key_taken n i v rows" and "rows_unique n rows"
  shows "rows j = Some x \<Longrightarrow> j \<noteq> i \<Longrightarrow> v_owner x = v_owner v \<Longrightarrow> v_key x \<noteq> v_key v"
  using assms by (auto simp: key_taken_def select_nonempty_iff rows_unique_def)

lemma write_unique:
  assumes "write_variable n i v rows = Inr rows'" and "rows_unique n rows" and "i < n'" and "n \<le> n'"
  shows "rows_unique n' rows'" and "rows' = rows(i \<mapsto> v)"
proof -
  from assms(1) have free: "\<not> key_taken n i v rows" and rows': "rows' = rows(i \<mapsto> v)"
    by (auto simp: write_variable_def split: if_splits)
  show "rows' = rows(i \<mapsto> v)" by (rule rows')
  have other: "v_key x \<noteq> v_key v" if "rows j = Some x" "j \<noteq> i" "v_owner x = v_owner v" for j x
    using not_taken [OF free assms(2)] that by blast
  have same: "j = k" if "rows j = Some a" "rows k = Some b" "v_owner a = v_owner b" "v_key a = v_key b" for j k a b
    using assms(2) that unfolding rows_unique_def by blast
  have "j < n'" if "rows' j = Some x" for j x
    using that assms(2-4) unfolding rows_unique_def rows' by (cases "j = i") fastforce+
  moreover have "j = k" if "rows' j = Some a" "rows' k = Some b" "v_owner a = v_owner b" "v_key a = v_key b" for j k a b
    using that other same [of j a k b] unfolding rows' by (cases "j = i"; cases "k = i") auto
  ultimately show "rows_unique n' rows'" unfolding rows_unique_def by blast
qed

lemma drop_unique: "rows_unique n rows \<Longrightarrow> rows_unique n (rows(i := None))"
  unfolding rows_unique_def by auto

lemma write_set_unique:
  assumes "write_set n i vs sets = Inr sets'" and "sets_unique n sets" and "i < n'" and "n \<le> n'"
  shows "sets_unique n' sets'" and "sets' = sets(i \<mapsto> vs)"
proof -
  from assms(1) have free: "select n sets (\<lambda>j x. j \<noteq> i \<and> vs_name x = vs_name vs) = []" and sets': "sets' = sets(i \<mapsto> vs)"
    by (auto simp: write_set_def split: if_splits)
  have "vs_name x \<noteq> vs_name vs" if "sets j = Some x" "j \<noteq> i" for j x
    using free that assms(2) select_nonempty_iff [of n sets "\<lambda>j x. j \<noteq> i \<and> vs_name x = vs_name vs"]
    by (auto simp: sets_unique_def)
  note other = this
  have same: "j = k" if "sets j = Some a" "sets k = Some b" "vs_name a = vs_name b" for j k a b
    using assms(2) that unfolding sets_unique_def by blast
  have "j < n'" if "sets' j = Some x" for j x
    using that assms(2-4) unfolding sets_unique_def sets' by (cases "j = i") fastforce+
  moreover have "j = k" if "sets' j = Some a" "sets' k = Some b" "vs_name a = vs_name b" for j k a b
    using that other [of j a] other [of k b] same [of j a k b] unfolding sets' by (cases "j = i"; cases "k = i") auto
  ultimately show "sets_unique n' sets'" unfolding sets_unique_def by blast
qed (use assms in \<open>auto simp: write_set_def split: if_splits\<close>)

lemma edit_owner: "edit_variable ve given v = Inr v' \<Longrightarrow> v_owner v' = v_owner v"
  by (auto simp: edit_variable_def sum_returns Let_def)

lemma row_owner: "variable_row ve owner attrs = Inr v \<Longrightarrow> v_owner v = owner"
  by (auto simp: variable_row_def sum_returns)

lemma new_assignments_iff:
  "a \<in> set (new_assignments w i ids assigned) \<Longrightarrow> fst a = i \<and> a \<notin> set assigned"
  by (induction ids) (auto split: if_splits)

lemma get_variable_Some: "get_variable owner i rows = Some v \<longleftrightarrow> rows i = Some v \<and> v_owner v = owner"
  by (auto simp: get_variable_def split: option.splits if_splits)

lemma rows_below: "rows_unique n rows \<Longrightarrow> rows i = Some v \<Longrightarrow> i < n"
  by (simp add: rows_unique_def)

lemma rows_unique_mono: "rows_unique n rows \<Longrightarrow> n \<le> m \<Longrightarrow> rows_unique m rows"
  unfolding rows_unique_def by (meson less_le_trans)

lemma sets_unique_mono: "sets_unique n sets \<Longrightarrow> n \<le> m \<Longrightarrow> sets_unique m sets"
  unfolding sets_unique_def by (meson less_le_trans)

lemma vars_ok_variables:
  assumes "vars_ok t" and "rows_unique n rows" and "vt_next t \<le> n"
  shows "vars_ok (t\<lparr>vt_variables := rows, vt_next := n\<rparr>)" and "n = vt_next t \<Longrightarrow> vars_ok (t\<lparr>vt_variables := rows\<rparr>)"
  using assms by (auto simp: vars_ok_def intro: rows_unique_mono sets_unique_mono)

lemma vars_ok_set_vars:
  assumes "vars_ok t" and "rows_unique n rows" and "vt_next t \<le> n"
    and "\<And>j v. rows j = Some v \<Longrightarrow> vt_sets t (v_owner v) \<noteq> None"
  shows "vars_ok (t\<lparr>vt_set_vars := rows, vt_next := n\<rparr>)" and "n = vt_next t \<Longrightarrow> vars_ok (t\<lparr>vt_set_vars := rows\<rparr>)"
  using assms by (auto simp: vars_ok_def intro: rows_unique_mono sets_unique_mono)

lemma vars_ok_sets:
  assumes "vars_ok t" and "write_set (vt_next t) i vs (vt_sets t) = Inr sets" and "i < n" and "vt_next t \<le> n"
  shows "vars_ok (t\<lparr>vt_sets := sets, vt_next := n\<rparr>)" and "n = vt_next t \<Longrightarrow> vars_ok (t\<lparr>vt_sets := sets\<rparr>)"
proof -
  from assms have "sets_unique n sets" "sets = (vt_sets t)(i \<mapsto> vs)"
    using write_set_unique [OF assms(2) _ assms(3,4)] by (auto simp: vars_ok_def)
  with assms show "vars_ok (t\<lparr>vt_sets := sets, vt_next := n\<rparr>)" and "n = vt_next t \<Longrightarrow> vars_ok (t\<lparr>vt_sets := sets\<rparr>)"
    by (auto simp: vars_ok_def intro: rows_unique_mono)
qed

lemma vars_ok_cascade:
  assumes "vars_ok t"
  shows "vars_ok (t\<lparr>vt_sets := (vt_sets t)(i := None),
      vt_set_vars := (\<lambda>j. case vt_set_vars t j of None \<Rightarrow> None | Some v \<Rightarrow> if v_owner v = i then None else Some v),
      vt_assigned := filter (\<lambda>a. fst a \<noteq> i) (vt_assigned t)\<rparr>)"
proof -
  have "rows_unique (vt_next t) (\<lambda>j. case vt_set_vars t j of None \<Rightarrow> None | Some v \<Rightarrow> if v_owner v = i then None else Some v)"
    using assms unfolding vars_ok_def rows_unique_def by (fastforce split: option.splits if_splits)
  moreover have "sets_unique (vt_next t) ((vt_sets t)(i := None))"
    using assms unfolding vars_ok_def sets_unique_def by auto
  ultimately show ?thesis using assms by (auto simp: vars_ok_def split: option.splits if_splits)
qed

lemma vars_ok_assigned:
  assumes "vars_ok t" and "distinct as" and "\<And>a. a \<in> set as \<Longrightarrow> vt_sets t (fst a) \<noteq> None"
  shows "vars_ok (t\<lparr>vt_assigned := as\<rparr>)"
  using assms by (auto simp: vars_ok_def)

lemma written_row_iff:
  "bind_sum m (\<lambda>v. bind_sum (write_variable n i v rows) (\<lambda>r. Inr (v, r))) = Inr (v, r)
    \<longleftrightarrow> m = Inr v \<and> write_variable n i v rows = Inr r"
  by (auto simp: sum_returns)

lemma var_call_keeps:
  assumes "vars_ok (snd s)"
  shows "vars_ok (snd (res_state (var_call ve roles user op s)))"
proof -
  obtain w t where s: "s = (w, t)" by force
  from assms s have ok: "vars_ok t" "rows_unique (vt_next t) (vt_variables t)" "rows_unique (vt_next t) (vt_set_vars t)"
      "\<And>j v. vt_set_vars t j = Some v \<Longrightarrow> vt_sets t (v_owner v) \<noteq> None"
      "distinct (vt_assigned t)" "\<And>a. a \<in> set (vt_assigned t) \<Longrightarrow> vt_sets t (fst a) \<noteq> None"
    by (simp_all add: vars_ok_def)
  have variables: "vars_ok (t\<lparr>vt_variables := rows, vt_next := n\<rparr>)" "n = vt_next t \<Longrightarrow> vars_ok (t\<lparr>vt_variables := rows\<rparr>)"
    if "write_variable (vt_next t) i v (vt_variables t) = Inr rows" "i < n" "vt_next t \<le> n" for i v rows n
    using vars_ok_variables [OF ok(1) write_unique(1) [OF that(1) ok(2) that(2,3)] that(3)] by auto
  have set_vars: "vars_ok (t\<lparr>vt_set_vars := rows, vt_next := n\<rparr>)" "n = vt_next t \<Longrightarrow> vars_ok (t\<lparr>vt_set_vars := rows\<rparr>)"
    if "write_variable (vt_next t) i v (vt_set_vars t) = Inr rows" "i < n" "vt_next t \<le> n" "vt_sets t (v_owner v) \<noteq> None"
    for i v rows n
  proof -
    have "vt_sets t (v_owner x) \<noteq> None" if "rows j = Some x" for j x
      using that \<open>vt_sets t (v_owner v) \<noteq> None\<close> ok(4)
      unfolding write_unique(2) [OF \<open>write_variable _ i v _ = Inr rows\<close> ok(3) \<open>i < n\<close> \<open>vt_next t \<le> n\<close>]
      by (cases "j = i") auto
    then show "vars_ok (t\<lparr>vt_set_vars := rows, vt_next := n\<rparr>)" "n = vt_next t \<Longrightarrow> vars_ok (t\<lparr>vt_set_vars := rows\<rparr>)"
      using vars_ok_set_vars [OF ok(1) write_unique(1) [OF that(1) ok(3) that(2,3)] that(3)] by auto
  qed
  note below = rows_below [OF ok(2)] rows_below [OF ok(3)]
  show ?thesis
  proof (cases op)
    case (Create_Var ws attrs)
    then show ?thesis unfolding s using ok(1)
      by (auto simp: written_row_iff create_workspace_var_def with_workspace_def split: option.split sum.split
          intro!: variables)
  next
    case (Update_Var ws i attrs)
    then show ?thesis unfolding s using ok(1) below
      by (auto simp: written_row_iff update_workspace_var_def with_workspace_def get_variable_Some split: option.split sum.split
          intro!: variables(2) [OF _ _ order.refl refl])
  next
    case (Create_Set_Var i attrs)
    then show ?thesis unfolding s using ok(1)
      by (auto simp: written_row_iff create_varset_var_def with_set_def as_admin_def split: option.split sum.split
          dest!: row_owner intro!: set_vars)
  next
    case (Update_Set_Var i j attrs)
    then show ?thesis unfolding s using ok(1) below
      by (auto simp: written_row_iff update_varset_var_def with_set_def as_admin_def get_variable_Some split: option.split sum.split
          dest!: edit_owner intro!: set_vars(2) [OF _ _ order.refl _ refl])
  next
    case (Create_Set attrs)
    then show ?thesis unfolding s using ok(1)
      by (auto simp: create_varset_def as_admin_def sum_returns split: option.split sum.split intro!: vars_ok_sets)
  next
    case (Update_Set i attrs)
    have "i < vt_next t" if "vt_sets t i = Some vs" for vs
      using ok(1) that by (auto simp: vars_ok_def sets_unique_def)
    with Update_Set show ?thesis unfolding s using ok(1)
      by (auto simp: update_varset_def as_admin_def with_set_def sum_returns split: option.split sum.split
          intro!: vars_ok_sets(2) [OF _ _ _ order.refl refl])
  next
    case (Assign_Set i ids)
    then show ?thesis unfolding s using ok
      by (auto simp: add_varset_workspaces_def as_admin_def with_set_def Let_def split: option.split sum.split
          dest!: new_assignments_iff intro!: vars_ok_assigned)
  next
    case (Unassign_Set i ids)
    then show ?thesis unfolding s using ok
      by (auto simp: remove_varset_workspaces_def as_admin_def with_set_def split: option.split sum.split
          intro!: vars_ok_assigned)
  qed (use ok in \<open>auto simp: s var_endpoint_defs intro!: vars_ok_variables(2) [OF _ _ order.refl refl] drop_unique
      vars_ok_set_vars(2) [OF _ _ order.refl _ refl]
      vars_ok_cascade split: option.split sum.split if_splits\<close>)
qed

lemma var_calls_keep: "vars_ok (snd s) \<Longrightarrow> vars_ok (snd (snd (var_calls ve roles requests s)))"
proof (induction requests arbitrary: s)
  case (Cons c requests)
  obtain user op where c: "c = (user, op)" by force
  have "vars_ok (snd (res_state (var_call ve roles user op s)))" using Cons.prems by (rule var_call_keeps)
  then show ?case using Cons.IH c by (auto split: res.split prod.split) (metis snd_conv)+
qed simp

text \<open>
  The tables stay consistent over any sequence of calls by any callers: a key occurs once per workspace and
  once per set, a name once among the sets, every variable of a set and every assignment refers to a set
  that exists, and no pair is assigned twice.
\<close>

theorem tables_stay_consistent:
  assumes "vars_ok (snd s)"
  shows "vars_ok (snd (snd (var_calls ve roles requests s)))"
  using assms by (rule var_calls_keep)

section \<open>What a run gets\<close>

definition workspace_var :: "var_tables \<Rightarrow> nat \<Rightarrow> variable \<Rightarrow> bool" where
  "workspace_var t ws v \<longleftrightarrow> v \<in> ran (vt_variables t) \<and> v_owner v = ws"

definition applicable_set_var :: "var_tables \<Rightarrow> nat \<Rightarrow> bool \<Rightarrow> variable \<Rightarrow> bool" where
  "applicable_set_var t ws priority v \<longleftrightarrow> v \<in> ran (vt_set_vars t) \<and>
     (\<exists>vs. vt_sets t (v_owner v) = Some vs \<and> vs_priority vs = priority
       \<and> (vs_global vs \<or> (v_owner v, ws) \<in> set (vt_assigned t)))"

definition has_key :: "(variable \<Rightarrow> bool) \<Rightarrow> string \<Rightarrow> bool" where
  "has_key layer k \<longleftrightarrow> (\<exists>v. layer v \<and> v_key v = k)"

definition any_order :: "var_env \<Rightarrow> bool" where
  "any_order ve \<longleftrightarrow> (\<forall>rows. set (ve_order ve rows) = set rows \<and> length (ve_order ve rows) = length rows)"

lemma any_order_set: "any_order ve \<Longrightarrow> set (ve_order ve rows) = set rows"
  by (simp add: any_order_def)

definition resolved_map :: "variable list \<Rightarrow> (string \<times> variable) list" where
  "resolved_map vs = foldl (\<lambda>resolved v. AList.update (v_key v) v resolved) [] vs"

lemma resolved_map_snoc [simp]: "resolved_map (vs @ [v]) = AList.update (v_key v) v (resolved_map vs)"
  by (simp add: resolved_map_def)

lemma resolved_map_Nil [simp]: "resolved_map [] = []"
  by (simp add: resolved_map_def)

lemma resolved_map_distinct: "distinct (map fst (resolved_map vs))"
  by (induction vs rule: rev_induct) (auto simp: distinct_update)

lemma resolved_map_lookup:
  "map_of (resolved_map (vs @ us)) k =
     (if k \<in> v_key ` set us then map_of (resolved_map us) k else map_of (resolved_map vs) k)"
proof (induction us rule: rev_induct)
  case (snoc u us)
  have "resolved_map (vs @ us @ [u]) = AList.update (v_key u) u (resolved_map (vs @ us))"
    using resolved_map_snoc [of "vs @ us" u] by simp
  with snoc show ?case by auto
qed simp

lemma resolved_map_mem: "(k, v) \<in> set (resolved_map vs) \<Longrightarrow> v \<in> set vs \<and> v_key v = k"
proof (induction vs rule: rev_induct)
  case (snoc u vs)
  from snoc.prems have "map_of (resolved_map (vs @ [u])) k = Some v"
    by (rule alist_entry_iff [OF resolved_map_distinct, THEN iffD1])
  then have "k = v_key u \<and> v = u \<or> map_of (resolved_map vs) k = Some v" by (auto split: if_splits)
  with snoc.IH show ?case by (auto dest: map_of_SomeD)
qed simp

lemma resolved_map_Some: "map_of (resolved_map vs) k = Some v \<Longrightarrow> v \<in> set vs"
  using map_of_SomeD resolved_map_mem by fast

lemma resolved_map_keys: "fst ` set (resolved_map vs) = v_key ` set vs"
  by (induction vs rule: rev_induct) (auto simp: alist_update_keys resolved_map_Nil)

lemma set_layer_iff:
  assumes "vars_ok t" and "any_order ve"
  shows "v \<in> set (set_layer ve ws priority t) \<longleftrightarrow> applicable_set_var t ws priority v"
proof -
  have below: "j < vt_next t" if "vt_set_vars t j = Some u" for j u
    using assms(1) that by (auto simp: vars_ok_def rows_unique_def)
  have below': "i < vt_next t" if "vt_sets t i = Some vs" for i vs
    using assms(1) that by (auto simp: vars_ok_def sets_unique_def)
  have sets: "i \<in> set (get_applicable_varsets ve ws priority t) \<longleftrightarrow>
      (\<exists>vs. vt_sets t i = Some vs \<and> vs_priority vs = priority \<and> (vs_global vs \<or> (i, ws) \<in> set (vt_assigned t)))" for i
    using below' by (auto simp: get_applicable_varsets_def any_order_set [OF assms(2)])
  have members: "set (ve_order ve (select (vt_next t) (vt_set_vars t) (\<lambda>_ v. v_owner v = i)))
      = {j. \<exists>u. vt_set_vars t j = Some u \<and> v_owner u = i}" for i
    using below by (auto simp: any_order_set [OF assms(2)])
  have "set (set_layer ve ws priority t) = (\<Union>i\<in>set (get_applicable_varsets ve ws priority t).
      {u. u \<in> ran (vt_set_vars t) \<and> v_owner u = i})"
    unfolding set_layer_def set_concat set_map image_image members by (force simp: ran_def)
  with sets show ?thesis by (auto simp: applicable_set_var_def)
qed

lemma workspace_layer_iff:
  assumes "vars_ok t"
  shows "v \<in> set (workspace_layer ve ws t) \<longleftrightarrow> workspace_var t ws v"
proof -
  have below: "j < vt_next t" if "vt_variables t j = Some u" for j u
    using assms that by (auto simp: vars_ok_def rows_unique_def)
  then show ?thesis by (force simp: workspace_layer_def list_variables_def workspace_var_def ran_def)
qed

lemma resolve_variables_map: "resolve_variables ve ws t =
    map snd (resolved_map (set_layer ve ws False t @ workspace_layer ve ws t @ set_layer ve ws True t))"
  by (simp add: resolve_variables_def resolved_map_def)

lemma resolved_entry_iff: "v \<in> snd ` set (resolved_map vs) \<longleftrightarrow> map_of (resolved_map vs) (v_key v) = Some v"
  using resolved_map_mem [of _ v vs] alist_entry_iff [OF resolved_map_distinct, of _ v vs] by force

lemma resolved_map_key_iff: "map_of (resolved_map vs) k \<noteq> None \<longleftrightarrow> k \<in> v_key ` set vs"
  by (simp add: map_of_eq_None_iff resolved_map_keys)

lemma keys_of_layer:
  assumes "\<And>v. v \<in> set vs \<longleftrightarrow> layer v"
  shows "k \<in> v_key ` set vs \<longleftrightarrow> has_key layer k"
  using assms by (auto simp: has_key_def)

lemma resolved_distinct: "distinct (map v_key (map snd (resolved_map vs)))"
proof -
  have "map v_key (map snd (resolved_map vs)) = map fst (resolved_map vs)"
    by (simp only: map_map comp_def, rule map_cong [OF refl]) (use resolved_map_mem in force)
  then show ?thesis by (simp only: resolved_map_distinct)
qed

lemma resolved_from:
  assumes "v \<in> snd ` set (resolved_map (low @ mid @ high))"
  shows "v \<in> set (if v_key v \<in> v_key ` set high then high else if v_key v \<in> v_key ` set mid then mid else low)"
proof -
  have "map_of (resolved_map (low @ mid @ high)) (v_key v) = Some v" using assms resolved_entry_iff by blast
  then have "map_of (resolved_map (if v_key v \<in> v_key ` set high then high
      else if v_key v \<in> v_key ` set mid then mid else low)) (v_key v) = Some v"
    using resolved_map_lookup [of "low @ mid" high "v_key v"] resolved_map_lookup [of low mid "v_key v"]
    by (simp split: if_splits)
  then show ?thesis by (rule resolved_map_Some)
qed

text \<open>
  C23: what a run gets. Each key occurs once, and a key is there exactly if a set that applies to the workspace
  or the workspace itself has it. Its variable comes from a set with priority if one that applies has the
  key, else from the workspace, else from a set without priority.
\<close>

theorem highest_layer_wins:
  assumes "vars_ok t" and "any_order ve"
  shows "let resolved = resolve_variables ve ws t in distinct (map v_key resolved)
    \<and> (\<forall>k. k \<in> v_key ` set resolved \<longleftrightarrow> has_key (applicable_set_var t ws True) k \<or> has_key (workspace_var t ws) k
         \<or> has_key (applicable_set_var t ws False) k)
    \<and> (\<forall>v\<in>set resolved. if has_key (applicable_set_var t ws True) (v_key v) then applicable_set_var t ws True v
         else if has_key (workspace_var t ws) (v_key v) then workspace_var t ws v
         else applicable_set_var t ws False v)"
proof -
  let ?layers = "set_layer ve ws False t @ workspace_layer ve ws t @ set_layer ve ws True t"
  define resolved where "resolved = resolve_variables ve ws t"
  have resolved: "resolved = map snd (resolved_map ?layers)" by (simp add: resolved_def resolve_variables_map)
  note layer = set_layer_iff [OF assms(1,2)] workspace_layer_iff [OF assms(1)]
  note key = keys_of_layer [OF layer(1)] keys_of_layer [OF layer(2)]
  have "v_key ` set resolved = fst ` set (resolved_map ?layers)"
    using resolved_map_mem by (force simp: resolved image_iff)
  then have keys: "v_key ` set resolved = v_key ` set ?layers" by (simp only: resolved_map_keys)
  have "k \<in> v_key ` set resolved \<longleftrightarrow> has_key (applicable_set_var t ws True) k \<or> has_key (workspace_var t ws) k
      \<or> has_key (applicable_set_var t ws False) k" for k
    unfolding keys set_append image_Un Un_iff key by blast
  moreover have "if has_key (applicable_set_var t ws True) (v_key v) then applicable_set_var t ws True v
      else if has_key (workspace_var t ws) (v_key v) then workspace_var t ws v else applicable_set_var t ws False v"
    if "v \<in> set resolved" for v
    using resolved_from [OF that [unfolded resolved set_map]] unfolding if_distrib [of set] key
    by (auto simp: layer split: if_splits)
  moreover have "distinct (map v_key resolved)" unfolding resolved by (rule resolved_distinct)
  ultimately show ?thesis unfolding Let_def resolved_def [symmetric] by blast
qed

section \<open>A flag sent as a number\<close>

lemma write_self:
  assumes "rows_unique n rows" and "rows i = Some old" and "v_owner v = v_owner old" and "v_key v = v_key old"
  shows "write_variable n i v rows = Inr (rows(i \<mapsto> v))"
proof -
  have "\<not> key_taken n i v rows"
    using assms unfolding key_taken_def select_nonempty_iff rows_unique_def by metis
  then show ?thesis by (simp add: write_variable_def)
qed

text \<open>
  A variable that is made non-sensitive has its value cleared, unless the flag is sent as the number 0:
  the column takes 0 for \<open>False\<close>, but \<open>update_variable\<close> compares it with \<open>is False\<close>, and the answer shows the
  secret.
\<close>

theorem numeric_flag_reveals_secret:
  assumes "ve_bool ve (JInt 0) = Some False" and "ve_bool ve (JBool False) = Some False" and "vars_ok t"
    and "workspaces w ws = Some x" and "has_capability (caller_capabilities roles user x) VAR_WRITE"
    and "vt_variables t i = Some v" and "v_owner v = ws" and "v_sensitive v"
  shows "(\<exists>shown s. update_workspace_var ve roles user ws i [(''sensitive'', JInt 0)] (w, t) = Ret shown s
      \<and> sh_value shown = Some (v_value v))
    \<and> (\<exists>shown s. update_workspace_var ve roles user ws i [(''sensitive'', JBool False)] (w, t) = Ret shown s
      \<and> sh_value shown = Some [])"
proof -
  have unique: "rows_unique (vt_next t) (vt_variables t)" using assms(3) by (simp add: vars_ok_def)
  have zero: "edit_variable ve (given_not_none [(''sensitive'', JInt 0)]) v = Inr (v\<lparr>v_sensitive := False\<rparr>)"
    using assms(1) by (simp add: edit_variable_def given_not_none_def column_given_def)
  let ?cleared = "v\<lparr>v_value := [], v_sensitive := False, v_version := version_hash ve (v_key v) [] (v_category v)\<rparr>"
  have false: "edit_variable ve (given_not_none [(''sensitive'', JBool False)]) v = Inr ?cleared"
    using assms(2,8) by (simp add: edit_variable_def given_not_none_def column_given_def)
  show ?thesis
    using assms(4-7) zero false write_self [OF unique assms(6), of "v\<lparr>v_sensitive := False\<rparr>"]
      write_self [OF unique assms(6), of ?cleared]
    by (simp add: update_workspace_var_def with_workspace_def get_variable_def var_json_def)
qed

section \<open>Witnesses\<close>

definition example_var_env :: var_env where
  "example_var_env = \<lparr>ve_sha256 = rev, ve_bool = (\<lambda>j. case j of JBool b \<Rightarrow> Some b | JInt k \<Rightarrow> Some (k \<noteq> 0) | _ \<Rightarrow> None),
     ve_order = rev, ve_collate = (\<lambda>k. k)\<rparr>"

definition secret_var :: "string \<Rightarrow> string \<Rightarrow> variable" where
  "secret_var k v = \<lparr>v_owner = 0, v_key = k, v_value = v, v_category = ''env'', v_description = [], v_hcl = False,
     v_sensitive = True, v_version = take 16 (rev v)\<rparr>"

text \<open>A workspace with one secret, a global set that overrides it and one that does not.\<close>

definition secret_tables :: "string \<Rightarrow> var_tables" where
  "secret_tables v = \<lparr>vt_variables = [0 \<mapsto> secret_var ''TOKEN'' v],
     vt_sets = [1 \<mapsto> \<lparr>vs_name = ''base'', vs_description = [], vs_global = True, vs_priority = False\<rparr>,
       2 \<mapsto> \<lparr>vs_name = ''forced'', vs_description = [], vs_global = False, vs_priority = True\<rparr>],
     vt_set_vars = [3 \<mapsto> (secret_var ''TOKEN'' ''default'')\<lparr>v_owner := 1\<rparr>, 4 \<mapsto> (secret_var ''REGION'' ''eu'')\<lparr>v_owner := 2\<rparr>],
     vt_assigned = [(2, 0)], vt_next = 5\<rparr>"

definition one_workspace :: world where
  "one_workspace = empty_world\<lparr>workspaces := [0 \<mapsto> plain_workspace], next_id := 1\<rparr>"

lemma secret_tables_ok: "vars_ok (secret_tables v)"
  by (auto simp: vars_ok_def rows_unique_def sets_unique_def secret_tables_def secret_var_def split: if_splits)

lemma admin_may_write: "has_capability (caller_capabilities [] admin_user plain_workspace) VAR_WRITE"
  by code_simp

theorem variable_changes_authorised_witness:
  "\<exists>t'. var_call example_var_env [] admin_user (Delete_Var 0 0) (one_workspace, secret_tables ''x'')
       = Ret [] (publish_workspace_event 0 ''workspace_variable_change'' one_workspace, t') \<and> vt_variables t' 0 = None
     \<and> authorised [] admin_user one_workspace (Delete_Var 0 0)"
proof -
  let ?t = "(secret_tables ''x'')\<lparr>vt_variables := (vt_variables (secret_tables ''x''))(0 := None)\<rparr>"
  have run: "var_call example_var_env [] admin_user (Delete_Var 0 0) (one_workspace, secret_tables ''x'')
      = Ret [] (publish_workspace_event 0 ''workspace_variable_change'' one_workspace, ?t)"
    using admin_may_write
    by (simp add: delete_workspace_var_def with_workspace_def one_workspace_def get_variable_def secret_tables_def secret_var_def)
  have "?t \<noteq> secret_tables ''x''"
  proof
    assume "?t = secret_tables ''x''"
    then have "vt_variables ?t 0 = vt_variables (secret_tables ''x'') 0" by simp
    then show False by (simp add: secret_tables_def)
  qed
  with variable_changes_authorised [of example_var_env "[]" admin_user "Delete_Var 0 0" one_workspace "secret_tables ''x''"] run
  have "authorised [] admin_user one_workspace (Delete_Var 0 0)" by blast
  with run show ?thesis by auto
qed


theorem tables_stay_consistent_witness:
  "vars_ok (snd (snd (var_calls example_var_env []
      [(admin_user, Create_Var 0 [(''key'', JStr ''TOKEN'')]), (admin_user, Delete_Set 1), (admin_user, Assign_Set 2 [0])]
      (one_workspace, secret_tables ''x''))))"
  by (rule tables_stay_consistent) (simp add: secret_tables_ok)

theorem highest_layer_wins_witness:
  "let resolved = resolve_variables example_var_env 0 (secret_tables ''x'') in
     (\<forall>v\<in>set resolved. v_key v = ''TOKEN'' \<longrightarrow> v_value v = ''x'') \<and> ''REGION'' \<in> v_key ` set resolved"
proof -
  have order: "any_order example_var_env" by (simp add: any_order_def example_var_env_def)
  let ?t = "secret_tables ''x''" and ?r = "resolve_variables example_var_env 0 (secret_tables ''x'')"
  have high: "applicable_set_var ?t 0 True v \<longleftrightarrow> v = (secret_var ''REGION'' ''eu'')\<lparr>v_owner := 2\<rparr>" for v
    by (auto simp: applicable_set_var_def ran_def secret_tables_def secret_var_def intro: exI [of _ 4] split: if_splits)
  have mid: "workspace_var ?t 0 v \<longleftrightarrow> v = secret_var ''TOKEN'' ''x''" for v
    by (auto simp: workspace_var_def ran_def secret_tables_def secret_var_def split: if_splits)
  have keys: "has_key (applicable_set_var ?t 0 True) k \<longleftrightarrow> k = ''REGION''"
    "has_key (workspace_var ?t 0) k \<longleftrightarrow> k = ''TOKEN''" for k
    unfolding has_key_def high mid by (auto simp: secret_var_def)
  from highest_layer_wins [OF secret_tables_ok order, of 0 "''x''"]
  have all: "k \<in> v_key ` set ?r \<longleftrightarrow> has_key (applicable_set_var ?t 0 True) k \<or> has_key (workspace_var ?t 0) k
      \<or> has_key (applicable_set_var ?t 0 False) k"
    and layer: "v \<in> set ?r \<Longrightarrow> if has_key (applicable_set_var ?t 0 True) (v_key v) then applicable_set_var ?t 0 True v
      else if has_key (workspace_var ?t 0) (v_key v) then workspace_var ?t 0 v else applicable_set_var ?t 0 False v" for k v
    unfolding Let_def by blast+
  have "v_value v = ''x''" if "v \<in> set ?r" "v_key v = ''TOKEN''" for v
    using layer [OF that(1)] that(2) unfolding keys mid by (simp add: secret_var_def)
  moreover have "''REGION'' \<in> v_key ` set ?r" unfolding all keys by simp
  ultimately show ?thesis unfolding Let_def by blast
qed

theorem numeric_flag_reveals_secret_witness:
  "\<exists>shown s. update_workspace_var example_var_env [] admin_user 0 0 [(''sensitive'', JInt 0)]
      (one_workspace, secret_tables ''hunter2'') = Ret shown s \<and> sh_value shown = Some ''hunter2''"
proof -
  have env: "ve_bool example_var_env (JInt 0) = Some False" "ve_bool example_var_env (JBool False) = Some False"
    by (simp_all add: example_var_env_def)
  have row: "vt_variables (secret_tables ''hunter2'') 0 = Some (secret_var ''TOKEN'' ''hunter2'')"
    by (simp add: secret_tables_def)
  have ws: "workspaces one_workspace 0 = Some plain_workspace" by (simp add: one_workspace_def)
  have var: "v_owner (secret_var ''TOKEN'' ''hunter2'') = 0" "v_sensitive (secret_var ''TOKEN'' ''hunter2'')"
    "v_value (secret_var ''TOKEN'' ''hunter2'') = ''hunter2''"
    by (simp_all add: secret_var_def)
  show ?thesis
    using numeric_flag_reveals_secret [OF env secret_tables_ok ws admin_may_write row var(1,2)] var(3) by simp
qed

end
