(* ===== verification/Labels.thy ===== *)
theory Labels
  imports Rbac DriftRules
begin

text \<open>
  Labels: the validator that every write path shares (\<open>services/label_validation.py\<close>) and the read-only
  aggregation behind the labels browser (\<open>services/labels_service.py\<close>).

  A payload is a JSON document whose keys are texts. The rows of the four labelled tables are arguments, in
  the order of their names.
\<close>

section \<open>Validation\<close>

definition MAX_LABELS :: nat where "MAX_LABELS = 50"
definition MAX_LABEL_KEY_LEN :: nat where "MAX_LABEL_KEY_LEN = 63"
definition MAX_LABEL_VALUE_LEN :: nat where "MAX_LABEL_VALUE_LEN = 255"

definition reserved_label_keys :: "string list" where
  "reserved_label_keys = [''status'', ''pool'', ''mode'', ''backend'', ''owner'', ''drift'', ''version'', ''vcs'',
     ''locked'', ''branch'']"

lemmas label_limits = MAX_LABELS_def MAX_LABEL_KEY_LEN_def MAX_LABEL_VALUE_LEN_def

datatype label_error = Not_An_Object | Too_Many_Labels | Not_Strings | Key_Too_Long | Value_Too_Long | Reserved_Key string

fun check_label :: "string \<times> json \<Rightarrow> label_error + string \<times> string" where
  "check_label (k, JStr v) =
     (if length k > MAX_LABEL_KEY_LEN then Inl Key_Too_Long
      else if length v > MAX_LABEL_VALUE_LEN then Inl Value_Too_Long
      else if k \<in> set reserved_label_keys then Inl (Reserved_Key k)
      else Inr (k, v))"
| "check_label (k, _) = Inl Not_Strings"

fun clean_labels :: "(string \<times> json) list \<Rightarrow> label_error + resource_labels" where
  "clean_labels [] = Inr []"
| "clean_labels (e # rest) =
     bind_sum (check_label e) (\<lambda>kv. bind_sum (clean_labels rest) (\<lambda>clean. Inr (kv # clean)))"

fun validate_labels :: "json \<Rightarrow> label_error + resource_labels" where
  "validate_labels (JObj kvs) = (if length kvs > MAX_LABELS then Inl Too_Many_Labels else clean_labels kvs)"
| "validate_labels labels = (if truthy labels then Inl Not_An_Object else Inr [])"

fun sanitize_entry :: "string \<times> json \<Rightarrow> resource_labels \<times> string list \<Rightarrow> resource_labels \<times> string list" where
  "sanitize_entry (k, JStr v) (clean, dropped) =
     (if length k > MAX_LABEL_KEY_LEN \<or> length v > MAX_LABEL_VALUE_LEN \<or> k \<in> set reserved_label_keys
      then (clean, dropped @ [k]) else (clean @ [(k, v)], dropped))"
| "sanitize_entry (k, _) (clean, dropped) = (clean, dropped @ [k])"

fun sanitize_labels :: "json \<Rightarrow> resource_labels \<times> string list" where
  "sanitize_labels (JObj kvs) = fold sanitize_entry (take MAX_LABELS kvs) ([], [])"
| "sanitize_labels _ = ([], [])"

section \<open>Aggregation\<close>

datatype entity_type = Workspaces | Agent_Pools | Registry_Modules | Registry_Providers

definition entity_types :: "entity_type list" where
  "entity_types = [Workspaces, Agent_Pools, Registry_Modules, Registry_Providers]"

record entity =
  en_id :: nat
  en_name :: string
  en_labels :: resource_labels
  en_owner :: "string option"
  en_catalog_item :: "nat option"

type_synonym entity_rows = "entity_type \<Rightarrow> entity list"

definition entity_capabilities :: "role list \<Rightarrow> auth_user \<Rightarrow> entity_type \<Rightarrow> entity \<Rightarrow> string set" where
  "entity_capabilities db user ty en =
     (let preloaded = Some (fetch_custom_roles db (au_roles user));
          token_preloaded = Some (fetch_custom_roles db (pinned user));
          owner = (case en_owner en of None \<Rightarrow> Some [] | o' \<Rightarrow> o')
      in case ty of
           Workspaces \<Rightarrow> resolve_workspace_capabilities_for db user (en_name en) (Some (en_labels en)) (en_owner en)
             (en_catalog_item en) preloaded token_preloaded
         | Agent_Pools \<Rightarrow> resolve_pool_capabilities_for db user (en_name en) (Some (en_labels en)) owner preloaded token_preloaded
         | _ \<Rightarrow> resolve_registry_capabilities_for db user (en_name en) (Some (en_labels en)) owner preloaded token_preloaded)"

definition readable_entities :: "role list \<Rightarrow> auth_user \<Rightarrow> entity_rows \<Rightarrow> entity_type \<Rightarrow> entity list" where
  "readable_entities db user rows ty = filter (\<lambda>en. entity_capabilities db user ty en \<noteq> {}) (rows ty)"

text \<open>The dictionaries of \<open>aggregate_keys\<close> and \<open>aggregate_values_for_key\<close>.\<close>

definition empty_counts :: "entity_type \<Rightarrow> nat" where
  "empty_counts = (\<lambda>_. 0)"

definition count_entity :: "entity_type \<Rightarrow> string \<Rightarrow> (string \<times> (entity_type \<Rightarrow> nat)) list
    \<Rightarrow> (string \<times> (entity_type \<Rightarrow> nat)) list" where
  "count_entity ty k m = (let c = (case map_of m k of None \<Rightarrow> empty_counts | Some c \<Rightarrow> c)
     in AList.update k (c(ty := Suc (c ty))) m)"

definition note_value :: "string \<Rightarrow> string \<Rightarrow> (string \<times> string list) list \<Rightarrow> (string \<times> string list) list" where
  "note_value k v m = AList.update k (List.insert v (case map_of m k of None \<Rightarrow> [] | Some vs \<Rightarrow> vs)) m"

definition label_entries :: "role list \<Rightarrow> auth_user \<Rightarrow> entity_rows \<Rightarrow> (entity_type \<times> string \<times> string) list" where
  "label_entries db user rows = concat (map (\<lambda>ty. concat (map (\<lambda>en. map (Pair ty) (en_labels en))
     (readable_entities db user rows ty))) entity_types)"

record key_summary =
  ks_key :: string
  ks_value_count :: nat
  ks_counts :: "entity_type \<Rightarrow> nat"

definition aggregate_keys :: "role list \<Rightarrow> auth_user \<Rightarrow> entity_rows \<Rightarrow> key_summary list" where
  "aggregate_keys db user rows =
     (let entries = label_entries db user rows;
          key_values = fold (\<lambda>(_, k, v). note_value k v) entries [];
          key_counts = fold (\<lambda>(ty, k, _). count_entity ty k) entries []
      in map (\<lambda>k. \<lparr>ks_key = k, ks_value_count = length (the (map_of key_values k)),
           ks_counts = the (map_of key_counts k)\<rparr>) (sort (map fst key_values)))"

definition aggregate_values_for_key :: "role list \<Rightarrow> auth_user \<Rightarrow> entity_rows \<Rightarrow> string
    \<Rightarrow> (string \<times> (entity_type \<Rightarrow> nat)) list" where
  "aggregate_values_for_key db user rows key =
     (let value_counts = fold (\<lambda>(ty, v). count_entity ty v)
            (concat (map (\<lambda>ty. List.map_filter (\<lambda>en. map_option (Pair ty) (map_of (en_labels en) key))
              (readable_entities db user rows ty)) entity_types)) []
      in map (\<lambda>v. (v, the (map_of value_counts v))) (sort (map fst value_counts)))"

definition list_entities_for_label :: "role list \<Rightarrow> auth_user \<Rightarrow> entity_rows \<Rightarrow> string \<Rightarrow> string
    \<Rightarrow> (entity_type \<times> entity list) list" where
  "list_entities_for_label db user rows key val = map (\<lambda>ty. (ty,
     filter (\<lambda>en. map_of (en_labels en) key = Some val) (readable_entities db user rows ty))) entity_types"

section \<open>What validation accepts\<close>

definition label_ok :: "string \<times> string \<Rightarrow> bool" where
  "label_ok kv \<longleftrightarrow> length (fst kv) \<le> MAX_LABEL_KEY_LEN \<and> length (snd kv) \<le> MAX_LABEL_VALUE_LEN
     \<and> fst kv \<notin> set reserved_label_keys"

lemma check_label_iff: "check_label e = Inr kv \<longleftrightarrow> e = (fst kv, JStr (snd kv)) \<and> label_ok kv"
  by (cases e rule: check_label.cases) (auto simp: label_ok_def)

lemma clean_labels_iff:
  "clean_labels kvs = Inr clean \<longleftrightarrow> kvs = map (\<lambda>(k, v). (k, JStr v)) clean \<and> (\<forall>kv\<in>set clean. label_ok kv)"
  by (induction kvs arbitrary: clean) (auto simp: sum_returns check_label_iff)

lemma sanitize_entry_ok:
  "label_ok (k, v) \<Longrightarrow> sanitize_entry (k, JStr v) (clean, dropped) = (clean @ [(k, v)], dropped)"
  by (auto simp: label_ok_def)

lemma sanitize_entry_bad:
  assumes "\<And>v. snd e = JStr v \<Longrightarrow> \<not> label_ok (fst e, v)"
  shows "sanitize_entry e (clean, dropped) = (clean, dropped @ [fst e])"
  using assms by (cases e rule: check_label.cases) (auto simp: label_ok_def)

text \<open>The labels a document has that may be stored, and the keys of the others.\<close>

fun storable :: "string \<times> json \<Rightarrow> bool" where
  "storable (k, JStr v) = label_ok (k, v)"
| "storable _ = False"

fun text_of :: "json \<Rightarrow> string" where
  "text_of (JStr v) = v"
| "text_of _ = []"

lemma sanitize_fold:
  "fold sanitize_entry kvs (clean, dropped) =
     (clean @ map (\<lambda>e. (fst e, text_of (snd e))) (filter storable kvs), dropped @ map fst (filter (\<lambda>e. \<not> storable e) kvs))"
proof (induction kvs arbitrary: clean dropped)
  case (Cons e kvs)
  then show ?case by (cases e rule: storable.cases) (auto simp: label_ok_def)
qed simp

lemma storable_ok: "storable e \<Longrightarrow> label_ok (fst e, text_of (snd e))"
  by (cases e rule: storable.cases) auto

lemma storable_text: "storable e \<Longrightarrow> e = (fst e, JStr (text_of (snd e)))"
  by (cases e rule: storable.cases) auto



section \<open>What the browser counts\<close>

definition counts_of :: "(string \<times> (entity_type \<Rightarrow> nat)) list \<Rightarrow> string \<Rightarrow> entity_type \<Rightarrow> nat" where
  "counts_of m k = (case map_of m k of None \<Rightarrow> empty_counts | Some c \<Rightarrow> c)"

lemma counts_of_count: "counts_of (count_entity ty k m) k' ty' = counts_of m k' ty' + (if k' = k \<and> ty' = ty then 1 else 0)"
  by (auto simp: counts_of_def count_entity_def Let_def empty_counts_def split: option.split)

lemma counts_of_fold:
  "counts_of (fold (\<lambda>(ty, k, _). count_entity ty k) es m) k ty
     = counts_of m k ty + length (filter (\<lambda>e. fst e = ty \<and> fst (snd e) = k) es)"
  by (induction es arbitrary: m) (auto simp: counts_of_count)

lemma counted_key [simp]: "fst ` set (count_entity ty k m) = insert k (fst ` set m)"
  by (simp add: count_entity_def Let_def alist_update_keys)

lemma counted_keys: "fst ` set (fold (\<lambda>(ty, k, _). count_entity ty k) es m) = fst ` set m \<union> (fst \<circ> snd) ` set es"
  by (induction es arbitrary: m) (simp_all add: case_prod_beta)

definition values_of :: "(string \<times> string list) list \<Rightarrow> string \<Rightarrow> string list" where
  "values_of m k = (case map_of m k of None \<Rightarrow> [] | Some vs \<Rightarrow> vs)"

lemma values_of_note: "values_of (note_value k v m) k' = (if k' = k then List.insert v (values_of m k) else values_of m k')"
  by (simp add: values_of_def note_value_def)

lemma values_of_fold:
  "set (values_of (fold (\<lambda>(_, k, v). note_value k v) es m) k) = set (values_of m k) \<union> (snd \<circ> snd) ` {e \<in> set es. fst (snd e) = k}"
proof (induction es arbitrary: m)
  case (Cons e es)
  have "{x \<in> set (e # es). fst (snd x) = k} = (if fst (snd e) = k then {e} else {}) \<union> {x \<in> set es. fst (snd x) = k}"
    by auto
  with Cons show ?case by (auto simp: values_of_note case_prod_beta)
qed simp

lemma values_of_distinct: "distinct (values_of m k) \<Longrightarrow> distinct (values_of (fold (\<lambda>(_, k, v). note_value k v) es m) k)"
proof (induction es arbitrary: m)
  case (Cons e es)
  from Cons.prems have "distinct (values_of (note_value (fst (snd e)) (snd (snd e)) m) k)" by (auto simp: values_of_note)
  from Cons.IH [OF this] show ?case by (simp add: case_prod_beta)
qed simp

lemma noted_key [simp]: "fst ` set (note_value k v m) = insert k (fst ` set m)"
  by (simp add: note_value_def alist_update_keys)

lemma noted_keys: "fst ` set (fold (\<lambda>(_, k, v). note_value k v) es m) = fst ` set m \<union> (fst \<circ> snd) ` set es"
  by (induction es arbitrary: m) (simp_all add: case_prod_beta)

lemma noted_distinct: "distinct (map fst m) \<Longrightarrow> distinct (map fst (fold (\<lambda>(_, k, v). note_value k v) es m))"
  by (induction es arbitrary: m) (auto simp: note_value_def distinct_update)

lemma label_entries_iff:
  "(ty, k, v) \<in> set (label_entries db user rows) \<longleftrightarrow> (\<exists>en\<in>set (readable_entities db user rows ty). (k, v) \<in> set (en_labels en))"
proof -
  have "ty \<in> set entity_types" by (cases ty) (simp_all add: entity_types_def)
  then show ?thesis by (force simp: label_entries_def)
qed

definition has_label :: "string \<Rightarrow> entity \<Rightarrow> bool" where
  "has_label k en \<longleftrightarrow> map_of (en_labels en) k \<noteq> None"

lemma entry_once:
  assumes "distinct (map fst (en_labels en))"
  shows "length (filter (\<lambda>kv. fst kv = k) (en_labels en)) = (if has_label k en then 1 else 0)"
proof -
  have "length (filter (\<lambda>kv. fst kv = k) kvs) = (if map_of kvs k = None then 0 else 1)" if "distinct (map fst kvs)" for kvs
    using that by (induction kvs) (auto simp: filter_empty_conv map_of_eq_None_iff split: if_splits)
  from this [OF assms] show ?thesis by (simp add: has_label_def)
qed

lemma entries_of_type:
  assumes "\<And>en. en \<in> set ens \<Longrightarrow> distinct (map fst (en_labels en))"
  shows "length (filter (\<lambda>e. fst e = ty \<and> fst (snd e) = k) (concat (map (\<lambda>en. map (Pair t) (en_labels en)) ens)))
    = (if t = ty then length (filter (has_label k) ens) else 0)"
  using assms
proof (induction ens)
  case (Cons en ens)
  have "length (filter (\<lambda>e. fst e = ty \<and> fst (snd e) = k) (map (\<lambda>(k, v). (t, k, v)) (en_labels en)))
      = (if t = ty \<and> has_label k en then 1 else 0)"
    using entry_once [of en k] Cons.prems
    by (cases "t = ty") (simp_all add: filter_map comp_def case_prod_beta)
  with Cons show ?case by auto
qed simp

lemma entries_count:
  assumes "\<And>ty en. en \<in> set (rows ty) \<Longrightarrow> distinct (map fst (en_labels en))"
  shows "length (filter (\<lambda>e. fst e = ty \<and> fst (snd e) = k) (label_entries db user rows))
    = length (filter (has_label k) (readable_entities db user rows ty))"
proof -
  have "distinct (map fst (en_labels en))" if "en \<in> set (readable_entities db user rows t)" for t en
    using assms [of en t] that by (simp add: readable_entities_def)
  note count = entries_of_type [OF this]
  show ?thesis by (cases ty) (simp_all add: label_entries_def entity_types_def count)
qed

text \<open>
  The labels browser lists a key, once and in order, exactly if an entity on which the caller has some
  capability carries it, and counts these entities and their values correctly. The capability need not
  be the one to read that the module documents.
\<close>

theorem label_keys_counted:
  assumes "\<forall>ty. \<forall>en\<in>set (rows ty). distinct (map fst (en_labels en))"
  shows "sorted (map ks_key (aggregate_keys db user rows)) \<and> distinct (map ks_key (aggregate_keys db user rows))
    \<and> (\<forall>k. k \<in> ks_key ` set (aggregate_keys db user rows) \<longleftrightarrow>
         (\<exists>ty. \<exists>en\<in>set (rows ty). entity_capabilities db user ty en \<noteq> {} \<and> map_of (en_labels en) k \<noteq> None))
    \<and> (\<forall>s\<in>set (aggregate_keys db user rows).
         ks_value_count s = card {v. \<exists>ty. \<exists>en\<in>set (rows ty). entity_capabilities db user ty en \<noteq> {}
           \<and> map_of (en_labels en) (ks_key s) = Some v}
         \<and> (\<forall>ty. ks_counts s ty = length (filter (\<lambda>en. entity_capabilities db user ty en \<noteq> {}
             \<and> map_of (en_labels en) (ks_key s) \<noteq> None) (rows ty))))"
proof -
  let ?es = "label_entries db user rows"
  let ?vals = "fold (\<lambda>(_, k, v). note_value k v) ?es []" and ?counts = "fold (\<lambda>(ty, k, _). count_entity ty k) ?es []"
  have keys: "map ks_key (aggregate_keys db user rows) = sort (map fst ?vals)"
    by (simp add: aggregate_keys_def Let_def comp_def)
  have dist: "distinct (map fst (en_labels en))" if "en \<in> set (rows ty)" for ty en using assms that by blast
  have entry: "(ty, k, v) \<in> set ?es \<longleftrightarrow>
      (\<exists>en\<in>set (rows ty). entity_capabilities db user ty en \<noteq> {} \<and> map_of (en_labels en) k = Some v)" for ty k v
    using dist by (auto simp: label_entries_iff readable_entities_def)
  have listed: "k \<in> set (map fst ?vals) \<longleftrightarrow>
      (\<exists>ty. \<exists>en\<in>set (rows ty). entity_capabilities db user ty en \<noteq> {} \<and> map_of (en_labels en) k \<noteq> None)" for k
  proof -
    have "k \<in> set (map fst ?vals) \<longleftrightarrow> (\<exists>ty v. (ty, k, v) \<in> set ?es)"
      using noted_keys [of ?es "[]"] by (force simp: image_iff)
    also have "\<dots> \<longleftrightarrow> (\<exists>ty. \<exists>en\<in>set (rows ty). entity_capabilities db user ty en \<noteq> {} \<and> (\<exists>v. map_of (en_labels en) k = Some v))"
      unfolding entry by blast
    finally show ?thesis by simp
  qed
  have count: "the (map_of ?counts k) ty = length (filter (\<lambda>en. entity_capabilities db user ty en \<noteq> {}
      \<and> map_of (en_labels en) k \<noteq> None) (rows ty))" if "k \<in> set (map fst ?vals)" for k ty
  proof -
    have "k \<in> fst ` set ?counts" using that noted_keys [of ?es "[]"] counted_keys [of ?es "[]"] by simp
    then have "map_of ?counts k \<noteq> None" by (simp add: map_of_eq_None_iff)
    then obtain c where "map_of ?counts k = Some c" by blast
    then have "the (map_of ?counts k) ty = counts_of ?counts k ty" by (simp add: counts_of_def)
    also have "\<dots> = length (filter (\<lambda>e. fst e = ty \<and> fst (snd e) = k) ?es)"
      by (simp add: counts_of_fold) (simp add: counts_of_def empty_counts_def)
    also have "\<dots> = length (filter (has_label k) (readable_entities db user rows ty))"
      by (rule entries_count [OF dist])
    finally show ?thesis by (simp add: readable_entities_def has_label_def conj_commute)
  qed
  have vals: "length (the (map_of ?vals k)) = card {v. \<exists>ty. \<exists>en\<in>set (rows ty). entity_capabilities db user ty en \<noteq> {}
      \<and> map_of (en_labels en) k = Some v}" if "k \<in> set (map fst ?vals)" for k
  proof -
    from that have "map_of ?vals k \<noteq> None" by (simp add: map_of_eq_None_iff)
    then obtain vs where "map_of ?vals k = Some vs" by blast
    then have vs: "the (map_of ?vals k) = values_of ?vals k" by (simp add: values_of_def)
    have "set (values_of ?vals k) = {v. \<exists>ty. (ty, k, v) \<in> set ?es}"
      by (simp add: values_of_fold) (force simp: values_of_def image_iff)
    moreover have "distinct (values_of ?vals k)" by (rule values_of_distinct) (simp add: values_of_def)
    ultimately show ?thesis unfolding vs entry [symmetric] using distinct_card by fastforce
  qed
  have members: "s \<in> set (aggregate_keys db user rows) \<Longrightarrow> ks_key s \<in> set (map fst ?vals)
      \<and> ks_value_count s = length (the (map_of ?vals (ks_key s))) \<and> ks_counts s = the (map_of ?counts (ks_key s))" for s
    by (auto simp: aggregate_keys_def Let_def intro: rev_image_eqI)
  have "ks_key ` set (aggregate_keys db user rows) = set (sort (map fst ?vals))"
    unfolding keys [symmetric] by simp
  then have shown: "ks_key ` set (aggregate_keys db user rows) = set (map fst ?vals)" by simp
  have order: "sorted (map ks_key (aggregate_keys db user rows))" "distinct (map ks_key (aggregate_keys db user rows))"
    using noted_distinct [of "[]" ?es] by (simp_all add: keys)
  show ?thesis
  proof (intro conjI allI ballI)
    fix k show "k \<in> ks_key ` set (aggregate_keys db user rows) \<longleftrightarrow>
        (\<exists>ty. \<exists>en\<in>set (rows ty). entity_capabilities db user ty en \<noteq> {} \<and> map_of (en_labels en) k \<noteq> None)"
      unfolding shown by (rule listed)
  qed (use order members count vals in simp_all)
qed

lemma distinct_single: "set xs = {x} \<Longrightarrow> distinct xs \<Longrightarrow> xs = [x]"
  by (cases xs; cases "tl xs") auto

text \<open>A role that may only apply runs, and a workspace it matches: its label is listed.\<close>

definition applier_role :: role where
  "applier_role = \<lparr>role_name = ''applier'', allow_labels = [], allow_names = [''billing''], deny_labels = [],
     deny_names = [], role_capabilities = [RUN_APPLY]\<rparr>"

definition applier :: auth_user where
  "applier = \<lparr>au_email = ''x'', au_roles = [''applier''], au_auth_method = ''session'', au_run_id = None,
     au_kind = ''interactive'', au_pinned_roles = None\<rparr>"

definition one_entity :: entity_rows where
  "one_entity ty = (if ty = Workspaces then [\<lparr>en_id = 0, en_name = ''billing'', en_labels = [(''cost'', ''x'')],
     en_owner = Some ''y'', en_catalog_item = None\<rparr>] else [])"

theorem label_keys_counted_witness:
  "map ks_key (aggregate_keys [applier_role] applier one_entity) = [''cost'']
   \<and> \<not> has_capability (entity_capabilities [applier_role] applier Workspaces (hd (one_entity Workspaces))) WORKSPACE_READ"
proof -
  have caps: "entity_capabilities [applier_role] applier Workspaces (hd (one_entity Workspaces)) = {RUN_APPLY}"
    by code_simp
  let ?keys = "map ks_key (aggregate_keys [applier_role] applier one_entity)"
  have "\<forall>ty. \<forall>en\<in>set (one_entity ty). distinct (map fst (en_labels en))" by (simp add: one_entity_def)
  note counted = label_keys_counted [OF this, of "[applier_role]" applier]
  have "set ?keys = {''cost''}"
  proof (rule set_eqI)
    fix k
    have "k \<in> set ?keys \<longleftrightarrow> (\<exists>ty. \<exists>en\<in>set (one_entity ty). entity_capabilities [applier_role] applier ty en \<noteq> {}
        \<and> map_of (en_labels en) k \<noteq> None)"
      using counted by simp
    also have "\<dots> \<longleftrightarrow> k = ''cost''" using caps by (auto simp: one_entity_def)
    finally show "k \<in> set ?keys \<longleftrightarrow> k \<in> {''cost''}" by simp
  qed
  moreover have "distinct ?keys" using counted by blast
  ultimately have "?keys = [''cost'']"
    by (rule distinct_single)
  then show ?thesis by (simp add: caps has_capability_def)
qed

end
