(* ===== verification/DiscoveryRules.thy ===== *)
theory DiscoveryRules
  imports Labels DriftChecks
begin

text \<open>
  The pure part of autodiscovery (\<open>services/workspace_autodiscovery_service.py\<close>): which files a rule claims, and
  the directory and the name of the workspace for a file.

  A character class of a glob is read as the regular expression module reads it; one that is empty or
  contains a backslash counts as refused (\<open>Regex_Error\<close>). Of \<open>str.format\<close> the plain fields are modelled, anything else
  in braces is \<open>Format_Error\<close>.
\<close>

section \<open>Paths\<close>

fun join_slash :: "string list \<Rightarrow> string" where
  "join_slash [] = []"
| "join_slash [p] = p"
| "join_slash (p # ps) = p @ CHR ''/'' # join_slash ps"

definition path_root :: "string \<Rightarrow> string" where
  "path_root p = (let n = length (takeWhile (\<lambda>c. c = CHR ''/'') p) in
     if n = 0 then [] else if n = 2 then ''//'' else ''/'')"

definition path_parts :: "string \<Rightarrow> string list" where
  "path_parts p = filter (\<lambda>x. x \<noteq> [] \<and> x \<noteq> ''.'') (split_on (CHR ''/'') p)"

definition path_text :: "string \<Rightarrow> string list \<Rightarrow> string" where
  "path_text anchor parts = (if anchor = [] \<and> parts = [] then ''.'' else anchor @ join_slash parts)"

definition path_name :: "string \<Rightarrow> string" where
  "path_name p = (if path_parts p = [] then [] else last (path_parts p))"

definition derive_root_directory :: "string \<Rightarrow> string" where
  "derive_root_directory file_path =
     (let parent = path_text (path_root file_path) (butlast (path_parts file_path))
      in if parent = ''.'' then [] else parent)"

section \<open>Globs\<close>

datatype glob_item =
    Exactly char
  | In_Segment
  | One_In_Segment
  | Class bool "(char \<times> char) list"
  | Anything
  | Segments

text \<open>The members of a class: single characters and ranges, which have to be in order.\<close>

fun class_ranges :: "string \<Rightarrow> exn + (char \<times> char) list" where
  "class_ranges [] = Inr []"
| "class_ranges [c] = Inr [(c, c)]"
| "class_ranges (c # d # cs) =
     (if d = CHR ''-'' \<and> cs \<noteq> [] then
        (if c \<le> hd cs then bind_sum (class_ranges (tl cs)) (\<lambda>rs. Inr ((c, hd cs) # rs)) else Inl Regex_Error)
      else bind_sum (class_ranges (d # cs)) (\<lambda>rs. Inr ((c, c) # rs)))"

definition glob_class :: "string \<Rightarrow> exn + glob_item" where
  "glob_class cls =
     (let negated = (cls \<noteq> [] \<and> (hd cls = CHR ''!'' \<or> hd cls = CHR ''^'')); members = (if negated then tl cls else cls)
      in if members = [] \<or> CHR 0x5C \<in> set members then Inl Regex_Error
         else bind_sum (class_ranges members) (\<lambda>rs. Inr (Class negated rs)))"

lemma dropWhile_shorter: "length (dropWhile P cs) - Suc 0 < Suc (length cs)"
  using length_dropWhile_le [of P cs] by simp

function glob_to_regex :: "string \<Rightarrow> exn + glob_item list" where
  "glob_to_regex [] = Inr []"
| "glob_to_regex (ch # cs) =
     (if ch = CHR ''*'' \<and> cs \<noteq> [] \<and> hd cs = CHR ''*'' then
        (if tl cs \<noteq> [] \<and> hd (tl cs) = CHR ''/''
         then bind_sum (glob_to_regex (tl (tl cs))) (\<lambda>g. Inr (Segments # g))
         else bind_sum (glob_to_regex (tl cs)) (\<lambda>g. Inr (Anything # g)))
      else if ch = CHR ''*'' then bind_sum (glob_to_regex cs) (\<lambda>g. Inr (In_Segment # g))
      else if ch = CHR ''?'' then bind_sum (glob_to_regex cs) (\<lambda>g. Inr (One_In_Segment # g))
      else if ch = CHR ''['' \<and> CHR '']'' \<in> set cs then
        bind_sum (glob_class (takeWhile (\<lambda>c. c \<noteq> CHR '']'') cs)) (\<lambda>item.
        bind_sum (glob_to_regex (tl (dropWhile (\<lambda>c. c \<noteq> CHR '']'') cs))) (\<lambda>g. Inr (item # g)))
      else bind_sum (glob_to_regex cs) (\<lambda>g. Inr (Exactly ch # g)))"
  by pat_completeness auto

termination by (relation "measure length") (auto simp: dropWhile_shorter)

definition newline :: char where "newline = CHR 0x0A"

fun item_allows :: "glob_item \<Rightarrow> char \<Rightarrow> bool" where
  "item_allows (Exactly c) x = (x = c)"
| "item_allows (Class negated rs) x = ((\<exists>(a, b)\<in>set rs. a \<le> x \<and> x \<le> b) \<noteq> negated)"
| "item_allows Anything x = (x \<noteq> newline)"
| "item_allows Segments x = (x \<noteq> newline)"
| "item_allows _ x = (x \<noteq> CHR ''/'')"

text \<open>\<open>Segments\<close> is \<open>(?:.*/)?\<close>; after its first character \<open>up_to\<close> it needs a slash to end.\<close>

function glob_matches :: "bool \<Rightarrow> glob_item list \<Rightarrow> string \<Rightarrow> bool" where
  "glob_matches up_to [] s = (s = [])"
| "glob_matches up_to (Anything # g) s =
     (glob_matches False g s \<or> (case s of [] \<Rightarrow> False | x # xs \<Rightarrow> item_allows Anything x \<and> glob_matches False (Anything # g) xs))"
| "glob_matches up_to (In_Segment # g) s =
     (glob_matches False g s \<or> (case s of [] \<Rightarrow> False | x # xs \<Rightarrow> item_allows In_Segment x \<and> glob_matches False (In_Segment # g) xs))"
| "glob_matches up_to (Segments # g) s =
     (\<not> up_to \<and> glob_matches False g s \<or>
      (case s of [] \<Rightarrow> False | x # xs \<Rightarrow>
         x = CHR ''/'' \<and> glob_matches False g xs \<or> item_allows Segments x \<and> glob_matches True (Segments # g) xs))"
| "glob_matches up_to (Exactly c # g) s = (case s of [] \<Rightarrow> False | x # xs \<Rightarrow> item_allows (Exactly c) x \<and> glob_matches False g xs)"
| "glob_matches up_to (One_In_Segment # g) s =
     (case s of [] \<Rightarrow> False | x # xs \<Rightarrow> item_allows One_In_Segment x \<and> glob_matches False g xs)"
| "glob_matches up_to (Class n rs # g) s =
     (case s of [] \<Rightarrow> False | x # xs \<Rightarrow> item_allows (Class n rs) x \<and> glob_matches False g xs)"
  by pat_completeness auto

termination by (relation "measure (\<lambda>(u, g, s). length g + length s)") auto

definition match_glob :: "string \<Rightarrow> string \<Rightarrow> exn + bool" where
  "match_glob path pattern = bind_sum (glob_to_regex pattern) (\<lambda>g. Inr (glob_matches False g path))"

section \<open>Rules\<close>

record autodiscovery_rule =
  ar_id :: nat
  ar_connection :: nat
  ar_repo :: string
  ar_branch :: string
  ar_pattern :: string
  ar_ignore :: "string list"
  ar_name :: string
  ar_template :: string
  ar_enabled :: bool
  ar_execution_mode :: string
  ar_pool :: "nat option"
  ar_backend :: string
  ar_version :: string
  ar_cpu :: string
  ar_memory :: string
  ar_auto_apply :: bool
  ar_labels :: json
  ar_owner :: "string option"
  ar_var_files :: "string list"
  ar_task_templates :: "run_task list"
  ar_on_delete :: string

definition tf_extensions :: "string list" where
  "tf_extensions = [''.tf'', ''.tfvars'', ''.tf.json'', ''.tfvars.json'', ''.hcl'']"

definition ends_with :: "string \<Rightarrow> string \<Rightarrow> bool" where
  "ends_with s e \<longleftrightarrow> length e \<le> length s \<and> drop (length s - length e) s = e"

definition is_terraform_file :: "string \<Rightarrow> bool" where
  "is_terraform_file path \<longleftrightarrow> list_ex (ends_with path) tf_extensions"

fun is_ignored :: "string \<Rightarrow> string list \<Rightarrow> exn + bool" where
  "is_ignored path [] = Inr False"
| "is_ignored path (p # ps) = bind_sum (match_glob path p) (\<lambda>m. if m then Inr True else is_ignored path ps)"

definition rule_claims_path :: "autodiscovery_rule \<Rightarrow> string \<Rightarrow> exn + bool" where
  "rule_claims_path rule path =
     (if \<not> is_terraform_file path then Inr False
      else bind_sum (is_ignored path (ar_ignore rule)) (\<lambda>ignored.
        if ignored then Inr False else match_glob path (ar_pattern rule)))"

section \<open>Names\<close>

definition name_char :: "char \<Rightarrow> bool" where
  "name_char c \<longleftrightarrow> (let n = of_char c :: nat in
     48 \<le> n \<and> n \<le> 57 \<or> 65 \<le> n \<and> n \<le> 90 \<or> 97 \<le> n \<and> n \<le> 122) \<or> c = CHR ''_'' \<or> c = CHR ''-''"

fun sanitise :: "bool \<Rightarrow> string \<Rightarrow> string" where
  "sanitise bad [] = []"
| "sanitise bad (c # cs) =
     (if name_char c then c # sanitise False cs else if bad then sanitise True cs else CHR ''-'' # sanitise True cs)"

definition strip_dashes :: "string \<Rightarrow> string" where
  "strip_dashes s = rev (dropWhile (\<lambda>c. c = CHR ''-'') (rev (dropWhile (\<lambda>c. c = CHR ''-'') s)))"

function format_name :: "string \<Rightarrow> string \<Rightarrow> string \<Rightarrow> exn + string" where
  "format_name path dir [] = Inr []"
| "format_name path dir (c # cs) =
     (if c = CHR 0x7B then
        (if cs \<noteq> [] \<and> hd cs = CHR 0x7B then bind_sum (format_name path dir (tl cs)) (\<lambda>s. Inr (c # s))
         else if CHR 0x7D \<notin> set cs then Inl Format_Error
         else let field = takeWhile (\<lambda>x. x \<noteq> CHR 0x7D) cs; rest = tl (dropWhile (\<lambda>x. x \<noteq> CHR 0x7D) cs) in
           if field = ''path'' then bind_sum (format_name path dir rest) (\<lambda>s. Inr (path @ s))
           else if field = ''root'' then bind_sum (format_name path dir rest) (\<lambda>s. Inr (dir @ s))
           else Inl Format_Error)
      else if c = CHR 0x7D then
        (if cs \<noteq> [] \<and> hd cs = CHR 0x7D then bind_sum (format_name path dir (tl cs)) (\<lambda>s. Inr (c # s))
         else Inl Format_Error)
      else bind_sum (format_name path dir cs) (\<lambda>s. Inr (c # s)))"
  by pat_completeness auto

termination by (relation "measure (\<lambda>(p, r, s). length s)") (auto simp: dropWhile_shorter)

definition derive_workspace_name :: "autodiscovery_rule \<Rightarrow> string \<Rightarrow> exn + string" where
  "derive_workspace_name rule root_directory =
     (let replaced = map (\<lambda>c. if c = CHR ''/'' then CHR ''-'' else c) root_directory;
          dashed = (if replaced \<noteq> [] then replaced else ar_name rule)
      in bind_sum (if ar_template rule \<noteq> [] then format_name dashed root_directory (ar_template rule) else Inr dashed)
           (\<lambda>candidate. let name = take 90 (strip_dashes (sanitise False candidate))
              in Inr (if name \<noteq> [] then name else take 90 (ar_name rule))))"

end
