(* ===== verification/Discovery.thy ===== *)
theory Discovery
  imports DiscoveryRules
begin

text \<open>
  Finding or creating the workspaces of a rule, and the preview of a scan
  (\<open>services/workspace_autodiscovery_service.py\<close>).

  The columns of a workspace that only version control uses are kept beside the world (\<open>disc_columns\<close>), with the
  audit log and the comments sent to the provider. Text columns are taken to be wide enough; notification and hook
  templates, whose tables are not modelled, are left out. Between looking a workspace up and inserting it other
  transactions may commit: \<open>others\<close> is what they do.
\<close>

section \<open>Rows\<close>

record disc_columns =
  dc_directory :: string
  dc_prefixes :: "string list"
  dc_rule :: "nat option"
  dc_pr :: "int option"
  dc_branch :: string
  dc_last_sha :: string
  dc_var_files :: "string list"

record audit_row =
  au_action :: string
  au_workspace :: nat
  au_detail :: string

record disc_state =
  ds_world :: world
  ds_columns :: "nat \<Rightarrow> disc_columns"
  ds_audit :: "audit_row list"
  ds_comments :: "(int \<times> nat \<times> string) list"

definition select_ws :: "disc_state \<Rightarrow> (nat \<Rightarrow> workspace \<Rightarrow> disc_columns \<Rightarrow> bool) \<Rightarrow> nat list" where
  "select_ws s p = select (next_id (ds_world s)) (workspaces (ds_world s)) (\<lambda>i ws. p i ws (ds_columns s i))"

text \<open>\<open>scalar_one_or_none\<close>\<close>

definition one_or_none :: "'a list \<Rightarrow> exn + 'a option" where
  "one_or_none rows = (case rows of [] \<Rightarrow> Inr None | [x] \<Rightarrow> Inr (Some x) | _ \<Rightarrow> Inl Multiple_Rows)"

text \<open>The workspaces of the rule's repository at a directory.\<close>

definition in_repository :: "autodiscovery_rule \<Rightarrow> workspace \<Rightarrow> bool" where
  "in_repository rule ws \<longleftrightarrow> ws_vcs_connection (settings ws) = Some (ar_connection rule)
     \<and> ws_vcs_repo_url (settings ws) = ar_repo rule"

definition bound_workspaces :: "autodiscovery_rule \<Rightarrow> string \<Rightarrow> disc_state \<Rightarrow> nat list" where
  "bound_workspaces rule dir s = select_ws s (\<lambda>_ ws c. in_repository rule ws \<and> dc_directory c = dir)"

definition name_taken :: "string \<Rightarrow> disc_state \<Rightarrow> bool" where
  "name_taken name s \<longleftrightarrow> select_ws s (\<lambda>_ ws _. ws_name (settings ws) = name) \<noteq> []"

section \<open>Find or create\<close>

definition discovered_settings :: "autodiscovery_rule \<Rightarrow> string \<Rightarrow> ws_config" where
  "discovered_settings rule name =
     \<lparr>ws_name = name, ws_labels = fst (sanitize_labels (ar_labels rule)),
      ws_owner_email = (case ar_owner rule of None \<Rightarrow> [] | Some o' \<Rightarrow> o'),
      ws_execution_mode = ar_execution_mode rule, ws_auto_apply = ar_auto_apply rule, ws_backend = ar_backend rule,
      ws_version = ar_version rule, ws_tg_enabled = False, ws_tg_version = ''1.0'', ws_cpu = ar_cpu rule,
      ws_memory = ar_memory rule, ws_pool = ar_pool rule, ws_vcs_connection = Some (ar_connection rule),
      ws_vcs_repo_url = ar_repo rule, ws_vcs_workflow = ''merge_then_apply'', ws_plan_expiry = None,
      ws_drift_enabled = False, ws_drift_interval = 86400, ws_drift_rules = [], ws_catalog_item = None\<rparr>"

definition discovered_workspace :: "autodiscovery_rule \<Rightarrow> string \<Rightarrow> workspace" where
  "discovered_workspace rule name =
     \<lparr>settings = discovered_settings rule name, locked = False, lock_id = None, state_diverged = False,
      drift_status = [], drift_last_checked_at = None, drift_latest_run_id = None, lifecycle_state = ''active'',
      lifecycle_reason = Text []\<rparr>"

definition discovered_columns :: "autodiscovery_rule \<Rightarrow> string \<Rightarrow> string option \<Rightarrow> int option \<Rightarrow> disc_columns" where
  "discovered_columns rule dir baseline_sha pr =
     \<lparr>dc_directory = dir, dc_prefixes = (if dir \<noteq> [] then [dir] else []), dc_rule = Some (ar_id rule), dc_pr = pr,
      dc_branch = ar_branch rule, dc_last_sha = (case baseline_sha of None \<Rightarrow> [] | Some sha \<Rightarrow> sha),
      dc_var_files = ar_var_files rule\<rparr>"

definition add_task :: "nat \<Rightarrow> run_task \<Rightarrow> world \<Rightarrow> world" where
  "add_task ws_id t w = w\<lparr>run_tasks := (run_tasks w)(next_id w \<mapsto> t\<lparr>task_workspace := ws_id\<rparr>), next_id := Suc (next_id w)\<rparr>"

definition add_discovered ::
    "autodiscovery_rule \<Rightarrow> string \<Rightarrow> string \<Rightarrow> string option \<Rightarrow> int option \<Rightarrow> disc_state \<Rightarrow> disc_state" where
  "add_discovered rule name dir baseline_sha pr s =
     (let w = ds_world s; i = next_id w;
          w1 = w\<lparr>workspaces := (workspaces w)(i \<mapsto> discovered_workspace rule name), next_id := Suc i\<rparr>
      in s\<lparr>ds_world := fold (add_task i) (ar_task_templates rule) w1,
           ds_columns := (ds_columns s)(i := discovered_columns rule dir baseline_sha pr)\<rparr>)"

definition find_or_autocreate_workspace ::
    "(disc_state \<Rightarrow> disc_state) \<Rightarrow> autodiscovery_rule \<Rightarrow> string \<Rightarrow> string option \<Rightarrow> int option \<Rightarrow> disc_state
      \<Rightarrow> (exn, nat \<times> bool, disc_state) res" where
  "find_or_autocreate_workspace others rule dir baseline_sha pr s =
     (case one_or_none (bound_workspaces rule dir s) of
        Inl e \<Rightarrow> Raise e s
      | Inr (Some i) \<Rightarrow> Ret (i, False) s
      | Inr None \<Rightarrow>
     (case derive_workspace_name rule dir of
        Inl e \<Rightarrow> Raise e s
      | Inr name \<Rightarrow>
          if name_taken name s then Raise (Name_Collision name) s
          else let s1 = others s in
            if name_taken name s1 then
              (case one_or_none (bound_workspaces rule dir s1) of
                 Inl e \<Rightarrow> Raise e s1
               | Inr (Some i) \<Rightarrow> Ret (i, False) s1
               | Inr None \<Rightarrow> Raise Integrity_Error s1)
            else Ret (next_id (ds_world s1), True) (add_discovered rule name dir baseline_sha pr s1)))"

section \<open>The preview of a scan\<close>

text \<open>The dictionary of directories, each with the name of its workspace.\<close>

fun preview_roots :: "autodiscovery_rule \<Rightarrow> string list \<Rightarrow> (string \<times> string) list \<Rightarrow> exn + (string \<times> string) list" where
  "preview_roots rule [] roots = Inr roots"
| "preview_roots rule (path # rest) roots =
     (if \<not> ar_enabled rule then Inr roots
      else bind_sum (rule_claims_path rule path) (\<lambda>claimed.
        let dir = derive_root_directory path in
        if \<not> claimed \<or> dir \<in> fst ` set roots then preview_roots rule rest roots
        else bind_sum (derive_workspace_name rule dir) (\<lambda>name. preview_roots rule rest (roots @ [(dir, name)]))))"

record preview_row =
  pv_name :: string
  pv_directory :: string
  pv_collision :: bool
  pv_existing :: bool

definition preview_of :: "autodiscovery_rule \<Rightarrow> disc_state \<Rightarrow> string \<times> string \<Rightarrow> preview_row" where
  "preview_of rule s dn =
     (let bound = bound_workspaces rule (fst dn) s in
      \<lparr>pv_name = snd dn, pv_directory = fst dn, pv_collision = (bound \<noteq> [] \<or> name_taken (snd dn) s),
       pv_existing = (bound \<noteq> [] \<and> dc_rule (ds_columns s (last bound)) = Some (ar_id rule))\<rparr>)"

definition preview_for_paths :: "autodiscovery_rule \<Rightarrow> string list \<Rightarrow> disc_state \<Rightarrow> exn + preview_row list" where
  "preview_for_paths rule file_paths s =
     bind_sum (preview_roots rule file_paths []) (\<lambda>roots. Inr (sort_key pv_directory (map (preview_of rule s) roots)))"

section \<open>A scan\<close>

fun first_claim :: "autodiscovery_rule list \<Rightarrow> string \<Rightarrow> exn + autodiscovery_rule option" where
  "first_claim [] path = Inr None"
| "first_claim (rule # rules) path =
     (if \<not> ar_enabled rule then first_claim rules path
      else bind_sum (rule_claims_path rule path) (\<lambda>claimed. if claimed then Inr (Some rule) else first_claim rules path))"

type_synonym matches = "((nat \<times> string) \<times> autodiscovery_rule) list"

fun collect_matches :: "autodiscovery_rule list \<Rightarrow> string set \<Rightarrow> string list \<Rightarrow> matches \<Rightarrow> exn + matches" where
  "collect_matches rules skip_roots [] found = Inr found"
| "collect_matches rules skip_roots (path # rest) found =
     bind_sum (first_claim rules path) (\<lambda>claim.
       let dir = derive_root_directory path in
       case claim of
         None \<Rightarrow> collect_matches rules skip_roots rest found
       | Some rule \<Rightarrow>
           if dir \<in> skip_roots then collect_matches rules skip_roots rest found
           else collect_matches rules skip_roots rest (AList.update (ar_id rule, dir) rule found))"

fun create_matches ::
    "(string \<Rightarrow> disc_state \<Rightarrow> disc_state) \<Rightarrow> string option \<Rightarrow> int option \<Rightarrow> matches \<Rightarrow> disc_state
      \<Rightarrow> (exn, nat list, disc_state) res" where
  "create_matches others baseline_sha pr [] s = Ret [] s"
| "create_matches others baseline_sha pr (((_, dir), rule) # rest) s =
     (case find_or_autocreate_workspace (others dir) rule dir baseline_sha pr s of
        Ret (i, created) s1 \<Rightarrow>
          bind_res (create_matches others baseline_sha pr rest s1) (\<lambda>is. Ret (if created then i # is else is))
      | Raise e s1 \<Rightarrow>
          (case e of Name_Collision _ \<Rightarrow> create_matches others baseline_sha pr rest s1 | _ \<Rightarrow> Raise e s1))"

definition autodiscover_for_paths ::
    "(string \<Rightarrow> disc_state \<Rightarrow> disc_state) \<Rightarrow> autodiscovery_rule list \<Rightarrow> string list \<Rightarrow> string option \<Rightarrow> int option
      \<Rightarrow> string set \<Rightarrow> disc_state \<Rightarrow> (exn, nat list, disc_state) res" where
  "autodiscover_for_paths others rules changed_files baseline_sha pr skip_roots s =
     (case collect_matches rules skip_roots changed_files [] of
        Inl e \<Rightarrow> Raise e s
      | Inr found \<Rightarrow> create_matches others baseline_sha pr found s)"

end
