(* ===== verification/DiscoveryLifecycle.thy ===== *)
theory DiscoveryLifecycle
  imports Discovery
begin

text \<open>
  The lifecycle of autodiscovered workspaces (\<open>services/autodiscovery_lifecycle_service.py\<close>): what a diff says about
  directories, what an open pull request shows, what an advance of the tracked branch does to the workspaces
  of renamed and deleted directories, and what becomes of workspaces whose pull request was closed.

  The session does not flush before queries. A session is therefore two states: \<open>sn_flushed\<close>, in which
  \<open>WHERE\<close> clauses are evaluated, and \<open>sn_now\<close>, with the pending changes, in which attributes are read. A flush
  refuses two workspaces with one name. Texts for people are abbreviated. The provider's answers are in \<open>disc_env\<close>: the files of a branch as they are
  listed for a directory (\<open>None\<close> when the call raises or the tree is truncated) and the state of a pull
  request. Posting a comment may fail without effect here; \<open>ds_comments\<close> records the attempts.
\<close>

section \<open>What a diff says\<close>

record file_change =
  fc_status :: string
  fc_path :: string
  fc_old_path :: string

record dir_changes =
  dc_deleted :: "string set"
  dc_renamed :: "(string \<times> string) list"
  dc_ambiguous :: "string set"

type_synonym dir_files = "(string \<times> string list) list"

definition add_file :: "string \<Rightarrow> string \<Rightarrow> dir_files \<Rightarrow> dir_files" where
  "add_file dir file m = AList.update dir (List.insert file (case map_of m dir of None \<Rightarrow> [] | Some fs \<Rightarrow> fs)) m"

record scan =
  removed_files :: dir_files
  added_files :: dir_files
  present :: "string set"
  rename_map :: dir_files

definition scan_change :: "file_change \<Rightarrow> scan \<Rightarrow> scan" where
  "scan_change fc sc =
     (let dir = derive_root_directory (fc_path fc); file = path_name (fc_path fc);
          old_dir = derive_root_directory (fc_old_path fc); old_file = path_name (fc_old_path fc)
      in if fc_status fc = ''removed'' then sc\<lparr>removed_files := add_file dir file (removed_files sc)\<rparr>
         else if fc_status fc = ''renamed'' then
           (let sc1 = sc\<lparr>present := insert dir (present sc), added_files := add_file dir file (added_files sc)\<rparr>
            in if old_dir \<noteq> dir
               then sc1\<lparr>rename_map := add_file old_dir dir (rename_map sc1),
                 removed_files := add_file old_dir old_file (removed_files sc1)\<rparr>
               else sc1)
         else if fc_status fc = ''added'' then
           sc\<lparr>present := insert dir (present sc), added_files := add_file dir file (added_files sc)\<rparr>
         else sc\<lparr>present := insert dir (present sc)\<rparr>)"

definition scan_changes :: "file_change list \<Rightarrow> scan" where
  "scan_changes changes =
     fold scan_change changes \<lparr>removed_files = [], added_files = [], present = {}, rename_map = []\<rparr>"

text \<open>Renames the provider reports: a directory whose files went to exactly one other.\<close>

definition clean_rename :: "scan \<Rightarrow> string \<times> string list \<Rightarrow> bool" where
  "clean_rename sc e \<longleftrightarrow> length (snd e) = 1 \<and> fst e \<notin> present sc"

definition reported_renames :: "scan \<Rightarrow> (string \<times> string) list" where
  "reported_renames sc = map (\<lambda>e. (fst e, hd (snd e))) (filter (clean_rename sc) (rename_map sc))"

definition reported_ambiguous :: "scan \<Rightarrow> string set" where
  "reported_ambiguous sc = set (map fst (filter (\<lambda>e. \<not> clean_rename sc e) (rename_map sc)))"

text \<open>Renames inferred from equal sets of file names, for merges that report moves as removals and additions.\<close>

record inference =
  if_renamed :: "(string \<times> string) list"
  if_ambiguous :: "string set"
  if_handled :: "string set"
  if_used :: "string set"

definition rename_candidates :: "scan \<Rightarrow> string \<Rightarrow> string list \<Rightarrow> string set \<Rightarrow> string list" where
  "rename_candidates sc a files used =
     map fst (filter (\<lambda>(b, fs). b \<noteq> a \<and> b \<notin> used \<and> set fs = set files) (added_files sc))"

definition infer_rename :: "scan \<Rightarrow> string \<times> string list \<Rightarrow> inference \<Rightarrow> inference" where
  "infer_rename sc e st =
     (let a = fst e; files = snd e in
      if a \<in> if_handled st \<or> a = [] \<or> files = [] \<or> a \<in> present sc then st
      else case rename_candidates sc a files (if_used st) of
             [] \<Rightarrow> st
           | [b] \<Rightarrow> st\<lparr>if_renamed := if_renamed st @ [(a, b)], if_used := insert b (if_used st),
               if_handled := insert a (if_handled st)\<rparr>
           | _ \<Rightarrow> st\<lparr>if_ambiguous := insert a (if_ambiguous st), if_handled := insert a (if_handled st)\<rparr>)"

definition classify_dir_changes :: "file_change list \<Rightarrow> dir_changes" where
  "classify_dir_changes changes =
     (let sc = scan_changes changes; renamed = reported_renames sc; ambiguous = reported_ambiguous sc;
          st = fold (infer_rename sc) (removed_files sc)
            \<lparr>if_renamed = renamed, if_ambiguous = ambiguous, if_handled = set (map fst renamed) \<union> ambiguous,
             if_used = set (map snd renamed)\<rparr>;
          sources = set (map fst (if_renamed st)) \<union> if_ambiguous st
      in \<lparr>dc_deleted = set (map fst (filter (\<lambda>(d, files). files \<noteq> [] \<and> d \<noteq> [] \<and> d \<notin> present sc \<and> d \<notin> sources)
            (removed_files sc))),
          dc_renamed = if_renamed st, dc_ambiguous = if_ambiguous st\<rparr>)"

section \<open>Sessions\<close>

record session =
  sn_flushed :: disc_state
  sn_now :: disc_state

type_synonym 'a session_handler = "session \<Rightarrow> (exn, 'a, session) res"

definition on_now :: "(disc_state \<Rightarrow> disc_state) \<Rightarrow> session \<Rightarrow> session" where
  "on_now f s = s\<lparr>sn_now := f (sn_now s)\<rparr>"

definition names_unique :: "world \<Rightarrow> bool" where
  "names_unique w \<longleftrightarrow> distinct (map (\<lambda>i. ws_name (settings (the (workspaces w i))))
     (select (next_id w) (workspaces w) (\<lambda>_ _. True)))"

definition flush :: "unit session_handler" where
  "flush s = (if names_unique (ds_world (sn_now s)) then Ret () (s\<lparr>sn_flushed := sn_now s\<rparr>) else Raise Integrity_Error s)"

definition set_ws :: "nat \<Rightarrow> (workspace \<Rightarrow> workspace) \<Rightarrow> (disc_columns \<Rightarrow> disc_columns) \<Rightarrow> disc_state \<Rightarrow> disc_state" where
  "set_ws i f g s = s\<lparr>ds_world := put_ws i f (ds_world s), ds_columns := (ds_columns s)(i := g (ds_columns s i))\<rparr>"

definition audit :: "string \<Rightarrow> nat \<Rightarrow> string \<Rightarrow> disc_state \<Rightarrow> disc_state" where
  "audit action i detail s = s\<lparr>ds_audit := ds_audit s @ [\<lparr>au_action = action, au_workspace = i, au_detail = detail\<rparr>]\<rparr>"

definition retire :: "nat \<Rightarrow> string \<Rightarrow> string \<Rightarrow> disc_state \<Rightarrow> disc_state" where
  "retire i st reason = set_ws i (\<lambda>ws. ws\<lparr>lifecycle_state := st, lifecycle_reason := Text reason\<rparr>) (\<lambda>c. c)"

text \<open>\<open>create_run\<close> adds the run and flushes; its notifications follow the flush.\<close>

definition create_run_in :: "env \<Rightarrow> nat \<Rightarrow> run_request \<Rightarrow> nat session_handler" where
  "create_run_in e i rq s =
     (if \<not> names_unique (ds_world (sn_now s)) then Raise Integrity_Error s
      else case create_run e i (the (workspaces (ds_world (sn_now s)) i)) rq (ds_world (sn_now s)) of
        (j, w) \<Rightarrow> let d = (sn_now s)\<lparr>ds_world := w\<rparr> in Ret j \<lparr>sn_flushed = d, sn_now = d\<rparr>)"

section \<open>Looking up workspaces\<close>

definition autodiscovered_ws :: "autodiscovery_rule \<Rightarrow> string \<Rightarrow> disc_state \<Rightarrow> exn + nat option" where
  "autodiscovered_ws rule dir s = one_or_none (select_ws s (\<lambda>_ ws c. dc_rule c = Some (ar_id rule) \<and> in_repository rule ws
     \<and> dc_directory c = dir \<and> lifecycle_state ws = ''active''))"

definition ws_has_state :: "disc_state \<Rightarrow> nat \<Rightarrow> bool" where
  "ws_has_state s i \<longleftrightarrow>
     0 < length (select (next_id (ds_world s)) (state_versions (ds_world s)) (\<lambda>_ sv. sv_workspace sv = i))"

definition others_at :: "autodiscovery_rule \<Rightarrow> string \<Rightarrow> nat \<Rightarrow> disc_state \<Rightarrow> nat list" where
  "others_at rule dir keep s = select_ws s (\<lambda>i ws c. in_repository rule ws \<and> dc_directory c = dir \<and> i \<noteq> keep
     \<and> lifecycle_state ws \<noteq> ''archived'')"

definition absorbable_speculative_dup :: "autodiscovery_rule \<Rightarrow> string \<Rightarrow> nat \<Rightarrow> session \<Rightarrow> nat option" where
  "absorbable_speculative_dup rule dir keep s =
     (case others_at rule dir keep (sn_flushed s) of
        [i] \<Rightarrow> (let c = ds_columns (sn_now s) i in
          if dc_rule c = Some (ar_id rule) \<and> dc_pr c \<noteq> None \<and> \<not> ws_has_state (sn_flushed s) i then Some i else None)
      | _ \<Rightarrow> None)"

text \<open>With the handler of a found workspace, as every loop does.\<close>

definition with_found :: "autodiscovery_rule \<Rightarrow> string \<Rightarrow> (nat \<Rightarrow> unit session_handler) \<Rightarrow> unit session_handler" where
  "with_found rule dir k s =
     (case autodiscovered_ws rule dir (sn_flushed s) of
        Inl e \<Rightarrow> Raise e s
      | Inr None \<Rightarrow> Ret () s
      | Inr (Some i) \<Rightarrow> k i s)"

fun for_each :: "('x \<Rightarrow> unit session_handler) \<Rightarrow> 'x list \<Rightarrow> unit session_handler" where
  "for_each f [] s = Ret () s"
| "for_each f (x # xs) s = bind_res (f x s) (\<lambda>_. for_each f xs)"

text \<open>The new sides of renames whose old side has a workspace.\<close>

fun any_found :: "autodiscovery_rule list \<Rightarrow> string \<Rightarrow> disc_state \<Rightarrow> exn + bool" where
  "any_found [] dir s = Inr False"
| "any_found (rule # rules) dir s =
     bind_sum (autodiscovered_ws rule dir s) (\<lambda>i. if i \<noteq> None then Inr True else any_found rules dir s)"

fun suppress_loop :: "autodiscovery_rule list \<Rightarrow> disc_state \<Rightarrow> (string \<times> string) list \<Rightarrow> exn + string set" where
  "suppress_loop rules s [] = Inr {}"
| "suppress_loop rules s ((old, new) # rest) =
     bind_sum (any_found rules old s) (\<lambda>found. bind_sum (suppress_loop rules s rest) (\<lambda>dirs.
       Inr (if found then insert new dirs else dirs)))"

definition rename_target_dirs_to_suppress ::
    "autodiscovery_rule list \<Rightarrow> file_change list option \<Rightarrow> disc_state \<Rightarrow> exn + string set" where
  "rename_target_dirs_to_suppress rules changes s =
     (case changes of None \<Rightarrow> Inr {} | Some fcs \<Rightarrow> suppress_loop rules s (dc_renamed (classify_dir_changes fcs)))"

section \<open>An open pull request\<close>

definition LIFECYCLE_SOURCE :: string where
  "LIFECYCLE_SOURCE = ''autodiscovery-lifecycle''"

definition notify_once :: "int \<Rightarrow> nat \<Rightarrow> string \<Rightarrow> string \<Rightarrow> unit session_handler" where
  "notify_once pr i head_sha kind s =
     (let detail = kind @ '':'' @ head_sha;
          seen = filter (\<lambda>a. au_action a = ''autodiscovery.notified'' \<and> au_workspace a = i \<and> au_detail a = detail)
            (ds_audit (sn_flushed s))
      in case one_or_none seen of
           Inl e \<Rightarrow> Raise e s
         | Inr (Some _) \<Rightarrow> Ret () s
         | Inr None \<Rightarrow> Ret () (on_now (\<lambda>d. audit ''autodiscovery.notified'' i detail
             (d\<lparr>ds_comments := ds_comments d @ [(pr, i, kind)]\<rparr>)) s))"

definition speculative_destroys :: "nat \<Rightarrow> string \<Rightarrow> world \<Rightarrow> nat list" where
  "speculative_destroys i head_sha w = select_runs w (\<lambda>_ r. workspace_id r = i \<and> rc_vcs_sha (config r) = head_sha
     \<and> rc_is_destroy (config r) \<and> plan_only r)"

definition speculative_request :: "string \<Rightarrow> int \<Rightarrow> run_request" where
  "speculative_request dir pr = default_request\<lparr>
     rq_message := Text (''Speculative destroy plan: '' @ dir @ '' removed in PR #'' @ show_int pr), rq_is_destroy := True,
     rq_plan_only := True, rq_source := LIFECYCLE_SOURCE, rq_created_by := ''autodiscovery-lifecycle''\<rparr>"

definition show_deleted :: "env \<Rightarrow> autodiscovery_rule \<Rightarrow> int \<Rightarrow> string \<Rightarrow> string \<Rightarrow> unit session_handler" where
  "show_deleted e rule pr head_sha dir = with_found rule dir (\<lambda>i s.
     bind_res
       (case one_or_none (speculative_destroys i head_sha (ds_world (sn_flushed s))) of
          Inl err \<Rightarrow> Raise err s
        | Inr (Some _) \<Rightarrow> Ret () s
        | Inr None \<Rightarrow> bind_res (create_run_in e i (speculative_request dir pr) s) (\<lambda>j s1.
            Ret () (on_now (\<lambda>d. d\<lparr>ds_world := put_run j (\<lambda>r. r\<lparr>config := (config r)\<lparr>rc_vcs_sha := head_sha,
              rc_pr := Some pr\<rparr>\<rparr>) (ds_world d)\<rparr>) s1)))
       (\<lambda>_. notify_once pr i head_sha ''deleted''))"

definition reconcile_open_pr ::
    "env \<Rightarrow> autodiscovery_rule \<Rightarrow> int \<Rightarrow> string \<Rightarrow> file_change list option \<Rightarrow> unit session_handler" where
  "reconcile_open_pr e rule pr head_sha changes s =
     (case changes of None \<Rightarrow> Ret () s
      | Some fcs \<Rightarrow>
          let cls = classify_dir_changes fcs in
          bind_res (for_each (show_deleted e rule pr head_sha) (sorted_list_of_set (dc_deleted cls)) s) (\<lambda>_ s1.
          bind_res (for_each (\<lambda>(old, _). with_found rule old (\<lambda>i. notify_once pr i head_sha ''renamed'')) (dc_renamed cls) s1)
            (\<lambda>_. for_each (\<lambda>d. with_found rule d (\<lambda>i. notify_once pr i head_sha ''ambiguous''))
               (sorted_list_of_set (dc_ambiguous cls)))))"

section \<open>The tracked branch advances\<close>

record pull =
  pl_merged :: bool
  pl_state :: string

record disc_env =
  dn_tree :: "string \<Rightarrow> string \<Rightarrow> string list option"
  dn_pull :: "int \<Rightarrow> pull option"
  dn_short :: "nat \<Rightarrow> string"

definition rstrip_slash :: "string \<Rightarrow> string" where
  "rstrip_slash p = rev (dropWhile (\<lambda>c. c = CHR ''/'') (rev p))"

definition starts_with :: "string \<Rightarrow> string \<Rightarrow> bool" where
  "starts_with s p \<longleftrightarrow> take (length p) s = p"

definition dir_absent_on_branch :: "disc_env \<Rightarrow> string \<Rightarrow> string \<Rightarrow> bool" where
  "dir_absent_on_branch dn branch dir =
     (case dn_tree dn branch dir of
        None \<Rightarrow> False
      | Some tree \<Rightarrow> \<not> list_ex (\<lambda>p. p = dir \<or> starts_with p (rstrip_slash dir @ ''/'')) tree)"

definition absorb :: "disc_env \<Rightarrow> string \<Rightarrow> string \<Rightarrow> nat \<Rightarrow> disc_state \<Rightarrow> disc_state" where
  "absorb dn old new i s = audit ''autodiscovery.speculative_dup_absorbed'' i (''absorbed into rename move '' @ old @ '' -> '' @ new)
     (set_ws i
       (\<lambda>ws. ws\<lparr>lifecycle_state := ''archived'',
          lifecycle_reason := Text (''superseded by in-place rename move of '' @ old @ '' -> '' @ new),
          settings := (settings ws)\<lparr>ws_name := take 90 (ws_name (settings ws) @ ''-superseded-'' @ dn_short dn i)\<rparr>\<rparr>)
       (\<lambda>c. c\<lparr>dc_directory := new @ ''#superseded-'' @ dn_short dn i, dc_prefixes := []\<rparr>) s)"

definition move_ws :: "autodiscovery_rule \<Rightarrow> string \<Rightarrow> string \<Rightarrow> nat \<Rightarrow> unit session_handler" where
  "move_ws rule old new i s =
     (let s1 = on_now (set_ws i (\<lambda>ws. ws) (\<lambda>c. c\<lparr>dc_directory := new, dc_prefixes := (if new \<noteq> [] then [new] else [])\<rparr>)) s
      in case (if ar_template rule = [] then Inr None else map_sum id Some (derive_workspace_name rule new)) of
           Inl e \<Rightarrow> Raise e s1
         | Inr name \<Rightarrow> Ret () (on_now (\<lambda>d. audit ''autodiscovery.workspace_moved'' i (old @ '' -> '' @ new)
             (case name of None \<Rightarrow> d
              | Some n \<Rightarrow> set_ws i (\<lambda>ws. ws\<lparr>settings := (settings ws)\<lparr>ws_name := n\<rparr>\<rparr>) (\<lambda>c. c) d)) s1))"

definition apply_rename :: "disc_env \<Rightarrow> autodiscovery_rule \<Rightarrow> string \<times> string \<Rightarrow> unit session_handler" where
  "apply_rename dn rule on = (case on of (old, new) \<Rightarrow> with_found rule old (\<lambda>i s.
     case absorbable_speculative_dup rule new i s of
       Some dup \<Rightarrow> bind_res (flush (on_now (absorb dn old new dup) s)) (\<lambda>_. move_ws rule old new i)
     | None \<Rightarrow>
         (case one_or_none (others_at rule new i (sn_flushed s)) of
            Inl e \<Rightarrow> Raise e s
          | Inr (Some _) \<Rightarrow>
              let reason = ''rename '' @ old @ ''->'' @ new @ '' but a workspace already owns '' @ new in
              Ret () (on_now (\<lambda>d. audit ''autodiscovery.rename_conflict'' i reason (retire i ''pending_deletion'' reason d)) s)
          | Inr None \<Rightarrow> move_ws rule old new i s)))"

definition live_destroys :: "nat \<Rightarrow> world \<Rightarrow> nat list" where
  "live_destroys i w = select_runs w (\<lambda>_ r. workspace_id r = i \<and> rc_is_destroy (config r) \<and> \<not> plan_only r
     \<and> rc_source (config r) = LIFECYCLE_SOURCE \<and> status r \<notin> {Errored, Canceled, Discarded})"

definition destroy_request :: "string \<Rightarrow> run_request" where
  "destroy_request dir = default_request\<lparr>rq_message := Text (''Autodiscovery: '' @ dir @ '' removed, destroying (rule opt-in)''),
     rq_is_destroy := True, rq_plan_only := False, rq_auto_apply := Some True, rq_source := LIFECYCLE_SOURCE,
     rq_created_by := ''autodiscovery-lifecycle''\<rparr>"

definition apply_deletion ::
    "env \<Rightarrow> disc_env \<Rightarrow> autodiscovery_rule \<Rightarrow> string \<Rightarrow> dir_changes \<Rightarrow> string \<Rightarrow> unit session_handler" where
  "apply_deletion e dn rule branch cls dir = with_found rule dir (\<lambda>i s.
     if \<not> dir_absent_on_branch dn branch dir then Ret () s
     else if dir \<in> dc_ambiguous cls \<or> ar_on_delete rule \<noteq> ''destroy'' then
       let reason = ''directory '' @ dir @ '' removed on '' @ branch in
       Ret () (on_now (\<lambda>d. audit ''autodiscovery.pending_deletion'' i reason (retire i ''pending_deletion'' reason d)) s)
     else case one_or_none (live_destroys i (ds_world (sn_flushed s))) of
       Inl err \<Rightarrow> Raise err s
     | Inr (Some _) \<Rightarrow> Ret () s
     | Inr None \<Rightarrow> bind_res (create_run_in e i (destroy_request dir) s) (\<lambda>j s1.
         Ret () (on_now (\<lambda>d. audit ''autodiscovery.destroy_queued'' i
             (''directory '' @ dir @ '' removed; destroy run '' @ uuid_str e j @ '' queued'')
           (set_ws i (\<lambda>ws. ws\<lparr>lifecycle_reason := Text (''destroy queued (run '' @ uuid_str e j @ ''), '' @ dir @ '' removed'')\<rparr>)
             (\<lambda>c. c) d)) s1)))"

definition reconcile_branch_advance ::
    "env \<Rightarrow> disc_env \<Rightarrow> autodiscovery_rule \<Rightarrow> string \<Rightarrow> file_change list option \<Rightarrow> unit session_handler" where
  "reconcile_branch_advance e dn rule branch changes s =
     (case changes of None \<Rightarrow> Ret () s
      | Some fcs \<Rightarrow>
          let cls = classify_dir_changes fcs in
          bind_res (for_each (apply_rename dn rule) (dc_renamed cls) s)
            (\<lambda>_. for_each (apply_deletion e dn rule branch cls) (sorted_list_of_set (dc_deleted cls \<union> dc_ambiguous cls))))"

text \<open>The poller commits it, or rolls back what it raised; Redis and the provider keep what reached them.\<close>

definition branch_advanced ::
    "env \<Rightarrow> disc_env \<Rightarrow> autodiscovery_rule \<Rightarrow> string \<Rightarrow> file_change list option \<Rightarrow> disc_state \<Rightarrow> disc_state" where
  "branch_advanced e dn rule branch changes d =
     (case bind_res (reconcile_branch_advance e dn rule branch changes \<lparr>sn_flushed = d, sn_now = d\<rparr>) (\<lambda>_. flush) of
        Ret _ s \<Rightarrow> sn_now s
      | Raise _ s \<Rightarrow> d\<lparr>ds_world := (ds_world d)\<lparr>store := store (ds_world (sn_now s))\<rparr>, ds_comments := ds_comments (sn_now s)\<rparr>)"

section \<open>Orphans\<close>

definition lower_char :: "char \<Rightarrow> char" where
  "lower_char c = (let n = of_char c :: nat in if 65 \<le> n \<and> n \<le> 90 then char_of (n + 32) else c)"

definition reconcile_orphan :: "disc_env \<Rightarrow> string \<Rightarrow> nat \<Rightarrow> int \<Rightarrow> session \<Rightarrow> session" where
  "reconcile_orphan dn branch i pr s =
     (case dn_pull dn pr of
        None \<Rightarrow> s
      | Some pull \<Rightarrow>
          if pl_merged pull then
            on_now (\<lambda>d. set_ws i (\<lambda>ws. ws) (\<lambda>c. c\<lparr>dc_pr := None\<rparr>)
              (audit ''autodiscovery.graduated'' i (''origin PR #'' @ show_int pr @ '' merged'') d)) s
          else if map lower_char (pl_state pull) \<in> {''open'', ''opened''} then s
          else if \<not> dir_absent_on_branch dn branch (dc_directory (ds_columns (sn_now s) i)) then s
          else if ws_has_state (sn_flushed s) i then
            (let reason = ''origin PR #'' @ show_int pr @ '' closed unmerged; workspace has state'' in
             on_now (\<lambda>d. audit ''autodiscovery.pending_deletion'' i reason (retire i ''pending_deletion'' reason d)) s)
          else
            (let reason = ''origin PR #'' @ show_int pr @ '' closed unmerged; never applied'' in
             on_now (\<lambda>d. audit ''autodiscovery.archived'' i reason (retire i ''archived'' reason d)) s))"

definition speculative_workspaces :: "autodiscovery_rule \<Rightarrow> disc_state \<Rightarrow> nat list" where
  "speculative_workspaces rule s = select_ws s (\<lambda>_ ws c. dc_rule c = Some (ar_id rule) \<and> in_repository rule ws
     \<and> lifecycle_state ws = ''active'' \<and> dc_pr c \<noteq> None)"

definition reconcile_orphans :: "disc_env \<Rightarrow> autodiscovery_rule \<Rightarrow> string \<Rightarrow> int set \<Rightarrow> session \<Rightarrow> session" where
  "reconcile_orphans dn rule branch open_prs s =
     fold (\<lambda>i s'. case dc_pr (ds_columns (sn_now s') i) of
             None \<Rightarrow> s'
           | Some pr \<Rightarrow> if pr \<in> open_prs then s' else reconcile_orphan dn branch i pr s')
       (speculative_workspaces rule (sn_flushed s)) s"

end
