(* ===== verification/DiscoveryVerdict.thy ===== *)
theory DiscoveryVerdict
  imports DiscoveryLifecycle
begin

text \<open>
  What the classification of a diff means, in terms of its changes: which directories may count as deleted,
  and what a rename is.
\<close>

section \<open>What the scan collects\<close>

definition files_of :: "dir_files \<Rightarrow> string \<Rightarrow> string list" where
  "files_of m d = (case map_of m d of None \<Rightarrow> [] | Some fs \<Rightarrow> fs)"

definition dir_files_ok :: "dir_files \<Rightarrow> bool" where
  "dir_files_ok m \<longleftrightarrow> distinct (map fst m) \<and> (\<forall>e\<in>set m. distinct (snd e) \<and> snd e \<noteq> [])"

lemma files_of_add: "files_of (add_file d f m) d' = (if d' = d then List.insert f (files_of m d) else files_of m d')"
  by (simp add: files_of_def add_file_def)

lemma add_file_keys [simp]: "fst ` set (add_file d f m) = insert d (fst ` set m)"
  by (simp add: add_file_def alist_update_keys)

lemma dir_files_ok_add: "dir_files_ok m \<Longrightarrow> dir_files_ok (add_file d f m)"
proof -
  assume ok: "dir_files_ok m"
  then have keys: "distinct (map fst (add_file d f m))" by (simp add: dir_files_ok_def add_file_def distinct_update)
  have "distinct fs \<and> fs \<noteq> []" if "(k, fs) \<in> set (add_file d f m)" for k fs
  proof -
    have "map_of (add_file d f m) k = Some fs" using that keys by simp
    then have "k = d \<and> fs = List.insert f (files_of m d) \<or> map_of m k = Some fs"
      by (auto simp: add_file_def files_of_def split: if_splits)
    moreover have "distinct (files_of m d)"
      using ok by (auto simp: files_of_def dir_files_ok_def dest: map_of_SomeD split: option.split)
    moreover have "List.insert f (files_of m d) \<noteq> []" by (cases "files_of m d") (auto simp: List.insert_def)
    ultimately show ?thesis using ok by (auto simp: dir_files_ok_def dest: map_of_SomeD)
  qed
  with keys show ?thesis by (auto simp: dir_files_ok_def)
qed

lemma files_of_member: "dir_files_ok m \<Longrightarrow> (d, fs) \<in> set m \<longleftrightarrow> fs \<noteq> [] \<and> files_of m d = fs"
proof -
  assume ok: "dir_files_ok m"
  then have "(d, fs) \<in> set m \<longleftrightarrow> map_of m d = Some fs" by (simp add: dir_files_ok_def)
  moreover have "fs \<noteq> []" if "map_of m d = Some fs" for fs
    using ok map_of_SomeD [OF that] by (auto simp: dir_files_ok_def)
  ultimately show ?thesis by (auto simp: files_of_def split: option.splits)
qed

text \<open>The same in terms of the changes.\<close>

abbreviation new_dir :: "file_change \<Rightarrow> string" where "new_dir fc \<equiv> derive_root_directory (fc_path fc)"
abbreviation old_dir :: "file_change \<Rightarrow> string" where "old_dir fc \<equiv> derive_root_directory (fc_old_path fc)"

definition moved_away :: "file_change \<Rightarrow> bool" where
  "moved_away fc \<longleftrightarrow> fc_status fc = ''renamed'' \<and> old_dir fc \<noteq> new_dir fc"

definition names_removed :: "file_change list \<Rightarrow> string \<Rightarrow> string set" where
  "names_removed changes d =
     {path_name (fc_path fc) |fc. fc \<in> set changes \<and> fc_status fc = ''removed'' \<and> new_dir fc = d}
   \<union> {path_name (fc_old_path fc) |fc. fc \<in> set changes \<and> moved_away fc \<and> old_dir fc = d}"

definition names_added :: "file_change list \<Rightarrow> string \<Rightarrow> string set" where
  "names_added changes d =
     {path_name (fc_path fc) |fc. fc \<in> set changes \<and> fc_status fc \<in> {''added'', ''renamed''} \<and> new_dir fc = d}"

definition dirs_present :: "file_change list \<Rightarrow> string set" where
  "dirs_present changes = {new_dir fc |fc. fc \<in> set changes \<and> fc_status fc \<noteq> ''removed''}"

definition moved_to :: "file_change list \<Rightarrow> string \<Rightarrow> string set" where
  "moved_to changes d = {new_dir fc |fc. fc \<in> set changes \<and> moved_away fc \<and> old_dir fc = d}"

definition scan_ok :: "file_change list \<Rightarrow> scan \<Rightarrow> bool" where
  "scan_ok changes sc \<longleftrightarrow> dir_files_ok (removed_files sc) \<and> dir_files_ok (added_files sc) \<and> dir_files_ok (rename_map sc)
     \<and> (\<forall>d. set (files_of (removed_files sc) d) = names_removed changes d)
     \<and> (\<forall>d. set (files_of (added_files sc) d) = names_added changes d)
     \<and> (\<forall>d. set (files_of (rename_map sc) d) = moved_to changes d)
     \<and> present sc = dirs_present changes"

lemma snoc_sets:
  "names_removed (changes @ [fc]) d = names_removed changes d
     \<union> (if fc_status fc = ''removed'' \<and> new_dir fc = d then {path_name (fc_path fc)} else {})
     \<union> (if moved_away fc \<and> old_dir fc = d then {path_name (fc_old_path fc)} else {})"
  "names_added (changes @ [fc]) d = names_added changes d
     \<union> (if fc_status fc \<in> {''added'', ''renamed''} \<and> new_dir fc = d then {path_name (fc_path fc)} else {})"
  "dirs_present (changes @ [fc]) = dirs_present changes \<union> (if fc_status fc \<noteq> ''removed'' then {new_dir fc} else {})"
  "moved_to (changes @ [fc]) d = moved_to changes d \<union> (if moved_away fc \<and> old_dir fc = d then {new_dir fc} else {})"
  unfolding names_removed_def names_added_def dirs_present_def moved_to_def by auto

lemma scan_change_ok: "scan_ok changes sc \<Longrightarrow> scan_ok (changes @ [fc]) (scan_change fc sc)"
  unfolding scan_ok_def snoc_sets
  by (auto simp: scan_change_def Let_def moved_away_def files_of_add dir_files_ok_add)

lemma scan_changes_ok: "scan_ok changes (scan_changes changes)"
proof (induction changes rule: rev_induct)
  case Nil
  show ?case by (simp add: scan_ok_def scan_changes_def dir_files_ok_def files_of_def names_removed_def names_added_def
        moved_to_def dirs_present_def)
next
  case (snoc fc changes)
  then show ?case using scan_change_ok by (simp add: scan_changes_def)
qed

section \<open>Renames\<close>

text \<open>A directory that counts as renamed has left the diff, and its files went to one other directory.\<close>

definition reported_move :: "file_change list \<Rightarrow> string \<Rightarrow> string \<Rightarrow> bool" where
  "reported_move changes a b \<longleftrightarrow> moved_to changes a = {b}"

definition inferred_move :: "file_change list \<Rightarrow> string \<Rightarrow> string \<Rightarrow> bool" where
  "inferred_move changes a b \<longleftrightarrow> a \<noteq> [] \<and> a \<noteq> b \<and> names_removed changes a \<noteq> {} \<and> names_added changes b = names_removed changes a"

definition inference_ok :: "file_change list \<Rightarrow> inference \<Rightarrow> bool" where
  "inference_ok changes st \<longleftrightarrow>
     distinct (map fst (if_renamed st)) \<and> set (map fst (if_renamed st)) \<inter> if_ambiguous st = {}
     \<and> if_handled st = set (map fst (if_renamed st)) \<union> if_ambiguous st
     \<and> (\<forall>(a, b)\<in>set (if_renamed st). a \<notin> dirs_present changes \<and> (reported_move changes a b \<or> inferred_move changes a b))"

lemma reported_ok:
  assumes "scan_ok changes sc"
  shows "distinct (map fst (reported_renames sc))"
    and "set (map fst (reported_renames sc)) \<inter> reported_ambiguous sc = {}"
    and "(a, b) \<in> set (reported_renames sc) \<Longrightarrow> a \<notin> dirs_present changes \<and> reported_move changes a b"
proof -
  have ok: "dir_files_ok (rename_map sc)" and present: "present sc = dirs_present changes"
    and to: "set (files_of (rename_map sc) d) = moved_to changes d" for d
    using assms by (auto simp: scan_ok_def)
  have dist: "distinct (map fst (rename_map sc))" using ok by (simp add: dir_files_ok_def)
  then show "distinct (map fst (reported_renames sc))"
    by (simp add: reported_renames_def comp_def distinct_map_filter)
  show "set (map fst (reported_renames sc)) \<inter> reported_ambiguous sc = {}"
    using dist by (force simp: reported_renames_def reported_ambiguous_def distinct_map inj_on_def)
  assume "(a, b) \<in> set (reported_renames sc)"
  then obtain bs where bs: "(a, bs) \<in> set (rename_map sc)" "length bs = 1" "a \<notin> present sc" "b = hd bs"
    by (auto simp: reported_renames_def clean_rename_def)
  then have "files_of (rename_map sc) a = [b]" using files_of_member [OF ok] by (cases bs) auto
  with bs(3) to [of a] present show "a \<notin> dirs_present changes \<and> reported_move changes a b"
    by (simp add: reported_move_def)
qed

lemma infer_rename_ok:
  assumes "scan_ok changes sc" and "e \<in> set (removed_files sc)" and "inference_ok changes st"
  shows "inference_ok changes (infer_rename sc e st)"
proof -
  obtain a files where e: "e = (a, files)" by force
  have ok: "dir_files_ok (removed_files sc)" "dir_files_ok (added_files sc)" and present: "present sc = dirs_present changes"
    and removed: "set (files_of (removed_files sc) d) = names_removed changes d"
    and added: "set (files_of (added_files sc) d) = names_added changes d" for d
    using assms(1) by (auto simp: scan_ok_def)
  have files: "set files = names_removed changes a" "files \<noteq> []"
    using assms(2) e files_of_member [OF ok(1)] removed [of a] by auto
  have candidate: "b \<noteq> a \<and> names_added changes b = set files" if "b \<in> set (rename_candidates sc a files used)" for b used
    using that files_of_member [OF ok(2)] added by (auto simp: rename_candidates_def)
  have move: "inferred_move changes a b" if "rename_candidates sc a files used = [b]" "a \<noteq> []" for b used
    using candidate [of b used] that files by (auto simp: inferred_move_def)
  show ?thesis
    using assms(3) move present
    by (auto simp: infer_rename_def e Let_def inference_ok_def split: list.split)
qed

lemma fold_infer_ok:
  assumes "scan_ok changes sc" and "set es \<subseteq> set (removed_files sc)" and "inference_ok changes st"
  shows "inference_ok changes (fold (infer_rename sc) es st)"
  using assms(2,3) by (induction es arbitrary: st) (auto intro: infer_rename_ok [OF assms(1)])

lemma classify_ok:
  fixes changes
  defines "cls \<equiv> classify_dir_changes changes"
  shows "distinct (map fst (dc_renamed cls))" "set (map fst (dc_renamed cls)) \<inter> dc_ambiguous cls = {}"
    and "(a, b) \<in> set (dc_renamed cls) \<Longrightarrow> a \<notin> dirs_present changes \<and> (reported_move changes a b \<or> inferred_move changes a b)"
    and "d \<in> dc_deleted cls \<longleftrightarrow> d \<noteq> [] \<and> names_removed changes d \<noteq> {} \<and> d \<notin> dirs_present changes
      \<and> d \<notin> set (map fst (dc_renamed cls)) \<and> d \<notin> dc_ambiguous cls"
proof -
  let ?sc = "scan_changes changes"
  let ?start = "\<lparr>if_renamed = reported_renames ?sc, if_ambiguous = reported_ambiguous ?sc,
    if_handled = set (map fst (reported_renames ?sc)) \<union> reported_ambiguous ?sc, if_used = set (map snd (reported_renames ?sc))\<rparr>"
  let ?st = "fold (infer_rename ?sc) (removed_files ?sc) ?start"
  have "inference_ok changes ?start"
    using reported_ok [OF scan_changes_ok [of changes]] by (auto simp: inference_ok_def)
  then have st: "inference_ok changes ?st" by (rule fold_infer_ok [OF scan_changes_ok subset_refl])
  have cls: "dc_renamed cls = if_renamed ?st" "dc_ambiguous cls = if_ambiguous ?st"
    by (simp_all add: cls_def classify_dir_changes_def Let_def)
  show "distinct (map fst (dc_renamed cls))" "set (map fst (dc_renamed cls)) \<inter> dc_ambiguous cls = {}"
    using st by (simp_all add: cls inference_ok_def)
  show "(a, b) \<in> set (dc_renamed cls) \<Longrightarrow> a \<notin> dirs_present changes \<and> (reported_move changes a b \<or> inferred_move changes a b)"
    using st by (auto simp: cls inference_ok_def)
  have ok: "dir_files_ok (removed_files ?sc)" and removed: "set (files_of (removed_files ?sc) d) = names_removed changes d"
    and present: "present ?sc = dirs_present changes"
    using scan_changes_ok [of changes] by (auto simp: scan_ok_def)
  have "(\<exists>fs. (d, fs) \<in> set (removed_files ?sc) \<and> fs \<noteq> []) \<longleftrightarrow> names_removed changes d \<noteq> {}"
    unfolding files_of_member [OF ok] removed [symmetric] by auto
  then show "d \<in> dc_deleted cls \<longleftrightarrow> d \<noteq> [] \<and> names_removed changes d \<noteq> {} \<and> d \<notin> dirs_present changes
      \<and> d \<notin> set (map fst (dc_renamed cls)) \<and> d \<notin> dc_ambiguous cls"
    unfolding cls by (auto simp: cls_def classify_dir_changes_def Let_def present image_iff)
qed




end
