(* ===== verification/DiscoverySafety.thy ===== *)
theory DiscoverySafety
  imports DiscoveryVerdict DriftProperties
begin

text \<open>
  What an advance of the tracked branch may do. One relation, \<open>advanced\<close>, compares the rows before with those of a
  session in progress; every step of \<open>reconcile_branch_advance\<close> keeps it for the flushed and the pending state.
\<close>

section \<open>Loops and lookups\<close>

lemma for_each_keeps:
  assumes "\<And>x s. x \<in> set xs \<Longrightarrow> I s \<Longrightarrow> I (res_state (f x s))" and "I s"
  shows "I (res_state (for_each f xs s))"
  using assms
proof (induction xs arbitrary: s)
  case (Cons x xs)
  then have "I (res_state (f x s))" by simp
  with Cons show ?case by (cases "f x s") auto
qed simp

lemma bind_keeps: "I (res_state m) \<Longrightarrow> (\<And>a s. m = Ret a s \<Longrightarrow> I s \<Longrightarrow> I (res_state (k a s))) \<Longrightarrow> I (res_state (bind_res m k))"
  by (cases m) auto

definition owned_active :: "autodiscovery_rule \<Rightarrow> string \<Rightarrow> disc_state \<Rightarrow> nat \<Rightarrow> bool" where
  "owned_active rule dir s i \<longleftrightarrow> (\<exists>ws. workspaces (ds_world s) i = Some ws \<and> in_repository rule ws
     \<and> lifecycle_state ws = ''active'') \<and> dc_rule (ds_columns s i) = Some (ar_id rule) \<and> dc_directory (ds_columns s i) = dir"

lemma one_or_none_in: "one_or_none xs = Inr (Some x) \<longleftrightarrow> xs = [x]" "one_or_none xs = Inr None \<longleftrightarrow> xs = []"
  by (auto simp: one_or_none_def split: list.splits)

lemma select_ws_iff: "i \<in> set (select_ws s p) \<longleftrightarrow>
    i < next_id (ds_world s) \<and> (\<exists>ws. workspaces (ds_world s) i = Some ws \<and> p i ws (ds_columns s i))"
  by (simp add: select_ws_def)

lemma found_owned: "autodiscovered_ws rule dir s = Inr (Some i) \<Longrightarrow> owned_active rule dir s i"
proof -
  assume "autodiscovered_ws rule dir s = Inr (Some i)"
  then have "i \<in> set (select_ws s (\<lambda>_ ws c. dc_rule c = Some (ar_id rule) \<and> in_repository rule ws
      \<and> dc_directory c = dir \<and> lifecycle_state ws = ''active''))"
    by (simp add: autodiscovered_ws_def one_or_none_in)
  then show ?thesis by (auto simp: select_ws_iff owned_active_def)
qed

lemma with_found_keeps:
  assumes "I s" and "\<And>i. owned_active rule dir (sn_flushed s) i \<Longrightarrow> I (res_state (k i s))"
  shows "I (res_state (with_found rule dir k s))"
  using assms by (auto simp: with_found_def dest: found_owned split: sum.split option.split)

lemma created_run:
  assumes "create_run e i ws rq w = (j, w')"
  shows "j = next_id w" "runs w' = (runs w)(next_id w \<mapsto> new_run e i (settings ws) rq (now w))" "next_id w' = Suc (next_id w)"
    "workspaces w' = workspaces w" "state_versions w' = state_versions w" "config_versions w' = config_versions w"
proof -
  from create_run_db [of e i ws rq w] assms
  have j: "j = next_id w" and w': "db w' = add_run (new_run e i (settings ws) rq (now w)) (db w)" by simp_all
  show "j = next_id w" by (rule j)
  show "runs w' = (runs w)(next_id w \<mapsto> new_run e i (settings ws) rq (now w))" "next_id w' = Suc (next_id w)"
    "workspaces w' = workspaces w" "state_versions w' = state_versions w" "config_versions w' = config_versions w"
    using w' [THEN arg_cong, of runs] w' [THEN arg_cong, of next_id] w' [THEN arg_cong, of workspaces]
      w' [THEN arg_cong, of state_versions] w' [THEN arg_cong, of config_versions] by (simp_all add: add_run_def)
qed

lemma set_ws_simps [simp]:
  "workspaces (ds_world (set_ws i f g s)) = modify i f (workspaces (ds_world s))"
  "runs (ds_world (set_ws i f g s)) = runs (ds_world s)" "next_id (ds_world (set_ws i f g s)) = next_id (ds_world s)"
  "state_versions (ds_world (set_ws i f g s)) = state_versions (ds_world s)"
  "config_versions (ds_world (set_ws i f g s)) = config_versions (ds_world s)"
  "ds_columns (set_ws i f g s) = (ds_columns s)(i := g (ds_columns s i))"
  "ds_audit (set_ws i f g s) = ds_audit s" "ds_comments (set_ws i f g s) = ds_comments s"
  by (simp_all add: set_ws_def put_ws_def)

lemma audit_simps [simp]:
  "ds_world (audit a i t s) = ds_world s" "ds_columns (audit a i t s) = ds_columns s" "ds_comments (audit a i t s) = ds_comments s"
  by (simp_all add: audit_def)

lemma on_now_simps [simp]: "sn_flushed (on_now f s) = sn_flushed s" "sn_now (on_now f s) = f (sn_now s)"
  by (simp_all add: on_now_def)

section \<open>What may change\<close>

text \<open>A workspace keeps all but its name, directory and lifecycle, and these only change for the rule's own.\<close>

definition same_but_lifecycle :: "workspace \<Rightarrow> workspace \<Rightarrow> bool" where
  "same_but_lifecycle ws ws' \<longleftrightarrow> ws'\<lparr>lifecycle_state := lifecycle_state ws, lifecycle_reason := lifecycle_reason ws,
     settings := (settings ws')\<lparr>ws_name := ws_name (settings ws)\<rparr>\<rparr> = ws"

definition may_become ::
    "autodiscovery_rule \<Rightarrow> disc_env \<Rightarrow> string \<Rightarrow> dir_changes \<Rightarrow> disc_state \<Rightarrow> nat \<Rightarrow> workspace \<Rightarrow> workspace \<Rightarrow> bool" where
  "may_become rule dn branch cls d i ws ws' \<longleftrightarrow> same_but_lifecycle ws ws'
     \<and> (ws' = ws \<or> dc_rule (ds_columns d i) = Some (ar_id rule))
     \<and> (lifecycle_state ws' = lifecycle_state ws
        \<or> lifecycle_state ws' = ''archived'' \<and> dc_pr (ds_columns d i) \<noteq> None \<and> \<not> ws_has_state d i \<and> dc_renamed cls \<noteq> []
        \<or> lifecycle_state ws' = ''pending_deletion''
          \<and> (dc_renamed cls \<noteq> [] \<or> (\<exists>dir\<in>dc_deleted cls \<union> dc_ambiguous cls. dir_absent_on_branch dn branch dir)))"

definition opted_destroy ::
    "autodiscovery_rule \<Rightarrow> disc_env \<Rightarrow> string \<Rightarrow> dir_changes \<Rightarrow> disc_state \<Rightarrow> run \<Rightarrow> bool" where
  "opted_destroy rule dn branch cls d r \<longleftrightarrow> ar_on_delete rule = ''destroy''
     \<and> (\<exists>dir\<in>dc_deleted cls - dc_ambiguous cls. dir_absent_on_branch dn branch dir)
     \<and> dc_rule (ds_columns d (workspace_id r)) = Some (ar_id rule) \<and> live_destroys (workspace_id r) (ds_world d) = []
     \<and> rc_is_destroy (config r) \<and> \<not> plan_only r \<and> rc_source (config r) = LIFECYCLE_SOURCE
     \<and> status r = Pending \<and> rc_cv (config r) = None"

definition advanced ::
    "autodiscovery_rule \<Rightarrow> disc_env \<Rightarrow> string \<Rightarrow> dir_changes \<Rightarrow> disc_state \<Rightarrow> disc_state \<Rightarrow> bool" where
  "advanced rule dn branch cls d d' \<longleftrightarrow>
     next_id (ds_world d) \<le> next_id (ds_world d') \<and> ids_fresh (ds_world d')
     \<and> state_versions (ds_world d') = state_versions (ds_world d)
     \<and> (\<forall>i. dc_rule (ds_columns d' i) = dc_rule (ds_columns d i) \<and> dc_pr (ds_columns d' i) = dc_pr (ds_columns d i)
          \<and> (ds_columns d' i = ds_columns d i \<or> dc_rule (ds_columns d i) = Some (ar_id rule)))
     \<and> (\<forall>i. rel_option (may_become rule dn branch cls d i) (workspaces (ds_world d) i) (workspaces (ds_world d') i))
     \<and> (\<forall>j<next_id (ds_world d). runs (ds_world d') j = runs (ds_world d) j)
     \<and> (\<forall>j\<ge>next_id (ds_world d). \<forall>r. runs (ds_world d') j = Some r \<longrightarrow> opted_destroy rule dn branch cls d r
          \<and> (\<forall>k\<ge>next_id (ds_world d). \<forall>r'. runs (ds_world d') k = Some r' \<longrightarrow> workspace_id r' = workspace_id r \<longrightarrow> k = j))"

definition in_progress ::
    "autodiscovery_rule \<Rightarrow> disc_env \<Rightarrow> string \<Rightarrow> dir_changes \<Rightarrow> disc_state \<Rightarrow> session \<Rightarrow> bool" where
  "in_progress rule dn branch cls d s \<longleftrightarrow> advanced rule dn branch cls d (sn_flushed s) \<and> advanced rule dn branch cls d (sn_now s)
     \<and> runs (ds_world (sn_now s)) = runs (ds_world (sn_flushed s)) \<and> next_id (ds_world (sn_now s)) = next_id (ds_world (sn_flushed s))"

lemma may_become_refl [simp]: "may_become rule dn branch cls d i ws ws"
  by (simp add: may_become_def same_but_lifecycle_def)

lemma advanced_refl: "ids_fresh (ds_world d) \<Longrightarrow> advanced rule dn branch cls d d"
  by (auto simp: advanced_def ids_fresh_def option.rel_refl)

lemma advanced_frame:
  assumes "advanced rule dn branch cls d d'" and "runs (ds_world d'') = runs (ds_world d')"
    and "next_id (ds_world d'') = next_id (ds_world d')" and "state_versions (ds_world d'') = state_versions (ds_world d')"
    and "config_versions (ds_world d'') = config_versions (ds_world d')"
    and "workspaces (ds_world d'') = workspaces (ds_world d')" and "ds_columns d'' = ds_columns d'"
  shows "advanced rule dn branch cls d d''"
  using assms unfolding advanced_def ids_fresh_def by metis

text \<open>Changing one of the rule's workspaces.\<close>

lemma advanced_set_ws:
  assumes adv: "advanced rule dn branch cls d d'" and own: "dc_rule (ds_columns d i) = Some (ar_id rule)"
    and cols: "\<And>c. dc_rule (g c) = dc_rule c" "\<And>c. dc_pr (g c) = dc_pr c"
    and row: "\<And>ws ws'. may_become rule dn branch cls d i ws ws' \<Longrightarrow> may_become rule dn branch cls d i ws (f ws')"
  shows "advanced rule dn branch cls d (set_ws i f g d')"
proof -
  have rows: "rel_option (may_become rule dn branch cls d j) (workspaces (ds_world d) j) (modify i f (workspaces (ds_world d')) j)" for j
  proof -
    have "rel_option (may_become rule dn branch cls d j) (workspaces (ds_world d) j) (workspaces (ds_world d') j)"
      using adv by (simp add: advanced_def)
    then show ?thesis using row by (auto simp: modify_apply elim!: option.rel_cases)
  qed
  have "ids_fresh (ds_world (set_ws i f g d')) \<longleftrightarrow> ids_fresh (ds_world d')" by (simp add: ids_fresh_def)
  then show ?thesis using adv own cols rows by (simp add: advanced_def)
qed

lemma renamed_ok:
  assumes "may_become rule dn branch cls d i ws ws'" and "dc_rule (ds_columns d i) = Some (ar_id rule)"
  shows "may_become rule dn branch cls d i ws (ws'\<lparr>settings := (settings ws')\<lparr>ws_name := n\<rparr>\<rparr>)"
  using assms by (auto simp: may_become_def same_but_lifecycle_def)

lemma retired_ok:
  assumes "may_become rule dn branch cls d i ws ws'" and "dc_rule (ds_columns d i) = Some (ar_id rule)"
    and "st = ''archived'' \<and> dc_pr (ds_columns d i) \<noteq> None \<and> \<not> ws_has_state d i \<and> dc_renamed cls \<noteq> []
      \<or> st = ''pending_deletion'' \<and> (dc_renamed cls \<noteq> []
        \<or> (\<exists>dir\<in>dc_deleted cls \<union> dc_ambiguous cls. dir_absent_on_branch dn branch dir))"
  shows "may_become rule dn branch cls d i ws (ws'\<lparr>lifecycle_state := st, lifecycle_reason := reason\<rparr>)"
  using assms unfolding may_become_def same_but_lifecycle_def by (elim conjE) simp

lemma reason_ok:
  assumes "may_become rule dn branch cls d i ws ws'" and "dc_rule (ds_columns d i) = Some (ar_id rule)"
  shows "may_become rule dn branch cls d i ws (ws'\<lparr>lifecycle_reason := reason\<rparr>)"
  using assms unfolding may_become_def same_but_lifecycle_def by (elim conjE) simp

lemma has_state_same:
  assumes "advanced rule dn branch cls d d'" and "ids_fresh (ds_world d)"
  shows "ws_has_state d' i \<longleftrightarrow> ws_has_state d i"
proof -
  have "ws_has_state x i \<longleftrightarrow> (\<exists>k sv. state_versions (ds_world x) k = Some sv \<and> sv_workspace sv = i)" if "ids_fresh (ds_world x)" for x
    using ids_freshD(3) [OF that] by (auto simp: ws_has_state_def select_nonempty_iff)
  moreover have "ids_fresh (ds_world d')" "state_versions (ds_world d') = state_versions (ds_world d)"
    using assms(1) by (auto simp: advanced_def)
  ultimately show ?thesis using assms(2) by simp
qed

lemma in_progress_now:
  assumes "in_progress rule dn branch cls d s" and "advanced rule dn branch cls d (f (sn_now s))"
    and "runs (ds_world (f (sn_now s))) = runs (ds_world (sn_now s))"
    and "next_id (ds_world (f (sn_now s))) = next_id (ds_world (sn_now s))"
  shows "in_progress rule dn branch cls d (on_now f s)"
  using assms by (simp add: in_progress_def)

lemma in_progress_flush:
  assumes "in_progress rule dn branch cls d s"
  shows "in_progress rule dn branch cls d (res_state (flush s))"
  using assms by (simp add: flush_def in_progress_def)

lemma owned_before:
  "advanced rule dn branch cls d d' \<Longrightarrow> owned_active rule dir d' i \<Longrightarrow> dc_rule (ds_columns d i) = Some (ar_id rule)"
  by (simp add: advanced_def owned_active_def)

lemma in_progressD:
  assumes "in_progress rule dn branch cls d s"
  shows "advanced rule dn branch cls d (sn_flushed s)" "advanced rule dn branch cls d (sn_now s)"
  using assms by (simp_all add: in_progress_def)

section \<open>The steps\<close>

lemma advanced_audit: "advanced rule dn branch cls d d' \<Longrightarrow> advanced rule dn branch cls d (audit a i t d')"
  by (rule advanced_frame) simp_all

lemma move_ws_keeps:
  assumes "in_progress rule dn branch cls d s" and "dc_rule (ds_columns d i) = Some (ar_id rule)"
  shows "in_progress rule dn branch cls d (res_state (move_ws rule old new i s))"
proof -
  have dir: "advanced rule dn branch cls d (set_ws i (\<lambda>ws. ws) (\<lambda>c. c\<lparr>dc_directory := x, dc_prefixes := y\<rparr>) (sn_now s))" for x y
    by (rule advanced_set_ws [OF in_progressD(2) [OF assms(1)] assms(2)]) simp_all
  have name: "advanced rule dn branch cls d (set_ws i (\<lambda>ws. ws\<lparr>settings := (settings ws)\<lparr>ws_name := n\<rparr>\<rparr>) (\<lambda>c. c) d')"
    if "advanced rule dn branch cls d d'" for n d'
    by (rule advanced_set_ws [OF that assms(2)]) (simp_all add: renamed_ok assms(2))
  let ?s1 = "on_now (set_ws i (\<lambda>ws. ws) (\<lambda>c. c\<lparr>dc_directory := new, dc_prefixes := (if new \<noteq> [] then [new] else [])\<rparr>)) s"
  have s1: "in_progress rule dn branch cls d ?s1" by (rule in_progress_now [OF assms(1)], rule dir) simp_all
  have moved: "in_progress rule dn branch cls d (on_now (\<lambda>d. audit a i t (case n of None \<Rightarrow> d
      | Some n \<Rightarrow> set_ws i (\<lambda>ws. ws\<lparr>settings := (settings ws)\<lparr>ws_name := n\<rparr>\<rparr>) (\<lambda>c. c) d)) ?s1)" for a t n
    by (rule in_progress_now [OF s1])
      (use in_progressD(2) [OF s1] in \<open>auto intro!: advanced_audit name split: option.split\<close>)
  show ?thesis
  proof (cases "if ar_template rule = [] then Inr None else map_sum id Some (derive_workspace_name rule new)")
    case (Inl x)
    with s1 show ?thesis by (simp only: move_ws_def Let_def sum.case res.sel)
  next
    case (Inr n)
    with moved show ?thesis by (simp only: move_ws_def Let_def sum.case res.sel)
  qed
qed

lemma absorbed_dup:
  assumes "in_progress rule dn branch cls d s" and "ids_fresh (ds_world d)" and "absorbable_speculative_dup rule new i s = Some k"
  shows "dc_rule (ds_columns d k) = Some (ar_id rule)" "dc_pr (ds_columns d k) \<noteq> None" "\<not> ws_has_state d k"
proof -
  from assms(3) have k: "dc_rule (ds_columns (sn_now s) k) = Some (ar_id rule)" "dc_pr (ds_columns (sn_now s) k) \<noteq> None"
    "\<not> ws_has_state (sn_flushed s) k"
    by (auto simp: absorbable_speculative_dup_def Let_def split: list.splits if_splits)
  show "dc_rule (ds_columns d k) = Some (ar_id rule)" "dc_pr (ds_columns d k) \<noteq> None"
    using k(1,2) in_progressD(2) [OF assms(1)] by (simp_all add: advanced_def)
  show "\<not> ws_has_state d k" using k(3) has_state_same [OF in_progressD(1) [OF assms(1)] assms(2)] by simp
qed

lemma apply_rename_keeps:
  assumes "in_progress rule dn branch cls d s" and "ids_fresh (ds_world d)" and "on \<in> set (dc_renamed cls)"
  shows "in_progress rule dn branch cls d (res_state (apply_rename dn rule on s))"
proof -
  obtain old new where on: "on = (old, new)" by force
  have some: "dc_renamed cls \<noteq> []" using assms(3) by auto
  show ?thesis
    unfolding apply_rename_def on prod.case
  proof (rule with_found_keeps [where I = "in_progress rule dn branch cls d"])
    show "in_progress rule dn branch cls d s" by (rule assms(1))
  next
    fix i
    assume "owned_active rule old (sn_flushed s) i"
    then have own: "dc_rule (ds_columns d i) = Some (ar_id rule)"
      using owned_before in_progressD(1) [OF assms(1)] by blast
    have conflict: "advanced rule dn branch cls d (audit a i t (retire i ''pending_deletion'' t (sn_now s)))" for a t
      unfolding retire_def
      by (rule advanced_audit, rule advanced_set_ws [OF in_progressD(2) [OF assms(1)] own]) (simp_all add: retired_ok own some)
    have dup: "in_progress rule dn branch cls d (on_now (absorb dn old new k) s)"
      if "absorbable_speculative_dup rule new i s = Some k" for k
    proof (rule in_progress_now [OF assms(1)])
      note k = absorbed_dup [OF assms(1,2) that]
      have "may_become rule dn branch cls d k ws (ws'\<lparr>lifecycle_state := ''archived'', lifecycle_reason := x,
          settings := (settings ws')\<lparr>ws_name := n\<rparr>\<rparr>)" if "may_become rule dn branch cls d k ws ws'" for ws ws' x n
        using renamed_ok [OF retired_ok [OF that k(1), of "''archived''"] k(1)] k some by simp
      then show "advanced rule dn branch cls d (absorb dn old new k (sn_now s))"
        unfolding absorb_def
        by (intro advanced_audit advanced_set_ws [OF in_progressD(2) [OF assms(1)] k(1)]) simp_all
    qed (simp_all add: absorb_def)
    show "in_progress rule dn branch cls d (res_state
        (case absorbable_speculative_dup rule new i s of
           Some dup \<Rightarrow> bind_res (flush (on_now (absorb dn old new dup) s)) (\<lambda>_. move_ws rule old new i)
         | None \<Rightarrow> (case one_or_none (others_at rule new i (sn_flushed s)) of
             Inl e \<Rightarrow> Raise e s
           | Inr (Some _) \<Rightarrow>
               let reason = ''rename '' @ old @ ''->'' @ new @ '' but a workspace already owns '' @ new in
               Ret () (on_now (\<lambda>d. audit ''autodiscovery.rename_conflict'' i reason (retire i ''pending_deletion'' reason d)) s)
           | Inr None \<Rightarrow> move_ws rule old new i s)))"
    proof (cases "absorbable_speculative_dup rule new i s")
      case None
      then show ?thesis
        using assms(1) conflict move_ws_keeps [OF assms(1) own]
        by (auto simp: Let_def retire_def intro!: in_progress_now split: sum.split option.split)
    next
      case (Some k)
      then show ?thesis
        by (auto intro!: bind_keeps [where I = "in_progress rule dn branch cls d"] in_progress_flush dup move_ws_keeps own)
    qed
  qed
qed

lemma destroy_created:
  assumes "in_progress rule dn branch cls d s" and "owned_active rule dir (sn_flushed s) i"
    and "ar_on_delete rule = ''destroy''" and "dir \<in> dc_deleted cls - dc_ambiguous cls" and "dir_absent_on_branch dn branch dir"
    and "live_destroys i (ds_world (sn_flushed s)) = []"
  shows "in_progress rule dn branch cls d (res_state (create_run_in e i (destroy_request dir) s))"
proof -
  let ?w = "ds_world (sn_now s)" and ?n = "next_id (ds_world d)"
  obtain j w' where c: "create_run e i (the (workspaces ?w i)) (destroy_request dir) ?w = (j, w')" by force
  note run = created_run [OF c]
  let ?r = "new_run e i (settings (the (workspaces ?w i))) (destroy_request dir) (now ?w)"
  have fl: "advanced rule dn branch cls d (sn_flushed s)" and nw: "advanced rule dn branch cls d (sn_now s)"
    and same: "runs ?w = runs (ds_world (sn_flushed s))" "next_id ?w = next_id (ds_world (sn_flushed s))"
    using assms(1) by (simp_all add: in_progress_def)
  have fresh: "ids_fresh ?w" "?n \<le> next_id ?w" using nw by (simp_all add: advanced_def)
  have none: "\<not> (workspace_id r = i \<and> rc_is_destroy (config r) \<and> \<not> plan_only r \<and> rc_source (config r) = LIFECYCLE_SOURCE
      \<and> status r \<notin> {Errored, Canceled, Discarded})" if "runs ?w k = Some r" for k r
    using assms(6) ids_freshD(1) [OF fresh(1) that] that unfolding live_destroys_def select_runs_def same
    by (metis (mono_tags, lifting) same select_nonempty_iff)
  have before: "live_destroys i (ds_world d) = []"
  proof (rule ccontr)
    assume "live_destroys i (ds_world d) \<noteq> []"
    then obtain k r where k: "k < ?n" "runs (ds_world d) k = Some r" "workspace_id r = i" "rc_is_destroy (config r)"
      "\<not> plan_only r" "rc_source (config r) = LIFECYCLE_SOURCE" "status r \<notin> {Errored, Canceled, Discarded}"
      unfolding live_destroys_def select_runs_def select_nonempty_iff by blast
    then have "runs ?w k = Some r" using nw by (simp add: advanced_def)
    with none k show False by blast
  qed
  have new: "opted_destroy rule dn branch cls d ?r"
    using assms(3-5) before owned_before [OF fl assms(2)]
    by (auto simp: opted_destroy_def new_run_def destroy_request_def default_request_def)
  have old_new: "workspace_id r \<noteq> i" if "runs ?w k = Some r" "?n \<le> k" for k r
  proof -
    have "opted_destroy rule dn branch cls d r" using nw that by (simp add: advanced_def)
    with none [OF that(1)] show ?thesis by (auto simp: opted_destroy_def)
  qed
  have unique: "k = j" if "runs ?w j = Some r" "?n \<le> j" "runs ?w k = Some r'" "?n \<le> k" "workspace_id r' = workspace_id r" for j k r r'
    using nw that unfolding advanced_def by blast
  have opted: "opted_destroy rule dn branch cls d r" if "runs ?w j = Some r" "?n \<le> j" for j r
    using nw that unfolding advanced_def by blast
  let ?d = "(sn_now s)\<lparr>ds_world := w'\<rparr>"
  have rows: "runs (ds_world ?d) x = Some y \<longleftrightarrow> (if x = next_id ?w then y = ?r else runs ?w x = Some y)" for x y
    using run by auto
  have own: "workspace_id ?r = i" by (simp add: new_run_def)
  have "advanced rule dn branch cls d ?d"
    unfolding advanced_def
  proof (intro conjI)
    show "ids_fresh (ds_world ?d)" using fresh run by (simp add: ids_fresh_def)
    show "\<forall>j<?n. runs (ds_world ?d) j = runs (ds_world d) j" using nw run fresh by (simp add: advanced_def)
    show "\<forall>j\<ge>?n. \<forall>r. runs (ds_world ?d) j = Some r \<longrightarrow> opted_destroy rule dn branch cls d r
        \<and> (\<forall>k\<ge>?n. \<forall>r'. runs (ds_world ?d) k = Some r' \<longrightarrow> workspace_id r' = workspace_id r \<longrightarrow> k = j)"
    proof (intro allI impI conjI)
      fix j r assume j: "?n \<le> j" "runs (ds_world ?d) j = Some r"
      then show "opted_destroy rule dn branch cls d r" using new opted unfolding rows by (auto split: if_splits)
      fix k r' assume k: "?n \<le> k" "runs (ds_world ?d) k = Some r'" "workspace_id r' = workspace_id r"
      show "k = j" using j k own unfolding rows by (auto dest: old_new intro: unique split: if_splits)
    qed
  qed (use nw run in \<open>auto simp: advanced_def\<close>)
  with assms(1) show ?thesis by (simp add: create_run_in_def c in_progress_def Let_def)
qed

lemma apply_deletion_keeps:
  assumes "in_progress rule dn branch cls d s" and "dir \<in> dc_deleted cls \<union> dc_ambiguous cls"
  shows "in_progress rule dn branch cls d (res_state (apply_deletion e dn rule branch cls dir s))"
  unfolding apply_deletion_def
proof (rule with_found_keeps [where I = "in_progress rule dn branch cls d"])
  show "in_progress rule dn branch cls d s" by (rule assms(1))
next
  fix i
  assume found: "owned_active rule dir (sn_flushed s) i"
  then have own: "dc_rule (ds_columns d i) = Some (ar_id rule)"
    using owned_before in_progressD(1) [OF assms(1)] by blast
  have flag: "advanced rule dn branch cls d (audit a i t (retire i ''pending_deletion'' t (sn_now s)))"
    if "dir_absent_on_branch dn branch dir" for a t
    unfolding retire_def
    by (rule advanced_audit, rule advanced_set_ws [OF in_progressD(2) [OF assms(1)] own])
      (use assms(2) that in \<open>auto intro!: retired_ok [OF _ own]\<close>)
  have reason: "in_progress rule dn branch cls d (on_now (\<lambda>d. audit a i t (set_ws i (\<lambda>ws. ws\<lparr>lifecycle_reason := x\<rparr>) (\<lambda>c. c) d)) s1)"
    if "in_progress rule dn branch cls d s1" for a t x s1
    by (rule in_progress_now [OF that], rule advanced_audit, rule advanced_set_ws [OF in_progressD(2) [OF that] own])
      (simp_all add: reason_ok own)
  show "in_progress rule dn branch cls d (res_state
     (if \<not> dir_absent_on_branch dn branch dir then Ret () s
      else if dir \<in> dc_ambiguous cls \<or> ar_on_delete rule \<noteq> ''destroy'' then
        let reason = ''directory '' @ dir @ '' removed on '' @ branch in
        Ret () (on_now (\<lambda>d. audit ''autodiscovery.pending_deletion'' i reason (retire i ''pending_deletion'' reason d)) s)
      else case one_or_none (live_destroys i (ds_world (sn_flushed s))) of
        Inl err \<Rightarrow> Raise err s
      | Inr (Some _) \<Rightarrow> Ret () s
      | Inr None \<Rightarrow> bind_res (create_run_in e i (destroy_request dir) s) (\<lambda>j s1.
          Ret () (on_now (\<lambda>d. audit ''autodiscovery.destroy_queued'' i
              (''directory '' @ dir @ '' removed; destroy run '' @ uuid_str e j @ '' queued'')
            (set_ws i (\<lambda>ws. ws\<lparr>lifecycle_reason := Text (''destroy queued (run '' @ uuid_str e j @ ''), '' @ dir @ '' removed'')\<rparr>)
              (\<lambda>c. c) d)) s1))))"
    using assms flag destroy_created [OF assms(1) found, of e]
    by (auto simp: Let_def one_or_none_in retire_def intro!: in_progress_now bind_keeps [where I = "in_progress rule dn branch cls d"]
        reason split: sum.split option.split)
qed

lemma finite_infer: "finite (if_ambiguous st) \<Longrightarrow> finite (if_ambiguous (fold (infer_rename sc) es st))"
  by (induction es arbitrary: st) (simp_all add: infer_rename_def Let_def split: list.split)

lemma finite_classified: "finite (dc_deleted (classify_dir_changes changes))" "finite (dc_ambiguous (classify_dir_changes changes))"
  by (simp_all add: classify_dir_changes_def Let_def finite_infer reported_ambiguous_def)

lemma branch_advance_keeps:
  assumes "ids_fresh (ds_world d)" and cls_def: "cls = classify_dir_changes changes"
  shows "in_progress rule dn branch cls d
    (res_state (reconcile_branch_advance e dn rule branch (Some changes) \<lparr>sn_flushed = d, sn_now = d\<rparr>))"
proof -
  let ?I = "in_progress rule dn branch cls d"
  have start: "?I \<lparr>sn_flushed = d, sn_now = d\<rparr>" using advanced_refl [OF assms(1)] by (simp add: in_progress_def)
  have renames: "?I (res_state (for_each (apply_rename dn rule) (dc_renamed cls) s))" if "?I s" for s
    using apply_rename_keeps [OF _ assms(1)] that by (rule for_each_keeps [where I = ?I])
  have deletions: "?I (res_state (for_each (apply_deletion e dn rule branch cls)
      (sorted_list_of_set (dc_deleted cls \<union> dc_ambiguous cls)) s))" if "?I s" for s
    by (rule for_each_keeps [where I = ?I, OF apply_deletion_keeps])
      (use that finite_classified [of changes] in \<open>auto simp: cls_def\<close>)
  show ?thesis
    unfolding reconcile_branch_advance_def option.case Let_def cls_def [symmetric]
    by (rule bind_keeps [where I = ?I]) (use start renames deletions in auto)
qed

lemma branch_advanced_ok:
  assumes "ids_fresh (ds_world d)"
  shows "advanced rule dn branch (classify_dir_changes changes) d (branch_advanced e dn rule branch (Some changes) d)"
proof -
  let ?cls = "classify_dir_changes changes"
  let ?m = "bind_res (reconcile_branch_advance e dn rule branch (Some changes) \<lparr>sn_flushed = d, sn_now = d\<rparr>) (\<lambda>_. flush)"
  have "in_progress rule dn branch ?cls d (res_state ?m)"
    using branch_advance_keeps [OF assms refl, of rule dn branch changes e] in_progress_flush
    by (auto intro: bind_keeps [where I = "in_progress rule dn branch ?cls d"])
  then have now: "advanced rule dn branch ?cls d (sn_now (res_state ?m))" by (rule in_progressD)
  have undone: "advanced rule dn branch ?cls d (d\<lparr>ds_world := (ds_world d)\<lparr>store := x\<rparr>, ds_comments := y\<rparr>)" for x y
    by (rule advanced_frame [OF advanced_refl [OF assms]]) simp_all
  show ?thesis using now undone unfolding branch_advanced_def by (cases ?m) simp_all
qed


lemma new_destroy:
  assumes "advanced rule dn branch cls d d'" and "runs (ds_world d) j = None" and "runs (ds_world d') j = Some r"
  shows "opted_destroy rule dn branch cls d r"
  using assms unfolding advanced_def by (metis not_le option.distinct(1))


text \<open>A rule that destroys, its workspace, and the diff that removes the directory.\<close>

definition destroying_rule :: autodiscovery_rule where
  "destroying_rule = \<lparr>ar_id = 0, ar_connection = 0, ar_repo = ''r'', ar_branch = ''main'', ar_pattern = ''*'', ar_ignore = [],
     ar_name = ''n'', ar_template = [], ar_enabled = True, ar_execution_mode = ''agent'', ar_pool = None, ar_backend = ''tofu'',
     ar_version = ''1.9'', ar_cpu = ''1'', ar_memory = ''2Gi'', ar_auto_apply = False, ar_labels = JNull, ar_owner = None,
     ar_var_files = [], ar_task_templates = [], ar_on_delete = ''destroy''\<rparr>"

definition discovered_example :: disc_state where
  "discovered_example =
     \<lparr>ds_world = empty_world\<lparr>workspaces := [0 \<mapsto> discovered_workspace destroying_rule ''a''], next_id := 1\<rparr>,
      ds_columns = (\<lambda>_. discovered_columns destroying_rule ''a'' None None), ds_audit = [], ds_comments = []\<rparr>"

definition emptied :: disc_env where
  "emptied = \<lparr>dn_tree = (\<lambda>_ _. Some []), dn_pull = (\<lambda>_. None), dn_short = (\<lambda>_. [])\<rparr>"

definition removal :: "file_change list" where
  "removal = [\<lparr>fc_status = ''removed'', fc_path = ''a/main.tf'', fc_old_path = []\<rparr>]"

lemma discovered_fresh: "ids_fresh (ds_world discovered_example)"
  by (auto simp: ids_fresh_def discovered_example_def empty_world_def)

lemma discovered_destroy:
  "map_option (\<lambda>r. (workspace_id r, status r))
     (runs (ds_world (branch_advanced example_env emptied destroying_rule ''main'' (Some removal) discovered_example)) 1)
   = Some (0, Pending)"
  by code_simp



end
