(* ===== verification/DestroyRetry.thy ===== *)
theory DestroyRetry
  imports DiscoverySafety RunContracts
begin

text \<open>
  Retrying the destroy runs the platform itself started (\<open>services/lifecycle_destroy_retry.py\<close>): the periodic cycle, and
  that an episode of failures is retried a bounded number of times.

  \<open>rs_updated\<close> is the column \<open>updated_at\<close> of the runs, which every write of a row sets. Runs that were created in the
  same microsecond are read in creation order.
\<close>

section \<open>The cycle\<close>

record retry_state =
  rs_world :: world
  rs_updated :: "nat \<Rightarrow> int"

definition LIFECYCLE_DESTROY_SOURCES :: "string list" where
  "LIFECYCLE_DESTROY_SOURCES = [''catalog-lifecycle'', ''autodiscovery-lifecycle'']"

definition failed_destroy :: "run \<Rightarrow> bool" where
  "failed_destroy r \<longleftrightarrow> rc_is_destroy (config r) \<and> status r = Errored \<and> rc_source (config r) \<in> set LIFECYCLE_DESTROY_SOURCES"

definition newest_first :: "world \<Rightarrow> nat \<Rightarrow> nat list" where
  "newest_first w i = sort_key (\<lambda>j. - created_at (the (runs w j))) (select_runs w (\<lambda>_ r. workspace_id r = i))"

definition latest_run :: "world \<Rightarrow> nat \<Rightarrow> nat option" where
  "latest_run w i = (case newest_first w i of [] \<Rightarrow> None | j # _ \<Rightarrow> Some j)"

definition consecutive_failed_destroys :: "world \<Rightarrow> nat \<Rightarrow> nat" where
  "consecutive_failed_destroys w i = length (takeWhile (\<lambda>j. failed_destroy (the (runs w j))) (newest_first w i))"

definition retry_request :: "string \<Rightarrow> int \<Rightarrow> int \<Rightarrow> nat \<Rightarrow> run_request" where
  "retry_request source attempts retries cv = default_request\<lparr>
     rq_message := Text (''Lifecycle destroy retry (attempt '' @ show_int (attempts + 1) @ ''/'' @ show_int (retries + 1) @ '')''),
     rq_is_destroy := True, rq_auto_apply := Some True, rq_plan_only := False, rq_source := source, rq_cv := Some cv,
     rq_created_by := ''system''\<rparr>"

definition retry_one :: "env \<Rightarrow> int \<Rightarrow> nat \<Rightarrow> nat handler" where
  "retry_one e retries j w =
     (let r = the (runs w j); i = workspace_id r; attempts = int (consecutive_failed_destroys w i) in
      if latest_run w i \<noteq> Some j \<or> \<not> (1 \<le> attempts \<and> attempts \<le> retries) then Ret 0 w
      else case workspaces w i of
        None \<Rightarrow> Ret 0 w
      | Some ws \<Rightarrow>
          (case get_latest_uploaded_cv w i of
             None \<Rightarrow> Ret 0 w
           | Some cv \<Rightarrow>
               (case create_run e i ws (retry_request (rc_source (config r)) attempts retries cv) w of
                  (k, w1) \<Rightarrow> bind_res (queue_run e k w1) (\<lambda>_. Ret 1))))"

fun retry_loop :: "env \<Rightarrow> int \<Rightarrow> nat list \<Rightarrow> nat handler" where
  "retry_loop e retries [] w = Ret 0 w"
| "retry_loop e retries (j # js) w =
     bind_res (retry_one e retries j w) (\<lambda>n w1. bind_res (retry_loop e retries js w1) (\<lambda>m. Ret (n + m)))"

definition touched :: "world \<Rightarrow> world \<Rightarrow> (nat \<Rightarrow> int) \<Rightarrow> nat \<Rightarrow> int" where
  "touched w w' updated j = (if runs w' j = runs w j then updated j else now w)"

definition lifecycle_destroy_retry_cycle :: "env \<Rightarrow> int \<Rightarrow> int \<Rightarrow> retry_state \<Rightarrow> (exn, nat, retry_state) res" where
  "lifecycle_destroy_retry_cycle e retries backoff_seconds s =
     (if retries \<le> 0 then Ret 0 s
      else let w = rs_world s; cutoff = now w - max 0 backoff_seconds * 1000000;
               errored = select_runs w (\<lambda>j r. failed_destroy r \<and> rs_updated s j < cutoff) in
        case retry_loop e retries errored w of
          Ret n w' \<Rightarrow> Ret n \<lparr>rs_world = w', rs_updated = touched w w' (rs_updated s)\<rparr>
        | Raise x w' \<Rightarrow> Raise x (s\<lparr>rs_world := rolled_back w w'\<rparr>))"

section \<open>Runs of a workspace, newest first\<close>

lemma sort_key_cong: "(\<And>x. x \<in> set xs \<Longrightarrow> f x = g x) \<Longrightarrow> sort_key f xs = sort_key g xs"
proof (induction xs)
  case (Cons a xs)
  have "insort_key f a ys = insort_key g a ys" if "\<And>x. x \<in> insert a (set ys) \<Longrightarrow> f x = g x" for ys
    using that by (induction ys) auto
  from this [of "sort_key g xs"] Cons show ?case by auto
qed simp

lemma sort_key_newest: "(\<And>x. x \<in> set xs \<Longrightarrow> f k < f x) \<Longrightarrow> sort_key f (xs @ [k]) = k # sort_key f xs"
  for f :: "'a \<Rightarrow> int"
proof (induction xs)
  case (Cons a xs)
  have "f k < f a" "sort_key f (xs @ [k]) = k # sort_key f xs" using Cons by auto
  then show ?case by simp
qed simp

lemma newest_first_in: "bounded w \<Longrightarrow> j \<in> set (newest_first w i) \<longleftrightarrow> (\<exists>r. runs w j = Some r \<and> workspace_id r = i)"
  by (auto simp: newest_first_def select_runs_def bounded_def)

lemma newest_first_max:
  assumes "newest_first w i = j # js" and "k \<in> set js"
  shows "created_at (the (runs w k)) \<le> created_at (the (runs w j))"
proof -
  have "sorted (map (\<lambda>j. - created_at (the (runs w j))) (newest_first w i))"
    unfolding newest_first_def by (rule sorted_sort_key)
  with assms show ?thesis by auto
qed

text \<open>The same rows in the eyes of the queries: nobody changes a run's workspace or its time of creation.\<close>

definition same_runs :: "nat \<Rightarrow> world \<Rightarrow> world \<Rightarrow> bool" where
  "same_runs i w w' \<longleftrightarrow> (\<forall>j. (\<exists>r. runs w j = Some r \<and> workspace_id r = i) \<longleftrightarrow> (\<exists>r. runs w' j = Some r \<and> workspace_id r = i))
     \<and> (\<forall>j r r'. runs w j = Some r \<longrightarrow> runs w' j = Some r' \<longrightarrow> created_at r' = created_at r)"

lemma select_above: "n \<le> m \<Longrightarrow> (\<And>i. t i \<noteq> None \<Longrightarrow> i < n) \<Longrightarrow> select m t p = select n t p"
proof (induction m rule: nat_induct_at_least [of n])
  case (Suc m)
  have "t m = None" using Suc.prems [of m] Suc.hyps by (cases "t m") auto
  then show ?case using Suc by (simp add: select_def)
qed simp

lemma row_query: "(case t of None \<Rightarrow> False | Some r \<Rightarrow> p r) \<longleftrightarrow> (\<exists>r. t = Some r \<and> p r)"
  by (auto split: option.split)

lemma select_same:
  assumes "\<And>i. (\<exists>r. t i = Some r \<and> p i r) \<longleftrightarrow> (\<exists>r. t' i = Some r \<and> p i r)"
  shows "select n t p = select n t' p"
  using assms by (simp add: select_def row_query)

lemma newest_first_same:
  assumes "same_runs i w w'" and "bounded w" and "bounded w'"
  shows "newest_first w' i = newest_first w i"
proof -
  let ?p = "\<lambda>_ r. workspace_id r = i" and ?n = "max (next_id w) (next_id w')"
  have "select_runs w ?p = select ?n (runs w) ?p" "select_runs w' ?p = select ?n (runs w') ?p"
    unfolding select_runs_def using assms(2,3)
    by (auto simp: bounded_def intro!: select_above [symmetric])
  moreover have "select ?n (runs w) ?p = select ?n (runs w') ?p"
    using assms(1) unfolding same_runs_def by (intro select_same) blast
  ultimately have sel: "select_runs w' ?p = select_runs w ?p" by simp
  have "created_at (the (runs w' j)) = created_at (the (runs w j))" if j: "j \<in> set (select_runs w ?p)" for j
  proof -
    from j obtain r where "runs w j = Some r" "workspace_id r = i" by (auto simp: select_runs_def)
    moreover obtain r' where "runs w' j = Some r'" using j unfolding sel [symmetric] by (auto simp: select_runs_def)
    ultimately show ?thesis using assms(1) by (auto simp: same_runs_def)
  qed
  then show ?thesis unfolding newest_first_def sel by (intro sort_key_cong) simp
qed

section \<open>One retry\<close>

definition retried :: "nat \<Rightarrow> int \<Rightarrow> world \<Rightarrow> world \<Rightarrow> nat \<Rightarrow> bool" where
  "retried i retries w w' j \<longleftrightarrow> (\<exists>r r'. runs w j = Some r \<and> workspace_id r = i \<and> latest_run w i = Some j
     \<and> 1 \<le> int (consecutive_failed_destroys w i) \<and> int (consecutive_failed_destroys w i) \<le> retries
     \<and> bounded w' \<and> now w' = now w \<and> next_id w' = Suc (next_id w) \<and> runs w' (next_id w) = Some r' \<and> workspace_id r' = i
     \<and> created_at r' = now w \<and> rc_is_destroy (config r') \<and> rc_source (config r') = rc_source (config r) \<and> status r' = Queued
     \<and> (\<forall>l. l \<noteq> next_id w \<longrightarrow> rel_option (\<lambda>a b. b = a \<or> workspace_id a = i \<and> config b = config a \<and> status a \<noteq> Errored)
          (runs w l) (runs w' l)))"

lemma retried_row:
  assumes "retried i retries w w' j" and "bounded w" and "runs w l = Some s"
  obtains s' where "runs w' l = Some s'" and "s' = s \<or> workspace_id s = i \<and> config s' = config s \<and> status s \<noteq> Errored"
proof -
  have "l \<noteq> next_id w" using assms(2,3) by (auto simp: bounded_def)
  then have "rel_option (\<lambda>a b. b = a \<or> workspace_id a = i \<and> config b = config a \<and> status a \<noteq> Errored) (runs w l) (runs w' l)"
    using assms(1) unfolding retried_def by blast
  with assms(3) that show ?thesis by (auto simp: option_rel_Some1)
qed

lemma retry_one_effect:
  assumes "bounded w" and "runs w j = Some r"
  shows "retry_one e retries j w = Ret 0 w
    \<or> (\<exists>w'. retry_one e retries j w = Ret 1 w' \<and> retried (workspace_id r) retries w w' j)"
proof -
  let ?i = "workspace_id r" and ?a = "int (consecutive_failed_destroys w (workspace_id r))"
  show ?thesis
  proof (cases "latest_run w ?i = Some j \<and> 1 \<le> ?a \<and> ?a \<le> retries \<and> workspaces w ?i \<noteq> None \<and> get_latest_uploaded_cv w ?i \<noteq> None")
    case False
    then show ?thesis using assms(2) by (auto simp: retry_one_def Let_def split: option.split)
  next
    case True
    then obtain ws cv where ws: "workspaces w ?i = Some ws" and cv: "get_latest_uploaded_cv w ?i = Some cv" by auto
    let ?rq = "retry_request (rc_source (config r)) ?a retries cv"
    obtain k w1 where c: "create_run e ?i ws ?rq w = (k, w1)" by force
    note created = created_run [OF c]
    let ?r = "new_run e ?i (settings ws) ?rq (now w)"
    have row: "runs w1 k = Some ?r" using created by simp
    have kind: "status ?r = Pending" "is_supersedeable_kind ?r"
      by (simp_all add: new_run_def is_supersedeable_kind_def retry_request_def default_request_def)
    have b1: "bounded w1" using assms(1) created by (auto simp: bounded_def)
    obtain w' where q: "queue_run e k w1 = Ret () w'" and rows: "runs w' = (\<lambda>l. if l = k then Some (set_status Queued ?r)
        else map_option (\<lambda>s. if superseded_by k ?r l s then retired k s else s) (runs w1 l))"
      using queueing_supersedes_older [OF row kind b1, of e] by blast
    have db: "db w' = retire_all k (workspace_id ?r) (stale_list k ?r (put_run k (set_status Queued) w1))
        (put_run k (set_status Queued) (db w1))"
      using queue_run_db [OF row kind(1), of e] q by (auto dest!: db_res_eq_RetD)
    have w1: "now w1 = now w" using create_run_db [of e ?i ws ?rq w] c by (auto dest!: arg_cong [where f = now] simp: add_run_def)
    have "now w' = now w1" using db [THEN arg_cong, of now]
      by (auto simp: retire_all_def release_lock_def split: option.splits)
    moreover have "next_id w' = next_id w1" using db [THEN arg_cong, of next_id] by (simp add: retire_all_def release_lock_def)
    moreover have "bounded w'" using b1 created(1,3) \<open>next_id w' = next_id w1\<close> unfolding bounded_def rows by auto
    moreover have "rel_option (\<lambda>a b. b = a \<or> workspace_id a = ?i \<and> config b = config a \<and> status a \<noteq> Errored) (runs w l) (runs w' l)"
      if "l \<noteq> k" for l
      using that created(1,2) unfolding rows created(1)
      by (cases "runs w l") (auto simp: superseded_by_def retired_def supersedeable_states_def new_run_def)
    ultimately have "retried ?i retries w w' j"
      unfolding retried_def using True assms(2) w1
      by (intro exI [of _ r] exI [of _ "set_status Queued ?r"]) (simp add: rows created new_run_def retry_request_def default_request_def)
    moreover have "retry_one e retries j w = Ret 1 w'"
      using True assms(2) ws cv c q by (simp add: retry_one_def)
    ultimately show ?thesis by blast
  qed
qed

section \<open>An episode of failures\<close>

definition episode :: "nat \<Rightarrow> nat \<Rightarrow> int \<Rightarrow> world \<Rightarrow> bool" where
  "episode i count retries w \<longleftrightarrow> length (newest_first w i) \<le> count
     \<or> (\<exists>j js ks. newest_first w i = j # js @ ks \<and> length (newest_first w i) \<le> count + length js \<and> int (length js) \<le> retries
          \<and> (\<forall>k\<in>set js. \<exists>r. runs w k = Some r \<and> failed_destroy r))"

definition timely :: "nat \<Rightarrow> world \<Rightarrow> bool" where
  "timely i w \<longleftrightarrow> bounded w \<and> (\<forall>j r. runs w j = Some r \<longrightarrow> workspace_id r = i \<longrightarrow> created_at r \<le> now w)"

lemma episode_same:
  assumes "episode i count retries w" and "same_runs i w w'" and "bounded w" and "bounded w'"
    and "\<And>j r. runs w j = Some r \<Longrightarrow> failed_destroy r \<Longrightarrow> \<exists>r'. runs w' j = Some r' \<and> failed_destroy r'"
  shows "episode i count retries w'"
  using assms(1) assms(5) unfolding episode_def newest_first_same [OF assms(2-4)] by blast

lemma episode_retried:
  assumes "retried i retries w w' j" and "episode i count retries w" and "timely i w"
    and "created_at (the (runs w j)) < now w"
  shows "episode i count retries w' \<and> timely i w'"
proof -
  let ?k = "next_id w"
  from assms(1) obtain r r' where r: "runs w j = Some r" "latest_run w i = Some j"
      "1 \<le> int (consecutive_failed_destroys w i)" "int (consecutive_failed_destroys w i) \<le> retries"
    and k: "runs w' ?k = Some r'" "workspace_id r' = i" "created_at r' = now w"
    and w': "bounded w'" "now w' = now w" "next_id w' = Suc ?k"
    and rest: "\<And>l. l \<noteq> ?k \<Longrightarrow> rel_option (\<lambda>a b. b = a \<or> workspace_id a = i \<and> config b = config a \<and> status a \<noteq> Errored)
          (runs w l) (runs w' l)"
    unfolding retried_def by blast
  have b: "bounded w" using assms(3) by (simp add: timely_def)
  have keep: "(\<exists>s. runs w l = Some s \<and> P (config s)) \<longleftrightarrow> (\<exists>s. runs w' l = Some s \<and> P (config s))" if "l \<noteq> ?k" for l P
    using rest [OF that] by (cases "runs w l"; cases "runs w' l") auto
  obtain js where js: "newest_first w i = j # js" using r(2) by (auto simp: latest_run_def split: list.splits)
  have in_i: "\<exists>s. runs w l = Some s \<and> workspace_id s = i" if "l \<in> set (newest_first w i)" for l
    using that newest_first_in [OF b] by blast
  have older: "created_at (the (runs w l)) < now w" if "l \<in> set (newest_first w i)" for l
    using that assms(4) newest_first_max [OF js] js by fastforce
  have old_rows: "created_at (the (runs w' l)) = created_at (the (runs w l))" if l: "l \<in> set (newest_first w i)" for l
  proof -
    obtain s where s: "runs w l = Some s" using in_i [OF l] by blast
    then have "l \<noteq> ?k" using b by (auto simp: bounded_def)
    with rest [of l] s show ?thesis by (auto simp: option_rel_Some1)
  qed
  have new: "newest_first w' i = ?k # newest_first w i"
  proof -
    let ?p = "\<lambda>_ s. workspace_id s = i" and ?f = "\<lambda>w j. - created_at (the (runs w j))"
    have "select ?k (runs w') ?p = select ?k (runs w) ?p"
      unfolding select_def using keep [where P = "\<lambda>c. rc_workspace c = i"]
      by (intro filter_cong refl) (simp add: row_query)
    then have sel: "select_runs w' ?p = select_runs w ?p @ [?k]"
      using k(1,2) w'(3) by (simp add: select_runs_def select_def)
    have "sort_key (?f w') (select_runs w ?p @ [?k]) = ?k # sort_key (?f w') (select_runs w ?p)"
      using older old_rows k by (intro sort_key_newest) (simp add: newest_first_def)
    also have "sort_key (?f w') (select_runs w ?p) = sort_key (?f w) (select_runs w ?p)"
      using old_rows by (intro sort_key_cong) (simp add: newest_first_def)
    finally show ?thesis by (simp add: newest_first_def sel)
  qed
  have failed: "\<exists>s'. runs w' l = Some s' \<and> failed_destroy s'" if s: "runs w l = Some s" "failed_destroy s" for l s
  proof -
    have "l \<noteq> ?k" using b s(1) by (auto simp: bounded_def)
    with rest [of l] s show ?thesis by (auto simp: option_rel_Some1 failed_destroy_def)
  qed
  have self: "failed_destroy r"
    using r(1,3) js by (simp add: consecutive_failed_destroys_def split: if_splits)
  have "timely i w'" unfolding timely_def
  proof (intro conjI allI impI)
    fix l s assume s: "runs w' l = Some s" "workspace_id s = i"
    show "created_at s \<le> now w'"
    proof (cases "l = ?k")
      case False
      with rest [of l] s obtain s0 where "runs w l = Some s0" "config s = config s0" by (auto simp: option_rel_Some2)
      with s(2) assms(3) w'(2) show ?thesis by (simp add: timely_def)
    qed (use k s w' in simp)
  qed (rule w'(1))
  moreover have "episode i count retries w'"
  proof (cases "length (newest_first w i) \<le> count")
    case True
    have "1 \<le> retries" using r(3,4) by simp
    with True failed [OF r(1) self] show ?thesis unfolding episode_def new js
      by (intro disjI2 exI [of _ ?k] exI [of _ "[j]"] exI [of _ js]) simp
  next
    case False
    with assms(2) obtain ys ks where e: "newest_first w i = j # ys @ ks" "length (newest_first w i) \<le> count + length ys"
        "\<forall>l\<in>set ys. \<exists>r. runs w l = Some r \<and> failed_destroy r"
      unfolding episode_def js by auto
    have all: "\<And>l. l \<in> set (j # ys) \<Longrightarrow> failed_destroy (the (runs w l))" using e(3) r(1) self by fastforce
    have "length (j # ys) \<le> consecutive_failed_destroys w i"
      unfolding consecutive_failed_destroys_def e(1) using all takeWhile_append2 [of "j # ys" "\<lambda>l. failed_destroy (the (runs w l))" ks]
      by simp
    with r(4) have "int (length (j # ys)) \<le> retries" by linarith
    with e failed r(1) self show ?thesis unfolding episode_def new
      by (intro disjI2 exI [of _ ?k] exI [of _ "j # ys"] exI [of _ ks]) fastforce
  qed
  ultimately show ?thesis by blast
qed

lemma same_runs_elsewhere:
  assumes "retried i' retries w w' j" and "i' \<noteq> i" and "bounded w"
  shows "same_runs i w w'" and "\<And>l r. runs w l = Some r \<Longrightarrow> workspace_id r = i \<Longrightarrow> runs w' l = Some r"
proof -
  from assms(1) obtain r' where k: "runs w' (next_id w) = Some r'" "workspace_id r' = i'"
    and rest: "\<And>l. l \<noteq> next_id w \<Longrightarrow> rel_option (\<lambda>a b. b = a \<or> workspace_id a = i' \<and> config b = config a \<and> status a \<noteq> Errored)
          (runs w l) (runs w' l)"
    unfolding retried_def by blast
  have fresh: "runs w (next_id w) = None" using assms(3) by (auto simp: bounded_def)
  show kept: "runs w' l = Some r" if "runs w l = Some r" "workspace_id r = i" for l r
  proof -
    have "l \<noteq> next_id w" using that fresh by auto
    with rest [of l] that assms(2) show ?thesis by (auto simp: option_rel_Some1)
  qed
  have origin: "\<exists>s. runs w l = Some s \<and> config r = config s" if "runs w' l = Some r" "l \<noteq> next_id w" for l r
    using rest [OF that(2)] that(1) by (auto simp: option_rel_Some2)
  show "same_runs i w w'" unfolding same_runs_def
  proof (intro conjI allI impI iffI)
    fix l assume "\<exists>r. runs w l = Some r \<and> workspace_id r = i"
    then show "\<exists>r. runs w' l = Some r \<and> workspace_id r = i" using kept by blast
  next
    fix l assume "\<exists>r. runs w' l = Some r \<and> workspace_id r = i"
    then show "\<exists>r. runs w l = Some r \<and> workspace_id r = i" using origin k assms(2) by (metis option.inject)
  next
    fix l r s assume "runs w l = Some r" "runs w' l = Some s"
    then show "created_at s = created_at r" using origin [of l s] fresh by fastforce
  qed
qed

lemma retry_one_keeps:
  assumes "episode i count retries w" and "timely i w" and "runs w j = Some r"
    and "workspace_id r = i \<Longrightarrow> created_at r < now w"
  shows "\<exists>n w'. retry_one e retries j w = Ret n w' \<and> episode i count retries w' \<and> timely i w' \<and> now w' = now w
    \<and> (\<forall>l s. runs w l = Some s \<longrightarrow> (\<exists>s'. runs w' l = Some s' \<and> config s' = config s))"
proof -
  have b: "bounded w" using assms(2) by (simp add: timely_def)
  from retry_one_effect [OF b assms(3), of e retries] show ?thesis
  proof (elim disjE exE conjE)
    assume "retry_one e retries j w = Ret 0 w"
    with assms show ?thesis by auto
  next
    fix w' assume ret: "retry_one e retries j w = Ret 1 w'" and eff: "retried (workspace_id r) retries w w' j"
    have "\<exists>s'. runs w' l = Some s' \<and> config s' = config s" if "runs w l = Some s" for l s
      using retried_row [OF eff b that] by auto
    moreover have "now w' = now w" "bounded w'" using eff by (auto simp: retried_def)
    moreover have "episode i count retries w' \<and> timely i w'"
    proof (cases "workspace_id r = i")
      case True
      with episode_retried [OF _ assms(1,2), of w' j] eff assms(3,4) show ?thesis by simp
    next
      case False
      note other = same_runs_elsewhere [OF eff False b]
      have "timely i w'" unfolding timely_def
      proof (intro conjI allI impI)
        fix l s assume s: "runs w' l = Some s" "workspace_id s = i"
        with other(1) obtain s0 where s0: "runs w l = Some s0" "workspace_id s0 = i" unfolding same_runs_def by blast
        from other(2) [OF this] s(1) s0 assms(2) \<open>now w' = now w\<close> show "created_at s \<le> now w'" by (auto simp: timely_def)
      qed (rule \<open>bounded w'\<close>)
      moreover have "episode i count retries w'"
        using assms(1) unfolding episode_def newest_first_same [OF other(1) b \<open>bounded w'\<close>]
      proof (elim disjE exE conjE)
        fix a js ks
        assume e: "newest_first w i = a # js @ ks" and "length (newest_first w i) \<le> count + length js"
          and "int (length js) \<le> retries" and f: "\<forall>k\<in>set js. \<exists>r. runs w k = Some r \<and> failed_destroy r"
        moreover have "\<exists>r. runs w' k = Some r \<and> failed_destroy r" if "k \<in> set js" for k
        proof -
          have "k \<in> set (newest_first w i)" using e that by simp
          then show ?thesis using newest_first_in [OF b] f that other(2) by fastforce
        qed
        ultimately show "length (newest_first w i) \<le> count \<or> (\<exists>j js ks. newest_first w i = j # js @ ks
            \<and> length (newest_first w i) \<le> count + length js \<and> int (length js) \<le> retries
            \<and> (\<forall>k\<in>set js. \<exists>r. runs w' k = Some r \<and> failed_destroy r))" by blast
      qed simp
      ultimately show ?thesis by blast
    qed
    ultimately show ?thesis using ret by blast
  qed
qed

lemma retry_loop_keeps:
  assumes "episode i count retries w" and "timely i w"
    and "\<And>j. j \<in> set js \<Longrightarrow> \<exists>r. runs w j = Some r \<and> (workspace_id r = i \<longrightarrow> created_at r < now w)"
  shows "\<exists>n w'. retry_loop e retries js w = Ret n w' \<and> episode i count retries w' \<and> timely i w' \<and> now w' = now w
    \<and> (\<forall>l s. runs w l = Some s \<longrightarrow> (\<exists>s'. runs w' l = Some s' \<and> config s' = config s))"
  using assms
proof (induction js arbitrary: w)
  case (Cons j js)
  obtain r where r: "runs w j = Some r" "workspace_id r = i \<Longrightarrow> created_at r < now w" using Cons.prems(3) [of j] by auto
  obtain n w1 where one: "retry_one e retries j w = Ret n w1" "episode i count retries w1" "timely i w1" "now w1 = now w"
    "\<forall>l s. runs w l = Some s \<longrightarrow> (\<exists>s'. runs w1 l = Some s' \<and> config s' = config s)"
    using retry_one_keeps [OF Cons.prems(1,2) r(1), where e = e] r(2) by blast
  have "\<exists>r. runs w1 l = Some r \<and> (workspace_id r = i \<longrightarrow> created_at r < now w1)" if "l \<in> set js" for l
    using Cons.prems(3) [of l] one(4,5) that by fastforce
  from Cons.IH [OF one(2,3) this] obtain m w2 where "retry_loop e retries js w1 = Ret m w2" "episode i count retries w2"
    "timely i w2" "now w2 = now w1" "\<forall>l s. runs w1 l = Some s \<longrightarrow> (\<exists>s'. runs w2 l = Some s' \<and> config s' = config s)" by blast
  with one show ?case by fastforce
qed auto

section \<open>Any history\<close>

text \<open>
  Cycles interleaved with anything else that keeps to the transition table (as every endpoint and task does), lets no
  time go origin and starts no run on the workspace.
\<close>

inductive destroy_step :: "int \<Rightarrow> nat \<Rightarrow> retry_state \<Rightarrow> retry_state \<Rightarrow> bool" for retries i where
  cycle: "destroy_step retries i s (res_state (lifecycle_destroy_retry_cycle e retries backoff s))"
| elsewhere: "lawful (rs_world s) w' \<Longrightarrow> now (rs_world s) \<le> now w' \<Longrightarrow> (\<And>j. rs_updated s j \<le> updated j) \<Longrightarrow>
    (\<And>j r. runs w' j = Some r \<Longrightarrow> workspace_id r = i \<Longrightarrow> runs (rs_world s) j \<noteq> None) \<Longrightarrow>
    destroy_step retries i s \<lparr>rs_world = w', rs_updated = updated\<rparr>"

definition dated :: "nat \<Rightarrow> retry_state \<Rightarrow> bool" where
  "dated i s \<longleftrightarrow> timely i (rs_world s)
     \<and> (\<forall>j r. runs (rs_world s) j = Some r \<longrightarrow> workspace_id r = i \<longrightarrow> created_at r \<le> rs_updated s j)"

definition runs_of :: "nat \<Rightarrow> world \<Rightarrow> nat" where
  "runs_of i w = length (select_runs w (\<lambda>_ r. workspace_id r = i))"

lemma frozen_columns:
  "frozen a = frozen b \<Longrightarrow> workspace_id a = workspace_id b \<and> created_at a = created_at b
     \<and> rc_is_destroy (config a) = rc_is_destroy (config b) \<and> rc_source (config a) = rc_source (config b)"
  by (cases "config a"; cases "config b") (simp add: frozen_def)

lemma errored_stays: "can_transition\<^sup>*\<^sup>* Errored x \<Longrightarrow> x = Errored"
  by (induction rule: rtranclp_induct) (auto simp: can_transition_def terminal_states_def)

lemma row_step_columns:
  assumes "row_step a b"
  shows "workspace_id b = workspace_id a \<and> created_at b = created_at a \<and> rc_is_destroy (config b) = rc_is_destroy (config a)
     \<and> rc_source (config b) = rc_source (config a) \<and> (status a = Errored \<longrightarrow> status b = Errored)"
  using assms frozen_columns [of b a] errored_stays by (auto simp: row_step_def)

lemma destroy_step_keeps:
  assumes "destroy_step retries i s s'" and "episode i count retries (rs_world s)" and "dated i s"
  shows "episode i count retries (rs_world s') \<and> dated i s'"
  using assms
proof (cases rule: destroy_step.cases)
  case (cycle e backoff)
  let ?w = "rs_world s" and ?old = "\<lambda>j r. failed_destroy r \<and> rs_updated s j < now (rs_world s) - max 0 backoff * 1000000"
  have t: "timely i ?w" using assms(3) by (simp add: dated_def)
  show ?thesis
  proof (cases "retries \<le> 0")
    case True
    with cycle assms show ?thesis by (simp add: lifecycle_destroy_retry_cycle_def)
  next
    case False
    have "\<exists>r. runs ?w j = Some r \<and> (workspace_id r = i \<longrightarrow> created_at r < now ?w)" if "j \<in> set (select_runs ?w ?old)" for j
    proof -
      from that obtain r where r: "runs ?w j = Some r" "rs_updated s j < now ?w - max 0 backoff * 1000000"
        by (auto simp: select_runs_def)
      moreover have "rs_updated s j < now ?w" using r(2) by linarith
      ultimately show ?thesis using assms(3) by (fastforce simp: dated_def)
    qed
    from retry_loop_keeps [OF assms(2) t this, where e = e] obtain n w' where
      loop: "retry_loop e retries (select_runs ?w ?old) ?w = Ret n w'" "episode i count retries w'" "timely i w'" "now w' = now ?w"
      by blast
    have s': "s' = \<lparr>rs_world = w', rs_updated = touched ?w w' (rs_updated s)\<rparr>"
      using cycle False loop(1) by (simp add: lifecycle_destroy_retry_cycle_def)
    have "created_at r \<le> touched ?w w' (rs_updated s) j" if "runs w' j = Some r" "workspace_id r = i" for j r
      using that loop(3,4) assms(3) by (auto simp: touched_def timely_def dated_def)
    with loop show ?thesis by (simp add: s' dated_def)
  qed
next
  case (elsewhere w' updated)
  let ?w = "rs_world s"
  have b: "bounded ?w" using assms(3) by (simp add: dated_def timely_def)
  with elsewhere(2) have b': "bounded w'" by (simp add: evolves_def)
  have kept: "\<exists>r'. runs w' j = Some r' \<and> row_step r r'" if "runs ?w j = Some r" for j r
    using lawful.row [OF elsewhere(2) b that] by blast
  have origin: "\<exists>r0. runs ?w j = Some r0 \<and> row_step r0 r" if r: "runs w' j = Some r" "workspace_id r = i" for j r
  proof -
    obtain r0 where r0: "runs ?w j = Some r0" using elsewhere(5) [OF r] by blast
    with kept [OF r0] r(1) show ?thesis by auto
  qed
  have same: "same_runs i ?w w'" unfolding same_runs_def
  proof (intro conjI allI impI iffI)
    fix j assume "\<exists>r. runs ?w j = Some r \<and> workspace_id r = i"
    then show "\<exists>r. runs w' j = Some r \<and> workspace_id r = i" using kept by (auto dest!: row_step_columns)
  next
    fix j assume "\<exists>r. runs w' j = Some r \<and> workspace_id r = i"
    then obtain r where r: "runs w' j = Some r" "workspace_id r = i" by blast
    from origin [OF this] r(2) show "\<exists>r. runs ?w j = Some r \<and> workspace_id r = i" by (auto dest!: row_step_columns)
  next
    fix j r r' assume "runs ?w j = Some r" "runs w' j = Some r'"
    with kept [of j r] show "created_at r' = created_at r" by (auto dest!: row_step_columns)
  qed
  have failed: "\<exists>r'. runs w' j = Some r' \<and> failed_destroy r'" if "runs ?w j = Some r" "failed_destroy r" for j r
    using kept [OF that(1)] that(2) by (auto simp: failed_destroy_def dest!: row_step_columns)
  have "episode i count retries w'" using episode_same [OF assms(2) same b b' failed] .
  moreover have "created_at r \<le> updated j \<and> created_at r \<le> now w'" if r: "runs w' j = Some r" "workspace_id r = i" for j r
  proof -
    from origin [OF r] obtain r0 where "runs ?w j = Some r0" "workspace_id r0 = i" "created_at r = created_at r0"
      using r(2) by (auto dest!: row_step_columns)
    then have "created_at r \<le> rs_updated s j \<and> created_at r \<le> now ?w" using assms(3) by (simp add: dated_def timely_def)
    with elsewhere(3) elsewhere(4) [of j] show ?thesis by linarith
  qed
  ultimately show ?thesis using elsewhere(1) b' by (simp add: dated_def timely_def)
qed

text \<open>
  C31: However often the cycle runs and whatever else happens meanwhile, it adds at most \<open>retries\<close> runs to a workspace on which
  nothing else starts a run.
\<close>

theorem destroy_retries_are_bounded:
  assumes "(destroy_step retries i)\<^sup>*\<^sup>* s s'" and "dated i s"
  shows "runs_of i (rs_world s') \<le> runs_of i (rs_world s) + nat retries"
proof -
  let ?n = "runs_of i (rs_world s)"
  have len: "runs_of i w = length (newest_first w i)" for w by (simp add: runs_of_def newest_first_def)
  have "episode i ?n retries (rs_world s') \<and> dated i s'"
    using assms(1)
  proof (induction rule: rtranclp_induct)
    case base
    then show ?case using assms(2) by (simp add: episode_def len)
  next
    case (step u v)
    then show ?case using destroy_step_keeps by blast
  qed
  then show ?thesis unfolding len episode_def by auto
qed

text \<open>One destroy that failed, and the cycle a minute later: with one retry it adds exactly one run.\<close>

definition failed_once :: retry_state where
  "failed_once = \<lparr>rs_world = empty_world\<lparr>workspaces := [0 \<mapsto> plain_workspace],
     config_versions := [1 \<mapsto> \<lparr>cv_workspace = 0, cv_source = ''catalog'', cv_status = ''uploaded'', cv_auto_queue = False,
       cv_speculative = False, cv_created_at = 0\<rparr>],
     runs := [2 \<mapsto> (new_run example_env 0 (settings plain_workspace)
       (retry_request ''catalog-lifecycle'' 0 1 1) 0)\<lparr>status := Errored\<rparr>],
     next_id := 3, now := 100000000\<rparr>, rs_updated = (\<lambda>_. 0)\<rparr>"

theorem destroy_retries_are_bounded_witness:
  "runs_of 0 (rs_world (res_state (lifecycle_destroy_retry_cycle example_env 1 60 failed_once))) = 2
   \<and> runs_of 0 (rs_world failed_once) = 1
   \<and> runs_of 0 (rs_world (res_state (lifecycle_destroy_retry_cycle example_env 1 60
        (res_state (lifecycle_destroy_retry_cycle example_env 1 60 failed_once))))) \<le> 2"
proof (intro conjI)
  let ?c = "\<lambda>s. res_state (lifecycle_destroy_retry_cycle example_env 1 60 s)"
  show "runs_of 0 (rs_world (?c failed_once)) = 2" by code_simp
  show one: "runs_of 0 (rs_world failed_once) = 1" by code_simp
  have "dated 0 failed_once"
    by (auto simp: dated_def timely_def bounded_def failed_once_def empty_world_def new_run_def split: if_splits)
  moreover have "(destroy_step 1 0)\<^sup>*\<^sup>* failed_once (?c (?c failed_once))"
    by (meson destroy_step.cycle rtranclp.rtrancl_into_rtrancl rtranclp.rtrancl_refl)
  ultimately show "runs_of 0 (rs_world (?c (?c failed_once))) \<le> 2"
    using destroy_retries_are_bounded [of 1 0 failed_once "?c (?c failed_once)"] one by simp
qed

end
