(* ===== verification/Retention.thy ===== *)
theory Retention
  imports StateVersions
begin

text \<open>
  The clean-up of old artifacts (\<open>services/artifact_retention_service.py\<close>): one function per category and the cycle that
  runs them.

  The states of workspaces are the objects of \<open>StateVersions\<close>; everything else in storage is in \<open>rt_objects\<close>, with the
  time of its last change. Deleting an object may fail, which is logged. Queries without \<open>ORDER BY\<close> return their rows in
  any order: \<open>order\<close> says in which. Assigning \<open>None\<close> to a JSON column stores the JSON value \<open>null\<close>, which
  \<open>IS NOT NULL\<close> finds; it is \<open>Some []\<close> here, as an empty dictionary is. Removing a row sets the columns that
  refer to it to \<open>NULL\<close>.
\<close>

section \<open>State\<close>

datatype artifact =
    Plan_Log nat nat
  | Apply_Log nat nat
  | Plan_Output nat nat
  | Json_Output nat nat
  | Config_Archive nat nat
  | Provider_Package "string list"
  | Tool_Binary "string list"
  | Stored_Path string
  | Vcs_Archive string

record cached_entry =
  ce_key :: "string list"
  ce_accessed :: int

record retention_state =
  rt_server :: server
  rt_objects :: "artifact \<Rightarrow> int option"
  rt_faults :: "nat \<Rightarrow> bool"
  rt_calls :: nat
  rt_json :: "nat \<Rightarrow> bool"
  rt_providers :: "cached_entry table"
  rt_binaries :: "cached_entry table"

abbreviation rt_world :: "retention_state \<Rightarrow> world" where
  "rt_world st \<equiv> fst (rt_server st)"

definition on_rt_world :: "(world \<Rightarrow> world) \<Rightarrow> retention_state \<Rightarrow> retention_state" where
  "on_rt_world f st = st\<lparr>rt_server := (f (fst (rt_server st)), snd (rt_server st))\<rparr>"

type_synonym cleanup = "retention_state \<Rightarrow> nat \<times> retention_state"

definition delete_artifact :: "artifact \<Rightarrow> retention_state \<Rightarrow> bool \<times> retention_state" where
  "delete_artifact k st =
     (let st1 = st\<lparr>rt_calls := Suc (rt_calls st)\<rparr>
      in if rt_faults st (rt_calls st) then (False, st1) else (True, st1\<lparr>rt_objects := (rt_objects st)(k := None)\<rparr>))"

fun delete_artifacts :: "artifact list \<Rightarrow> cleanup" where
  "delete_artifacts [] st = (0, st)"
| "delete_artifacts (k # ks) st =
     (case delete_artifact k st of (ok, st1) \<Rightarrow>
       case delete_artifacts ks st1 of (n, st2) \<Rightarrow> ((if ok then Suc n else n), st2))"

definition cutoff_time :: "int \<Rightarrow> retention_state \<Rightarrow> int" where
  "cutoff_time days st = now (rt_world st) - days * 86400000000"

section \<open>State versions\<close>

definition versions_of :: "world \<Rightarrow> nat \<Rightarrow> nat list" where
  "versions_of w ws = select (next_id w) (state_versions w) (\<lambda>_ sv. sv_workspace sv = ws)"

definition excess_versions :: "world \<Rightarrow> nat \<Rightarrow> nat \<Rightarrow> nat list" where
  "excess_versions w ws keep = drop keep (sort_key (\<lambda>i. - sv_serial (the (state_versions w i))) (versions_of w ws))"

definition remove_version :: "nat \<Rightarrow> nat \<Rightarrow> server \<Rightarrow> server" where
  "remove_version ws i s = (case res_state (os_delete (state_key ws i) s) of (w, os) \<Rightarrow> (drop_sv i w, os))"

fun state_versions_loop :: "nat \<Rightarrow> nat \<Rightarrow> nat list \<Rightarrow> nat \<Rightarrow> server \<Rightarrow> nat \<times> server" where
  "state_versions_loop keep batch [] deleted s = (deleted, s)"
| "state_versions_loop keep batch (ws # rest) deleted s =
     (if batch \<le> deleted then (deleted, s)
      else if map_option state_diverged (workspaces (fst s) ws) = Some True
      then state_versions_loop keep batch rest deleted s
      else let excess = take (batch - deleted) (excess_versions (fst s) ws keep)
        in state_versions_loop keep batch rest (deleted + length excess) (fold (remove_version ws) excess s))"

definition cleanup_state_versions :: "(nat list \<Rightarrow> nat list) \<Rightarrow> nat \<Rightarrow> nat \<Rightarrow> cleanup" where
  "cleanup_state_versions order keep batch st =
     (let w = rt_world st;
          ids = order (select (next_id w) (workspaces w) (\<lambda>i _. keep < length (versions_of w i)))
      in case state_versions_loop keep batch ids 0 (rt_server st) of (n, s) \<Rightarrow> (n, st\<lparr>rt_server := s\<rparr>))"

section \<open>Artifacts of runs\<close>

definition old_finished_runs :: "int \<Rightarrow> (run \<Rightarrow> bool) \<Rightarrow> world \<Rightarrow> nat list" where
  "old_finished_runs cutoff p w = select_runs w (\<lambda>_ r. status r \<in> set terminal_states \<and> p r \<and> created_at r < cutoff)"

definition run_artifacts :: "nat \<Rightarrow> nat \<Rightarrow> artifact list" where
  "run_artifacts ws i = [Plan_Log ws i, Apply_Log ws i, Plan_Output ws i, Json_Output ws i]"

definition clean_run :: "nat \<Rightarrow> cleanup" where
  "clean_run i st =
     (case delete_artifacts (run_artifacts (workspace_id (the (runs (rt_world st) i))) i) st of
        (n, st1) \<Rightarrow> (n, st1\<lparr>rt_json := (rt_json st1)(i := False)\<rparr>))"

fun clean_each :: "('x \<Rightarrow> cleanup) \<Rightarrow> 'x list \<Rightarrow> cleanup" where
  "clean_each f [] st = (0, st)"
| "clean_each f (x # xs) st = (case f x st of (n, st1) \<Rightarrow> case clean_each f xs st1 of (m, st2) \<Rightarrow> (n + m, st2))"

definition cleanup_run_artifacts :: "(nat list \<Rightarrow> nat list) \<Rightarrow> int \<Rightarrow> nat \<Rightarrow> cleanup" where
  "cleanup_run_artifacts order days batch st =
     clean_each clean_run (take batch (order (old_finished_runs (cutoff_time days st) (\<lambda>_. True) (rt_world st)))) st"

section \<open>Configuration versions\<close>

definition active_cv_ids :: "world \<Rightarrow> nat set" where
  "active_cv_ids w = set (List.map_filter (\<lambda>i. rc_cv (config (the (runs w i))))
     (select_runs w (\<lambda>_ r. status r \<notin> set terminal_states)))"

definition unpoint :: "nat \<Rightarrow> run \<Rightarrow> run" where
  "unpoint i r = (if rc_cv (config r) = Some i then r\<lparr>config := (config r)\<lparr>rc_cv := None\<rparr>\<rparr> else r)"

definition drop_cv :: "nat \<Rightarrow> world \<Rightarrow> world" where
  "drop_cv i w = w\<lparr>config_versions := (config_versions w)(i := None), runs := (\<lambda>j. map_option (unpoint i) (runs w j))\<rparr>"

definition clean_cv :: "nat \<Rightarrow> cleanup" where
  "clean_cv i st = (1, on_rt_world (drop_cv i)
     (snd (delete_artifact (Config_Archive (cv_workspace (the (config_versions (rt_world st) i))) i) st)))"

definition cleanup_config_versions :: "(nat list \<Rightarrow> nat list) \<Rightarrow> int \<Rightarrow> nat \<Rightarrow> cleanup" where
  "cleanup_config_versions order days batch st =
     (let w = rt_world st
      in clean_each clean_cv (take batch (order (select (next_id w) (config_versions w)
           (\<lambda>i cv. cv_created_at cv < cutoff_time days st \<and> i \<notin> active_cv_ids w)))) st)"

definition excess_configs :: "world \<Rightarrow> nat \<Rightarrow> nat \<Rightarrow> nat list" where
  "excess_configs w ws keep = drop keep (sort_key (\<lambda>i. - cv_created_at (the (config_versions w i)))
     (select (next_id w) (config_versions w) (\<lambda>i cv. cv_workspace cv = ws \<and> i \<notin> active_cv_ids w)))"

fun config_versions_loop :: "nat \<Rightarrow> nat \<Rightarrow> nat list \<Rightarrow> nat \<Rightarrow> cleanup" where
  "config_versions_loop keep batch [] deleted st = (deleted, st)"
| "config_versions_loop keep batch (ws # rest) deleted st =
     (if batch \<le> deleted then (deleted, st)
      else let excess = take (batch - deleted) (excess_configs (rt_world st) ws keep)
        in config_versions_loop keep batch rest (deleted + length excess) (snd (clean_each clean_cv excess st)))"

definition cleanup_config_versions_count :: "(nat list \<Rightarrow> nat list) \<Rightarrow> nat \<Rightarrow> nat \<Rightarrow> cleanup" where
  "cleanup_config_versions_count order keep batch st =
     (let w = rt_world st;
          ids = order (select (next_id w) (workspaces w)
            (\<lambda>i _. keep < length (select (next_id w) (config_versions w) (\<lambda>_ cv. cv_workspace cv = i))))
      in config_versions_loop keep batch ids 0 st)"

section \<open>Caches\<close>

definition clean_provider :: "nat \<Rightarrow> cleanup" where
  "clean_provider i st = (let st1 = snd (delete_artifact (Provider_Package (ce_key (the (rt_providers st i)))) st)
     in (1, st1\<lparr>rt_providers := (rt_providers st1)(i := None)\<rparr>))"

definition cleanup_provider_cache :: "(nat list \<Rightarrow> nat list) \<Rightarrow> int \<Rightarrow> nat \<Rightarrow> cleanup" where
  "cleanup_provider_cache order days batch st =
     clean_each clean_provider (take batch (order (select (next_id (rt_world st)) (rt_providers st)
       (\<lambda>_ ce. ce_accessed ce < cutoff_time days st)))) st"

definition clean_binary :: "nat \<Rightarrow> cleanup" where
  "clean_binary i st = (let st1 = snd (delete_artifact (Tool_Binary (ce_key (the (rt_binaries st i)))) st)
     in (1, st1\<lparr>rt_binaries := (rt_binaries st1)(i := None)\<rparr>))"

definition cleanup_binary_cache :: "(nat list \<Rightarrow> nat list) \<Rightarrow> int \<Rightarrow> nat \<Rightarrow> cleanup" where
  "cleanup_binary_cache order days batch st =
     clean_each clean_binary (take batch (order (select (next_id (rt_world st)) (rt_binaries st)
       (\<lambda>_ ce. ce_accessed ce < cutoff_time days st)))) st"

section \<open>Module overrides and archives\<close>

definition clean_overrides :: "nat \<Rightarrow> cleanup" where
  "clean_overrides i st =
     (let paths = map snd (case rc_overrides (config (the (runs (rt_world st) i))) of None \<Rightarrow> [] | Some o' \<Rightarrow> o')
      in (length paths, on_rt_world (put_run i (\<lambda>r. r\<lparr>config := (config r)\<lparr>rc_overrides := Some []\<rparr>\<rparr>))
           (snd (delete_artifacts (map Stored_Path paths) st))))"

definition cleanup_module_overrides :: "(nat list \<Rightarrow> nat list) \<Rightarrow> int \<Rightarrow> nat \<Rightarrow> cleanup" where
  "cleanup_module_overrides order days batch st =
     clean_each clean_overrides (take batch (order
       (old_finished_runs (cutoff_time days st) (\<lambda>r. rc_overrides (config r) \<noteq> None) (rt_world st)))) st"

text \<open>The archives of the listing that are still there, oldest first; \<open>listed\<close> is \<open>None\<close> when listing fails.\<close>

fun archives_loop :: "int \<Rightarrow> nat \<Rightarrow> (artifact \<times> int) list \<Rightarrow> nat \<Rightarrow> cleanup" where
  "archives_loop cutoff batch [] deleted st = (deleted, st)"
| "archives_loop cutoff batch ((k, modified) # rest) deleted st =
     (if cutoff \<le> modified \<or> batch \<le> deleted then (deleted, st)
      else case delete_artifact k st of
        (ok, st1) \<Rightarrow> archives_loop cutoff batch rest (if ok then Suc deleted else deleted) st1)"

definition cleanup_vcs_archives :: "(artifact \<times> int) list option \<Rightarrow> int \<Rightarrow> nat \<Rightarrow> cleanup" where
  "cleanup_vcs_archives listed days batch st =
     (case listed of
        None \<Rightarrow> (0, st)
      | Some entries \<Rightarrow> archives_loop (cutoff_time days st) batch (sort_key snd entries) 0 st)"

section \<open>The cycle\<close>

record retention_config =
  rf_batch :: nat
  rf_states :: nat
  rf_runs :: nat
  rf_configs :: nat
  rf_configs_keep :: nat
  rf_providers :: nat
  rf_binaries :: nat
  rf_overrides :: nat
  rf_archives :: nat
  rf_sealed :: bool

definition unless_zero :: "nat \<Rightarrow> cleanup \<Rightarrow> retention_state \<Rightarrow> retention_state" where
  "unless_zero threshold h st = (if threshold = 0 then st else snd (h st))"

definition artifact_retention_cycle ::
    "retention_config \<Rightarrow> (nat list \<Rightarrow> nat list) \<Rightarrow> (retention_state \<Rightarrow> (artifact \<times> int) list option)
      \<Rightarrow> retention_state \<Rightarrow> retention_state" where
  "artifact_retention_cycle cfg order listing st0 =
     (let n = rf_batch cfg;
          st1 = unless_zero (rf_states cfg) (cleanup_state_versions order (rf_states cfg) n) st0;
          st2 = unless_zero (rf_runs cfg) (cleanup_run_artifacts order (int (rf_runs cfg)) n) st1;
          st3 = unless_zero (rf_configs cfg) (cleanup_config_versions order (int (rf_configs cfg)) n) st2;
          st4 = unless_zero (rf_configs_keep cfg) (cleanup_config_versions_count order (rf_configs_keep cfg) n) st3;
          st5 = (if rf_sealed cfg then st4
            else unless_zero (rf_providers cfg) (cleanup_provider_cache order (int (rf_providers cfg)) n) st4);
          st6 = (if rf_sealed cfg then st5
            else unless_zero (rf_binaries cfg) (cleanup_binary_cache order (int (rf_binaries cfg)) n) st5);
          st7 = unless_zero (rf_overrides cfg) (cleanup_module_overrides order (int (rf_overrides cfg)) n) st6
      in unless_zero (rf_archives cfg) (cleanup_vcs_archives (listing st7) (int (rf_archives cfg)) n) st7)"

end
