(* ===== verification/RetentionSafety.thy ===== *)
theory RetentionSafety
  imports Retention StateProperties
begin

text \<open>
  What the clean-up may remove: old state versions but never the current one, configurations no active run uses; and which
  artifacts it never reaches.
\<close>

section \<open>All but the first of a sorted list\<close>

lemma drop_sorted_above:
  fixes f :: "'a \<Rightarrow> int"
  assumes "distinct xs" and "inj_on f (set xs)" and "x \<in> set (drop n (sort_key f xs))"
  shows "x \<in> set xs \<and> n \<le> card {y \<in> set xs. f y < f x}"
proof -
  let ?ys = "sort_key f xs"
  have sorted: "sorted (map f ?ys)" and dist: "distinct ?ys" using assms(1) by simp_all
  have x: "x \<in> set ?ys" using assms(3) in_set_dropD by fast
  have len: "n < length ?ys" using assms(3) by (cases "n < length ?ys") simp_all
  have "set (take n ?ys) \<subseteq> {y \<in> set xs. f y < f x}"
  proof
    fix y assume y: "y \<in> set (take n ?ys)"
    then have "y \<in> set xs" using in_set_takeD by fastforce
    have "sorted (map f (take n ?ys @ drop n ?ys))" using sorted by simp
    then have "f y \<le> f x" using y assms(3) unfolding map_append sorted_append by auto
    moreover have "y \<noteq> x" using set_take_disj_set_drop_if_distinct [OF dist, of n n] y assms(3) by auto
    ultimately show "y \<in> {y \<in> set xs. f y < f x}"
      using \<open>y \<in> set xs\<close> x assms(2) by (auto simp: inj_on_def order_less_le)
  qed
  then have "card (set (take n ?ys)) \<le> card {y \<in> set xs. f y < f x}" by (intro card_mono) auto
  moreover have "card (set (take n ?ys)) = n" using dist len by (simp add: distinct_card)
  ultimately show ?thesis using x by simp
qed

section \<open>State versions\<close>

definition newer_versions :: "world \<Rightarrow> state_version \<Rightarrow> nat set" where
  "newer_versions w sv = {j. \<exists>sv'. state_versions w j = Some sv' \<and> sv_workspace sv' = sv_workspace sv
     \<and> sv_serial sv < sv_serial sv'}"

lemma newer_versions_finite: "versions_ok w \<Longrightarrow> finite (newer_versions w sv)"
  by (rule finite_subset [of _ "{..<next_id w}"]) (auto simp: newer_versions_def versions_ok_def)

lemma excess_version:
  assumes "versions_ok w" and "i \<in> set (excess_versions w ws keep)"
  shows "\<exists>sv. state_versions w i = Some sv \<and> sv_workspace sv = ws \<and> keep \<le> card (newer_versions w sv)"
proof -
  let ?xs = "versions_of w ws" and ?f = "\<lambda>i. - sv_serial (the (state_versions w i))"
  have xs: "k \<in> set ?xs \<longleftrightarrow> (\<exists>sv. state_versions w k = Some sv \<and> sv_workspace sv = ws)" for k
    using assms(1) by (auto simp: versions_of_def versions_ok_def)
  have "inj_on ?f (set ?xs)"
    using assms(1) by (auto simp: inj_on_def xs versions_ok_def)
  from drop_sorted_above [OF _ this, of i keep] assms(2)
  have i: "i \<in> set ?xs" "keep \<le> card {k \<in> set ?xs. ?f k < ?f i}" by (auto simp: excess_versions_def versions_of_def)
  then obtain sv where sv: "state_versions w i = Some sv" "sv_workspace sv = ws" using xs by blast
  have "{k \<in> set ?xs. ?f k < ?f i} = newer_versions w sv" using sv by (auto simp: xs newer_versions_def)
  with i(2) sv show ?thesis by auto
qed

lemma newest_version:
  assumes "versions_ok w" and "state_versions w i = Some sv"
  obtains j sv' where "state_versions w j = Some sv'" and "sv_workspace sv' = sv_workspace sv" and "newer_versions w sv' = {}"
    and "sv_serial sv \<le> sv_serial sv'"
proof -
  obtain m where m: "current_state_serial w (sv_workspace sv) = Some m" "sv_serial sv \<le> m"
    using current_serial_ge [OF assms] by blast
  then have "m \<in> set (state_serials w (sv_workspace sv))"
    using max_of_in by (auto simp: current_state_serial_def)
  then obtain j sv' where j: "state_versions w j = Some sv'" "sv_workspace sv' = sv_workspace sv" "sv_serial sv' = m"
    using assms(1) by (auto simp: state_serials_iff)
  have "newer_versions w sv' = {}"
  proof (rule ccontr)
    assume "newer_versions w sv' \<noteq> {}"
    then obtain k sv2 where "state_versions w k = Some sv2" "sv_workspace sv2 = sv_workspace sv" "m < sv_serial sv2"
      using j by (auto simp: newer_versions_def)
    with current_serial_ge [OF assms(1), of k sv2] m(1) show False by simp
  qed
  with j m(2) that show ?thesis by blast
qed

definition prunable :: "world \<Rightarrow> nat \<Rightarrow> state_version \<Rightarrow> bool" where
  "prunable w keep sv \<longleftrightarrow> map_option state_diverged (workspaces w (sv_workspace sv)) \<noteq> Some True
     \<and> keep \<le> card (newer_versions w sv)"

text \<open>\<open>w0\<close> with some prunable versions removed.\<close>

definition pruned :: "state_env \<Rightarrow> nat \<Rightarrow> world \<Rightarrow> server \<Rightarrow> bool" where
  "pruned se0 keep w0 s \<longleftrightarrow> sound se0 s \<and> fst s = w0\<lparr>state_versions := state_versions (fst s)\<rparr>
     \<and> (\<forall>i. state_versions (fst s) i = None \<or> state_versions (fst s) i = state_versions w0 i)
     \<and> (\<forall>i sv. state_versions w0 i = Some sv \<longrightarrow> state_versions (fst s) i = None \<longrightarrow> prunable w0 keep sv)"

lemma pruned_keeps:
  assumes "pruned se0 keep w0 s" and "state_versions w0 i = Some sv" and "\<not> prunable w0 keep sv"
  shows "state_versions (fst s) i = Some sv"
proof (cases "state_versions (fst s) i")
  case None
  with assms show ?thesis by (simp add: pruned_def)
next
  case (Some sv')
  with assms show ?thesis unfolding pruned_def by (metis option.distinct(1))
qed

lemma remove_version_eq:
  "\<exists>os'. remove_version ws i (w, os) = (drop_sv i w, os')
    \<and> (os_objects os' = os_objects os \<or> os_objects os' = (os_objects os)(state_key ws i := None))"
  by (auto simp: remove_version_def os_delete_def os_command_def Let_def)

lemma pruned_remove:
  assumes "pruned se0 keep w0 s" and "versions_ok w0" and "0 < keep" and "state_versions w0 i = Some sv"
    and "prunable w0 keep sv" and "state_versions (fst s) i = Some sv"
  shows "pruned se0 keep w0 (remove_version (sv_workspace sv) i s)"
proof -
  obtain w os where s: "s = (w, os)" by (cases s)
  from remove_version_eq obtain os' where r: "remove_version (sv_workspace sv) i (w, os) = (drop_sv i w, os')"
    "os_objects os' = os_objects os \<or> os_objects os' = (os_objects os)(state_key (sv_workspace sv) i := None)" by blast
  obtain j sv' where j: "state_versions w0 j = Some sv'" "sv_workspace sv' = sv_workspace sv" "newer_versions w0 sv' = {}"
    "sv_serial sv \<le> sv_serial sv'" using newest_version [OF assms(2,4)] by blast
  have ok: "versions_ok w" using assms(1) by (simp add: pruned_def sound_def s)
  have "newer_versions w0 sv \<noteq> {}" using assms(3,5) by (auto simp: prunable_def)
  then have "sv_serial sv \<noteq> sv_serial sv'" using j(2,3) by (auto simp: newer_versions_def)
  moreover have "state_versions w j = Some sv'"
    using pruned_keeps [OF assms(1) j(1)] assms(3) j(3) by (simp add: prunable_def s)
  ultimately have "current_state_serial w (sv_workspace sv) \<noteq> Some (sv_serial sv)"
    using current_serial_ge [OF ok, of j sv'] j(2,4) by auto
  then have "row_dropped i sv (w, os) (drop_sv i w, os')"
    using assms(6) r(2) by (simp add: row_dropped_def s drop_sv_def)
  from row_dropped_sound [OF this] assms(1) have "sound se0 (drop_sv i w, os')" by (simp add: pruned_def s)
  moreover have "w\<lparr>state_versions := f\<rparr> = w0\<lparr>state_versions := f\<rparr>" for f
  proof -
    have "w = w0\<lparr>state_versions := state_versions w\<rparr>" using assms(1) by (simp add: pruned_def s)
    then have "w\<lparr>state_versions := f\<rparr> = w0\<lparr>state_versions := state_versions w\<rparr>\<lparr>state_versions := f\<rparr>" by (rule arg_cong)
    then show ?thesis by simp
  qed
  ultimately show ?thesis using assms(1,4,5) unfolding s r(1) by (auto simp: pruned_def drop_sv_def)
qed

lemma pruned_remove_all:
  assumes "pruned se0 keep w0 s" and "versions_ok w0" and "0 < keep" and "distinct is"
    and "\<And>i. i \<in> set is \<Longrightarrow> \<exists>sv. state_versions (fst s) i = Some sv \<and> sv_workspace sv = ws \<and> prunable w0 keep sv"
  shows "pruned se0 keep w0 (fold (remove_version ws) is s)
    \<and> {i. state_versions (fst (fold (remove_version ws) is s)) i = None} \<subseteq> set is \<union> {i. state_versions (fst s) i = None}"
  using assms(1,4,5)
proof (induction "is" arbitrary: s)
  case (Cons i "is")
  obtain w os where s: "s = (w, os)" by (cases s)
  obtain sv where sv: "state_versions w i = Some sv" "sv_workspace sv = ws" "prunable w0 keep sv"
    using Cons.prems(3) [of i] s by auto
  let ?s1 = "remove_version ws i s"
  have dropped: "state_versions (fst (remove_version ws i (w, os))) = (state_versions w)(i := None)"
    using remove_version_eq [of ws i w os] by (auto simp: drop_sv_def)
  have "state_versions w0 i = Some sv" using Cons.prems(1) sv(1) by (auto simp: pruned_def s dest!: spec [of _ i])
  then have "pruned se0 keep w0 ?s1" using pruned_remove [OF Cons.prems(1) assms(2,3)] sv s by auto
  moreover have "\<exists>sv. state_versions (fst ?s1) k = Some sv \<and> sv_workspace sv = ws \<and> prunable w0 keep sv" if "k \<in> set is" for k
  proof -
    have "k \<noteq> i" using Cons.prems(2) that by auto
    with Cons.prems(3) [of k] that show ?thesis unfolding s dropped by simp
  qed
  ultimately have ih: "pruned se0 keep w0 (fold (remove_version ws) is ?s1)
    \<and> {i. state_versions (fst (fold (remove_version ws) is ?s1)) i = None} \<subseteq> set is \<union> {i. state_versions (fst ?s1) i = None}"
    using Cons.IH [of ?s1] Cons.prems(2) by auto
  moreover have "{i. state_versions (fst ?s1) i = None} \<subseteq> insert i {i. state_versions (fst s) i = None}"
    unfolding s dropped by auto
  ultimately show ?case by auto
qed simp

definition removed :: "world \<Rightarrow> world \<Rightarrow> nat set" where
  "removed w w' = {i. state_versions w i \<noteq> None \<and> state_versions w' i = None}"

lemma removed_self [simp]: "removed w w = {}"
  by (auto simp: removed_def)

lemma state_versions_loop_pruned:
  assumes "pruned se0 keep w0 s" and "versions_ok w0" and "0 < keep" and "card (removed w0 (fst s)) \<le> deleted"
    and "deleted \<le> batch"
  shows "case state_versions_loop keep batch ids deleted s of (n, s') \<Rightarrow>
    pruned se0 keep w0 s' \<and> card (removed w0 (fst s')) \<le> n \<and> n \<le> batch"
  using assms(1,4,5)
proof (induction ids arbitrary: deleted s)
  case (Cons ws ids)
  have fin: "finite (removed w0 w)" for w
    using assms(2) by (rule_tac finite_subset [of _ "{..<next_id w0}"]) (auto simp: removed_def versions_ok_def)
  show ?case
  proof (cases "batch \<le> deleted \<or> map_option state_diverged (workspaces (fst s) ws) = Some True")
    case True
    then show ?thesis using Cons by auto
  next
    case False
    let ?w = "fst s"
    let ?ex = "take (batch - deleted) (excess_versions ?w ws keep)"
    let ?s1 = "fold (remove_version ws) ?ex s"
    have ok: "versions_ok ?w" using Cons.prems(1) by (cases s) (simp add: pruned_def sound_def)
    have cols: "workspaces ?w = workspaces w0" using Cons.prems(1) unfolding pruned_def
      by (metis (no_types, lifting) world.select_convs(2) world.surjective world.update_convs(3))
    have sub: "newer_versions ?w sv \<subseteq> newer_versions w0 sv" for sv
      using Cons.prems(1) unfolding pruned_def newer_versions_def by (auto, metis option.distinct(1))
    have "\<exists>sv. state_versions ?w i = Some sv \<and> sv_workspace sv = ws \<and> prunable w0 keep sv" if "i \<in> set ?ex" for i
    proof -
      from that have "i \<in> set (excess_versions ?w ws keep)" by (rule in_set_takeD)
      from excess_version [OF ok this] obtain sv where
        sv: "state_versions ?w i = Some sv" "sv_workspace sv = ws" "keep \<le> card (newer_versions ?w sv)" by blast
      moreover have "card (newer_versions ?w sv) \<le> card (newer_versions w0 sv)"
        by (rule card_mono [OF newer_versions_finite [OF assms(2)] sub])
      ultimately show ?thesis using False by (auto simp: prunable_def cols)
    qed
    moreover have "distinct ?ex" by (simp add: excess_versions_def versions_of_def)
    ultimately have s1: "pruned se0 keep w0 ?s1"
      "{i. state_versions (fst ?s1) i = None} \<subseteq> set ?ex \<union> {i. state_versions ?w i = None}"
      using pruned_remove_all [OF Cons.prems(1) assms(2,3)] by blast+
    have "removed w0 (fst ?s1) \<subseteq> set ?ex \<union> removed w0 ?w" using s1(2) by (auto simp: removed_def)
    then have "card (removed w0 (fst ?s1)) \<le> card (set ?ex \<union> removed w0 ?w)" using fin by (intro card_mono) auto
    also have "\<dots> \<le> card (set ?ex) + card (removed w0 ?w)" by (rule card_Un_le)
    also have "\<dots> \<le> deleted + length ?ex" using Cons.prems(2) card_length [of ?ex] by linarith
    finally have "card (removed w0 (fst ?s1)) \<le> deleted + length ?ex" .
    with Cons.IH [OF s1(1) this] False Cons.prems(3) show ?thesis by (auto simp: Let_def)
  qed
qed auto

text \<open>
  C28: The clean-up of state versions, whatever storage calls fail and in whatever order workspaces are visited: what is recorded
  stays readable; only versions are removed, at most a batch of them, of workspaces whose state has not
  diverged, and only such as have at least \<open>keep\<close> newer ones; so every workspace keeps its current version.
\<close>

theorem retention_keeps_newest:
  assumes "sound se0 (rt_server st)" and "0 < keep" and "w = rt_world st"
    and "st' = snd (cleanup_state_versions order keep batch st)"
  shows "sound se0 (rt_server st') \<and> rt_world st' = w\<lparr>state_versions := state_versions (rt_world st')\<rparr>
    \<and> (\<forall>i. state_versions (rt_world st') i = None \<or> state_versions (rt_world st') i = state_versions w i)
    \<and> (\<forall>i sv. state_versions w i = Some sv \<and> state_versions (rt_world st') i = None \<longrightarrow> prunable w keep sv)
    \<and> card (removed w (rt_world st')) \<le> batch
    \<and> (\<forall>ws. current_state_serial (rt_world st') ws = current_state_serial w ws)"
proof -
  let ?ids = "order (select (next_id w) (workspaces w) (\<lambda>i _. keep < length (versions_of w i)))"
  obtain n s' where loop: "state_versions_loop keep batch ?ids 0 (rt_server st) = (n, s')" by (metis surj_pair)
  have ok: "versions_ok w" using assms(1,3) by (cases "rt_server st") (simp add: sound_def)
  have start: "pruned se0 keep w (rt_server st)" using assms(1,3) by (simp add: pruned_def)
  have "rt_server st' = s'" using loop by (simp add: assms(3,4) cleanup_state_versions_def)
  moreover have p: "pruned se0 keep w s'" "card (removed w (fst s')) \<le> batch"
    using state_versions_loop_pruned [OF start ok assms(2), of 0 batch ?ids] loop assms(3) by auto
  moreover have "current_state_serial (fst s') ws = current_state_serial w ws" for ws
  proof -
    have ok': "versions_ok (fst s')" using p(1) by (cases s') (simp add: pruned_def sound_def)
    have some: "\<exists>i sv. state_versions v i = Some sv \<and> sv_workspace sv = ws \<and> sv_serial sv = m"
      if "current_state_serial v ws = Some m" "versions_ok v" for v m
      using that max_of_in state_serials_iff by (fastforce simp: current_state_serial_def)
    have none: "current_state_serial v ws = None \<longleftrightarrow> \<not> (\<exists>i sv. state_versions v i = Some sv \<and> sv_workspace sv = ws)"
      if "versions_ok v" for v
      using some [OF _ that] current_serial_ge [OF that] by (metis not_Some_eq)
    have sub: "state_versions w i = Some sv" if "state_versions (fst s') i = Some sv" for i sv
      using p(1) that unfolding pruned_def by (metis option.distinct(1))
    show ?thesis
    proof (cases "current_state_serial w ws")
      case None
      with none [OF ok] none [OF ok'] sub show ?thesis by metis
    next
      case (Some m)
      then obtain i sv where i: "state_versions w i = Some sv" "sv_workspace sv = ws" "sv_serial sv = m"
        using some [OF Some ok] by blast
      obtain j sv' where j: "state_versions w j = Some sv'" "sv_workspace sv' = ws" "newer_versions w sv' = {}" "m \<le> sv_serial sv'"
        using newest_version [OF ok i(1)] i by blast
      then have m: "sv_serial sv' = m" using current_serial_ge [OF ok j(1)] Some by auto
      have kept: "state_versions (fst s') j = Some sv'" 
        using pruned_keeps [OF p(1) j(1)] j(3) assms(2) by (simp add: prunable_def)
      obtain m' where m': "current_state_serial (fst s') ws = Some m'" "m \<le> m'"
        using current_serial_ge [OF ok' kept] j(2) m by auto
      obtain k sv2 where "state_versions (fst s') k = Some sv2" "sv_workspace sv2 = ws" "sv_serial sv2 = m'"
        using some [OF m'(1) ok'] by blast
      with sub current_serial_ge [OF ok, of k sv2] Some m' show ?thesis by auto
    qed
  qed
  ultimately show ?thesis by (auto simp: pruned_def)
qed

section \<open>What unfinished runs need\<close>

abbreviation unfinished :: "run \<Rightarrow> bool" where
  "unfinished r \<equiv> status r \<notin> set terminal_states"

definition needed :: "world \<Rightarrow> artifact set" where
  "needed w = {k. \<exists>j r. runs w j = Some r \<and> unfinished r \<and> (k \<in> set (run_artifacts (workspace_id r) j)
     \<or> (\<exists>c cv. rc_cv (config r) = Some c \<and> config_versions w c = Some cv \<and> k = Config_Archive (cv_workspace cv) c))}"

definition used_configs :: "world \<Rightarrow> nat set" where
  "used_configs w = {c. \<exists>j r. runs w j = Some r \<and> unfinished r \<and> rc_cv (config r) = Some c}"

definition same_unfinished :: "run \<Rightarrow> run \<Rightarrow> bool" where
  "same_unfinished r r' \<longleftrightarrow> status r' = status r \<and> (unfinished r \<longrightarrow> r' = r)"

lemma same_unfinished_refl [simp]: "same_unfinished r r"
  by (simp add: same_unfinished_def)

lemma same_unfinished_trans: "same_unfinished a b \<Longrightarrow> same_unfinished b c \<Longrightarrow> same_unfinished a c"
  by (auto simp: same_unfinished_def)

definition spared :: "retention_state \<Rightarrow> retention_state \<Rightarrow> bool" where
  "spared st st' \<longleftrightarrow> next_id (rt_world st') = next_id (rt_world st)
     \<and> (\<forall>j. rel_option same_unfinished (runs (rt_world st) j) (runs (rt_world st') j))
     \<and> (\<forall>c\<in>used_configs (rt_world st). config_versions (rt_world st') c = config_versions (rt_world st) c)
     \<and> (\<forall>k\<in>needed (rt_world st). rt_objects st' k = rt_objects st k)"

lemma spared_refl [simp]: "spared st st"
  by (auto simp: spared_def intro: option.rel_refl)

lemma spared_rows: "spared st st' \<Longrightarrow> rel_option same_unfinished (runs (rt_world st) j) (runs (rt_world st') j)"
  by (simp add: spared_def)

lemma spared_run:
  assumes "spared st st'"
  shows "runs (rt_world st') j = Some r \<and> unfinished r \<longleftrightarrow> runs (rt_world st) j = Some r \<and> unfinished r"
  using spared_rows [OF assms, of j]
  by (cases "runs (rt_world st) j"; cases "runs (rt_world st') j") (auto simp: same_unfinished_def)

lemma spared_used: "spared st st' \<Longrightarrow> used_configs (rt_world st') = used_configs (rt_world st)"
  unfolding used_configs_def using spared_run by (metis (no_types, lifting))

lemma needed_iff: "k \<in> needed w \<longleftrightarrow> (\<exists>j r. (runs w j = Some r \<and> unfinished r) \<and> k \<in> set (run_artifacts (workspace_id r) j))
    \<or> (\<exists>c\<in>used_configs w. \<exists>cv. config_versions w c = Some cv \<and> k = Config_Archive (cv_workspace cv) c)"
  by (simp add: needed_def used_configs_def) blast

lemma spared_needed:
  assumes "spared st st'"
  shows "needed (rt_world st') = needed (rt_world st)"
proof -
  have "(\<exists>cv. config_versions (rt_world st') c = Some cv \<and> P cv) \<longleftrightarrow> (\<exists>cv. config_versions (rt_world st) c = Some cv \<and> P cv)"
    if "c \<in> used_configs (rt_world st)" for c P
    using assms that by (simp add: spared_def)
  then show ?thesis
    by (intro set_eqI) (simp add: needed_iff spared_run [OF assms] spared_used [OF assms])
qed

lemma spared_trans:
  assumes "spared a b" and "spared b c"
  shows "spared a c"
proof -
  have "rel_option same_unfinished (runs (rt_world a) j) (runs (rt_world c) j)" for j
    using spared_rows [OF assms(1), of j] spared_rows [OF assms(2), of j]
    by (cases "runs (rt_world a) j"; cases "runs (rt_world b) j"; cases "runs (rt_world c) j")
      (auto intro: same_unfinished_trans)
  with assms spared_used [OF assms(1)] spared_needed [OF assms(1)] show ?thesis by (simp add: spared_def)
qed

lemma snd_simps [simp]:
  "snd (clean_each f (x # xs) st) = snd (clean_each f xs (snd (f x st)))"
  "snd (delete_artifacts (k # ks) st) = snd (delete_artifacts ks (snd (delete_artifact k st)))"
  by (simp_all split: prod.split)

lemma snd_clean_run: "snd (clean_run i st) =
    (let st1 = snd (delete_artifacts (run_artifacts (workspace_id (the (runs (rt_world st) i))) i) st)
     in st1\<lparr>rt_json := (rt_json st1)(i := False)\<rparr>)"
  by (simp add: clean_run_def split: prod.split)

declare clean_each.simps(2) [simp del] delete_artifacts.simps(2) [simp del]

lemma clean_each_spares:
  assumes "\<And>x st'. x \<in> set xs \<Longrightarrow> spared st st' \<Longrightarrow> spared st' (snd (f x st'))"
  shows "spared st (snd (clean_each f xs st))"
  using assms
proof (induction xs arbitrary: st)
  case (Cons x xs)
  have first: "spared st (snd (f x st))" using Cons.prems by simp
  have "spared (snd (f x st)) (snd (clean_each f xs (snd (f x st))))"
    using Cons.prems spared_trans [OF first] by (intro Cons.IH) auto
  from spared_trans [OF first this] show ?case by simp
qed simp

lemma delete_artifact_frame:
  "rt_server (snd (delete_artifact k st)) = rt_server st"
  "k' \<noteq> k \<Longrightarrow> rt_objects (snd (delete_artifact k st)) k' = rt_objects st k'"
  by (auto simp: delete_artifact_def Let_def)

lemma delete_artifacts_frame:
  "rt_server (snd (delete_artifacts ks st)) = rt_server st"
  "k \<notin> set ks \<Longrightarrow> rt_objects (snd (delete_artifacts ks st)) k = rt_objects st k"
  by (induction ks arbitrary: st) (auto simp: delete_artifact_frame)

text \<open>Only objects change, none that is needed.\<close>

lemma spared_objects:
  assumes "rt_server st' = rt_server st" and "\<And>k. k \<in> needed (rt_world st) \<Longrightarrow> rt_objects st' k = rt_objects st k"
  shows "spared st st'"
  using assms by (auto simp: spared_def intro: option.rel_refl)

lemma needed_artifacts:
  "Provider_Package p \<notin> needed w" "Tool_Binary p \<notin> needed w" "Stored_Path q \<notin> needed w" "Vcs_Archive q \<notin> needed w"
  "k \<in> set (run_artifacts ws i) \<Longrightarrow> runs w i = Some r \<Longrightarrow> \<not> unfinished r \<Longrightarrow> k \<notin> needed w"
  "Config_Archive ws c \<in> needed w \<Longrightarrow> c \<in> used_configs w"
  by (auto simp: needed_def run_artifacts_def used_configs_def)

lemma clean_run_spares:
  assumes "runs (rt_world st) i = Some r" and "\<not> unfinished r"
  shows "spared st (snd (clean_run i st))"
proof (rule spared_objects)
  let ?ks = "run_artifacts (workspace_id (the (runs (rt_world st) i))) i"
  show "rt_server (snd (clean_run i st)) = rt_server st"
    by (simp add: snd_clean_run Let_def delete_artifacts_frame)
  fix k assume "k \<in> needed (rt_world st)"
  then have "k \<notin> set ?ks" using needed_artifacts(5) assms by blast
  from delete_artifacts_frame(2) [OF this, of st] show "rt_objects (snd (clean_run i st)) k = rt_objects st k"
    by (simp add: snd_clean_run Let_def)
qed

lemma old_finished_run:
  assumes "i \<in> set (old_finished_runs cutoff p (rt_world st))" and "spared st st'"
  obtains r where "runs (rt_world st') i = Some r" and "\<not> unfinished r"
proof -
  obtain r where r: "runs (rt_world st) i = Some r" "\<not> unfinished r"
    using assms(1) by (auto simp: old_finished_runs_def select_runs_def)
  have "rel_option same_unfinished (runs (rt_world st) i) (runs (rt_world st') i)"
    using assms(2) by (rule spared_rows)
  with r that show ?thesis by (auto simp: option_rel_Some1 same_unfinished_def)
qed

text \<open>\<open>order\<close> makes no rows up.\<close>

definition reorders :: "(nat list \<Rightarrow> nat list) \<Rightarrow> bool" where
  "reorders order \<longleftrightarrow> (\<forall>xs. set (order xs) = set xs \<and> distinct (order xs) = distinct xs)"

lemma reorders_in: "reorders order \<Longrightarrow> i \<in> set (take n (order xs)) \<Longrightarrow> i \<in> set xs"
  by (auto simp: reorders_def dest: in_set_takeD)

lemma cleanup_run_artifacts_spares: "reorders order \<Longrightarrow> spared st (snd (cleanup_run_artifacts order days batch st))"
  unfolding cleanup_run_artifacts_def
  by (rule clean_each_spares) (metis clean_run_spares old_finished_run reorders_in)

lemma active_cv_ids_used: "bounded w \<Longrightarrow> active_cv_ids w = used_configs w"
  by (auto simp: active_cv_ids_def used_configs_def select_runs_def bounded_def List.map_filter_def)
    (force)+

lemma clean_cv_spares:
  assumes "i \<notin> used_configs (rt_world st)"
  shows "spared st (snd (clean_cv i st))"
proof -
  let ?k = "Config_Archive (cv_workspace (the (config_versions (rt_world st) i))) i"
  have frame: "rt_server (snd (delete_artifact ?k st)) = rt_server st"
    "\<And>k. k \<noteq> ?k \<Longrightarrow> rt_objects (snd (delete_artifact ?k st)) k = rt_objects st k" by (rule delete_artifact_frame)+
  have "?k \<notin> needed (rt_world st)" using assms needed_artifacts(6) by blast
  moreover have "rel_option same_unfinished (runs (rt_world st) j)
      (map_option (unpoint i) (runs (rt_world st) j))" for j
    using assms by (cases "runs (rt_world st) j") (auto simp: unpoint_def used_configs_def same_unfinished_def)
  ultimately show ?thesis
    using frame(1) frame(2) assms unfolding spared_def clean_cv_def on_rt_world_def
    by (auto simp: drop_cv_def; metis)
qed

lemma clean_cvs_spare:
  assumes "\<And>i. i \<in> set js \<Longrightarrow> i \<notin> used_configs (rt_world st)"
  shows "spared st (snd (clean_each clean_cv js st))"
  by (rule clean_each_spares) (use assms spared_used in \<open>metis clean_cv_spares\<close>)

lemma spared_bounded:
  assumes "spared st st'" and "bounded (rt_world st)"
  shows "bounded (rt_world st')"
proof -
  have "runs (rt_world st) j \<noteq> None" if "runs (rt_world st') j \<noteq> None" for j
    using spared_rows [OF assms(1), of j] that by (cases "runs (rt_world st) j"; cases "runs (rt_world st') j") auto
  with assms show ?thesis by (simp add: bounded_def spared_def)
qed

lemma config_versions_loop_spares:
  "bounded (rt_world st) \<Longrightarrow> spared st (snd (config_versions_loop keep batch ids deleted st))"
proof (induction ids arbitrary: deleted st)
  case (Cons ws ids)
  let ?ex = "take (batch - deleted) (excess_configs (rt_world st) ws keep)"
  have "i \<notin> used_configs (rt_world st)" if "i \<in> set ?ex" for i
    using that Cons.prems by (auto simp: excess_configs_def active_cv_ids_used dest!: in_set_takeD in_set_dropD)
  then have one: "spared st (snd (clean_each clean_cv ?ex st))" by (rule clean_cvs_spare)
  then have "bounded (rt_world (snd (clean_each clean_cv ?ex st)))"
    using Cons.prems by (rule spared_bounded)
  from spared_trans [OF one Cons.IH [OF this]] show ?case by (simp add: Let_def)
qed simp

lemma state_versions_loop_frame:
  "runs (fst (snd (state_versions_loop keep batch ids deleted s))) = runs (fst s)
   \<and> config_versions (fst (snd (state_versions_loop keep batch ids deleted s))) = config_versions (fst s)
   \<and> next_id (fst (snd (state_versions_loop keep batch ids deleted s))) = next_id (fst s)"
proof (induction ids arbitrary: deleted s)
  case (Cons ws ids)
  have "runs (fst (fold (remove_version ws) is s)) = runs (fst s)
    \<and> config_versions (fst (fold (remove_version ws) is s)) = config_versions (fst s)
    \<and> next_id (fst (fold (remove_version ws) is s)) = next_id (fst s)" for "is"
  proof (induction "is" arbitrary: s)
    case (Cons i "is")
    have "runs (fst (remove_version ws i s)) = runs (fst s) \<and> config_versions (fst (remove_version ws i s)) = config_versions (fst s)
      \<and> next_id (fst (remove_version ws i s)) = next_id (fst s)"
      using remove_version_eq [of ws i "fst s" "snd s"] by (auto simp: drop_sv_def)
    with Cons show ?case by simp
  qed simp
  with Cons show ?case by (simp add: Let_def)
qed simp

section \<open>A cycle\<close>

lemma clean_overrides_spares:
  assumes "runs (rt_world st) i = Some r" and "\<not> unfinished r"
  shows "spared st (snd (clean_overrides i st))"
proof -
  define ks where "ks = map Stored_Path (map snd (case rc_overrides (config r) of None \<Rightarrow> [] | Some o' \<Rightarrow> o'))"
  let ?f = "\<lambda>r. r\<lparr>config := (config r)\<lparr>rc_overrides := Some []\<rparr>\<rparr>"
  have eq: "snd (clean_overrides i st) = on_rt_world (put_run i ?f) (snd (delete_artifacts ks st))"
    using assms(1) by (simp add: clean_overrides_def Let_def ks_def)
  have "k \<notin> set ks" if "k \<in> needed (rt_world st)" for k using that needed_artifacts(3) by (auto simp: ks_def)
  then have "rt_objects (snd (delete_artifacts ks st)) k = rt_objects st k" if "k \<in> needed (rt_world st)" for k
    using that by (simp add: delete_artifacts_frame)
  moreover have "rel_option same_unfinished (runs (rt_world st) j) (runs (put_run i ?f (rt_world st)) j)" for j
    using assms by (cases "runs (rt_world st) j") (auto simp: put_run_def modify_apply same_unfinished_def)
  ultimately show ?thesis
    by (simp add: spared_def eq on_rt_world_def delete_artifacts_frame)
qed

lemma cache_spares:
  "spared st (snd (clean_provider i st))" "spared st (snd (clean_binary i st))"
proof -
  have other: "rt_objects (snd (delete_artifact k st)) k' = rt_objects st k'"
    if "k' \<in> needed (rt_world st)" "k \<notin> needed (rt_world st)" for k k'
    by (rule delete_artifact_frame(2)) (use that in auto)
  show "spared st (snd (clean_provider i st))"
    by (rule spared_objects) (simp_all add: clean_provider_def Let_def delete_artifact_frame(1) needed_artifacts(1) other)
  show "spared st (snd (clean_binary i st))"
    by (rule spared_objects) (simp_all add: clean_binary_def Let_def delete_artifact_frame(1) needed_artifacts(2) other)
qed

lemma archives_loop_spares:
  assumes "\<And>k m. (k, m) \<in> set entries \<Longrightarrow> \<exists>p. k = Vcs_Archive p"
  shows "spared st (snd (archives_loop cutoff batch entries deleted st))"
  using assms
proof (induction entries arbitrary: deleted st)
  case (Cons entry entries)
  obtain k m where entry: "entry = (k, m)" by (cases entry)
  then obtain p where k: "k = Vcs_Archive p" using Cons.prems by fastforce
  have "spared st (snd (delete_artifact k st))"
    by (rule spared_objects) (use needed_artifacts(4) k delete_artifact_frame in \<open>metis\<close>)+
  note first = this
  obtain ok st1 where d: "delete_artifact k st = (ok, st1)" by force
  have "spared st1 (snd (archives_loop cutoff batch entries n st1))" for n
    by (rule Cons.IH) (use Cons.prems in auto)
  then have "spared st (snd (archives_loop cutoff batch entries n st1))" for n
    using first d spared_trans by fastforce
  with d show ?case by (simp add: entry)
qed simp

lemma unless_zero_spares: "spared st (snd (h st)) \<Longrightarrow> spared st (unless_zero n h st)"
  by (simp add: unless_zero_def)

text \<open>
  C29: A whole cycle, whatever storage calls fail: an unfinished run keeps its row, its logs and plans, and its
  configuration version with the archive, and no run changes its status.
\<close>

theorem retention_spares_unfinished_runs:
  assumes "bounded (rt_world st)" and "reorders order"
    and "\<And>st l k m. listing st = Some l \<Longrightarrow> (k, m) \<in> set l \<Longrightarrow> \<exists>p. k = Vcs_Archive p"
  shows "spared st (artifact_retention_cycle cfg order listing st)"
proof -
  have states: "spared st (snd (cleanup_state_versions order keep batch st))" for st keep batch
    using state_versions_loop_frame [of keep batch "order (select (next_id (rt_world st)) (workspaces (rt_world st))
        (\<lambda>i _. keep < length (versions_of (rt_world st) i)))" 0 "rt_server st"]
    by (cases "state_versions_loop keep batch (order (select (next_id (rt_world st)) (workspaces (rt_world st))
        (\<lambda>i _. keep < length (versions_of (rt_world st) i)))) 0 (rt_server st)")
      (simp add: cleanup_state_versions_def spared_def option.rel_refl)
  have configs: "spared st (snd (cleanup_config_versions order days batch st))" if b: "bounded (rt_world st)" for st days batch
    unfolding cleanup_config_versions_def Let_def
  proof (rule clean_cvs_spare)
    fix i assume "i \<in> set (take batch (order (select (next_id (rt_world st)) (config_versions (rt_world st))
        (\<lambda>i cv. cv_created_at cv < cutoff_time days st \<and> i \<notin> active_cv_ids (rt_world st)))))"
    from reorders_in [OF assms(2) this] show "i \<notin> used_configs (rt_world st)" by (auto simp: active_cv_ids_used [OF b])
  qed
  have overrides: "spared st (snd (cleanup_module_overrides order days batch st))" for st days batch
    unfolding cleanup_module_overrides_def
  proof (rule clean_each_spares)
    fix i st'
    let ?ids = "old_finished_runs (cutoff_time days st) (\<lambda>r. rc_overrides (config r) \<noteq> None) (rt_world st)"
    assume "i \<in> set (take batch (order ?ids))" and "spared st st'"
    then obtain r where "runs (rt_world st') i = Some r" "\<not> unfinished r"
      using old_finished_run reorders_in [OF assms(2)] by metis
    then show "spared st' (snd (clean_overrides i st'))" by (rule clean_overrides_spares)
  qed
  have providers: "spared st (snd (cleanup_provider_cache order days batch st))" for st days batch
    unfolding cleanup_provider_cache_def by (rule clean_each_spares) (rule cache_spares)
  have binaries: "spared st (snd (cleanup_binary_cache order days batch st))" for st days batch
    unfolding cleanup_binary_cache_def by (rule clean_each_spares) (rule cache_spares)
  have counts: "spared st (snd (cleanup_config_versions_count order keep batch st))" if "bounded (rt_world st)" for st keep batch
    unfolding cleanup_config_versions_count_def Let_def by (rule config_versions_loop_spares [OF that])
  have archives: "spared st (snd (cleanup_vcs_archives (listing st) days batch st))" for st days batch
    unfolding cleanup_vcs_archives_def using assms(3) [of st]
    by (auto split: option.split intro!: archives_loop_spares)
  note steps = states cleanup_run_artifacts_spares [OF assms(2)] configs counts providers binaries overrides archives
  have grow: "spared st (unless_zero n h b)" if "spared st b" "bounded (rt_world b) \<Longrightarrow> spared b (snd (h b))" for n h b
    using spared_trans [OF that(1) unless_zero_spares] that(2) spared_bounded [OF that(1) assms(1)] by blast
  have pick: "spared st (if c then a else b)" if "spared st a" "spared st b" for a b c using that by simp
  show ?thesis unfolding artifact_retention_cycle_def Let_def
    by (intro grow pick spared_refl steps)
qed

section \<open>What is never cleaned\<close>

lemma delete_artifacts_faultless:
  assumes "\<And>i. \<not> rt_faults st i"
  shows "rt_objects (snd (delete_artifacts ks st)) = (\<lambda>k. if k \<in> set ks then None else rt_objects st k)
    \<and> rt_faults (snd (delete_artifacts ks st)) = rt_faults st"
  using assms by (induction ks arbitrary: st) (auto simp: delete_artifact_def Let_def)

lemma clean_runs_faultless:
  assumes "\<And>i. \<not> rt_faults st i"
  shows "rt_objects (snd (clean_each clean_run js st))
      = (\<lambda>k. if \<exists>j\<in>set js. k \<in> set (run_artifacts (workspace_id (the (runs (rt_world st) j))) j) then None else rt_objects st k)
    \<and> rt_server (snd (clean_each clean_run js st)) = rt_server st \<and> rt_faults (snd (clean_each clean_run js st)) = rt_faults st"
  using assms
proof (induction js arbitrary: st)
  case (Cons j js)
  have one: "rt_objects (snd (clean_run j st)) = (\<lambda>k. if k \<in> set (run_artifacts (workspace_id (the (runs (rt_world st) j))) j)
      then None else rt_objects st k)" "rt_server (snd (clean_run j st)) = rt_server st" "rt_faults (snd (clean_run j st)) = rt_faults st"
    using delete_artifacts_faultless [OF Cons.prems] delete_artifacts_frame(1) by (simp_all add: snd_clean_run Let_def)
  with Cons.IH [of "snd (clean_run j st)"] Cons.prems show ?case by (auto simp: fun_eq_iff)
qed simp


section \<open>Examples\<close>

definition stored :: "server \<Rightarrow> retention_state" where
  "stored s = \<lparr>rt_server = s, rt_objects = (\<lambda>_. Some 0), rt_faults = (\<lambda>_. False), rt_calls = 0, rt_json = (\<lambda>_. True),
     rt_providers = (\<lambda>_. None), rt_binaries = (\<lambda>_. None)\<rparr>"

text \<open>A second upload, then one version is kept.\<close>

definition uploaded_twice :: server where
  "uploaded_twice = res_state (upload_state_manual (toy_env True) [] admin_user 0 None [123, 4] uploaded_once)"

theorem retention_keeps_newest_witness:
  "let w' = rt_world (snd (cleanup_state_versions (\<lambda>x. x) 1 10 (stored uploaded_twice)))
   in state_versions w' 2 = None \<and> map_option sv_serial (state_versions w' 3) = Some 2 \<and> current_state_serial w' 0 = Some 2"
proof -
  let ?st' = "snd (cleanup_state_versions (\<lambda>x. x) 1 10 (stored uploaded_twice))"
  have "state_step (toy_env True) uploaded_once uploaded_twice"
    unfolding uploaded_twice_def by (rule upload_manual [OF toy_compatible])
  from state_step_sound [OF this] once_sound
  have "sound (toy_env True) (rt_server (stored uploaded_twice))" by (simp add: stored_def)
  from retention_keeps_newest [OF this _ refl refl, of 1 "\<lambda>x. x" 10]
  have "current_state_serial (rt_world ?st') 0 = current_state_serial (rt_world (stored uploaded_twice)) 0" by simp
  also have "\<dots> = Some 2" by code_simp
  finally have "current_state_serial (rt_world ?st') 0 = Some 2" .
  moreover have "state_versions (rt_world ?st') 2 = None" by code_simp
  moreover have "map_option sv_serial (state_versions (rt_world ?st') 3) = Some 2" by code_simp
  ultimately show ?thesis by (simp add: Let_def)
qed

text \<open>Runs 1 and 2 are finished and old, run 3 is still planning; they use the configuration versions 4, 5 and 6.\<close>

definition dated_run :: "nat \<Rightarrow> run_status \<Rightarrow> run" where
  "dated_run cv st = (new_run example_env 0 (settings plain_workspace) (default_request\<lparr>rq_cv := Some cv\<rparr>) 0)\<lparr>status := st\<rparr>"

definition dated_config :: config_version where
  "dated_config = \<lparr>cv_workspace = 0, cv_source = ''vcs'', cv_status = ''uploaded'', cv_auto_queue = False, cv_speculative = False,
     cv_created_at = 0\<rparr>"

definition three_runs :: retention_state where
  "three_runs = stored (empty_world\<lparr>workspaces := [0 \<mapsto> plain_workspace],
     runs := [1 \<mapsto> dated_run 4 Applied, 2 \<mapsto> dated_run 5 Errored, 3 \<mapsto> dated_run 6 Planning],
     config_versions := [4 \<mapsto> dated_config, 5 \<mapsto> dated_config, 6 \<mapsto> dated_config], next_id := 7,
     now := 100 * 86400000000\<rparr>, empty_store)"

definition everything :: retention_config where
  "everything = \<lparr>rf_batch = 10, rf_states = 20, rf_runs = 90, rf_configs = 90, rf_configs_keep = 1, rf_providers = 30,
     rf_binaries = 30, rf_overrides = 30, rf_archives = 7, rf_sealed = False\<rparr>"

theorem retention_spares_unfinished_runs_witness:
  "let st' = artifact_retention_cycle everything (\<lambda>x. x) (\<lambda>_. None) three_runs
   in runs (rt_world st') 3 = Some (dated_run 6 Planning) \<and> config_versions (rt_world st') 6 = Some dated_config
      \<and> rt_objects st' (Config_Archive 0 6) = Some 0
      \<and> config_versions (rt_world st') 4 = None \<and> rt_objects st' (Plan_Log 0 1) = None"
proof -
  let ?st' = "artifact_retention_cycle everything (\<lambda>x. x) (\<lambda>_. None) three_runs"
  have b: "bounded (rt_world three_runs)"
    by (auto simp: bounded_def three_runs_def stored_def empty_world_def split: if_splits)
  have "spared three_runs ?st'"
    by (rule retention_spares_unfinished_runs [OF b]) (auto simp: reorders_def)
  note s = this [unfolded spared_def]
  have r: "runs (rt_world three_runs) 3 = Some (dated_run 6 Planning)" "unfinished (dated_run 6 Planning)"
      "rc_cv (config (dated_run 6 Planning)) = Some 6" "config_versions (rt_world three_runs) 6 = Some dated_config"
    by (simp_all add: three_runs_def stored_def dated_run_def terminal_states_def new_run_def)
  have "rel_option same_unfinished (runs (rt_world three_runs) 3) (runs (rt_world ?st') 3)" using s by blast
  then have "runs (rt_world ?st') 3 = Some (dated_run 6 Planning)"
    using r(1,2) by (auto simp: option_rel_Some1 same_unfinished_def)
  moreover have "6 \<in> used_configs (rt_world three_runs)" using r by (auto simp: used_configs_def)
  then have "config_versions (rt_world ?st') 6 = Some dated_config" using s r(4) by simp
  moreover have "Config_Archive 0 6 \<in> needed (rt_world three_runs)"
    unfolding needed_def using r by (auto simp: dated_config_def intro!: exI [of _ 3])
  then have "rt_objects ?st' (Config_Archive 0 6) = rt_objects three_runs (Config_Archive 0 6)" using s by blast
  then have "rt_objects ?st' (Config_Archive 0 6) = Some 0" by (simp add: three_runs_def stored_def)
  moreover have "config_versions (rt_world ?st') 4 = None" "rt_objects ?st' (Plan_Log 0 1) = None" by code_simp+
  ultimately show ?thesis by (simp add: Let_def)
qed


end
