(* ===== verification/VcsCommands.thy ===== *)
theory VcsCommands
  imports PyText
begin

text \<open>
  Commands in the comments of a pull request (\<open>services/vcs_command_parser.py\<close>). The regular expressions are written
  out as the scans they are; characters are the code points below 256.
\<close>

section \<open>Lines\<close>

definition line_end :: "char \<Rightarrow> bool" where
  "line_end c = (let n = of_char c :: nat in 10 \<le> n \<and> n \<le> 13 \<or> 28 \<le> n \<and> n \<le> 30 \<or> n = 133)"

lemma length_tl_dropWhile: "dropWhile P xs = y # ys \<Longrightarrow> length ys < length xs"
  using length_dropWhile_le [of P xs] by simp

text \<open>\<open>str.splitlines\<close>: a carriage return and a line feed end one line.\<close>

function splitlines :: "string \<Rightarrow> string list" where
  "splitlines s =
     (if s = [] then []
      else takeWhile (\<lambda>c. \<not> line_end c) s #
        (case dropWhile (\<lambda>c. \<not> line_end c) s of
           [] \<Rightarrow> []
         | c # cs \<Rightarrow> splitlines (if c = CHR 0x0D \<and> cs \<noteq> [] \<and> hd cs = CHR 0x0A then tl cs else cs)))"
  by auto

termination by (relation "measure length") (auto dest!: length_tl_dropWhile)

declare splitlines.simps [simp del]

definition py_lower :: "string \<Rightarrow> string" where
  "py_lower = map (\<lambda>c. let n = of_char c :: nat in
     if 65 \<le> n \<and> n \<le> 90 \<or> 192 \<le> n \<and> n \<le> 222 \<and> n \<noteq> 215 then char_of (n + 32) else c)"

section \<open>One line\<close>

definition blank :: "char \<Rightarrow> bool" where
  "blank c \<longleftrightarrow> c = CHR '' '' \<or> c = CHR 0x09"

abbreviation solid :: "char \<Rightarrow> bool" where
  "solid c \<equiv> \<not> py_space c"

text \<open>\<open>_PREFIX_VERB_RE\<close>\<close>

definition split_command :: "string \<Rightarrow> (string \<times> string \<times> string) option" where
  "split_command line =
     (let s = dropWhile blank line; s1 = dropWhile solid s; s2 = dropWhile blank s1
      in if takeWhile solid s = [] \<or> s1 = [] \<or> \<not> blank (hd s1) \<or> takeWhile solid s2 = [] then None
         else Some (takeWhile solid s, takeWhile solid s2, dropWhile solid s2))"

definition alnum :: "char \<Rightarrow> bool" where
  "alnum c = (let n = of_char c :: nat in 48 \<le> n \<and> n \<le> 57 \<or> 65 \<le> n \<and> n \<le> 90 \<or> 97 \<le> n \<and> n \<le> 122)"

definition flag_char :: "char \<Rightarrow> bool" where
  "flag_char c \<longleftrightarrow> alnum c \<or> c \<in> set ''_.-''"

text \<open>\<open>_WORKSPACE_RE\<close>: the flag at the start of a text, and its first match.\<close>

definition flag_value :: "string \<Rightarrow> string option" where
  "flag_value s =
     (let v = (if s = [] then [] else if hd s = CHR ''='' then tl s else if blank (hd s) then dropWhile blank s else [])
      in if v \<noteq> [] \<and> alnum (hd v) then Some (takeWhile flag_char v) else None)"

definition flag_at :: "string \<Rightarrow> string option" where
  "flag_at s =
     (if take 2 s = ''-W'' then flag_value (drop 2 s)
      else if take 11 s = ''--workspace'' then flag_value (drop 11 s)
      else None)"

fun flag_after_space :: "string \<Rightarrow> string option" where
  "flag_after_space [] = None"
| "flag_after_space (c # cs) =
     (case if py_space c then flag_at cs else None of Some v \<Rightarrow> Some v | None \<Rightarrow> flag_after_space cs)"

definition workspace_flag :: "string \<Rightarrow> string option" where
  "workspace_flag s = (case flag_at s of Some v \<Rightarrow> Some v | None \<Rightarrow> flag_after_space s)"

record command =
  cm_verb :: string
  cm_workspace :: "string option"
  cm_raw :: string

definition known_verbs :: "string list" where
  "known_verbs = [''plan'', ''apply'', ''unlock'', ''merge'', ''help'']"

definition strip_set :: "(char \<Rightarrow> bool) \<Rightarrow> string \<Rightarrow> string" where
  "strip_set p s = rev (dropWhile p (rev (dropWhile p s)))"

definition parse_line :: "string \<Rightarrow> string \<Rightarrow> command option" where
  "parse_line mention_prefix line =
     (case split_command line of
        None \<Rightarrow> None
      | Some (prefix', verb, rest) \<Rightarrow>
          if py_lower (dropWhile (\<lambda>c. c = CHR ''@'') prefix') \<noteq> py_lower mention_prefix then None
          else let v = py_lower (strip_set (\<lambda>c. c \<in> set ''.,!?:;'') verb) in
            if v \<notin> set known_verbs
            then Some \<lparr>cm_verb = ''help'', cm_workspace = None, cm_raw = py_strip line\<rparr>
            else Some \<lparr>cm_verb = v, cm_workspace = workspace_flag rest, cm_raw = py_strip line\<rparr>)"

section \<open>A comment\<close>

definition fence :: "string \<Rightarrow> bool" where
  "fence line \<longleftrightarrow> take 3 (dropWhile py_space line) = ''```''"

fun parse_lines :: "string \<Rightarrow> bool \<Rightarrow> string list \<Rightarrow> command option" where
  "parse_lines mention_prefix in_code_block [] = None"
| "parse_lines mention_prefix in_code_block (line # lines') =
     (if fence line then parse_lines mention_prefix (\<not> in_code_block) lines'
      else if in_code_block then parse_lines mention_prefix in_code_block lines'
      else case parse_line mention_prefix line of
             None \<Rightarrow> parse_lines mention_prefix in_code_block lines'
           | Some cmd \<Rightarrow> Some cmd)"

definition parse :: "string \<Rightarrow> string \<Rightarrow> command option" where
  "parse mention_prefix body = parse_lines mention_prefix False (splitlines body)"

definition is_command_comment :: "string \<Rightarrow> string \<Rightarrow> bool" where
  "is_command_comment mention_prefix body \<longleftrightarrow> parse mention_prefix body \<noteq> None"

definition bot :: string where
  "bot = ''terrapod''"

section \<open>Which line counts\<close>

text \<open>A line is code if it is a fence or an odd number of fences is above it.\<close>

definition outside_fences :: "string list \<Rightarrow> nat \<Rightarrow> bool" where
  "outside_fences ls i \<longleftrightarrow> \<not> fence (ls ! i) \<and> even (length (filter fence (take i ls)))"

definition gives_command :: "string \<Rightarrow> bool \<Rightarrow> string list \<Rightarrow> nat \<Rightarrow> bool" where
  "gives_command p code ls i \<longleftrightarrow> i < length ls \<and> \<not> fence (ls ! i)
     \<and> (even (length (filter fence (take i ls))) \<noteq> code) \<and> parse_line p (ls ! i) \<noteq> None"

lemma gives_command_Cons:
  "gives_command p code (l # ls) 0 \<longleftrightarrow> \<not> fence l \<and> \<not> code \<and> parse_line p l \<noteq> None"
  "gives_command p code (l # ls) (Suc i) \<longleftrightarrow> gives_command p (if fence l then \<not> code else code) ls i"
  by (auto simp: gives_command_def)

lemma parse_lines_None: "parse_lines p code ls = None \<longleftrightarrow> (\<forall>i. \<not> gives_command p code ls i)"
proof (induction ls arbitrary: code)
  case (Cons l ls)
  have "(\<forall>i. \<not> gives_command p code (l # ls) i) \<longleftrightarrow>
      \<not> gives_command p code (l # ls) 0 \<and> (\<forall>i. \<not> gives_command p code (l # ls) (Suc i))"
    by (metis not0_implies_Suc)
  with Cons show ?case by (auto simp: gives_command_Cons split: option.splits)
qed (simp add: gives_command_def)

lemma parse_lines_first:
  "parse_lines p code ls = Some cmd \<longleftrightarrow>
     (\<exists>i. gives_command p code ls i \<and> (\<forall>j<i. \<not> gives_command p code ls j) \<and> parse_line p (ls ! i) = Some cmd)"
proof (induction ls arbitrary: code)
  case (Cons l ls)
  let ?code = "if fence l then \<not> code else code"
  have tail: "(\<exists>i. gives_command p code (l # ls) i \<and> (\<forall>j<i. \<not> gives_command p code (l # ls) j)
        \<and> parse_line p ((l # ls) ! i) = Some cmd) \<longleftrightarrow> parse_lines p ?code ls = Some cmd"
    if "\<not> gives_command p code (l # ls) 0"
  proof -
    have "(\<exists>i. gives_command p code (l # ls) i \<and> (\<forall>j<i. \<not> gives_command p code (l # ls) j)
        \<and> parse_line p ((l # ls) ! i) = Some cmd)
      \<longleftrightarrow> (\<exists>i. gives_command p code (l # ls) (Suc i) \<and> (\<forall>j<Suc i. \<not> gives_command p code (l # ls) j)
        \<and> parse_line p ((l # ls) ! Suc i) = Some cmd)"
      using that by (metis not0_implies_Suc)
    also have "\<dots> \<longleftrightarrow> parse_lines p ?code ls = Some cmd"
      unfolding Cons.IH All_less_Suc2 using that by (simp add: gives_command_Cons)
    finally show ?thesis .
  qed
  show ?case
  proof (cases "gives_command p code (l # ls) 0")
    case True
    then have "(\<exists>i. gives_command p code (l # ls) i \<and> (\<forall>j<i. \<not> gives_command p code (l # ls) j)
        \<and> parse_line p ((l # ls) ! i) = Some cmd) \<longleftrightarrow> parse_line p l = Some cmd"
      by (metis gr0I nth_Cons_0 not_less_zero)
    with True show ?thesis by (auto simp: gives_command_Cons)
  next
    case False
    then show ?thesis unfolding tail [OF False] by (auto simp: gives_command_Cons split: option.splits)
  qed
qed (simp add: gives_command_def)

lemma parse_line_verb: "parse_line p l = Some cmd \<Longrightarrow> cm_verb cmd \<in> set known_verbs"
  by (auto simp: parse_line_def Let_def known_verbs_def split: option.splits if_splits)

lemma flag_char_solid: "flag_char c \<Longrightarrow> solid c"
  by (auto simp: flag_char_def alnum_def py_space_def Let_def)

lemma parse_line_flag: "parse_line p l = Some cmd \<Longrightarrow> cm_workspace cmd = Some v \<Longrightarrow> v \<noteq> [] \<and> list_all flag_char v"
proof -
  have val: "v \<noteq> [] \<and> list_all flag_char v" if "flag_value s = Some v" for s v
    using that by (auto simp: flag_value_def Let_def flag_char_def list_all_iff takeWhile_eq_Nil_iff
        dest: set_takeWhileD split: if_splits)
  have at: "v \<noteq> [] \<and> list_all flag_char v" if "flag_at s = Some v" for s v
    using val that by (auto simp: flag_at_def split: if_splits)
  have after: "v \<noteq> [] \<and> list_all flag_char v" if "flag_after_space s = Some v" for s v
    using that by (induction s) (fastforce dest: at split: option.splits if_splits)+
  have "v \<noteq> [] \<and> list_all flag_char v" if "workspace_flag s = Some v" for s v
    using that at after by (auto simp: workspace_flag_def split: option.splits)
  note flag = this
  assume "parse_line p l = Some cmd" and "cm_workspace cmd = Some v"
  then obtain s where "workspace_flag s = Some v"
    by (auto simp: parse_line_def Let_def split: option.splits if_splits)
  then show "v \<noteq> [] \<and> list_all flag_char v" by (rule flag)
qed

text \<open>
  A comment is the command of its first line outside code fences that addresses the bot and has a second word; all
  other lines count for nothing. The verb is one of the five known ones, and a workspace filter is a
  non-empty plain name.
\<close>

theorem comment_command:
  "(parse p body = Some cmd \<longrightarrow>
      (\<exists>i < length (splitlines body). outside_fences (splitlines body) i \<and> parse_line p (splitlines body ! i) = Some cmd
        \<and> (\<forall>j<i. outside_fences (splitlines body) j \<longrightarrow> parse_line p (splitlines body ! j) = None))
      \<and> cm_verb cmd \<in> set known_verbs
      \<and> (\<forall>v. cm_workspace cmd = Some v \<longrightarrow> v \<noteq> [] \<and> list_all flag_char v))
   \<and> (parse p body = None \<longleftrightarrow>
      (\<forall>i < length (splitlines body). outside_fences (splitlines body) i \<longrightarrow> parse_line p (splitlines body ! i) = None))"
proof -
  let ?ls = "splitlines body"
  have gives: "gives_command p False ?ls i \<longleftrightarrow> i < length ?ls \<and> outside_fences ?ls i \<and> parse_line p (?ls ! i) \<noteq> None" for i
    by (auto simp: gives_command_def outside_fences_def)
  show ?thesis
    unfolding parse_def parse_lines_None parse_lines_first gives
  proof (intro conjI impI; (elim exE conjE)?)
    fix i
    assume first: "i < length ?ls" "outside_fences ?ls i" "parse_line p (?ls ! i) = Some cmd"
      and none: "\<forall>j<i. \<not> (j < length ?ls \<and> outside_fences ?ls j \<and> parse_line p (?ls ! j) \<noteq> None)"
    from first none show "\<exists>i<length ?ls. outside_fences ?ls i \<and> parse_line p (?ls ! i) = Some cmd
        \<and> (\<forall>j<i. outside_fences ?ls j \<longrightarrow> parse_line p (?ls ! j) = None)"
      by (intro exI [of _ i]) (auto dest: less_trans)
    show "cm_verb cmd \<in> set known_verbs" by (rule parse_line_verb [OF first(3)])
    show "\<forall>v. cm_workspace cmd = Some v \<longrightarrow> v \<noteq> [] \<and> list_all flag_char v"
      using parse_line_flag [OF first(3)] by blast
  qed auto
qed

text \<open>A fenced line does not count; the first line outside does, with its filter.\<close>

theorem comment_command_witness:
  "parse bot (''```'' @ [CHR 0x0A] @ ''terrapod apply'' @ [CHR 0x0A] @ ''```'' @ [CHR 0x0A] @ ''@Terrapod apply! -W prod now'')
     = Some \<lparr>cm_verb = ''apply'', cm_workspace = Some ''prod'', cm_raw = ''@Terrapod apply! -W prod now''\<rparr>
   \<and> ''apply'' \<in> set known_verbs"
proof -
  let ?body = "''```'' @ [CHR 0x0A] @ ''terrapod apply'' @ [CHR 0x0A] @ ''```'' @ [CHR 0x0A] @ ''@Terrapod apply! -W prod now''"
  have "parse bot ?body = Some \<lparr>cm_verb = ''apply'', cm_workspace = Some ''prod'', cm_raw = ''@Terrapod apply! -W prod now''\<rparr>"
    by code_simp
  with comment_command [of bot ?body "\<lparr>cm_verb = ''apply'', cm_workspace = Some ''prod'', cm_raw = ''@Terrapod apply! -W prod now''\<rparr>"]
  show ?thesis by simp
qed

end
