(* ===== verification/VcsPolling.thy ===== *)
theory VcsPolling
  imports DiscoveryLifecycle VcsCommands
begin

text \<open>
  Polling a workspace's repository (\<open>services/vcs_poller.py\<close>): runs for new commits of the tracked branch and for open
  pull requests, the sessions of pull requests, and their comments.

  \<open>vcs_env\<close> holds the answers of the providers; a call that raises answers \<open>Inl\<close>. One poll is one session that
  is committed at the end, also after an exception, which \<open>_poll_workspace\<close> records. Between reading the
  last commit of a workspace and the compare-and-set other transactions may commit: \<open>others\<close> is what they do; the other
  columns are read as they are then. Comment ids are the decimal integers both providers use.
\<close>

section \<open>Repository URLs\<close>

definition remove_suffix :: "string \<Rightarrow> string \<Rightarrow> string" where
  "remove_suffix suffix' s = (if ends_with s suffix' then take (length s - length suffix') s else s)"

fun after_scheme :: "string \<Rightarrow> string option" where
  "after_scheme [] = None"
| "after_scheme (c # cs) = (if starts_with (c # cs) ''://'' then Some (drop 3 (c # cs)) else after_scheme cs)"

definition ssh_path :: "string \<Rightarrow> string option" where
  "ssh_path url = (case split_max 1 (CHR '':'') url of [_, path] \<Rightarrow> Some (remove_suffix ''.git'' path) | _ \<Rightarrow> None)"

definition first_two :: "string \<Rightarrow> (string \<times> string) option" where
  "first_two path = (case split_on (CHR ''/'') path of a # b # _ \<Rightarrow> Some (a, b) | _ \<Rightarrow> None)"

definition github_parse_repo_url :: "string \<Rightarrow> (string \<times> string) option" where
  "github_parse_repo_url repo_url =
     (let url = py_strip repo_url in
      if starts_with url ''git@'' then
        (case ssh_path url of None \<Rightarrow> None
         | Some path \<Rightarrow> (case split_on (CHR ''/'') path of [a, b] \<Rightarrow> Some (a, b) | _ \<Rightarrow> None))
      else
        let url = remove_suffix ''.git'' url in
        if starts_with url ''https://github.com/'' then first_two (drop 19 url)
        else if starts_with url ''http://github.com/'' then first_two (drop 18 url)
        else case after_scheme url of
               None \<Rightarrow> None
             | Some path \<Rightarrow> (case split_max 1 (CHR ''/'') path of [_, remaining] \<Rightarrow> first_two remaining | _ \<Rightarrow> None))"

text \<open>\<open>rsplit\<close> at the last slash.\<close>

definition split_last :: "string \<Rightarrow> (string \<times> string) option" where
  "split_last path = (case split_max 1 (CHR ''/'') (rev path) of [a, b] \<Rightarrow> Some (rev b, rev a) | _ \<Rightarrow> None)"

definition gitlab_parse_repo_url :: "string \<Rightarrow> (string \<times> string) option" where
  "gitlab_parse_repo_url repo_url =
     (let url = py_strip repo_url in
      if starts_with url ''git@'' then (case ssh_path url of None \<Rightarrow> None | Some path \<Rightarrow> split_last path)
      else case after_scheme (remove_suffix ''.git'' url) of
             None \<Rightarrow> None
           | Some path \<Rightarrow>
               (case split_max 1 (CHR ''/'') path of
                  [_, remainder] \<Rightarrow> (case split_last remainder of
                     Some (a, b) \<Rightarrow> if a \<noteq> [] \<and> b \<noteq> [] then Some (a, b) else None | None \<Rightarrow> None)
                | _ \<Rightarrow> None))"

definition parse_repo_url :: "string \<Rightarrow> string \<Rightarrow> (string \<times> string) option" where
  "parse_repo_url provider repo_url =
     (if provider = ''gitlab'' then gitlab_parse_repo_url repo_url
      else if provider = ''github'' then github_parse_repo_url repo_url
      else None)"

section \<open>State\<close>

record pr_session =
  se_connection :: nat
  se_repo :: string
  se_pr :: int
  se_head :: string
  se_state :: string
  se_cursor :: "int option"

record poll_columns =
  pc_error :: "string option"
  pc_error_at :: "int option"
  pc_polled_at :: "int option"

record vcs_audit =
  vl_verb :: string
  vl_workspace :: "nat option"
  vl_login :: string
  vl_user :: string
  vl_detail :: string

record vcs_state =
  vs_disc :: disc_state
  vs_rules :: "autodiscovery_rule table"
  vs_scanned :: "nat \<Rightarrow> int option"
  vs_sessions :: "pr_session table"
  vs_polls :: "nat \<Rightarrow> poll_columns"
  vs_merging :: "nat \<Rightarrow> bool \<times> string"
  vs_actors :: "nat \<Rightarrow> string \<times> string"
  vs_audit :: "vcs_audit list"
  vs_merges :: "(nat \<times> string \<times> int \<times> string) list"

record pull_request =
  pq_number :: int
  pq_head_sha :: string
  pq_head_ref :: string
  pq_title :: string

record pr_comment =
  ct_id :: int
  ct_body :: string
  ct_login :: string
  ct_user :: string

record merge_result =
  mg_merged :: bool
  mg_reason :: string

text \<open>A repository is a connection, an owner and a name.\<close>

type_synonym repository = "nat \<times> string \<times> string"

record vcs_env =
  vn_default_branch :: "repository \<Rightarrow> string + string option"
  vn_branch_sha :: "repository \<Rightarrow> string \<Rightarrow> string + string option"
  vn_open_prs :: "repository \<Rightarrow> string \<Rightarrow> string + pull_request list"
  vn_changed_files :: "repository \<Rightarrow> string \<Rightarrow> string \<Rightarrow> string + string list option"
  vn_file_changes :: "repository \<Rightarrow> string \<Rightarrow> string \<Rightarrow> string + file_change list option"
  vn_disc :: "repository \<Rightarrow> disc_env"
  vn_fetch :: "repository \<Rightarrow> string \<Rightarrow> string list option \<Rightarrow> bool"
  vn_store :: "nat \<Rightarrow> nat \<Rightarrow> bool"
  vn_comments :: "nat \<Rightarrow> string \<Rightarrow> int \<Rightarrow> string + pr_comment list"
  vn_merge :: "nat \<Rightarrow> string \<Rightarrow> int \<Rightarrow> string \<Rightarrow> string + merge_result"

datatype poll_error = Failed exn | Provider string

type_synonym 'a poll = "vcs_state \<Rightarrow> (poll_error, 'a, vcs_state) res"

abbreviation vs_world :: "vcs_state \<Rightarrow> world" where
  "vs_world s \<equiv> ds_world (vs_disc s)"

abbreviation vs_columns :: "vcs_state \<Rightarrow> nat \<Rightarrow> disc_columns" where
  "vs_columns s \<equiv> ds_columns (vs_disc s)"

definition set_world :: "world \<Rightarrow> vcs_state \<Rightarrow> vcs_state" where
  "set_world w s = s\<lparr>vs_disc := (vs_disc s)\<lparr>ds_world := w\<rparr>\<rparr>"

definition put_columns :: "nat \<Rightarrow> (disc_columns \<Rightarrow> disc_columns) \<Rightarrow> vcs_state \<Rightarrow> vcs_state" where
  "put_columns i g s = s\<lparr>vs_disc := (vs_disc s)\<lparr>ds_columns := (vs_columns s)(i := g (vs_columns s i))\<rparr>\<rparr>"

definition put_session :: "nat \<Rightarrow> (pr_session \<Rightarrow> pr_session) \<Rightarrow> vcs_state \<Rightarrow> vcs_state" where
  "put_session k f s = s\<lparr>vs_sessions := modify k f (vs_sessions s)\<rparr>"

definition on_world :: "'a handler \<Rightarrow> 'a poll" where
  "on_world h s = (case h (vs_world s) of
     Ret a w \<Rightarrow> Ret a (set_world w s) | Raise e w \<Rightarrow> Raise (Failed e) (set_world w s))"

definition ask :: "string + 'a \<Rightarrow> 'a poll" where
  "ask answer s = (case answer of Inl m \<Rightarrow> Raise (Provider m) s | Inr a \<Rightarrow> Ret a s)"

fun each :: "('x \<Rightarrow> unit poll) \<Rightarrow> 'x list \<Rightarrow> unit poll" where
  "each f [] s = Ret () s"
| "each f (x # xs) s = bind_res (f x s) (\<lambda>_. each f xs)"

section \<open>Runs for commits\<close>

definition changes_affect_prefixes :: "string list \<Rightarrow> string list \<Rightarrow> bool" where
  "changes_affect_prefixes changed_files dirs =
     list_ex (\<lambda>f. list_ex (\<lambda>p. starts_with f (rstrip_slash p @ ''/'')) dirs) changed_files"

definition effective_prefixes :: "disc_columns \<Rightarrow> string list" where
  "effective_prefixes c = (if dc_prefixes c \<noteq> [] then dc_prefixes c else if dc_directory c \<noteq> [] then [dc_directory c] else [])"

text \<open>No run, unless the answer is truncated or the call raises.\<close>

definition elsewhere :: "string list \<Rightarrow> string + string list option \<Rightarrow> bool" where
  "elsewhere dirs answer = (case answer of
     Inr (Some changed) \<Rightarrow> \<not> changes_affect_prefixes changed dirs | _ \<Rightarrow> False)"

definition commit_runs :: "nat \<Rightarrow> string \<Rightarrow> string \<Rightarrow> int option \<Rightarrow> world \<Rightarrow> nat list" where
  "commit_runs i sha branch pr w = select_runs w (\<lambda>_ r. workspace_id r = i \<and> rc_vcs_sha (config r) = sha
     \<and> rc_vcs_branch (config r) = branch \<and> rc_pr (config r) = pr)"

definition vcs_request :: "string \<Rightarrow> bool \<Rightarrow> nat \<Rightarrow> run_request" where
  "vcs_request message' speculative cv = default_request\<lparr>rq_message := Text message', rq_plan_only := speculative,
     rq_source := ''vcs'', rq_cv := Some cv, rq_created_by := ''vcs-poller''\<rparr>"

definition stamp_commit :: "string \<Rightarrow> string \<Rightarrow> int option \<Rightarrow> run \<Rightarrow> run" where
  "stamp_commit sha branch pr r = r\<lparr>config := (config r)\<lparr>rc_vcs_sha := sha, rc_vcs_branch := branch, rc_pr := pr\<rparr>\<rparr>"

definition create_vcs_run ::
    "env \<Rightarrow> vcs_env \<Rightarrow> nat \<Rightarrow> repository \<Rightarrow> string \<Rightarrow> string \<Rightarrow> bool \<Rightarrow> int option \<Rightarrow> string \<Rightarrow> string list option
      \<Rightarrow> nat option handler" where
  "create_vcs_run e vn i repo sha branch speculative pr message' fetch_paths w =
     (case workspaces w i of
        None \<Rightarrow> Raise (Missing_Row i) w
      | Some ws \<Rightarrow>
          if commit_runs i sha branch pr w \<noteq> [] then Ret None w
          else if \<not> vn_fetch vn repo sha fetch_paths then Ret None w
          else case create_configuration_version i ''vcs'' False speculative w of (cv, w1) \<Rightarrow>
            if \<not> vn_store vn i cv then Ret None w1
            else case create_run e i ws (vcs_request message' speculative cv) (mark_configuration_uploaded cv w1) of (j, w2) \<Rightarrow>
              bind_res (queue_run e j (put_run j (stamp_commit sha branch pr) w2)) (\<lambda>_. Ret (Some j)))"

section \<open>The tracked branch\<close>

definition resolve_branch :: "vcs_env \<Rightarrow> repository \<Rightarrow> disc_columns \<Rightarrow> string option" where
  "resolve_branch vn repo c =
     (if dc_branch c \<noteq> [] then Some (dc_branch c)
      else case vn_default_branch vn repo of Inr (Some b) \<Rightarrow> if b \<noteq> [] then Some b else None | _ \<Rightarrow> None)"

text \<open>What an advance of the branch does to the workspaces of the rule, if any.\<close>

definition advance_rule :: "env \<Rightarrow> vcs_env \<Rightarrow> nat \<Rightarrow> repository \<Rightarrow> string \<Rightarrow> string \<Rightarrow> string \<Rightarrow> vcs_state \<Rightarrow> vcs_state" where
  "advance_rule e vn i repo branch old_sha sha s =
     (case dc_rule (vs_columns s i) of
        None \<Rightarrow> s
      | Some k \<Rightarrow>
          if old_sha = [] then s
          else case vs_rules s k of
            None \<Rightarrow> s
          | Some rule \<Rightarrow>
              (case vn_file_changes vn repo old_sha sha of
                 Inl _ \<Rightarrow> s
               | Inr changes \<Rightarrow> s\<lparr>vs_disc := branch_advanced e (vn_disc vn repo) rule branch changes (vs_disc s)\<rparr>))"

definition poll_workspace_branch ::
    "env \<Rightarrow> vcs_env \<Rightarrow> (vcs_state \<Rightarrow> vcs_state) \<Rightarrow> nat \<Rightarrow> repository \<Rightarrow> string \<Rightarrow> string list option \<Rightarrow> unit poll" where
  "poll_workspace_branch e vn others i repo branch fetch_paths s =
     bind_res (ask (vn_branch_sha vn repo branch) s) (\<lambda>answer s.
       case answer of
         None \<Rightarrow> Ret () s
       | Some sha \<Rightarrow>
           let old_sha = dc_last_sha (vs_columns s i) in
           if sha = old_sha then Ret () s
           else let s1 = others s in
             if workspaces (vs_world s1) i = None \<or> dc_last_sha (vs_columns s1 i) \<noteq> old_sha then Ret () s1
             else let s2 = advance_rule e vn i repo branch old_sha sha (put_columns i (\<lambda>c. c\<lparr>dc_last_sha := sha\<rparr>) s1);
                      dirs = effective_prefixes (vs_columns s2 i) in
               if dirs \<noteq> [] \<and> old_sha \<noteq> [] \<and> elsewhere dirs (vn_changed_files vn repo old_sha sha) then Ret () s2
               else bind_res (on_world (create_vcs_run e vn i repo sha branch False None
                   (''Triggered by commit '' @ take 8 sha @ '' on '' @ branch) fetch_paths) s2) (\<lambda>_. Ret ()))"

section \<open>Sessions of pull requests\<close>

definition repo_name :: "repository \<Rightarrow> string" where
  "repo_name repo = fst (snd repo) @ ''/'' @ snd (snd repo)"

definition select_sessions :: "(pr_session \<Rightarrow> bool) \<Rightarrow> vcs_state \<Rightarrow> nat list" where
  "select_sessions p s = select (next_id (vs_world s)) (vs_sessions s) (\<lambda>_. p)"

definition find_session :: "nat \<Rightarrow> string \<Rightarrow> int \<Rightarrow> nat option poll" where
  "find_session c repo pr s =
     (case one_or_none (select_sessions (\<lambda>se. se_connection se = c \<and> se_repo se = repo \<and> se_pr se = pr) s) of
        Inl e \<Rightarrow> Raise (Failed e) s | Inr k \<Rightarrow> Ret k s)"

definition add_session :: "pr_session \<Rightarrow> vcs_state \<Rightarrow> vcs_state" where
  "add_session se s =
     (let w = vs_world s in set_world (w\<lparr>next_id := Suc (next_id w)\<rparr>) (s\<lparr>vs_sessions := (vs_sessions s)(next_id w \<mapsto> se)\<rparr>))"

definition upsert_pr_session :: "nat \<Rightarrow> string \<Rightarrow> int \<Rightarrow> string \<Rightarrow> nat poll" where
  "upsert_pr_session c repo pr head_sha s =
     bind_res (find_session c repo pr s) (\<lambda>found s.
       case found of
         None \<Rightarrow> Ret (next_id (vs_world s)) (add_session \<lparr>se_connection = c, se_repo = repo, se_pr = pr, se_head = head_sha,
           se_state = ''open'', se_cursor = None\<rparr> s)
       | Some k \<Rightarrow> Ret k (put_session k (\<lambda>se. se\<lparr>se_head := head_sha, se_state := ''open''\<rparr>) s))"

definition enqueue :: "string \<Rightarrow> string \<Rightarrow> string \<Rightarrow> unit handler" where
  "enqueue trigger payload key w = redis_do (\<lambda>r. bind_res (enqueue_trigger trigger (Other_Payload payload)
     (Some (D_Named key)) 300 (now w) r) (\<lambda>_. Ret ())) w"

definition refresh_status_comment :: "env \<Rightarrow> nat \<Rightarrow> unit poll" where
  "refresh_status_comment e k = on_world (enqueue ''vcs_status_comment_update'' (uuid_str e k) (''vcs_status:'' @ uuid_str e k))"

definition open_sessions :: "nat \<Rightarrow> string \<Rightarrow> vcs_state \<Rightarrow> nat list" where
  "open_sessions c repo = select_sessions (\<lambda>se. se_connection se = c \<and> se_repo se = repo \<and> se_state se = ''open'')"

definition dispatch_comment :: "env \<Rightarrow> nat \<Rightarrow> string \<Rightarrow> int \<Rightarrow> pr_comment \<Rightarrow> unit poll" where
  "dispatch_comment e c repo pr ct s =
     (if \<not> is_command_comment bot (ct_body ct) then Ret () s
      else on_world (enqueue ''vcs_comment_dispatch'' (ct_body ct)
        (''vcs_cmd:'' @ uuid_str e c @ '':'' @ repo @ '':'' @ show_int pr @ '':'' @ show_int (ct_id ct))) s)"

definition new_comments :: "pr_session \<Rightarrow> pr_comment list \<Rightarrow> pr_comment list" where
  "new_comments se = filter (\<lambda>ct. case se_cursor se of None \<Rightarrow> True | Some last' \<Rightarrow> last' < ct_id ct)"

definition poll_session_comments :: "env \<Rightarrow> vcs_env \<Rightarrow> nat \<Rightarrow> string \<Rightarrow> nat \<Rightarrow> unit poll" where
  "poll_session_comments e vn c repo k s =
     (case vs_sessions s k of
        None \<Rightarrow> Ret () s
      | Some se \<Rightarrow>
          (case vn_comments vn c repo (se_pr se) of
             Inl _ \<Rightarrow> Ret () s
           | Inr comments \<Rightarrow>
               let fresh = new_comments se comments in
               bind_res (each (dispatch_comment e c repo (se_pr se)) fresh s) (\<lambda>_ s1.
                 Ret () (if fresh = [] then s1
                   else put_session k (\<lambda>se. se\<lparr>se_cursor := Some (Max (set (map ct_id fresh)))\<rparr>) s1))))"

definition poll_pr_comments :: "env \<Rightarrow> vcs_env \<Rightarrow> nat \<Rightarrow> string \<Rightarrow> unit poll" where
  "poll_pr_comments e vn c repo s = each (poll_session_comments e vn c repo) (open_sessions c repo s) s"

text \<open>Cancelling, with failures logged.\<close>

definition cancel_all :: "env \<Rightarrow> nat list \<Rightarrow> world \<Rightarrow> world" where
  "cancel_all e js w = fold (\<lambda>j w. res_state (cancel_run e j True None w)) js w"

definition active_pr_runs :: "int \<Rightarrow> world \<Rightarrow> nat list" where
  "active_pr_runs pr w = select_runs w (\<lambda>_ r. rc_pr (config r) = Some pr \<and> status r \<notin> set terminal_states)"

definition close_session :: "env \<Rightarrow> int set \<Rightarrow> nat \<Rightarrow> vcs_state \<Rightarrow> vcs_state" where
  "close_session e open_pr_numbers k s =
     (case vs_sessions s k of
        None \<Rightarrow> s
      | Some se \<Rightarrow>
          if se_pr se \<in> open_pr_numbers then s
          else put_session k (\<lambda>se. se\<lparr>se_state := ''closed''\<rparr>)
            (set_world (cancel_all e (active_pr_runs (se_pr se) (vs_world s)) (vs_world s)) s))"

definition reconcile_closed_pr_sessions :: "env \<Rightarrow> nat \<Rightarrow> string \<Rightarrow> int set \<Rightarrow> vcs_state \<Rightarrow> vcs_state" where
  "reconcile_closed_pr_sessions e c repo open_pr_numbers s = fold (close_session e open_pr_numbers) (open_sessions c repo s) s"

section \<open>Pull requests\<close>

definition pr_runs :: "nat \<Rightarrow> int \<Rightarrow> (run \<Rightarrow> bool) \<Rightarrow> world \<Rightarrow> nat list" where
  "pr_runs i pr p w = select_runs w (\<lambda>_ r. workspace_id r = i \<and> rc_pr (config r) = Some pr \<and> p r)"

definition applies_then_merges :: "nat \<Rightarrow> vcs_state \<Rightarrow> bool" where
  "applies_then_merges i s \<longleftrightarrow>
     (case workspaces (vs_world s) i of None \<Rightarrow> False | Some ws \<Rightarrow> ws_vcs_workflow (settings ws) = ''apply_then_merge'')"

definition pr_message :: "bool \<Rightarrow> pull_request \<Rightarrow> string" where
  "pr_message applied pq = (if applied then ''Plan for PR #'' else ''Speculative plan for PR #'')
     @ show_int (pq_number pq) @ '': '' @ pq_title pq"

definition poll_pr :: "env \<Rightarrow> vcs_env \<Rightarrow> nat \<Rightarrow> repository \<Rightarrow> string list option \<Rightarrow> pull_request \<Rightarrow> unit poll" where
  "poll_pr e vn i repo fetch_paths pq s =
     (let w = vs_world s; pr = pq_number pq; sha = pq_head_sha pq in
      if pr_runs i pr (\<lambda>r. rc_vcs_sha (config r) = sha) w \<noteq> [] then Ret () s
      else
        let s1 = set_world (cancel_all e (pr_runs i pr (\<lambda>r. status r \<notin> set terminal_states) w) w) s;
            c = vs_columns s1 i; dirs = effective_prefixes c; applied = applies_then_merges i s1 in
        if dirs \<noteq> [] \<and> dc_last_sha c \<noteq> [] \<and> elsewhere dirs (vn_changed_files vn repo (dc_last_sha c) sha) then Ret () s1
        else bind_res (on_world (create_vcs_run e vn i repo sha (pq_head_ref pq) (\<not> applied) (Some pr) (pr_message applied pq)
            fetch_paths) s1) (\<lambda>created s2.
          if created = None \<or> \<not> applied then Ret () s2
          else bind_res (upsert_pr_session (fst repo) (repo_name repo) pr sha s2) (refresh_status_comment e)))"

definition poll_workspace_prs ::
    "env \<Rightarrow> vcs_env \<Rightarrow> nat \<Rightarrow> repository \<Rightarrow> string \<Rightarrow> string list option \<Rightarrow> unit poll" where
  "poll_workspace_prs e vn i repo branch fetch_paths s =
     bind_res (ask (vn_open_prs vn repo branch) s) (\<lambda>prs s.
     bind_res
       (if applies_then_merges i s
        then poll_pr_comments e vn (fst repo) (repo_name repo)
          (reconcile_closed_pr_sessions e (fst repo) (repo_name repo) (set (map pq_number prs)) s)
        else Ret () s)
       (\<lambda>_. each (poll_pr e vn i repo fetch_paths) prs))"

section \<open>A workspace\<close>

text \<open>The texts of errors in the code's own calls are abbreviated.\<close>

definition error_text :: "poll_error \<Rightarrow> string" where
  "error_text err = (case err of Provider m \<Rightarrow> take 500 m | Failed _ \<Rightarrow> ''error'')"

definition record_poll :: "nat \<Rightarrow> string option \<Rightarrow> vcs_state \<Rightarrow> vcs_state" where
  "record_poll i err s =
     (let t = now (vs_world s); c = vs_polls s i in
      s\<lparr>vs_polls := (vs_polls s)(i := case err of
          None \<Rightarrow> \<lparr>pc_error = None, pc_error_at = None, pc_polled_at = Some t\<rparr>
        | Some m \<Rightarrow> c\<lparr>pc_error := Some m, pc_error_at := Some t\<rparr>)\<rparr>)"

definition poll_repository ::
    "env \<Rightarrow> vcs_env \<Rightarrow> (vcs_state \<Rightarrow> vcs_state) \<Rightarrow> nat \<Rightarrow> repository \<Rightarrow> string \<Rightarrow> string list option \<Rightarrow> vcs_state \<Rightarrow> vcs_state" where
  "poll_repository e vn others i repo branch fetch_paths s =
     (case bind_res (poll_workspace_branch e vn others i repo branch fetch_paths s)
        (\<lambda>_. poll_workspace_prs e vn i repo branch fetch_paths) of
        Ret _ s' \<Rightarrow> record_poll i None s'
      | Raise err s' \<Rightarrow> record_poll i (Some (error_text err)) s')"

type_synonym paths_unions = "(repository \<times> string list) list"

definition poll_workspace ::
    "env \<Rightarrow> vcs_env \<Rightarrow> (vcs_state \<Rightarrow> vcs_state) \<Rightarrow> paths_unions \<Rightarrow> nat \<Rightarrow> vcs_state \<Rightarrow> vcs_state" where
  "poll_workspace e vn others unions i s =
     (case workspaces (vs_world s) i of
        None \<Rightarrow> s
      | Some ws \<Rightarrow>
     (case ws_vcs_connection (settings ws) of
        None \<Rightarrow> s
      | Some c \<Rightarrow>
          if ws_vcs_repo_url (settings ws) = [] then s
          else case vcs_connections (vs_world s) c of
            None \<Rightarrow> record_poll i (Some ''VCS connection is not active'') s
          | Some conn \<Rightarrow>
              if vc_status conn \<noteq> ''active'' then record_poll i (Some ''VCS connection is not active'') s
              else case parse_repo_url (vc_provider conn) (ws_vcs_repo_url (settings ws)) of
                None \<Rightarrow> record_poll i (Some (''Cannot parse VCS repo URL: '' @ ws_vcs_repo_url (settings ws))) s
              | Some (owner, name) \<Rightarrow>
                  (case resolve_branch vn (c, owner, name) (vs_columns s i) of
                     None \<Rightarrow> record_poll i (Some ''Cannot determine tracked branch'') s
                   | Some branch \<Rightarrow> poll_repository e vn others i (c, owner, name) branch (map_of unions (c, owner, name)) s)))"

section \<open>Which workspaces, which paths\<close>

definition provider_of :: "vcs_state \<Rightarrow> nat \<Rightarrow> string option" where
  "provider_of s i =
     (case workspaces (vs_world s) i of
        None \<Rightarrow> None
      | Some ws \<Rightarrow> (case ws_vcs_connection (settings ws) of
          None \<Rightarrow> None | Some c \<Rightarrow> map_option vc_provider (vcs_connections (vs_world s) c)))"

definition workspace_repository :: "vcs_state \<Rightarrow> nat \<Rightarrow> repository option" where
  "workspace_repository s i =
     (case (workspaces (vs_world s) i, provider_of s i) of
        (Some ws, Some provider) \<Rightarrow>
          map_option (Pair (the (ws_vcs_connection (settings ws)))) (parse_repo_url provider (ws_vcs_repo_url (settings ws)))
      | _ \<Rightarrow> None)"

definition select_workspace_ids :: "string \<Rightarrow> string option \<Rightarrow> vcs_state \<Rightarrow> nat list" where
  "select_workspace_ids repo provider s =
     (let rows = select (next_id (vs_world s)) (workspaces (vs_world s)) (\<lambda>i ws. ws_vcs_repo_url (settings ws) \<noteq> []
            \<and> provider_of s i \<noteq> None \<and> (case provider of None \<Rightarrow> True | Some p \<Rightarrow> p = [] \<or> provider_of s i = Some p))
      in if repo = [] then rows
         else filter (\<lambda>i. case workspace_repository s i of None \<Rightarrow> False | Some r \<Rightarrow> repo_name r = repo) rows)"

definition slash_or_blank :: "char \<Rightarrow> bool" where
  "slash_or_blank c \<longleftrightarrow> c = CHR ''/'' \<or> c = CHR '' ''"

definition narrowed_paths :: "disc_columns \<Rightarrow> string list" where
  "narrowed_paths c = filter (\<lambda>p. p \<noteq> []) (map (strip_set slash_or_blank)
     ((if dc_directory c \<noteq> [] then [dc_directory c] else []) @ filter (\<lambda>p. p \<noteq> []) (dc_prefixes c)))"

text \<open>\<open>None\<close> in the accumulator: some workspace wants the whole repository.\<close>

definition accumulate_paths :: "repository \<Rightarrow> string list \<Rightarrow> (repository \<times> string list option) list
    \<Rightarrow> (repository \<times> string list option) list" where
  "accumulate_paths repo paths m =
     (if paths = [] then AList.update repo None m
      else case map_of m repo of
             Some None \<Rightarrow> m
           | Some (Some old) \<Rightarrow> AList.update repo (Some (List.union old paths)) m
           | None \<Rightarrow> AList.update repo (Some (remdups paths)) m)"

definition under :: "string \<Rightarrow> string \<Rightarrow> bool" where
  "under p q \<longleftrightarrow> p \<noteq> q \<and> starts_with p (q @ ''/'')"

fun collapse_paths :: "string list \<Rightarrow> string list \<Rightarrow> string list" where
  "collapse_paths collapsed [] = collapsed"
| "collapse_paths collapsed (p # ps) =
     collapse_paths (if list_ex (under p) collapsed then collapsed else collapsed @ [p]) ps"

definition compute_paths_unions :: "nat list \<Rightarrow> vcs_state \<Rightarrow> paths_unions" where
  "compute_paths_unions ids s =
     map (\<lambda>(repo, val). (repo, case val of None \<Rightarrow> [] | Some ps \<Rightarrow> collapse_paths [] (sort ps)))
       (fold (\<lambda>i m. case workspace_repository s i of
            None \<Rightarrow> m | Some repo \<Rightarrow> accumulate_paths repo (narrowed_paths (vs_columns s i)) m) ids [])"

definition poll_workspaces ::
    "env \<Rightarrow> vcs_env \<Rightarrow> (nat \<Rightarrow> vcs_state \<Rightarrow> vcs_state) \<Rightarrow> string \<Rightarrow> string option \<Rightarrow> vcs_state \<Rightarrow> vcs_state" where
  "poll_workspaces e vn others repo provider s =
     (let ids = select_workspace_ids repo provider s; unions = compute_paths_unions ids s
      in fold (\<lambda>i. poll_workspace e vn (others i) unions i) ids s)"

end
