(* ===== verification/VcsDispatch.thy ===== *)
theory VcsDispatch
  imports VcsPolling RunGates
begin

text \<open>
  What comments on a pull request may do (\<open>services/vcs_command_dispatcher.py\<close>) and when a pull request is merged
  (\<open>services/vcs_auto_merge.py\<close>). Whoever may comment may use every command: the repository's permissions are the only guard.
  \<open>vs_merges\<close> records the merges asked of the provider.
\<close>

section \<open>Affected workspaces\<close>

definition latest_pr_run :: "nat \<Rightarrow> int \<Rightarrow> (run \<Rightarrow> bool) \<Rightarrow> world \<Rightarrow> nat option" where
  "latest_pr_run i pr p w = least_by (\<lambda>j. - rc_created_at (config (the (runs w j)))) (pr_runs i pr p w)"

definition latest_run_for_pr :: "nat \<Rightarrow> int \<Rightarrow> string \<Rightarrow> world \<Rightarrow> run option" where
  "latest_run_for_pr i pr head_sha w =
     (case latest_pr_run i pr (\<lambda>r. rc_vcs_sha (config r) = head_sha) w of None \<Rightarrow> None | Some j \<Rightarrow> runs w j)"

definition meets_required_state :: "workspace \<Rightarrow> run option \<Rightarrow> bool" where
  "meets_required_state ws found =
     (case found of
        None \<Rightarrow> False
      | Some r \<Rightarrow>
          if ws_vcs_workflow (settings ws) = ''apply_then_merge''
          then status r = Applied \<or> status r = Planned \<and> has_changes r = Some False
          else status r = Planned)"

definition affected_workspaces :: "pr_session \<Rightarrow> world \<Rightarrow> nat list" where
  "affected_workspaces se w = select (next_id w) (workspaces w) (\<lambda>i ws.
     ws_vcs_connection (settings ws) = Some (se_connection se) \<and> ends_with (ws_vcs_repo_url (settings ws)) (se_repo se)
     \<and> pr_runs i (se_pr se) (\<lambda>_. True) w \<noteq> [])"

section \<open>Merging\<close>

text \<open>The call to the provider; its answer, and the session that is merged then.\<close>

definition request_merge :: "vcs_env \<Rightarrow> nat \<Rightarrow> pr_session \<Rightarrow> string \<Rightarrow> merge_result poll" where
  "request_merge vn k se strategy s =
     (let s1 = s\<lparr>vs_merges := vs_merges s @ [(se_connection se, se_repo se, se_pr se, strategy)]\<rparr> in
      bind_res (ask (vn_merge vn (se_connection se) (se_repo se) (se_pr se) strategy) s1) (\<lambda>answer s2.
        Ret answer (if mg_merged answer then put_session k (\<lambda>se. se\<lparr>se_state := ''merged''\<rparr>) s2 else s2)))"

definition known_provider :: "vcs_connection \<Rightarrow> bool" where
  "known_provider conn \<longleftrightarrow> vc_provider conn = ''github'' \<or> vc_provider conn = ''gitlab''"

definition execute_merge :: "vcs_env \<Rightarrow> vcs_connection \<Rightarrow> nat \<Rightarrow> pr_session \<Rightarrow> string \<Rightarrow> vcs_state \<Rightarrow> vcs_state" where
  "execute_merge vn conn k se strategy s = (if known_provider conn then res_state (request_merge vn k se strategy s) else s)"

definition gate_met :: "pr_session \<Rightarrow> world \<Rightarrow> bool" where
  "gate_met se w = list_all (\<lambda>i. meets_required_state (the (workspaces w i)) (latest_run_for_pr i (se_pr se) (se_head se) w))
     (affected_workspaces se w)"

definition merge_strategy :: "vcs_state \<Rightarrow> nat list \<Rightarrow> string" where
  "merge_strategy s affected = (case filter (\<lambda>i. fst (vs_merging s i)) affected of [] \<Rightarrow> ''merge'' | i # _ \<Rightarrow> snd (vs_merging s i))"

definition handle_vcs_apply_completed :: "env \<Rightarrow> vcs_env \<Rightarrow> int option \<Rightarrow> nat option \<Rightarrow> unit poll" where
  "handle_vcs_apply_completed e vn pr_ref ws_ref s =
     (case (pr_ref, ws_ref) of
        (Some pr, Some i) \<Rightarrow>
          (case (case workspaces (vs_world s) i of None \<Rightarrow> None | Some ws \<Rightarrow> ws_vcs_connection (settings ws)) of
             None \<Rightarrow> Ret () s
           | Some c \<Rightarrow>
          (case one_or_none (select_sessions (\<lambda>se. se_connection se = c \<and> se_pr se = pr \<and> se_state se = ''open'') s) of
             Inl err \<Rightarrow> Raise (Failed err) s
           | Inr None \<Rightarrow> Ret () s
           | Inr (Some k) \<Rightarrow>
               let se = the (vs_sessions s k) in
               bind_res (refresh_status_comment e k s) (\<lambda>_ s1.
                 let affected = affected_workspaces se (vs_world s1) in
                 if affected = [] \<or> \<not> list_ex (\<lambda>i. fst (vs_merging s1 i)) affected then Ret () s1
                 else if \<not> gate_met se (vs_world s1) then Ret () s1
                 else case vcs_connections (vs_world s1) c of
                   None \<Rightarrow> Ret () s1
                 | Some conn \<Rightarrow> Ret () (execute_merge vn conn k se (merge_strategy s1 affected) s1))))
      | _ \<Rightarrow> Ret () s)"

definition log_vcs_action :: "string \<Rightarrow> nat option \<Rightarrow> string \<Rightarrow> string \<Rightarrow> pr_session \<Rightarrow> string \<Rightarrow> vcs_state \<Rightarrow> vcs_state" where
  "log_vcs_action verb i login user se detail s = s\<lparr>vs_audit := vs_audit s @ [\<lparr>vl_verb = verb, vl_workspace = i,
     vl_login = login, vl_user = user,
     vl_detail = ''PR '' @ se_repo se @ ''#'' @ show_int (se_pr se) @ (if detail = [] then [] else '': '' @ detail)\<rparr>]\<rparr>"

fun comma_separated :: "string list \<Rightarrow> string" where
  "comma_separated [] = []"
| "comma_separated [s] = s"
| "comma_separated (s # ss) = s @ '', '' @ comma_separated ss"

definition merge_snapshot :: "pr_session \<Rightarrow> world \<Rightarrow> string" where
  "merge_snapshot se w = comma_separated (map (\<lambda>i. ws_name (settings (the (workspaces w i))) @ ''=''
     @ (case latest_run_for_pr i (se_pr se) (se_head se) w of None \<Rightarrow> ''no-run'' | Some r \<Rightarrow> status_name (status r)))
       (affected_workspaces se w))"

text \<open>The audit row is committed before the provider is asked.\<close>

definition force_merge :: "vcs_env \<Rightarrow> vcs_connection \<Rightarrow> nat \<Rightarrow> pr_session \<Rightarrow> string \<Rightarrow> string \<Rightarrow> string \<Rightarrow> unit poll" where
  "force_merge vn conn k se strategy login user s =
     (let s1 = log_vcs_action ''merge'' None login user se
          (''force-merge strategy='' @ strategy @ ''; per-workspace state: '' @ merge_snapshot se (vs_world s)) s in
      if \<not> known_provider conn then Ret () s1
      else bind_res (request_merge vn k se strategy s1) (\<lambda>_. Ret ()))"

section \<open>Commands\<close>

definition set_actor :: "string \<Rightarrow> string \<Rightarrow> nat \<Rightarrow> vcs_state \<Rightarrow> vcs_state" where
  "set_actor login user j s = s\<lparr>vs_actors := (vs_actors s)(j := (login, user))\<rparr>"

text \<open>What a handler leaves behind when its exceptions are logged.\<close>

definition tried :: "'a handler \<Rightarrow> vcs_state \<Rightarrow> vcs_state" where
  "tried h s = set_world (res_state (h (vs_world s))) s"

definition apply_one :: "env \<Rightarrow> int \<Rightarrow> string \<Rightarrow> string \<Rightarrow> nat \<Rightarrow> vcs_state \<Rightarrow> vcs_state" where
  "apply_one e pr login user i s =
     (case latest_pr_run i pr (\<lambda>r. status r = Planned) (vs_world s) of
        None \<Rightarrow> s
      | Some j \<Rightarrow> tried (confirm_run e j) (set_actor login user j s))"

definition plan_one :: "env \<Rightarrow> int \<Rightarrow> string \<Rightarrow> string \<Rightarrow> nat \<Rightarrow> vcs_state \<Rightarrow> vcs_state" where
  "plan_one e pr login user i s =
     fold (\<lambda>j s. tried (cancel_run e j True None) (set_actor login user j s))
       (pr_runs i pr (\<lambda>r. status r \<notin> set terminal_states) (vs_world s)) s"

definition unlock_one :: "nat \<Rightarrow> vcs_state \<Rightarrow> vcs_state" where
  "unlock_one i s = set_world (put_ws i (\<lambda>ws. if locked ws then ws\<lparr>locked := False, lock_id := None\<rparr> else ws) (vs_world s)) s"

definition route_command :: "env \<Rightarrow> string \<Rightarrow> int \<Rightarrow> nat list \<Rightarrow> string \<Rightarrow> string \<Rightarrow> vcs_state \<Rightarrow> vcs_state" where
  "route_command e verb pr candidates login user s =
     (if verb = ''apply'' then fold (apply_one e pr login user) candidates s
      else if verb = ''plan'' then fold (plan_one e pr login user) candidates s
      else if verb = ''unlock'' then fold unlock_one candidates s
      else s)"

definition command_candidates :: "nat \<Rightarrow> string \<Rightarrow> string option \<Rightarrow> world \<Rightarrow> nat list" where
  "command_candidates c repo name w = select (next_id w) (workspaces w) (\<lambda>_ ws.
     ws_vcs_connection (settings ws) = Some c \<and> ws_vcs_workflow (settings ws) = ''apply_then_merge''
     \<and> ends_with (rstrip_slash (ws_vcs_repo_url (settings ws))) repo
     \<and> (case name of None \<Rightarrow> True | Some n \<Rightarrow> ws_name (settings ws) = n))"

definition route ::
    "env \<Rightarrow> vcs_env \<Rightarrow> command \<Rightarrow> vcs_connection \<Rightarrow> nat \<Rightarrow> pr_session \<Rightarrow> nat list \<Rightarrow> string \<Rightarrow> string \<Rightarrow> unit poll" where
  "route e vn cmd conn k se candidates login user s =
     (if cm_verb cmd = ''help'' then Ret () s
      else if cm_verb cmd = ''merge'' then
        bind_res (force_merge vn conn k se ''merge'' login user s) (\<lambda>_. refresh_status_comment e k)
      else if candidates = [] then Ret () s
      else refresh_status_comment e k
        (fold (\<lambda>i. log_vcs_action (cm_verb cmd) (Some i) login user se (cm_raw cmd)) candidates
          (route_command e (cm_verb cmd) (se_pr se) candidates login user s)))"

record comment_payload =
  cp_connection :: nat
  cp_repo :: string
  cp_pr :: int
  cp_login :: string
  cp_user :: string
  cp_body :: string

definition handle_vcs_comment_dispatch :: "env \<Rightarrow> vcs_env \<Rightarrow> comment_payload \<Rightarrow> unit poll" where
  "handle_vcs_comment_dispatch e vn p s =
     (case parse bot (cp_body p) of
        None \<Rightarrow> Ret () s
      | Some cmd \<Rightarrow>
          if cp_repo p = [] \<or> cp_pr p = 0 then Ret () s
          else case vcs_connections (vs_world s) (cp_connection p) of
            None \<Rightarrow> Ret () s
          | Some conn \<Rightarrow>
              bind_res (find_session (cp_connection p) (cp_repo p) (cp_pr p) s) (\<lambda>found s1.
                case found of
                  None \<Rightarrow> Ret () s1
                | Some k \<Rightarrow>
                    let se = the (vs_sessions s1 k) in
                    if se_state se \<noteq> ''open'' then Ret () s1
                    else route e vn cmd conn k se (command_candidates (cp_connection p) (cp_repo p) (cm_workspace cmd) (vs_world s1))
                      (cp_login p) (cp_user p) s1))"

end
