(* ===== verification/VcsSafety.thy ===== *)
theory VcsSafety
  imports VcsDispatch DiscoverySafety
begin

text \<open>
  What polls and comments do to runs. Cancelling and creating are described on the rows; the rest is composed from
  them.
\<close>

section \<open>Cancelling\<close>

definition force_canceled :: "run \<Rightarrow> run" where
  "force_canceled r = set_status (if status r = Applying then Canceling else Canceled) r"

definition active :: "run \<Rightarrow> bool" where
  "active r \<longleftrightarrow> status r \<notin> set terminal_states"

lemma force_canceled_simps [simp]: "config (force_canceled r) = config r"
  by (simp add: force_canceled_def)

text \<open>Locks are all that changes on a workspace.\<close>

definition same_but_lock :: "workspace \<Rightarrow> workspace \<Rightarrow> bool" where
  "same_but_lock ws ws' \<longleftrightarrow> ws'\<lparr>locked := locked ws, lock_id := lock_id ws\<rparr> = ws"

lemma same_but_lock_refl [simp]: "same_but_lock ws ws"
  by (simp add: same_but_lock_def)

lemma same_but_lock_trans: "same_but_lock a b \<Longrightarrow> same_but_lock b c \<Longrightarrow> same_but_lock a c"
  by (cases a; cases b; cases c) (simp add: same_but_lock_def)

lemma same_but_lock_unlock: "same_but_lock ws (unlock ws)"
  by (cases ws) (simp add: same_but_lock_def unlock_def)

lemma same_but_lock_settings: "same_but_lock a b \<Longrightarrow> settings b = settings a"
  by (cases a; cases b) (simp add: same_but_lock_def)

definition lock_only :: "nat set \<Rightarrow> world \<Rightarrow> world \<Rightarrow> bool" where
  "lock_only owned w w' \<longleftrightarrow> (\<forall>i. if i \<in> owned then rel_option same_but_lock (workspaces w i) (workspaces w' i)
     else workspaces w' i = workspaces w i)
   \<and> next_id w' = next_id w \<and> now w' = now w \<and> vcs_connections w' = vcs_connections w
   \<and> config_versions w' = config_versions w \<and> state_versions w' = state_versions w"

lemma lock_only_refl [simp]: "lock_only owned w w"
  by (simp add: lock_only_def option.rel_refl)

lemma rel_option_trans:
  "(\<And>a b c. R a b \<Longrightarrow> R b c \<Longrightarrow> R a c) \<Longrightarrow> rel_option R x y \<Longrightarrow> rel_option R y z \<Longrightarrow> rel_option R x z"
  by (cases x; cases y; cases z) auto

lemma lock_only_trans: "lock_only owned u v \<Longrightarrow> lock_only owned v w \<Longrightarrow> lock_only owned u w"
  unfolding lock_only_def by (metis (no_types, lifting) rel_option_trans same_but_lock_trans)

lemma lock_only_mono: "lock_only A w w' \<Longrightarrow> A \<subseteq> B \<Longrightarrow> lock_only B w w'"
  unfolding lock_only_def by (metis option.rel_refl same_but_lock_refl subsetD)

lemma lock_only_db [simp]: "lock_only A w (db v) = lock_only A w v"
  by (simp add: lock_only_def)

lemma rel_option_same_but_lock_map: "rel_option same_but_lock x (map_option unlock x)"
  by (cases x) (simp_all add: same_but_lock_unlock)

lemma cancel_run_rows:
  assumes "runs w j = Some r" and "active r"
  shows "runs (res_state (cancel_run e j True None w)) = (runs w)(j \<mapsto> force_canceled r)"
    and "lock_only {workspace_id r} w (res_state (cancel_run e j True None w))"
proof -
  let ?w' = "res_state (cancel_run e j True None w)"
  have "db_res (cancel_run e j True None w) = Ret () (if status r = Applying
      then put_run j (\<lambda>r. set_status Canceling (record_reason None r)) (db w)
      else put_run j (\<lambda>r. set_status Canceled (record_reason None r)) (release_lock (workspace_id r) (db w)))"
    using cancel_run_db [OF assms(1)] assms(2) by (simp add: active_def)
  then have db: "db ?w' = (if status r = Applying
      then put_run j (\<lambda>r. set_status Canceling (record_reason None r)) (db w)
      else put_run j (\<lambda>r. set_status Canceled (record_reason None r)) (release_lock (workspace_id r) (db w)))"
    by (auto dest!: db_res_eq_RetD)
  show "runs ?w' = (runs w)(j \<mapsto> force_canceled r)"
    using db [THEN arg_cong, of runs] assms
    by (auto simp: put_run_def modify_def force_canceled_def record_reason_def split: if_splits)
  have "lock_only {workspace_id r} w (if status r = Applying
      then put_run j (\<lambda>r. set_status Canceling (record_reason None r)) (db w)
      else put_run j (\<lambda>r. set_status Canceled (record_reason None r)) (release_lock (workspace_id r) (db w)))"
    by (auto simp: lock_only_def release_lock_def put_ws_def put_run_def modify_apply option.rel_refl
        rel_option_same_but_lock_map)
  then show "lock_only {workspace_id r} w ?w'" unfolding db [symmetric] by simp
qed

lemma cancel_all_rows:
  assumes "distinct js" and "\<And>j. j \<in> set js \<Longrightarrow> \<exists>r. runs w j = Some r \<and> active r \<and> workspace_id r \<in> owned"
  shows "runs (cancel_all e js w) = (\<lambda>j. if j \<in> set js then map_option force_canceled (runs w j) else runs w j)"
    and "lock_only owned w (cancel_all e js w)"
proof -
  have "runs (cancel_all e js w) = (\<lambda>j. if j \<in> set js then map_option force_canceled (runs w j) else runs w j)
      \<and> lock_only owned w (cancel_all e js w)"
    using assms
  proof (induction js arbitrary: w)
    case (Cons j js)
    obtain r where r: "runs w j = Some r" "active r" "workspace_id r \<in> owned" using Cons.prems(2) [of j] by auto
    let ?w1 = "res_state (cancel_run e j True None w)"
    note one = cancel_run_rows [OF r(1,2), of e]
    have "\<exists>r. runs ?w1 k = Some r \<and> active r \<and> workspace_id r \<in> owned" if "k \<in> set js" for k
      using Cons.prems that one(1) by auto
    with Cons.IH [of ?w1] Cons.prems(1)
    have rest: "runs (cancel_all e js ?w1) = (\<lambda>j. if j \<in> set js then map_option force_canceled (runs ?w1 j) else runs ?w1 j)"
      "lock_only owned ?w1 (cancel_all e js ?w1)" by auto
    have "lock_only owned w ?w1" using lock_only_mono [OF one(2)] r(3) by simp
    then have "lock_only owned w (cancel_all e js ?w1)" using rest(2) by (rule lock_only_trans)
    moreover have "runs (cancel_all e js ?w1)
        = (\<lambda>k. if k \<in> set (j # js) then map_option force_canceled (runs w k) else runs w k)"
      using Cons.prems(1) r(1) by (auto simp: rest(1) one(1))
    ultimately show ?case by (simp add: cancel_all_def)
  qed (simp add: cancel_all_def)
  then show "runs (cancel_all e js w) = (\<lambda>j. if j \<in> set js then map_option force_canceled (runs w j) else runs w j)"
    "lock_only owned w (cancel_all e js w)" by auto
qed

lemma select_runs_distinct [simp]: "distinct (select_runs w p)"
  by (simp add: select_runs_def select_def)

lemma select_runs_iff: "bounded w \<Longrightarrow> j \<in> set (select_runs w p) \<longleftrightarrow> (\<exists>r. runs w j = Some r \<and> p j r)"
  by (auto simp: select_runs_def bounded_def)

text \<open>Cancelling every active run that a query finds.\<close>

lemma cancel_found:
  assumes "bounded w" and "\<And>j r. p j r \<Longrightarrow> active r" and "\<And>j r. runs w j = Some r \<Longrightarrow> p j r \<Longrightarrow> workspace_id r \<in> owned"
  shows "runs (cancel_all e (select_runs w p) w)
      = (\<lambda>j. map_option (\<lambda>r. if p j r then force_canceled r else r) (runs w j))"
    and "lock_only owned w (cancel_all e (select_runs w p) w)"
proof -
  have found: "\<exists>r. runs w j = Some r \<and> active r \<and> workspace_id r \<in> owned" if "j \<in> set (select_runs w p)" for j
    using assms that by (auto simp: select_runs_iff)
  have "runs (cancel_all e (select_runs w p) w)
      = (\<lambda>j. if j \<in> set (select_runs w p) then map_option force_canceled (runs w j) else runs w j)"
    by (rule cancel_all_rows(1) [OF _ found]) simp
  then have rows: "runs (cancel_all e (select_runs w p) w) j
      = (if j \<in> set (select_runs w p) then map_option force_canceled (runs w j) else runs w j)" for j by simp
  show "runs (cancel_all e (select_runs w p) w)
      = (\<lambda>j. map_option (\<lambda>r. if p j r then force_canceled r else r) (runs w j))"
  proof
    fix j
    show "runs (cancel_all e (select_runs w p) w) j = map_option (\<lambda>r. if p j r then force_canceled r else r) (runs w j)"
      unfolding rows by (cases "runs w j") (auto simp: select_runs_iff [OF assms(1)])
  qed
  show "lock_only owned w (cancel_all e (select_runs w p) w)"
    by (rule cancel_all_rows(2) [OF _ found]) simp
qed

section \<open>Creating\<close>

definition vcs_run_row :: "nat \<Rightarrow> string \<Rightarrow> string \<Rightarrow> int option \<Rightarrow> bool \<Rightarrow> run \<Rightarrow> bool" where
  "vcs_run_row i sha branch pr speculative r \<longleftrightarrow> workspace_id r = i \<and> rc_vcs_sha (config r) = sha
     \<and> rc_vcs_branch (config r) = branch \<and> rc_pr (config r) = pr \<and> plan_only r = speculative
     \<and> rc_source (config r) = ''vcs'' \<and> status r = Queued"

abbreviation same_config :: "run \<Rightarrow> run \<Rightarrow> bool" where
  "same_config a b \<equiv> config b = config a"

lemma retire_all_rows:
  "rel_option same_config (runs w k) (runs (retire_all i ws olds w) k)"
  "next_id (retire_all i ws olds w) = next_id w"
  by (auto simp: retire_all_def option.rel_refl option.rel_map release_lock_def put_ws_def retired_def
      intro!: rel_option_reflI split: option.split)

lemma create_vcs_run_rows:
  assumes "bounded w" and "workspaces w i = Some ws"
  shows "(\<exists>w'. create_vcs_run e vn i repo sha branch speculative pr m paths w = Ret None w' \<and> runs w' = runs w
      \<and> next_id w \<le> next_id w')
    \<or> (\<exists>j r w'. create_vcs_run e vn i repo sha branch speculative pr m paths w = Ret (Some j) w'
      \<and> commit_runs i sha branch pr w = [] \<and> runs w j = None \<and> j < next_id w' \<and> next_id w \<le> next_id w'
      \<and> runs w' j = Some r \<and> vcs_run_row i sha branch pr speculative r
      \<and> (\<forall>k. k \<noteq> j \<longrightarrow> rel_option same_config (runs w k) (runs w' k)) \<and> (pr \<noteq> None \<longrightarrow> runs w' = (runs w)(j \<mapsto> r)))"
proof (cases "commit_runs i sha branch pr w \<noteq> [] \<or> \<not> vn_fetch vn repo sha paths")
  case True
  then show ?thesis using assms by (auto simp: create_vcs_run_def)
next
  case False
  let ?cv = "next_id w" and ?w1 = "snd (create_configuration_version i ''vcs'' False speculative w)"
  let ?w1' = "mark_configuration_uploaded ?cv ?w1"
  have w1: "runs ?w1' = runs w" "next_id ?w1' = Suc (next_id w)" "runs ?w1 = runs w" "next_id ?w1 = Suc (next_id w)"
    by (simp_all add: create_configuration_version_def mark_configuration_uploaded_def put_cv_def add_cv_def)
  show ?thesis
  proof (cases "vn_store vn i ?cv")
    case False
    with \<open>\<not> (commit_runs i sha branch pr w \<noteq> [] \<or> \<not> vn_fetch vn repo sha paths)\<close> assms(2) w1 show ?thesis
      by (auto simp: create_vcs_run_def create_configuration_version_def)
  next
    case True
    obtain j w2 where c: "create_run e i ws (vcs_request m speculative ?cv) ?w1' = (j, w2)" by force
    note created = created_run [OF c]
    let ?r0 = "new_run e i (settings ws) (vcs_request m speculative ?cv) (now ?w1')"
    let ?r = "stamp_commit sha branch pr ?r0" and ?w3 = "put_run j (stamp_commit sha branch pr) w2"
    have row: "runs ?w3 j = Some ?r" using created(1,2) by (simp add: put_run_def modify_apply)
    have pending: "status ?r = Pending" by (simp add: stamp_commit_def new_run_def)
    obtain w4 where q: "queue_run e j ?w3 = Ret () w4" and db: "db w4 = retire_all j (workspace_id ?r)
        (stale_list j ?r (put_run j (set_status Queued) ?w3)) (put_run j (set_status Queued) (db ?w3))"
      using queue_run_db [OF row pending, of e] by (auto dest!: db_res_eq_RetD)
    have res: "create_vcs_run e vn i repo sha branch speculative pr m paths w = Ret (Some j) w4"
      using False True assms(2) c q
      by (simp add: create_vcs_run_def create_configuration_version_def)
    let ?w5 = "put_run j (set_status Queued) ?w3"
    have rows5: "runs ?w5 = (runs w)(j \<mapsto> set_status Queued ?r)"
      using created(1,2) w1 by (auto simp: put_run_def modify_def)
    have w4: "runs w4 = runs (retire_all j (workspace_id ?r) (stale_list j ?r ?w5) (put_run j (set_status Queued) (db ?w3)))"
      using db [THEN arg_cong, of runs] by simp
    have same5: "runs (put_run j (set_status Queued) (db ?w3)) = runs ?w5" by (simp add: put_run_def)
    have keep: "rel_option same_config (runs ?w5 k) (runs w4 k)" for k
      unfolding w4 same5 [symmetric] by (rule retire_all_rows(1))
    have others: "rel_option same_config (runs w k) (runs w4 k)" if "k \<noteq> j" for k
      using keep [of k] that unfolding rows5 by simp
    have own: "\<exists>r. runs w4 j = Some r \<and> vcs_run_row i sha branch pr speculative r"
    proof -
      let ?olds = "stale_list j ?r ?w5"
      have "j \<notin> set ?olds" by (simp add: stale_list_iff superseded_by_def)
      then have "runs w4 j = Some (set_status Queued ?r)"
        unfolding w4 using rows5 same5 by (simp add: retire_all_def)
      moreover have "vcs_run_row i sha branch pr speculative (set_status Queued ?r)"
        by (simp add: vcs_run_row_def stamp_commit_def new_run_def vcs_request_def default_request_def)
      ultimately show ?thesis by blast
    qed
    have exact: "runs w4 = (runs w)(j \<mapsto> set_status Queued ?r)" if "pr \<noteq> None"
    proof -
      have "stale_list j ?r ?w5 = []" using that by (auto simp: stale_list_def is_supersedeable_kind_def stamp_commit_def)
      then show ?thesis unfolding w4 using rows5 same5 by (simp add: retire_all_def)
    qed
    have next4: "next_id w4 = next_id w2" using db [THEN arg_cong, of next_id] by (simp add: retire_all_rows(2))
    have "runs w j = None" using assms(1) created(1) w1 by (auto simp: bounded_def)
    moreover have "j < next_id w4" "next_id w \<le> next_id w4" using next4 created(1,3) w1 by simp_all
    moreover obtain r where "runs w4 j = Some r" "vcs_run_row i sha branch pr speculative r" using own by blast
    moreover have "pr \<noteq> None \<longrightarrow> runs w4 = (runs w)(j \<mapsto> r)" using exact \<open>runs w4 j = Some r\<close> by auto
    ultimately show ?thesis using res others False by blast
  qed
qed

lemma create_pr_run_rows:
  assumes "bounded w" and "workspaces w i = Some ws"
  shows "runs (res_state (create_vcs_run e vn i repo sha branch speculative (Some pr) m paths w)) = runs w
    \<or> (\<exists>j r. runs w j = None \<and> vcs_run_row i sha branch (Some pr) speculative r
      \<and> runs (res_state (create_vcs_run e vn i repo sha branch speculative (Some pr) m paths w)) = (runs w)(j \<mapsto> r))"
  using create_vcs_run_rows [OF assms, of e vn repo sha branch speculative "Some pr" m paths]
  by (elim disjE exE conjE) auto

section \<open>Frames\<close>

lemma set_world_simps [simp]:
  "vs_disc (set_world w s) = (vs_disc s)\<lparr>ds_world := w\<rparr>" "vs_sessions (set_world w s) = vs_sessions s"
  "vs_merges (set_world w s) = vs_merges s" "vs_merging (set_world w s) = vs_merging s" "vs_rules (set_world w s) = vs_rules s"
  by (simp_all add: set_world_def)

lemma put_session_simps [simp]:
  "vs_disc (put_session k f s) = vs_disc s" "vs_merges (put_session k f s) = vs_merges s"
  "vs_sessions (put_session k f s) = modify k f (vs_sessions s)"
  by (simp_all add: put_session_def)

lemma put_columns_simps [simp]:
  "vs_world (put_columns i g s) = vs_world s" "vs_sessions (put_columns i g s) = vs_sessions s"
  "vs_columns (put_columns i g s) = (vs_columns s)(i := g (vs_columns s i))" "vs_rules (put_columns i g s) = vs_rules s"
  "vs_merges (put_columns i g s) = vs_merges s"
  by (simp_all add: put_columns_def)

text \<open>Redis and sessions apart, nothing changes.\<close>

definition same_rows :: "vcs_state \<Rightarrow> vcs_state \<Rightarrow> bool" where
  "same_rows s s' \<longleftrightarrow> runs (vs_world s') = runs (vs_world s) \<and> next_id (vs_world s) \<le> next_id (vs_world s')"

lemma same_rows_refl [simp]: "same_rows s s"
  by (simp add: same_rows_def)

lemma same_rows_trans: "same_rows s t \<Longrightarrow> same_rows t u \<Longrightarrow> same_rows s u"
  by (simp add: same_rows_def)

lemma same_rows_bind:
  "same_rows s (res_state m) \<Longrightarrow> (\<And>a t. m = Ret a t \<Longrightarrow> same_rows t (res_state (k a t))) \<Longrightarrow> same_rows s (res_state (bind_res m k))"
  by (cases m) (auto intro: same_rows_trans)

lemma on_world_state: "res_state (on_world h s) = set_world (res_state (h (vs_world s))) s"
  by (cases "h (vs_world s)") (simp_all add: on_world_def)

lemma redis_do_frame: "res_state (redis_do f w) = w\<lparr>store := store (res_state (redis_do f w))\<rparr>"
  by (cases "f (store w)") (simp_all add: redis_do_def)

lemma enqueue_rows [simp]:
  "runs (res_state (enqueue a b c w)) = runs w" "next_id (res_state (enqueue a b c w)) = next_id w"
  "workspaces (res_state (enqueue a b c w)) = workspaces w" "vcs_connections (res_state (enqueue a b c w)) = vcs_connections w"
  unfolding enqueue_def by (subst redis_do_frame, simp)+

lemma same_rows_enqueue [simp]: "same_rows s (res_state (on_world (enqueue a b c) s))"
  by (simp add: same_rows_def on_world_state)

lemma same_rows_refresh [simp]: "same_rows s (res_state (refresh_status_comment e k s))"
  by (simp add: refresh_status_comment_def)

lemma same_rows_upsert [simp]: "same_rows s (res_state (upsert_pr_session c repo pr sha s))"
  by (auto simp: upsert_pr_session_def find_session_def add_session_def Let_def same_rows_def split: sum.split option.split)

section \<open>A pull request\<close>

abbreviation of_pr :: "nat \<Rightarrow> int \<Rightarrow> run \<Rightarrow> bool" where
  "of_pr i pr r \<equiv> workspace_id r = i \<and> rc_pr (config r) = Some pr"

lemma pr_runs_empty: "bounded w \<Longrightarrow> pr_runs i pr p w = [] \<longleftrightarrow> \<not> (\<exists>j r. runs w j = Some r \<and> of_pr i pr r \<and> p r)"
  unfolding pr_runs_def by (subst set_empty [symmetric]) (auto simp: set_eq_iff select_runs_iff)

text \<open>
  C25: one poll of a pull request. If its head commit ever had a run on the workspace, nothing happens, whatever became of that
  run and whatever runs of other commits are still alive. Otherwise every active run of the pull request on the
  workspace is canceled (an apply in progress is asked to stop), no other run changes, and at most one run is
  created, queued for exactly this commit, and plan-only unless the workspace applies before merging.
\<close>

theorem pull_request_polled:
  assumes "bounded (vs_world s)" and "workspaces (vs_world s) i = Some ws"
    and "w = vs_world s" and "w' = vs_world (res_state (poll_pr e vn i repo paths pq s))"
  shows "if \<exists>j r. runs w j = Some r \<and> of_pr i (pq_number pq) r \<and> rc_vcs_sha (config r) = pq_head_sha pq
    then poll_pr e vn i repo paths pq s = Ret () s
    else (\<forall>j r. runs w j = Some r \<longrightarrow>
        runs w' j = Some (if of_pr i (pq_number pq) r \<and> active r then force_canceled r else r))
      \<and> (\<forall>j r. runs w j = None \<longrightarrow> runs w' j = Some r \<longrightarrow> vcs_run_row i (pq_head_sha pq) (pq_head_ref pq)
          (Some (pq_number pq)) (ws_vcs_workflow (settings ws) \<noteq> ''apply_then_merge'') r
          \<and> (\<forall>k. runs w k = None \<longrightarrow> runs w' k \<noteq> None \<longrightarrow> k = j))"
proof -
  let ?pr = "pq_number pq" and ?sha = "pq_head_sha pq" and ?m = "poll_pr e vn i repo paths pq s"
  let ?had = "\<exists>j r. runs w j = Some r \<and> of_pr i ?pr r \<and> rc_vcs_sha (config r) = ?sha"
  show ?thesis
  proof (cases ?had)
    case True
    then have "pr_runs i ?pr (\<lambda>r. rc_vcs_sha (config r) = ?sha) (vs_world s) \<noteq> []"
      using pr_runs_empty [OF assms(1), of i ?pr "\<lambda>r. rc_vcs_sha (config r) = ?sha"] unfolding assms(3) by auto
    with True show ?thesis by (simp add: poll_pr_def Let_def)
  next
    case False
    then have none: "pr_runs i ?pr (\<lambda>r. rc_vcs_sha (config r) = ?sha) (vs_world s) = []"
      using pr_runs_empty [OF assms(1), of i ?pr "\<lambda>r. rc_vcs_sha (config r) = ?sha"] unfolding assms(3) by auto
    let ?w1 = "cancel_all e (pr_runs i ?pr (\<lambda>r. status r \<notin> set terminal_states) (vs_world s)) (vs_world s)"
    let ?s1 = "set_world ?w1 s"
    have canceled: "runs ?w1 = (\<lambda>j. map_option (\<lambda>r. if of_pr i ?pr r \<and> active r then force_canceled r else r) (runs w j))"
      "lock_only {i} w ?w1"
      using cancel_found [OF assms(1), of "\<lambda>_ r. (workspace_id r = i \<and> rc_pr (config r) = Some ?pr) \<and> status r \<notin> set terminal_states" "{i}" e]
      by (auto simp: pr_runs_def active_def assms(3))
    have b1: "bounded ?w1" using assms(1) canceled by (auto simp: bounded_def lock_only_def assms(3))
    have "rel_option same_but_lock (workspaces w i) (workspaces ?w1 i)" using canceled(2) by (simp add: lock_only_def)
    then obtain ws1 where ws1: "workspaces ?w1 i = Some ws1" "settings ws1 = settings ws"
      using assms(2,3) by (auto simp: option_rel_Some1 dest: same_but_lock_settings)
    let ?applied = "ws_vcs_workflow (settings ws) = ''apply_then_merge''"
    have applied: "applies_then_merges i ?s1 = ?applied" using ws1 by (simp add: applies_then_merges_def)
    let ?k = "\<lambda>created s2. if created = None \<or> \<not> ?applied then Ret () s2
          else bind_res (upsert_pr_session (fst repo) (repo_name repo) ?pr ?sha s2) (refresh_status_comment e)"
    let ?c = "create_vcs_run e vn i repo ?sha (pq_head_ref pq) (\<not> ?applied) (Some ?pr) (pr_message ?applied pq) paths"
    let ?skip = "effective_prefixes (vs_columns s i) \<noteq> [] \<and> dc_last_sha (vs_columns s i) \<noteq> []
      \<and> elsewhere (effective_prefixes (vs_columns s i)) (vn_changed_files vn repo (dc_last_sha (vs_columns s i)) ?sha)"
    have eq: "?m = (if ?skip then Ret () ?s1 else bind_res (on_world ?c ?s1) ?k)"
      using none by (simp add: poll_pr_def Let_def applied)
    consider (skip) "?m = Ret () ?s1" | (create) "?m = bind_res (on_world ?c ?s1) ?k"
      using eq by presburger
    then have "runs w' = runs ?w1 \<or> (\<exists>j r. runs ?w1 j = None
        \<and> vcs_run_row i ?sha (pq_head_ref pq) (Some ?pr) (\<not> ?applied) r \<and> runs w' = (runs ?w1)(j \<mapsto> r))"
    proof cases
      case skip
      then show ?thesis by (simp add: assms(4))
    next
      case create
      have after: "same_rows s2 (res_state (?k created s2))" for created s2
        by (auto intro: same_rows_bind)
      have w': "runs w' = runs (res_state (?c ?w1))"
      proof (cases "?c ?w1")
        case (Ret a w2)
        then have "?m = ?k a (set_world w2 ?s1)" using create by (simp add: on_world_def)
        then show ?thesis using after [of "set_world w2 ?s1" a] Ret by (simp add: assms(4) same_rows_def del: bind_res.simps)
      qed (use create in \<open>simp add: on_world_def assms(4)\<close>)
      show ?thesis unfolding w' by (rule create_pr_run_rows [OF b1 ws1(1)])
    qed
    then show ?thesis using False by (auto simp: canceled(1) split: if_splits)
  qed
qed

section \<open>Closed pull requests\<close>

text \<open>
  C27: closing a session cancels every active run that has the number of its pull request, on whatever workspace and of
  whatever repository it is; the session is closed and no other run changes.
\<close>

theorem closed_request_cancels_everywhere:
  assumes "bounded (vs_world s)" and "vs_sessions s k = Some se" and "se_pr se \<notin> open_prs"
  shows "runs (vs_world (close_session e open_prs k s))
      = (\<lambda>j. map_option (\<lambda>r. if rc_pr (config r) = Some (se_pr se) \<and> active r then force_canceled r else r) (runs (vs_world s) j))
    \<and> vs_sessions (close_session e open_prs k s) = (vs_sessions s)(k \<mapsto> se\<lparr>se_state := ''closed''\<rparr>)"
proof -
  have "runs (cancel_all e (active_pr_runs (se_pr se) (vs_world s)) (vs_world s))
      = (\<lambda>j. map_option (\<lambda>r. if rc_pr (config r) = Some (se_pr se) \<and> active r then force_canceled r else r) (runs (vs_world s) j))"
    using cancel_found(1) [OF assms(1), of "\<lambda>_ r. rc_pr (config r) = Some (se_pr se) \<and> status r \<notin> set terminal_states" UNIV e]
    by (auto simp: active_pr_runs_def active_def)
  with assms(2,3) show ?thesis by (simp add: close_session_def modify_def)
qed

section \<open>A commit whose archive cannot be fetched\<close>


section \<open>Examples\<close>

text \<open>Two workspaces of two repositories, each with a run of its pull request 7, and the session of the first one.\<close>

definition repo_workspace :: "string \<Rightarrow> string \<Rightarrow> string \<Rightarrow> workspace" where
  "repo_workspace name url workflow = plain_workspace\<lparr>settings := (settings plain_workspace)\<lparr>ws_name := name,
     ws_vcs_connection := Some 0, ws_vcs_repo_url := url, ws_vcs_workflow := workflow\<rparr>\<rparr>"

definition pr_run :: "nat \<Rightarrow> string \<Rightarrow> run_status \<Rightarrow> run" where
  "pr_run i sha st = (stamp_commit sha ''topic'' (Some 7)
     (new_run example_env i (settings plain_workspace) (vcs_request [] False 0) 0))\<lparr>status := st\<rparr>"

definition two_repos :: vcs_state where
  "two_repos =
     \<lparr>vs_disc = \<lparr>ds_world = empty_world\<lparr>
        workspaces := [0 \<mapsto> repo_workspace ''app'' ''https://github.com/acme/app'' ''apply_then_merge'',
          1 \<mapsto> repo_workspace ''infra'' ''https://github.com/acme/infra'' ''apply_then_merge''],
        runs := [2 \<mapsto> pr_run 0 ''aaa'' Planned, 3 \<mapsto> pr_run 1 ''bbb'' Applying],
        vcs_connections := [0 \<mapsto> \<lparr>vc_provider = ''github'', vc_status = ''active''\<rparr>], next_id := 5\<rparr>,
        ds_columns = (\<lambda>_. \<lparr>dc_directory = [], dc_prefixes = [], dc_rule = None, dc_pr = None, dc_branch = ''main'',
          dc_last_sha = ''base'', dc_var_files = []\<rparr>), ds_audit = [], ds_comments = []\<rparr>,
      vs_rules = (\<lambda>_. None), vs_scanned = (\<lambda>_. None),
      vs_sessions = [4 \<mapsto> \<lparr>se_connection = 0, se_repo = ''acme/app'', se_pr = 7, se_head = ''aaa'', se_state = ''open'',
        se_cursor = None\<rparr>],
      vs_polls = (\<lambda>_. \<lparr>pc_error = None, pc_error_at = None, pc_polled_at = None\<rparr>), vs_merging = (\<lambda>_. (False, ''merge'')),
      vs_actors = (\<lambda>_. ([], [])), vs_audit = [], vs_merges = []\<rparr>"

definition no_archives :: vcs_env where
  "no_archives =
     \<lparr>vn_default_branch = (\<lambda>_. Inr None), vn_branch_sha = (\<lambda>_ _. Inr (Some ''next'')), vn_open_prs = (\<lambda>_ _. Inr []),
      vn_changed_files = (\<lambda>_ _ _. Inr None), vn_file_changes = (\<lambda>_ _ _. Inr None), vn_disc = (\<lambda>_. emptied),
      vn_fetch = (\<lambda>_ _ _. False), vn_store = (\<lambda>_ _. False), vn_comments = (\<lambda>_ _ _. Inr []),
      vn_merge = (\<lambda>_ _ _ _. Inr \<lparr>mg_merged = True, mg_reason = []\<rparr>)\<rparr>"

lemma two_repos_bounded: "bounded (vs_world two_repos)"
  by (auto simp: bounded_def two_repos_def empty_world_def)

lemma pr_run_simps [simp]:
  "status (pr_run i sha st) = st" "workspace_id (pr_run i sha st) = i" "rc_pr (config (pr_run i sha st)) = Some 7"
  "rc_vcs_sha (config (pr_run i sha st)) = sha"
  by (simp_all add: pr_run_def stamp_commit_def new_run_def)

lemma two_repos_simps [simp]:
  "runs (vs_world two_repos) = [2 \<mapsto> pr_run 0 ''aaa'' Planned, 3 \<mapsto> pr_run 1 ''bbb'' Applying]"
  "workspaces (vs_world two_repos) 0 = Some (repo_workspace ''app'' ''https://github.com/acme/app'' ''apply_then_merge'')"
  "dc_last_sha (vs_columns two_repos i) = ''base''" "dc_rule (vs_columns two_repos i) = None"
  by (simp_all add: two_repos_def)

definition pushed :: pull_request where
  "pushed = \<lparr>pq_number = 7, pq_head_sha = ''ccc'', pq_head_ref = ''topic'', pq_title = []\<rparr>"

theorem pull_request_polled_witness:
  "runs (vs_world (res_state (poll_pr example_env no_archives 0 (0, ''acme'', ''app'') None pushed two_repos))) 2
     = Some (set_status Canceled (pr_run 0 ''aaa'' Planned))
   \<and> runs (vs_world (res_state (poll_pr example_env no_archives 0 (0, ''acme'', ''app'') None pushed two_repos))) 3
     = Some (pr_run 1 ''bbb'' Applying)"
proof -
  have fresh: "\<not> (\<exists>j r. runs (vs_world two_repos) j = Some r \<and> of_pr 0 (pq_number pushed) r
      \<and> rc_vcs_sha (config r) = pq_head_sha pushed)"
    by (auto simp: pushed_def split: if_splits)
  note polled = pull_request_polled [OF two_repos_bounded two_repos_simps(2) refl refl, where e = example_env
    and vn = no_archives and repo = "(0, ''acme'', ''app'')" and paths = None and pq = pushed]
  have rows: "runs (vs_world (res_state (poll_pr example_env no_archives 0 (0, ''acme'', ''app'') None pushed two_repos))) j
      = Some (if of_pr 0 (pq_number pushed) r \<and> active r then force_canceled r else r)"
    if "runs (vs_world two_repos) j = Some r" for j r
    using polled that unfolding if_not_P [OF fresh] by blast
  show ?thesis
    using rows [of 2 "pr_run 0 ''aaa'' Planned"] rows [of 3 "pr_run 1 ''bbb'' Applying"]
    by (simp add: active_def terminal_states_def force_canceled_def pushed_def)
qed

theorem closed_request_cancels_everywhere_witness:
  "runs (vs_world (close_session example_env {} 4 two_repos)) 3 = Some (set_status Canceling (pr_run 1 ''bbb'' Applying))"
proof -
  have "vs_sessions two_repos 4 = Some \<lparr>se_connection = 0, se_repo = ''acme/app'', se_pr = 7, se_head = ''aaa'',
      se_state = ''open'', se_cursor = None\<rparr>" by (simp add: two_repos_def)
  from closed_request_cancels_everywhere [OF two_repos_bounded this, of "{}" example_env] show ?thesis
    by (simp add: active_def terminal_states_def force_canceled_def)
qed


end
