(* ===== verification/VcsComments.thy ===== *)
theory VcsComments
  imports VcsSafety RunContracts
begin

text \<open>
  What a comment may do: \<open>acted\<close> relates the rows before and after commands of one verb; every step of the dispatcher keeps
  it, and it composes.
\<close>

section \<open>Rows a command may change\<close>

text \<open>Like \<open>merge_allowed\<close>: the provider says yes, or there is no provider to ask.\<close>

definition command_row :: "env \<Rightarrow> string \<Rightarrow> world \<Rightarrow> run \<Rightarrow> run \<Rightarrow> bool" where
  "command_row e verb w r r' \<longleftrightarrow> config r' = config r
     \<and> (verb = ''apply'' \<and> status r = Planned \<and> status r' \<in> {Planned, Confirmed, Discarded}
          \<and> (status r' = Confirmed \<longrightarrow> merge_allowed e r w)
        \<or> verb = ''plan'' \<and> active r \<and> status r' \<in> {Canceling, Canceled})"

definition acted :: "env \<Rightarrow> string \<Rightarrow> int \<Rightarrow> nat set \<Rightarrow> world \<Rightarrow> world \<Rightarrow> bool" where
  "acted e verb pr owned w w' \<longleftrightarrow> lock_only owned w w'
     \<and> (\<forall>j. rel_option (\<lambda>r r'. r' = r \<or> workspace_id r \<in> owned \<and> rc_pr (config r) = Some pr \<and> command_row e verb w r r')
          (runs w j) (runs w' j))"

lemma acted_refl [simp]: "acted e verb pr owned w w"
  by (auto simp: acted_def intro: option.rel_refl)

lemma lock_only_settings:
  assumes "lock_only owned w w'"
  shows "map_option settings (workspaces w' i) = map_option settings (workspaces w i)" and "vcs_connections w' = vcs_connections w"
proof -
  have "rel_option same_but_lock (workspaces w i) (workspaces w' i) \<or> workspaces w' i = workspaces w i"
    using assms unfolding lock_only_def by metis
  then show "map_option settings (workspaces w' i) = map_option settings (workspaces w i)"
    by (auto elim!: option.rel_cases dest: same_but_lock_settings)
  show "vcs_connections w' = vcs_connections w" using assms by (simp add: lock_only_def)
qed

lemma merge_allowed_settings: "merge_allowed e r w \<longleftrightarrow>
    (\<forall>pr cfg c conn. pr_number r = Some pr \<longrightarrow> map_option settings (workspaces w (workspace_id r)) = Some cfg
        \<longrightarrow> ws_vcs_workflow cfg = ''apply_then_merge''
        \<longrightarrow> ws_vcs_connection cfg = Some c \<longrightarrow> ws_vcs_repo_url cfg \<noteq> []
        \<longrightarrow> vcs_connections w c = Some conn \<longrightarrow> vc_provider conn \<in> {''github'', ''gitlab''}
        \<longrightarrow> repo_parses e (vc_provider conn) (ws_vcs_repo_url cfg)
        \<longrightarrow> (\<exists>reason st. mergeability e (vc_provider conn) (ws_vcs_repo_url cfg) pr
              = Merge_Status False True reason st))"
  unfolding merge_allowed_def by (auto simp: map_option_case split: option.splits)

lemma merge_allowed_same:
  "lock_only owned w w' \<Longrightarrow> config r' = config r \<Longrightarrow> merge_allowed e r' w' \<longleftrightarrow> merge_allowed e r w"
  unfolding merge_allowed_settings by (simp add: lock_only_settings)

lemma command_row_trans:
  "lock_only owned u v \<Longrightarrow> command_row e verb u a b \<Longrightarrow> command_row e verb v b c \<Longrightarrow> command_row e verb u a c"
  by (auto simp: command_row_def merge_allowed_same)

lemma command_row_same: "lock_only owned u v \<Longrightarrow> command_row e verb v b c \<Longrightarrow> command_row e verb u b c"
  by (auto simp: command_row_def merge_allowed_same)

lemma acted_trans:
  assumes "acted e verb pr owned u v" and "acted e verb pr owned v w"
  shows "acted e verb pr owned u w"
proof -
  let ?R = "\<lambda>w r r'. r' = r \<or> workspace_id r \<in> owned \<and> rc_pr (config r) = Some pr \<and> command_row e verb w r r'"
  have uv: "lock_only owned u v" "\<And>j. rel_option (?R u) (runs u j) (runs v j)"
    and vw: "lock_only owned v w" "\<And>j. rel_option (?R v) (runs v j) (runs w j)"
    using assms by (auto simp: acted_def)
  have "rel_option (?R u) (runs u j) (runs w j)" for j
    using uv(2) [of j] vw(2) [of j] by (cases "runs u j"; cases "runs v j"; cases "runs w j")
      (auto dest: command_row_trans [OF uv(1)] command_row_same [OF uv(1)])
  with lock_only_trans [OF uv(1) vw(1)] show ?thesis by (auto simp: acted_def)
qed

lemma acted_mono:
  assumes "acted e verb pr A u v" and "A \<subseteq> B"
  shows "acted e verb pr B u v"
proof -
  have "rel_option (\<lambda>r r'. r' = r \<or> workspace_id r \<in> B \<and> rc_pr (config r) = Some pr \<and> command_row e verb u r r')
      (runs u j) (runs v j)" for j
    using assms(1) [unfolded acted_def, THEN conjunct2, rule_format, of j] assms(2)
    by (cases "runs u j"; cases "runs v j") auto
  moreover have "lock_only B u v" using assms lock_only_mono by (auto simp: acted_def)
  ultimately show ?thesis by (simp add: acted_def)
qed

lemma acted_bounded:
  assumes "acted e verb pr owned u v" and "bounded u"
  shows "bounded v"
proof -
  have "next_id v = next_id u" using assms(1) by (simp add: acted_def lock_only_def)
  moreover have "runs u j \<noteq> None" if "runs v j \<noteq> None" for j
    using assms(1) [unfolded acted_def, THEN conjunct2, rule_format, of j] that by (cases "runs u j"; cases "runs v j") auto
  ultimately show ?thesis using assms(2) by (simp add: bounded_def)
qed

section \<open>Commands\<close>

lemma check_mergeability_state:
  "(\<And>x. P (put_run i (\<lambda>r. r\<lparr>vcs_apply_blocked_reason := x\<rparr>) w)) \<Longrightarrow> P w \<Longrightarrow> P (res_state (check_mergeability_or_block e i r w))"
  by (auto simp: check_mergeability_or_block_def block_apply_def Let_def split: option.split merge_status.split)

lemma confirm_run_row:
  assumes "runs w j = Some r" and "status r = Planned"
  shows "\<exists>r'. runs (res_state (confirm_run e j w)) = (runs w)(j \<mapsto> r') \<and> command_row e ''apply'' w r r'
    \<and> lock_only {workspace_id r} w (res_state (confirm_run e j w))"
proof -
  let ?ws = "workspaces w (workspace_id r)"
  have self: "runs w = (runs w)(j \<mapsto> r)" "command_row e ''apply'' w r r"
    using assms by (auto simp: command_row_def)
  consider (locked) "?ws \<noteq> None \<and> locked (the ?ws)"
    | (stale) reason where "\<not> (?ws \<noteq> None \<and> locked (the ?ws))" "staleness_reason w r ?ws = Some reason"
    | (checked) "\<not> (?ws \<noteq> None \<and> locked (the ?ws))" "staleness_reason w r ?ws = None" by force
  then show ?thesis
  proof cases
    case locked
    then have "res_state (confirm_run e j w) = w" using assms by (simp add: confirm_run_def)
    with self show ?thesis by (intro exI [of _ r]) simp
  next
    case stale
    obtain w' where d: "discard_run e j (Some reason) w = Ret () w'"
      and db: "db w' = put_run j (\<lambda>r. set_status Discarded (record_reason (Some reason) r)) (release_lock (workspace_id r) (db w))"
      using discard_run_db [OF assms, of e "Some reason"] by (auto dest!: db_res_eq_RetD)
    have res: "res_state (confirm_run e j w) = w'" using stale assms d by (auto simp: confirm_run_def)
    have "runs w' = (runs w)(j \<mapsto> set_status Discarded (record_reason (Some reason) r))"
      using db [THEN arg_cong, of runs] assms by (auto simp: put_run_def modify_def)
    moreover have "lock_only {workspace_id r} w (db w')" unfolding db
      by (auto simp: lock_only_def release_lock_def put_ws_def put_run_def modify_apply option.rel_refl rel_option_same_but_lock_map)
    ultimately show ?thesis using assms(2) unfolding res by (intro exI [of _ "set_status Discarded (record_reason (Some reason) r)"])
        (simp add: command_row_def)
  next
    case checked
    let ?m = "check_mergeability_or_block e j r w"
    have eq: "confirm_run e j w = bind_res ?m (\<lambda>_. transition_run e j Confirmed (Message []))"
      using checked assms by (auto simp: confirm_run_def)
    have "\<exists>r1. runs (res_state ?m) = (runs w)(j \<mapsto> r1) \<and> config r1 = config r \<and> status r1 = Planned
        \<and> lock_only {workspace_id r} w (res_state ?m)"
    proof (rule check_mergeability_state)
      fix x
      show "\<exists>r1. runs (put_run j (\<lambda>r. r\<lparr>vcs_apply_blocked_reason := x\<rparr>) w) = (runs w)(j \<mapsto> r1) \<and> config r1 = config r
          \<and> status r1 = Planned \<and> lock_only {workspace_id r} w (put_run j (\<lambda>r. r\<lparr>vcs_apply_blocked_reason := x\<rparr>) w)"
        using assms by (intro exI [of _ "r\<lparr>vcs_apply_blocked_reason := x\<rparr>"])
          (auto simp: put_run_def modify_def lock_only_def option.rel_refl)
    qed (use self(1) assms(2) in \<open>intro exI [of _ r], simp\<close>)
    then obtain r1 where r1: "runs (res_state ?m) = (runs w)(j \<mapsto> r1)" "config r1 = config r" "status r1 = Planned"
      and lo: "lock_only {workspace_id r} w (res_state ?m)" by blast
    show ?thesis
    proof (cases ?m)
      case (Raise err v)
      then show ?thesis using r1 lo assms(2) by (intro exI [of _ r1]) (simp add: eq command_row_def)
    next
      case (Ret a v)
      then have allowed: "merge_allowed e r w" using check_mergeability_Ret(1) by simp
      have row: "runs v j = Some r1" using r1(1) Ret by simp
      obtain u where tr: "transition_run e j Confirmed (Message []) v = Ret () u"
        and u: "db u = put_run j (set_status Confirmed) (db v)"
        using transition_leaf_cases [OF row, of Confirmed e "Message []"] r1(3)
        by (auto simp: transition_leaf_eq enter_status_plain)
      have "runs u = (runs w)(j \<mapsto> set_status Confirmed r1)"
        using u [THEN arg_cong, of runs] r1(1) Ret by (auto simp: put_run_def modify_def)
      moreover have "lock_only {workspace_id r} v (db u)"
        unfolding u by (auto simp: lock_only_def put_run_def option.rel_refl)
      then have "lock_only {workspace_id r} w u" using lo Ret by (auto intro: lock_only_trans)
      ultimately show ?thesis using Ret tr r1(2) assms(2) allowed
        by (intro exI [of _ "set_status Confirmed r1"]) (simp add: eq command_row_def)
    qed
  qed
qed

text \<open>Redis plays no part.\<close>

lemma acted_db: "acted e verb pr owned w v \<Longrightarrow> db v' = db v \<Longrightarrow> acted e verb pr owned w v'"
proof -
  have "acted e verb pr owned w (db v) \<longleftrightarrow> acted e verb pr owned w v" for v by (simp add: acted_def)
  then show "acted e verb pr owned w v \<Longrightarrow> db v' = db v \<Longrightarrow> acted e verb pr owned w v'" by metis
qed

lemma db_enqueue: "db (res_state (enqueue a b c w)) = db w"
  unfolding enqueue_def by (subst redis_do_frame) simp

lemma acted_refresh:
  assumes "acted e verb pr owned w (vs_world s)"
  shows "acted e verb pr owned w (vs_world (res_state (refresh_status_comment e k s)))"
  by (rule acted_db [OF assms]) (simp add: refresh_status_comment_def on_world_state db_enqueue)

lemma tried_world [simp]: "vs_world (tried h s) = res_state (h (vs_world s))"
  by (simp add: tried_def)

lemma set_actor_world [simp]: "vs_disc (set_actor login user j s) = vs_disc s" "vs_merges (set_actor login user j s) = vs_merges s"
  by (simp_all add: set_actor_def)

lemma log_world [simp]: "vs_disc (log_vcs_action v i l u se d s) = vs_disc s" "vs_merges (log_vcs_action v i l u se d s) = vs_merges s"
  by (simp_all add: log_vcs_action_def)

lemma apply_one_acted:
  assumes "bounded (vs_world s)"
  shows "acted e ''apply'' pr {i} (vs_world s) (vs_world (apply_one e pr login user i s))"
proof (cases "latest_pr_run i pr (\<lambda>r. status r = Planned) (vs_world s)")
  case (Some j)
  then have "j \<in> set (pr_runs i pr (\<lambda>r. status r = Planned) (vs_world s))"
    unfolding latest_pr_run_def by (rule least_by_in)
  then obtain r where r: "runs (vs_world s) j = Some r" "workspace_id r = i" "rc_pr (config r) = Some pr" "status r = Planned"
    by (auto simp: pr_runs_def select_runs_iff [OF assms])
  from confirm_run_row [OF r(1,4), of e] obtain r'
    where r': "runs (res_state (confirm_run e j (vs_world s))) = (runs (vs_world s))(j \<mapsto> r')"
      "command_row e ''apply'' (vs_world s) r r'" "lock_only {i} (vs_world s) (res_state (confirm_run e j (vs_world s)))"
    using r(2) by auto
  then show ?thesis using Some r by (auto simp: apply_one_def acted_def option.rel_refl)
qed (simp add: apply_one_def)

lemma plan_one_world: "vs_world (plan_one e pr login user i s)
    = cancel_all e (pr_runs i pr (\<lambda>r. status r \<notin> set terminal_states) (vs_world s)) (vs_world s)"
proof -
  have "vs_world (fold (\<lambda>j s. tried (cancel_run e j True None) (set_actor login user j s)) js s)
      = cancel_all e js (vs_world s)" for js
    by (induction js arbitrary: s) (simp_all add: cancel_all_def)
  then show ?thesis by (simp add: plan_one_def)
qed

lemma plan_one_acted:
  assumes "bounded (vs_world s)"
  shows "acted e ''plan'' pr {i} (vs_world s) (vs_world (plan_one e pr login user i s))"
proof -
  let ?p = "\<lambda>_ r. (workspace_id r = i \<and> rc_pr (config r) = Some pr) \<and> status r \<notin> set terminal_states"
  have "runs (vs_world (plan_one e pr login user i s))
      = (\<lambda>j. map_option (\<lambda>r. if ?p j r then force_canceled r else r) (runs (vs_world s) j))"
    "lock_only {i} (vs_world s) (vs_world (plan_one e pr login user i s))"
    using cancel_found [OF assms, of ?p "{i}" e] by (auto simp: plan_one_world pr_runs_def active_def)
  then show ?thesis
    by (auto simp: acted_def option.rel_map command_row_def active_def force_canceled_def intro!: option.rel_refl)
qed

lemma unlock_one_acted: "acted e ''unlock'' pr {i} (vs_world s) (vs_world (unlock_one i s))"
proof -
  have "vs_world (unlock_one i s) = release_lock i (vs_world s)"
    by (simp add: unlock_one_def release_lock_def unlock_def [abs_def])
  moreover have "lock_only {i} w (release_lock i w)" for w
    by (auto simp: lock_only_def release_lock_def put_ws_def modify_apply rel_option_same_but_lock_map)
  ultimately show ?thesis by (auto simp: acted_def intro: option.rel_refl)
qed

lemma fold_acted:
  assumes "\<And>i s. i \<in> set is \<Longrightarrow> bounded (vs_world s) \<Longrightarrow> acted e verb pr {i} (vs_world s) (vs_world (f i s))"
    and "bounded (vs_world s)" and "set is \<subseteq> owned"
  shows "acted e verb pr owned (vs_world s) (vs_world (fold f is s))"
  using assms
proof (induction "is" arbitrary: s)
  case (Cons i "is")
  have first: "acted e verb pr owned (vs_world s) (vs_world (f i s))"
    using Cons.prems acted_mono [of e verb pr "{i}"] by simp
  then have "acted e verb pr owned (vs_world (f i s)) (vs_world (fold f is (f i s)))"
    using Cons.prems acted_bounded [OF first] by (intro Cons.IH) auto
  with first show ?case by (auto intro: acted_trans)
qed simp

lemma route_command_acted:
  assumes "bounded (vs_world s)" and "set is \<subseteq> owned"
  shows "acted e verb pr owned (vs_world s) (vs_world (route_command e verb pr is login user s))"
  using fold_acted [OF apply_one_acted assms] fold_acted [OF plan_one_acted assms]
    fold_acted [OF unlock_one_acted assms] by (simp add: route_command_def)

section \<open>Merges\<close>

lemma route_command_merges [simp]: "vs_merges (route_command e verb pr is login user s) = vs_merges s"
proof -
  have "vs_merges (fold f is s) = vs_merges s" if "\<And>i s. vs_merges (f i s) = vs_merges s"
    for f :: "nat \<Rightarrow> vcs_state \<Rightarrow> vcs_state" and "is" s
    using that by (induction "is" arbitrary: s) simp_all
  then show ?thesis
    by (auto simp: route_command_def apply_one_def plan_one_def unlock_one_def tried_def split: option.split)
qed

lemma fold_log [simp]:
  "vs_disc (fold (\<lambda>i. log_vcs_action v (Some i) l u se d) is s) = vs_disc s"
  "vs_merges (fold (\<lambda>i. log_vcs_action v (Some i) l u se d) is s) = vs_merges s"
  by (induction "is" arbitrary: s) simp_all

lemma refresh_merges [simp]: "vs_merges (res_state (refresh_status_comment e k s)) = vs_merges s"
  by (simp add: refresh_status_comment_def on_world_state)

lemma request_merge_state:
  "vs_disc (res_state (request_merge vn k se strategy s)) = vs_disc s"
  "vs_merges (res_state (request_merge vn k se strategy s)) = vs_merges s @ [(se_connection se, se_repo se, se_pr se, strategy)]"
  by (auto simp: request_merge_def Let_def ask_def split: sum.split)

lemma force_merge_world [simp]: "vs_disc (res_state (force_merge vn conn k se strategy login user s)) = vs_disc s"
proof -
  have "vs_disc (res_state (bind_res (request_merge vn k se strategy s1) (\<lambda>_. Ret ()))) = vs_disc s1" for s1
    using request_merge_state(1) [of vn k se strategy s1] by (cases "request_merge vn k se strategy s1") simp_all
  then show ?thesis by (simp add: force_merge_def Let_def)
qed

section \<open>Comments\<close>

lemma route_acted:
  assumes "bounded (vs_world s)" and "set is \<subseteq> owned"
  shows "acted e (cm_verb cmd) (se_pr se) owned (vs_world s) (vs_world (res_state (route e vn cmd conn k se is login user s)))"
    and "cm_verb cmd \<noteq> ''merge'' \<Longrightarrow> vs_merges (res_state (route e vn cmd conn k se is login user s)) = vs_merges s"
proof -
  have merge: "acted e v pr owned (vs_world s) (vs_world (res_state (bind_res (force_merge vn conn k se ''merge'' login user s)
      (\<lambda>_. refresh_status_comment e k))))" for v pr
    using force_merge_world [of vn conn k se "''merge''" login user s]
    by (cases "force_merge vn conn k se ''merge'' login user s") (auto intro: acted_refresh)
  show "acted e (cm_verb cmd) (se_pr se) owned (vs_world s) (vs_world (res_state (route e vn cmd conn k se is login user s)))"
    using merge route_command_acted [OF assms] by (auto simp: route_def intro: acted_refresh)
  show "cm_verb cmd \<noteq> ''merge'' \<Longrightarrow> vs_merges (res_state (route e vn cmd conn k se is login user s)) = vs_merges s"
    by (simp add: route_def)
qed

definition candidate :: "nat \<Rightarrow> string \<Rightarrow> string option \<Rightarrow> workspace \<Rightarrow> bool" where
  "candidate c repo name ws \<longleftrightarrow> ws_vcs_connection (settings ws) = Some c \<and> ws_vcs_workflow (settings ws) = ''apply_then_merge''
     \<and> ends_with (rstrip_slash (ws_vcs_repo_url (settings ws))) repo \<and> (name \<noteq> None \<longrightarrow> name = Some (ws_name (settings ws)))"

definition candidates_of :: "nat \<Rightarrow> string \<Rightarrow> string option \<Rightarrow> world \<Rightarrow> nat set" where
  "candidates_of c repo name w = {i. \<exists>ws. workspaces w i = Some ws \<and> candidate c repo name ws}"

lemma command_candidates_in: "set (command_candidates c repo name w) \<subseteq> candidates_of c repo name w"
  by (auto simp: command_candidates_def candidates_of_def candidate_def split: option.splits)

lemma find_session_state [simp]: "res_state (find_session c repo pr s) = s"
  by (simp add: find_session_def split: sum.split)

lemma find_session_found:
  assumes "find_session c repo pr s = Ret (Some k) s'"
  shows "s' = s \<and> (\<exists>se. vs_sessions s k = Some se \<and> se_connection se = c \<and> se_repo se = repo \<and> se_pr se = pr)"
proof -
  have "k \<in> set (select_sessions (\<lambda>se. se_connection se = c \<and> se_repo se = repo \<and> se_pr se = pr) s)" "s' = s"
    using assms by (auto simp: find_session_def one_or_none_in split: sum.splits)
  then show ?thesis by (auto simp: select_sessions_def)
qed

definition open_session :: "nat \<Rightarrow> string \<Rightarrow> int \<Rightarrow> vcs_state \<Rightarrow> bool" where
  "open_session c repo pr s \<longleftrightarrow> (\<exists>k se. vs_sessions s k = Some se \<and> se_connection se = c \<and> se_repo se = repo \<and> se_pr se = pr
     \<and> se_state se = ''open'')"


text \<open>\<open>terrapod plan\<close> on pull request 7 of \<open>acme/app\<close>: the run of the other repository's pull request 7 is left alone.\<close>

definition plan_comment :: comment_payload where
  "plan_comment = \<lparr>cp_connection = 0, cp_repo = ''acme/app'', cp_pr = 7, cp_login = ''ann'', cp_user = ''1'',
     cp_body = ''terrapod plan''\<rparr>"


end
