(* ===== verification/Spec2Isabelle.thy ===== *)
theory Spec2Isabelle
  imports ApiContracts KeyLifecycle StateProperties DriftOutcome VariableProperties DestroyRetry RetentionSafety VcsComments
begin

text \<open>
  Terrapod is a platform that runs Terraform and OpenTofu for teams: an API server in Python
  (\<open>src/services/terrapod\<close>), runner jobs, a Go client and a web UI. This development models the core of
  the API server: who may do what, the life of a run from its creation to its end, the gates between
  plan and apply, the distributed scheduler, the state of a workspace and its lock, drift detection,
  variables and their sets, and encryption at rest. Paths below are relative to \<open>src/services/terrapod\<close>.

  \<^bold>\<open>How the program is modelled.\<close> The database is the record \<open>world\<close> (theory \<open>Database\<close>): one finite map per
  table, a counter for ids, the clock and Redis. A handler is a function from a world to a result that
  carries the world it ended in (\<open>res\<close>, theory \<open>Prelude\<close>), so that what an exception leaves behind is
  visible: an endpoint rolls back what its caller would, Redis and object storage keep what reached
  them. Redis and storage answer with any pattern of failures. The text of Python is a \<open>string\<close>, or a
  list of code points where encodings matter; bytes are 8-bit words; columns keep their widths.
  One call of an endpoint, of a background task, or one transaction of it, is one step;
  \<open>FOR UPDATE SKIP LOCKED\<close> appears as the set of rows other transactions hold.

  \<^bold>\<open>Theories.\<close>
  \<^item> \<open>Prelude\<close>, \<open>PyText\<close>, \<open>Bytes\<close>: results, tables, queries, Python's text functions, UTF-8 and base64.
  \<^item> \<open>Capabilities\<close> (\<open>auth/capabilities.py\<close>), \<open>Rbac\<close> (the resolver and the entry points per resource): levels,
    presets and summaries; what a caller may do on a resource.
  \<^item> \<open>Domain\<close>, \<open>Scheduler\<close>, \<open>Database\<close>, \<open>RunEvents\<close>: statuses and their transitions, Redis and the periodic and
    triggered tasks, the rows, and what a status change announces.
  \<^item> \<open>RunService\<close>, \<open>RunGates\<close> (\<open>services/run_service.py\<close>), \<open>RunTasks\<close>, \<open>Policies\<close>, \<open>Reconciler\<close>, \<open>RunApi\<close>: creating,
    queueing, claiming, finishing, confirming, discarding and canceling runs, with their task stages,
    policy gate, job supervision and endpoints.
  \<^item> \<open>Bytes\<close>, \<open>Envelope\<close>, \<open>Encryption\<close> (\<open>crypto/\<close>, \<open>cli/encryption_migrate.py\<close>): envelopes, the key cache, keys
    and their rotation, the migration of columns. The locale \<open>at_rest\<close> is what columns and state files rely
    on.
  \<^item> \<open>StateVersions\<close> (\<open>api/routers/tfe_v2.py\<close>, \<open>state_management.py\<close>, \<open>run_artifacts.py\<close>): state versions over an
    object store that may fail, and the workspace lock.
  \<^item> \<open>DriftRules\<close> (\<open>services/drift_ignore_classifier.py\<close> and the validator in \<open>api/routers/tfe_v2.py\<close>): JSON
    documents, ignore rules and the decision on a plan; \<open>DriftChecks\<close> (\<open>services/drift_detection_service.py\<close>): the
    cycle that starts drift runs and the handler of finished ones.
  \<^item> \<open>Variables\<close> (\<open>services/variable_service.py\<close>, \<open>api/routers/variables.py\<close>): variables, sets, assignments and what
    a run gets of them.

  \<^bold>\<open>What is shown.\<close> \<open>Lifecycle\<close> and \<open>Safety\<close> prove that every endpoint and task moves runs along the transition
  table and keeps at most one applying run in flight per workspace, by an invariant over the step
  relation \<open>run_step\<close>; \<open>Resilience\<close> that outcomes in the database do not depend on Redis; \<open>PlanOutcome\<close>
  that finishing a plan refines a decision table; \<open>RunContracts\<close> and \<open>ApiContracts\<close> what confirming,
  canceling, queueing, retrying and creating do, on every branch. \<open>KeyLifecycle\<close> proves that nothing
  encrypted is lost over any history of starts, rotations and refreshes. \<open>StateContracts\<close> and \<open>StateSafety\<close>
  reduce every state endpoint to an abstract effect on the versions (\<open>version_effect\<close>), and
  \<open>StateProperties\<close> concludes that recorded states stay readable and serials unique, with the runs running
  in between. \<open>DriftVerdict\<close> shows that the classifier decides as documented on every document and what rules
  match; \<open>DriftProperties\<close> and \<open>DriftOutcome\<close> what a cycle starts and what a finished drift run may conclude.
  \<open>VariableProperties\<close> proves over any sequence of calls that secrets are write-only (a noninterference
  property), that the tables stay consistent, and which variable a run gets. Policies, tasks, scheduler, capabilities and resolver have their theorems in their own
  theories.

  \<^bold>\<open>Bounds.\<close> No definition needs fuel: loops run over the rows selected before them. Clock values are
  integers of microseconds; serials and sizes are checked against 32 bits where the database checks them.

  \<^bold>\<open>Assumed.\<close> Digests, the cipher, UUID printing, the VCS providers, the webhook of a run task, and the
  key providers of Vault and AWS are parameters; theorems that need it assume that the cipher decrypts what it
  sealed, that digests have their length, and that the JSON reader rejects an encrypted blob.

  \<^bold>\<open>Not modelled.\<close> Listing and display endpoints, log streaming, message texts, plan summaries and language
  models, HTTP, Slack, Git and cloud storage clients, certificates and sessions, the runner and its Kubernetes jobs,
  registry and caches, configuration and start-up, and the code in Go and TypeScript. They are I/O or
  formatting around libraries that are not in the repository, or wait for a later extension of this
  development: labels, autodiscovery, the catalog, retention.
\<close>

end
